(* ===== verification/Errors.thy ===== *)
theory Errors
  imports Prelude
begin

text \<open>
  The error layer, \<^verbatim>\<open>src/error.rs\<close>: the ADBC error value, its constructors, and the translation of a
  Spanner client error or of the loose parts of a \<^verbatim>\<open>google.rpc.Status\<close> into it.

  An ADBC error is a record of message, status, vendor code and optional details.  Messages are kept
  because one caller branches on their text (the ingest bisect), but a driver-built message is
  represented by the constant text that identifies its site: interpolated values other than row
  counts are left out.  The ProtoJSON serialisation of a status detail (\<^verbatim>\<open>serde_json\<close>) and the
  conversion of an arbitrary \<^verbatim>\<open>i32\<close> into the client's \<^verbatim>\<open>Code\<close> enum are code of other crates, so they
  are parameters (\<open>ser\<close>, \<open>code_of\<close>).
\<close>

section \<open>Statuses, codes and the error record\<close>

datatype status =
    Unknown | NotImplemented | NotFound | AlreadyExists | InvalidArguments | InvalidState
  | InvalidData | Integrity | Internal | IO | Cancelled | Timeout | Unauthenticated | Unauthorized

datatype grpc_code =
    COk | CCancelled | CUnknown | CInvalidArgument | CDeadlineExceeded | CNotFound
  | CAlreadyExists | CPermissionDenied | CResourceExhausted | CFailedPrecondition | CAborted
  | COutOfRange | CUnimplemented | CInternal | CUnavailable | CDataLoss | CUnauthenticated

text \<open>\<^verbatim>\<open>code as i32\<close>: the canonical gRPC numbering.\<close>

fun code_num :: "grpc_code \<Rightarrow> int" where
  "code_num COk = 0"
| "code_num CCancelled = 1"
| "code_num CUnknown = 2"
| "code_num CInvalidArgument = 3"
| "code_num CDeadlineExceeded = 4"
| "code_num CNotFound = 5"
| "code_num CAlreadyExists = 6"
| "code_num CPermissionDenied = 7"
| "code_num CResourceExhausted = 8"
| "code_num CFailedPrecondition = 9"
| "code_num CAborted = 10"
| "code_num COutOfRange = 11"
| "code_num CUnimplemented = 12"
| "code_num CInternal = 13"
| "code_num CUnavailable = 14"
| "code_num CDataLoss = 15"
| "code_num CUnauthenticated = 16"

type_synonym u8 = "8 word"
type_synonym details = "(rstring \<times> u8 list) list"

record error =
  message :: rstring
  status :: status
  vendor_code :: int
  details :: "details option"

type_synonym 'a result = "error + 'a"

section \<open>Constructors\<close>

definition err :: "rstring \<Rightarrow> status \<Rightarrow> error" where
  "err m st = \<lparr>message = m, status = st, vendor_code = 0, details = None\<rparr>"

text \<open>What a panic of the driver's own code is in the model.\<close>

definition panicked :: error where
  "panicked = err (lit ''the driver panicked'') Internal"

definition not_implemented :: "rstring \<Rightarrow> error" where
  "not_implemented what = err (what @ lit '' is not supported by the Spanner ADBC driver'') NotImplemented"

definition unsupported :: "rstring \<Rightarrow> error" where
  "unsupported m = err m NotImplemented"

definition unknown_option :: "rstring \<Rightarrow> rstring \<Rightarrow> error" where
  "unknown_option object_kind key =
     unsupported (lit ''unsupported Spanner '' @ object_kind @ lit '' option: '' @ key)"

definition not_found :: "rstring \<Rightarrow> error" where
  "not_found m = err m NotFound"

definition option_not_set :: "rstring \<Rightarrow> error" where
  "option_not_set key =
     not_found (lit ''option '' @ key @ lit '' is not set or not recognized by this driver'')"

definition annotate :: "error \<Rightarrow> (rstring \<Rightarrow> rstring) \<Rightarrow> error" where
  "annotate e f = e\<lparr>message := f (message e)\<rparr>"

definition invalid_state :: "rstring \<Rightarrow> error" where
  "invalid_state m = err m InvalidState"

definition invalid_argument :: "rstring \<Rightarrow> error" where
  "invalid_argument m = err m InvalidArguments"

section \<open>Translation of Spanner errors\<close>

fun status_for_grpc_code :: "grpc_code \<Rightarrow> status" where
  "status_for_grpc_code CNotFound = NotFound"
| "status_for_grpc_code CAlreadyExists = AlreadyExists"
| "status_for_grpc_code CUnauthenticated = Unauthenticated"
| "status_for_grpc_code CPermissionDenied = Unauthorized"
| "status_for_grpc_code CInvalidArgument = InvalidArguments"
| "status_for_grpc_code COutOfRange = InvalidData"
| "status_for_grpc_code CFailedPrecondition = InvalidState"
| "status_for_grpc_code CDeadlineExceeded = Timeout"
| "status_for_grpc_code CCancelled = Cancelled"
| "status_for_grpc_code CUnavailable = IO"
| "status_for_grpc_code CUnimplemented = NotImplemented"
| "status_for_grpc_code CAborted = IO"
| "status_for_grpc_code CUnknown = Unknown"
| "status_for_grpc_code CDataLoss = IO"
| "status_for_grpc_code _ = Internal"

text \<open>
  What serialising one detail yields: \<open>None\<close> when \<^verbatim>\<open>serde_json::to_value\<close> fails, otherwise the
  \<^verbatim>\<open>"@type"\<close> string of the value (if it has one) and its encoded bytes (if \<^verbatim>\<open>to_vec\<close> succeeds).
\<close>

type_synonym 'd serialiser = "'d \<Rightarrow> (rstring option \<times> u8 list option) option"

definition map_detail :: "'d serialiser \<Rightarrow> 'd \<Rightarrow> (rstring \<times> u8 list) option" where
  "map_detail ser d =
     (case ser d of
        None \<Rightarrow> None
      | Some (type_url, bytes) \<Rightarrow>
          (case type_url of
             None \<Rightarrow> None
           | Some u \<Rightarrow>
               let key = to_ascii_lowercase (last (split_on (ch CHR ''/'') u))
               in map_option (\<lambda>b. (key, b)) bytes))"

definition details_for_adbc :: "'d serialiser \<Rightarrow> 'd list \<Rightarrow> details option" where
  "details_for_adbc ser ds =
     (let mapped = List.map_filter (map_detail ser) ds
      in if mapped = [] then None else Some mapped)"

definition permission_denied_guidance :: rstring where
  "permission_denied_guidance =
     lit ''; grant an IAM role that includes it - see https://cloud.google.com/spanner/docs/iam''"

record 'd grpc_status =
  grpc_code :: grpc_code
  grpc_details :: "'d list"

text \<open>A client error: its gRPC status, if it carries one, and its display text.\<close>

record 'd spanner_error =
  rpc_status :: "'d grpc_status option"
  display :: rstring

definition from_spanner :: "'d serialiser \<Rightarrow> 'd spanner_error \<Rightarrow> error" where
  "from_spanner ser e =
     (let (st, vc, ds, code) =
        (case rpc_status e of
           None \<Rightarrow> (Internal, 0, None, None)
         | Some s \<Rightarrow> (status_for_grpc_code (grpc_code s), code_num (grpc_code s),
                      details_for_adbc ser (grpc_details s), Some (grpc_code s)));
          m = lit ''Spanner error: '' @ display e;
          m' = (if code = Some CPermissionDenied then m @ permission_denied_guidance else m)
      in (err m' st)\<lparr>vendor_code := vc, details := ds\<rparr>)"

definition from_status_parts ::
    "(int \<Rightarrow> grpc_code) \<Rightarrow> ('a \<Rightarrow> 'd) \<Rightarrow> 'd serialiser \<Rightarrow> int \<Rightarrow> rstring \<Rightarrow> 'a list \<Rightarrow> error" where
  "from_status_parts code_of decode ser code m anys =
     (let st = status_for_grpc_code (code_of code);
          full = lit ''Spanner batch-write error: '' @ m;
          full' = (if code_of code = CPermissionDenied then full @ permission_denied_guidance else full)
      in (err full' st)\<lparr>vendor_code := code, details := details_for_adbc ser (map decode anys)\<rparr>)"

definition from_builder :: "rstring \<Rightarrow> error" where
  "from_builder e = err (lit ''Spanner error: '' @ e) Internal"

section \<open>Lemmas\<close>

lemma err_sel [simp]:
  "message (err m st) = m" "status (err m st) = st"
  "vendor_code (err m st) = 0" "details (err m st) = None"
  by (simp_all add: err_def)

lemma status_constructors [simp]:
  "status (not_implemented m) = NotImplemented"
  "status (unsupported m) = NotImplemented"
  "status (unknown_option k key) = NotImplemented"
  "status (not_found m) = NotFound"
  "status (option_not_set key) = NotFound"
  "status (invalid_state m) = InvalidState"
  "status (invalid_argument m) = InvalidArguments"
  by (simp_all add: not_implemented_def unsupported_def unknown_option_def not_found_def
      option_not_set_def invalid_state_def invalid_argument_def)

lemma annotate_sel [simp]:
  "status (annotate e f) = status e" "vendor_code (annotate e f) = vendor_code e"
  "details (annotate e f) = details e" "message (annotate e f) = f (message e)"
  by (simp_all add: annotate_def)

lemma details_for_adbc_ne: "details_for_adbc ser ds \<noteq> Some []"
  by (simp add: details_for_adbc_def Let_def)

lemma code_num_inj: "code_num a = code_num b \<Longrightarrow> a = b"
  by (cases a; cases b) simp_all

lemma from_spanner_sel:
  "rpc_status e = Some s \<Longrightarrow> status (from_spanner ser e) = status_for_grpc_code (grpc_code s)"
  "rpc_status e = Some s \<Longrightarrow> vendor_code (from_spanner ser e) = code_num (grpc_code s)"
  "rpc_status e = Some s \<Longrightarrow> details (from_spanner ser e) = details_for_adbc ser (grpc_details s)"
  "rpc_status e = None \<Longrightarrow> status (from_spanner ser e) = Internal"
  "rpc_status e = None \<Longrightarrow> vendor_code (from_spanner ser e) = 0"
  "rpc_status e = None \<Longrightarrow> details (from_spanner ser e) = None"
  by (simp_all add: from_spanner_def Let_def)

end
