(* ===== verification/SqlText.thy ===== *)
theory SqlText
  imports Errors
begin

text \<open>
  GoogleSQL text handling, \<^verbatim>\<open>src/sql.rs\<close>: the shared lexer, statement splitting and classification,
  \<^verbatim>\<open>THEN RETURN\<close> detection, bind-parameter extraction and identifier quoting.

  The Rust lexer is an iterator over a peekable char stream; the model consumes the list of the
  remaining chars and returns the lexeme with the unread rest, so \<open>lex\<close> is the list the iterator
  yields.  A lexeme that borrows a slice of the input carries that slice.
\<close>

section \<open>The lexer\<close>

definition DDL_KEYWORDS :: "rstring list" where
  "DDL_KEYWORDS =
     map lit [''CREATE'', ''DROP'', ''ALTER'', ''RENAME'', ''GRANT'', ''REVOKE'', ''ANALYZE'']"

definition DML_KEYWORDS :: "rstring list" where
  "DML_KEYWORDS = map lit [''INSERT'', ''UPDATE'', ''DELETE'']"

text \<open>The delimiters by their code points: backslash, the three quotes, newline and semicolon.\<close>

abbreviation c_backslash :: rchar where "c_backslash \<equiv> 92"
abbreviation c_squote :: rchar where "c_squote \<equiv> 39"
abbreviation c_dquote :: rchar where "c_dquote \<equiv> 34"
abbreviation c_backtick :: rchar where "c_backtick \<equiv> 96"
abbreviation c_newline :: rchar where "c_newline \<equiv> 10"
abbreviation c_semi :: rchar where "c_semi \<equiv> 59"

datatype lexeme = Word rstring | Quoted rstring | Comment rstring | Other rchar

fun lexeme_text :: "lexeme \<Rightarrow> rstring" where
  "lexeme_text (Word s) = s"
| "lexeme_text (Quoted s) = s"
| "lexeme_text (Comment s) = s"
| "lexeme_text (Other c) = [c]"

text \<open>The scan loop of \<^verbatim>\<open>consume_quoted\<close>: the chars given to the sink, and the rest of the stream.\<close>

fun quoted_loop :: "rchar \<Rightarrow> bool \<Rightarrow> nat \<Rightarrow> rstring \<Rightarrow> rstring \<times> rstring" where
  "quoted_loop q triple run [] = ([], [])"
| "quoted_loop q triple run (c # cs) =
     (if c = c_backslash then
        (case cs of
           [] \<Rightarrow> ([c], [])
         | e # cs' \<Rightarrow> let (a, r) = quoted_loop q triple 0 cs' in (c # e # a, r))
      else if c = q then
        (if \<not> triple then ([c], cs)
         else if run + 1 = 3 then ([c], cs)
         else let (a, r) = quoted_loop q triple (run + 1) cs in (c # a, r))
      else let (a, r) = quoted_loop q triple 0 cs in (c # a, r))"

definition consume_quoted :: "rchar \<Rightarrow> rstring \<Rightarrow> rstring \<times> rstring" where
  "consume_quoted q cs =
     (case cs of
        c1 # cs1 \<Rightarrow>
          if q \<noteq> c_backtick \<and> c1 = q then
            (case cs1 of
               c2 # cs2 \<Rightarrow>
                 if c2 = q then let (a, r) = quoted_loop q True 0 cs2 in (c1 # c2 # a, r)
                 else ([c1], cs1)
             | [] \<Rightarrow> ([c1], cs1))
          else quoted_loop q False 0 cs
      | [] \<Rightarrow> quoted_loop q False 0 cs)"

fun consume_line_comment :: "rstring \<Rightarrow> rstring \<times> rstring" where
  "consume_line_comment [] = ([], [])"
| "consume_line_comment (c # cs) =
     (if c = c_newline then ([c], cs)
      else let (a, r) = consume_line_comment cs in (c # a, r))"

text \<open>The block-comment loop, entered after the opening \<^verbatim>\<open>/*\<close> with \<open>prev\<close> = \<^verbatim>\<open>'\0'\<close>.\<close>

fun block_comment_loop :: "rchar \<Rightarrow> rstring \<Rightarrow> rstring \<times> rstring" where
  "block_comment_loop prev [] = ([], [])"
| "block_comment_loop prev (c # cs) =
     (if prev = ch CHR ''*'' \<and> c = ch CHR ''/'' then ([c], cs)
      else let (a, r) = block_comment_loop c cs in (c # a, r))"

definition is_ident_char :: "rchar \<Rightarrow> bool" where
  "is_ident_char c \<longleftrightarrow> c = ch CHR ''_'' \<or> is_ascii_alphanumeric c"

definition peek :: "'a list \<Rightarrow> 'a option" where
  "peek xs = (case xs of [] \<Rightarrow> None | x # _ \<Rightarrow> Some x)"

fun next_lexeme :: "rstring \<Rightarrow> (lexeme \<times> rstring) option" where
  "next_lexeme [] = None"
| "next_lexeme (c # cs) = Some
     (if c = c_squote \<or> c = c_dquote \<or> c = c_backtick then
        let (a, r) = consume_quoted c cs in (Quoted (c # a), r)
      else if c = ch CHR ''-'' \<and> peek cs = Some (ch CHR ''-'') then
        let (a, r) = consume_line_comment cs in (Comment (c # a), r)
      else if c = ch CHR ''#'' then
        let (a, r) = consume_line_comment cs in (Comment (c # a), r)
      else if c = ch CHR ''/'' \<and> peek cs = Some (ch CHR ''*'') then
        let (a, r) = block_comment_loop 0 (tl cs) in (Comment (c # hd cs # a), r)
      else if is_ident_char c then
        (Word (c # takeWhile is_ident_char cs), dropWhile is_ident_char cs)
      else (Other c, cs))"

lemma quoted_loop_fst_snd: "fst (quoted_loop q t n s) @ snd (quoted_loop q t n s) = s"
  by (induction q t n s rule: quoted_loop.induct) (auto simp: split_beta split: list.split)

lemma quoted_loop_text: "quoted_loop q t n s = (a, r) \<Longrightarrow> s = a @ r"
  using quoted_loop_fst_snd[of q t n s] by simp

lemma consume_quoted_text: "consume_quoted q s = (a, r) \<Longrightarrow> s = a @ r"
proof -
  have "fst (consume_quoted q s) @ snd (consume_quoted q s) = s"
    by (simp add: consume_quoted_def split_beta quoted_loop_fst_snd split: list.split)
  then show "consume_quoted q s = (a, r) \<Longrightarrow> s = a @ r" by simp
qed

lemma consume_line_comment_fst_snd:
  "fst (consume_line_comment s) @ snd (consume_line_comment s) = s"
  by (induction s) (simp_all add: split_beta)

lemma consume_line_comment_text: "consume_line_comment s = (a, r) \<Longrightarrow> s = a @ r"
  using consume_line_comment_fst_snd[of s] by simp

lemma block_comment_loop_fst_snd:
  "fst (block_comment_loop p s) @ snd (block_comment_loop p s) = s"
  by (induction p s rule: block_comment_loop.induct) (simp_all add: split_beta)

lemma block_comment_loop_text: "block_comment_loop p s = (a, r) \<Longrightarrow> s = a @ r"
  using block_comment_loop_fst_snd[of p s] by simp

lemma peek_Some [simp]: "peek xs = Some x \<longleftrightarrow> (\<exists>ys. xs = x # ys)"
  by (cases xs) (auto simp: peek_def)

lemmas scan_text = quoted_loop_text consume_quoted_text consume_line_comment_text
  block_comment_loop_text

lemma next_lexeme_text:
  "next_lexeme s = Some (l, r) \<Longrightarrow> s = lexeme_text l @ r \<and> lexeme_text l \<noteq> []"
proof (cases s)
  case (Cons c cs)
  assume "next_lexeme s = Some (l, r)"
  with Cons show ?thesis
    by (simp split: if_splits prod.splits) (auto dest: scan_text)
qed simp

function lex :: "rstring \<Rightarrow> lexeme list" where
  "lex s = (case next_lexeme s of None \<Rightarrow> [] | Some (l, r) \<Rightarrow> l # lex r)"
  by pat_completeness auto
termination
proof (relation "measure length", goal_cases)
  case (2 s p l r)
  then have "next_lexeme s = Some (l, r)" by simp
  from next_lexeme_text[OF this] show ?case by auto
qed simp

declare lex.simps [simp del]

section \<open>Consumers of the lexer\<close>

definition is_transparent :: "lexeme \<Rightarrow> bool" where
  "is_transparent l = (case l of Comment _ \<Rightarrow> True | Other c \<Rightarrow> is_whitespace c | _ \<Rightarrow> False)"

definition significant_lexemes :: "rstring \<Rightarrow> lexeme list" where
  "significant_lexemes s = filter (\<lambda>l. \<not> is_transparent l) (lex s)"

text \<open>\<^verbatim>\<open>push_statement\<close>: the statement pushed for the segment \<open>current\<close>, if it carries one.\<close>

definition carries_statement :: "lexeme \<Rightarrow> bool" where
  "carries_statement l =
     (case l of Comment _ \<Rightarrow> False | Other c \<Rightarrow> \<not> is_whitespace c | Word _ \<Rightarrow> True | Quoted _ \<Rightarrow> True)"

definition push_statement :: "rstring list \<Rightarrow> rstring \<Rightarrow> rstring list" where
  "push_statement statements current =
     (let trimmed = trim current
      in if list_ex carries_statement (lex trimmed) then statements @ [trimmed] else statements)"

fun split_loop :: "lexeme list \<Rightarrow> rstring list \<Rightarrow> rstring \<Rightarrow> rstring list" where
  "split_loop [] statements current = push_statement statements current"
| "split_loop (l # ls) statements current =
     (if l = Other c_semi then split_loop ls (push_statement statements current) []
      else split_loop ls statements (current @ lexeme_text l))"

definition split_statements :: "rstring \<Rightarrow> rstring list" where
  "split_statements sql = split_loop (lex sql) [] []"

definition strip_trailing_terminators :: "rstring \<Rightarrow> rstring" where
  "strip_trailing_terminators sql =
     (case split_statements sql of [st] \<Rightarrow> st | _ \<Rightarrow> sql)"

fun skip_hint :: "lexeme list \<Rightarrow> lexeme list" where
  "skip_hint [] = []"
| "skip_hint (l # ls) = (if l = Other (ch CHR 0x7D) then ls else skip_hint ls)"

lemma length_skip_hint [simp]: "length (skip_hint ls) \<le> length ls"
  by (induction ls) auto

function first_keyword_loop :: "lexeme list \<Rightarrow> rstring option" where
  "first_keyword_loop [] = None"
| "first_keyword_loop (Comment s # ls) = first_keyword_loop ls"
| "first_keyword_loop (Other c # ls) =
     (if c = ch CHR ''@'' \<and> peek ls = Some (Other (ch CHR 0x7B))
      then first_keyword_loop (skip_hint ls) else None)"
| "first_keyword_loop (Word w # ls) =
     (let kw = takeWhile is_ascii_alphabetic w in if kw = [] then None else Some kw)"
| "first_keyword_loop (Quoted s # ls) = None"
  by pat_completeness auto
termination
  by (relation "measure length") (auto simp: less_Suc_eq_le)

definition first_keyword :: "rstring \<Rightarrow> rstring option" where
  "first_keyword sql = first_keyword_loop (significant_lexemes sql)"

definition starts_with_any :: "rstring list \<Rightarrow> rstring \<Rightarrow> bool" where
  "starts_with_any kws sql =
     (case first_keyword sql of None \<Rightarrow> False | Some kw \<Rightarrow> list_ex (eq_ignore_ascii_case kw) kws)"

definition is_ddl :: "rstring \<Rightarrow> bool" where
  "is_ddl sql = starts_with_any DDL_KEYWORDS sql"

definition is_dml :: "rstring \<Rightarrow> bool" where
  "is_dml sql = starts_with_any DML_KEYWORDS sql"

definition case_step :: "nat \<Rightarrow> rstring \<Rightarrow> nat" where
  "case_step depth w =
     (if eq_ignore_ascii_case w (lit ''CASE'') then depth + 1
      else if eq_ignore_ascii_case w (lit ''END'') then depth - 1 else depth)"

fun returning_loop :: "bool \<Rightarrow> nat \<Rightarrow> lexeme list \<Rightarrow> bool" where
  "returning_loop prev depth [] = False"
| "returning_loop prev depth (Word w # ls) =
     (if prev \<and> depth = 0 \<and> eq_ignore_ascii_case w (lit ''RETURN'') then True
      else returning_loop (eq_ignore_ascii_case w (lit ''THEN'')) (case_step depth w) ls)"
| "returning_loop prev depth (Quoted s # ls) = returning_loop False depth ls"
| "returning_loop prev depth (Comment s # ls) = returning_loop prev depth ls"
| "returning_loop prev depth (Other c # ls) = returning_loop prev depth ls"

definition is_dml_returning :: "rstring \<Rightarrow> bool" where
  "is_dml_returning sql = returning_loop False 0 (lex sql)"

definition starts_param_name :: "rstring \<Rightarrow> bool" where
  "starts_param_name w = (case w of [] \<Rightarrow> False | c # _ \<Rightarrow> c = ch CHR ''_'' \<or> is_ascii_alphabetic c)"

text \<open>The inner text of a backtick-quoted parameter name, when it is one the driver accepts.\<close>

definition quoted_param_name :: "rstring \<Rightarrow> rstring option" where
  "quoted_param_name q =
     (case strip_prefix [c_backtick] q of
        None \<Rightarrow> None
      | Some rest \<Rightarrow>
          (case strip_suffix [c_backtick] rest of
             None \<Rightarrow> None
           | Some inner \<Rightarrow> if inner = [] \<or> c_backslash \<in> set inner then None else Some inner))"

text \<open>
  What follows an \<^verbatim>\<open>@\<close>: the parameter name it introduces (if any) and the lexemes left to scan.
\<close>

definition param_after_at :: "lexeme list \<Rightarrow> rstring option \<times> lexeme list" where
  "param_after_at ls =
     (case ls of
        [] \<Rightarrow> (None, ls)
      | Other c # rest \<Rightarrow>
          if c = ch CHR ''@'' \<or> c = ch CHR 0x7B then (None, rest) else (None, ls)
      | Word w # rest \<Rightarrow> if starts_param_name w then (Some w, rest) else (None, ls)
      | Quoted q # rest \<Rightarrow> (quoted_param_name q, rest)
      | Comment s # rest \<Rightarrow> (None, ls))"

lemma length_param_after_at [simp]: "length (snd (param_after_at ls)) \<le> length ls"
  by (auto simp: param_after_at_def split: list.splits lexeme.splits)

function named_parameters_loop :: "rstring set \<Rightarrow> lexeme list \<Rightarrow> rstring list" where
  "named_parameters_loop seen [] = []"
| "named_parameters_loop seen (l # ls) =
     (if l \<noteq> Other (ch CHR ''@'') then named_parameters_loop seen ls
      else case fst (param_after_at ls) of
             None \<Rightarrow> named_parameters_loop seen (snd (param_after_at ls))
           | Some name \<Rightarrow>
               if to_ascii_lowercase name \<in> seen
               then named_parameters_loop seen (snd (param_after_at ls))
               else name # named_parameters_loop (insert (to_ascii_lowercase name) seen)
                             (snd (param_after_at ls)))"
  by pat_completeness auto
termination
  by (relation "measure (\<lambda>(seen, ls). length ls)") (auto simp: less_Suc_eq_le)

definition named_parameters :: "rstring \<Rightarrow> rstring list" where
  "named_parameters sql = named_parameters_loop {} (significant_lexemes sql)"

section \<open>Identifier quoting\<close>

definition bad_ident_char :: "rchar \<Rightarrow> bool" where
  "bad_ident_char c \<longleftrightarrow> c = c_backtick \<or> c = c_backslash \<or> is_control c"

definition quote_ident :: "rstring \<Rightarrow> rstring result" where
  "quote_ident ident =
     (if ident = [] then Inl (invalid_argument (lit ''invalid SQL identifier: the name is empty''))
      else case List.find bad_ident_char ident of
             Some bad \<Rightarrow> Inl (invalid_argument (lit ''invalid SQL identifier: bad character''))
           | None \<Rightarrow> Inr (c_backtick # ident @ [c_backtick]))"

definition qualified_table :: "rstring option \<Rightarrow> rstring \<Rightarrow> rstring result" where
  "qualified_table db_schema table_name =
     (case db_schema of
        Some (s # ss) \<Rightarrow>
          try_bind (quote_ident (s # ss)) (\<lambda>a.
          try_bind (quote_ident table_name) (\<lambda>b. Inr (a @ [ch CHR ''.''] @ b)))
      | _ \<Rightarrow> quote_ident table_name)"

section \<open>The lexer partitions its input\<close>

lemma lex_Nil [simp]: "lex [] = []"
  by (simp add: lex.simps)

lemma lex_next: "next_lexeme s = Some (l, r) \<Longrightarrow> lex s = l # lex r"
  by (simp add: lex.simps[of s])

lemma lex_ConsD:
  assumes "lex s = l # ls"
  obtains r where "next_lexeme s = Some (l, r)" "lex r = ls" "s = lexeme_text l @ r"
    "lexeme_text l \<noteq> []"
proof (cases "next_lexeme s")
  case None
  with assms show ?thesis by (simp add: lex.simps[of s])
next
  case (Some p)
  obtain l' r where "p = (l', r)" by (cases p)
  with Some assms have n: "next_lexeme s = Some (l, r)" "lex r = ls"
    by (simp_all add: lex.simps[of s])
  with next_lexeme_text[OF n(1)] that show ?thesis by simp
qed

lemma lex_text: "concat (map lexeme_text (lex s)) = s"
proof (induction s rule: lex.induct)
  case (1 s)
  show ?case
  proof (cases "next_lexeme s")
    case None
    then show ?thesis by (cases s) (simp_all add: lex.simps[of s])
  next
    case (Some p)
    then obtain l r where p: "next_lexeme s = Some (l, r)" by (cases p) auto
    with "1" have "concat (map lexeme_text (lex r)) = r" by auto
    with p next_lexeme_text[OF p] show ?thesis by (simp add: lex_next)
  qed
qed

lemma lex_eq_Nil [simp]: "lex s = [] \<longleftrightarrow> s = []"
  using lex_text[of s] by auto

lemma lex_suffix:
  assumes "lex (x @ y) = ls1 @ ls2" and "concat (map lexeme_text ls1) = x"
  shows "lex y = ls2"
  using assms
proof (induction ls1 arbitrary: x)
  case Nil
  then show ?case by simp
next
  case (Cons l ls1)
  from Cons.prems(1) obtain r where r: "lex r = ls1 @ ls2" "x @ y = lexeme_text l @ r"
    by (auto elim: lex_ConsD)
  with Cons.prems(2) have "r = concat (map lexeme_text ls1) @ y" by auto
  with r(1) Cons.IH show ?case by blast
qed

section \<open>Cutting the input at a neutral character\<close>

text \<open>
  A character is neutral when no lexeme that ends before it changes if the input is cut there:
  it neither extends a word, nor completes a two-character opener, nor turns an empty literal into
  a triple-quoted one.
\<close>

definition neutral :: "rchar \<Rightarrow> bool" where
  "neutral c \<longleftrightarrow> \<not> is_ident_char c \<and> c \<noteq> ch CHR ''-'' \<and> c \<noteq> ch CHR ''*''
     \<and> c \<noteq> c_squote \<and> c \<noteq> c_dquote \<and> c \<noteq> c_backtick"

definition cut_ok :: "rstring \<Rightarrow> bool" where
  "cut_ok y \<longleftrightarrow> y = [] \<or> neutral (hd y)"

lemma neutral_ws: "is_whitespace c \<Longrightarrow> neutral c"
  by (auto simp: neutral_def is_ident_char_def char_simps)

lemma neutral_semi: "neutral c_semi"
  by (simp add: neutral_def is_ident_char_def char_simps)

lemma cut_ok_simps [simp]: "cut_ok []" "cut_ok (c # y) \<longleftrightarrow> neutral c"
  by (simp_all add: cut_ok_def)

text \<open>The scan loop of a literal as four disjoint steps, and the induction that follows them.\<close>

lemma quoted_loop_close:
  "c \<noteq> c_backslash \<Longrightarrow> c = q \<and> (\<not> t \<or> n = 2) \<Longrightarrow> quoted_loop q t n (c # cs) = ([c], cs)"
  by auto

lemma quoted_loop_step:
  "c \<noteq> c_backslash \<Longrightarrow> \<not> (c = q \<and> (\<not> t \<or> n = 2)) \<Longrightarrow>
   quoted_loop q t n (c # cs) = apfst ((#) c) (quoted_loop q t (if c = q then n + 1 else 0) cs)"
  by (auto simp: apfst_def map_prod_def split_beta)

lemma quoted_loop_escape:
  "quoted_loop q t n (c_backslash # e # cs) = apfst (\<lambda>a. c_backslash # e # a) (quoted_loop q t 0 cs)"
  by (simp add: apfst_def map_prod_def split_beta)

lemma quoted_loop_escape_end: "quoted_loop q t n [c_backslash] = ([c_backslash], [])"
  by simp

lemmas quoted_loop_eqs = quoted_loop_close quoted_loop_step quoted_loop_escape quoted_loop_escape_end

declare quoted_loop.simps(2) [simp del]

lemma quoted_loop_induct [case_names Nil EscEnd Esc Close Step]:
  assumes "\<And>n. P n []"
    and "\<And>n. P n [c_backslash]"
    and "\<And>n e cs. P 0 cs \<Longrightarrow> P n (c_backslash # e # cs)"
    and "\<And>n c cs. c \<noteq> c_backslash \<Longrightarrow> c = q \<and> (\<not> t \<or> n = 2) \<Longrightarrow> P n (c # cs)"
    and "\<And>n c cs. c \<noteq> c_backslash \<Longrightarrow> \<not> (c = q \<and> (\<not> t \<or> n = 2)) \<Longrightarrow>
           P (if c = q then n + 1 else 0) cs \<Longrightarrow> P n (c # cs)"
  shows "P n s"
proof (induction s arbitrary: n rule: length_induct)
  case (1 s)
  then have IH: "length s' < length s \<Longrightarrow> P m s'" for m s' by blast
  show ?case
  proof (cases s)
    case (Cons c cs)
    show ?thesis
    proof (cases "c = c_backslash")
      case True
      with Cons IH assms(2,3) show ?thesis by (cases cs) auto
    next
      case False
      with Cons IH assms(4,5)[OF False] show ?thesis by (metis length_Cons lessI)
    qed
  qed (simp add: assms(1))
qed

lemma apfst_Cons_eq: "apfst f p = (a, r) \<longleftrightarrow> (\<exists>a'. a = f a' \<and> p = (a', r))"
  by (cases p) auto

lemma quoted_loop_cut:
  "quoted_loop q t n (x @ y) = (a, r' @ y) \<Longrightarrow> quoted_loop q t n x = (a, r')"
proof (induction n x arbitrary: a r' rule: quoted_loop_induct[where q = q and t = t])
  case (Nil n)
  then show ?case using quoted_loop_text[of q t n y] by auto
next
  case (EscEnd n)
  show ?case
  proof (cases y)
    case Nil
    with EscEnd quoted_loop_escape_end[of q t n] show ?thesis by auto
  next
    case (Cons e cs)
    with EscEnd obtain a' where "quoted_loop q t 0 cs = (a', r' @ e # cs)"
      by (auto simp: quoted_loop_escape apfst_Cons_eq)
    from quoted_loop_text[OF this] have "length cs = length (a' @ r' @ e # cs)"
      by (rule arg_cong)
    then show ?thesis by simp
  qed
next
  case (Close n c cs)
  then show ?case by (simp add: quoted_loop_close)
next
  case (Step n c cs)
  then show ?case by (auto simp: quoted_loop_step apfst_Cons_eq)
qed (auto simp: quoted_loop_escape apfst_Cons_eq)

lemma consume_quoted_cut:
  assumes "consume_quoted q (x @ y) = (a, r' @ y)" and "cut_ok y"
    and "q \<in> {c_squote, c_dquote, c_backtick}"
  shows "consume_quoted q x = (a, r')"
proof (cases x)
  case Nil
  then have "a = [] \<and> r' = []" using assms(1) consume_quoted_text[of q y] by auto
  with Nil show ?thesis by (simp add: consume_quoted_def)
next
  case (Cons c1 x1)
  show ?thesis
  proof (cases "q \<noteq> c_backtick \<and> c1 = q")
    case False
    with Cons assms(1) show ?thesis
      by (auto simp: consume_quoted_def intro: quoted_loop_cut)
  next
    case True
    show ?thesis
    proof (cases x1)
      case Nil
      with True Cons assms show ?thesis
        by (cases y) (auto simp: consume_quoted_def neutral_def split: if_splits)
    next
      case (Cons c2 x2)
      with True \<open>x = c1 # x1\<close> assms(1) show ?thesis
        by (auto simp: consume_quoted_def split: if_splits prod.splits dest: quoted_loop_cut)
    qed
  qed
qed

lemma consume_line_comment_cut:
  "consume_line_comment (x @ y) = (a, r' @ y) \<Longrightarrow> consume_line_comment x = (a, r')"
proof (induction x arbitrary: a)
  case Nil
  then show ?case using consume_line_comment_text[of y] by auto
next
  case (Cons c x)
  then show ?case by (auto split: if_splits prod.splits)
qed

lemma block_comment_loop_cut:
  "block_comment_loop p (x @ y) = (a, r' @ y) \<Longrightarrow> block_comment_loop p x = (a, r')"
proof (induction x arbitrary: a p)
  case Nil
  then show ?case using block_comment_loop_text[of p y] by auto
next
  case (Cons c x)
  then show ?case by (auto split: if_splits prod.splits)
qed

lemmas scan_cut = consume_line_comment_cut block_comment_loop_cut

text \<open>The five kinds of lexeme by their first characters, as disjoint equations.\<close>

lemma ident_char_not_opener: "is_ident_char c \<Longrightarrow> c \<notin> {34, 35, 39, 45, 47, 96}"
  by (auto simp: is_ident_char_def char_simps)

lemma next_quoted:
  "c \<in> {c_squote, c_dquote, c_backtick} \<Longrightarrow>
   next_lexeme (c # cs) = Some (apfst (\<lambda>a. Quoted (c # a)) (consume_quoted c cs))"
  by (auto simp: apfst_def map_prod_def split_beta)

lemma next_line_comment:
  "c = 35 \<or> c = 45 \<and> peek cs = Some 45 \<Longrightarrow>
   next_lexeme (c # cs) = Some (apfst (\<lambda>a. Comment (c # a)) (consume_line_comment cs))"
  by (auto simp: apfst_def map_prod_def split_beta)

lemma next_block_comment:
  "next_lexeme (47 # 42 # cs) = Some (apfst (\<lambda>a. Comment (47 # 42 # a)) (block_comment_loop 0 cs))"
  by (auto simp: apfst_def map_prod_def split_beta)

lemma next_word:
  "is_ident_char c \<Longrightarrow>
   next_lexeme (c # cs) = Some (Word (c # takeWhile is_ident_char cs), dropWhile is_ident_char cs)"
  using ident_char_not_opener[of c] by auto

definition other_start :: "rchar \<Rightarrow> rstring \<Rightarrow> bool" where
  "other_start c cs \<longleftrightarrow> \<not> is_ident_char c \<and> c \<notin> {c_squote, c_dquote, c_backtick, 35}
     \<and> \<not> (c = 45 \<and> peek cs = Some 45) \<and> \<not> (c = 47 \<and> peek cs = Some 42)"

lemma next_other: "other_start c cs \<Longrightarrow> next_lexeme (c # cs) = Some (Other c, cs)"
  by (auto simp: other_start_def)

lemmas next_eqs = next_quoted next_line_comment next_block_comment next_word next_other

declare next_lexeme.simps(2) [simp del]

lemma lexeme_start_cases [case_names quoted line block word other]:
  assumes "c \<in> {c_squote, c_dquote, c_backtick} \<Longrightarrow> P"
    and "c = 35 \<or> c = 45 \<and> peek cs = Some 45 \<Longrightarrow> P"
    and "\<And>ds. c = 47 \<Longrightarrow> cs = 42 # ds \<Longrightarrow> P"
    and "is_ident_char c \<Longrightarrow> P"
    and "other_start c cs \<Longrightarrow> P"
  shows P
  using assms unfolding other_start_def peek_Some by blast

lemma peek_cut:
  "cut_ok y \<Longrightarrow> \<not> neutral z \<Longrightarrow> peek (cs @ y) = Some z \<longleftrightarrow> peek cs = Some z"
  by (cases cs; cases y) auto

lemma not_neutral [simp]: "\<not> neutral 45" "\<not> neutral 42"
  by (simp_all add: neutral_def)

lemma word_cut:
  assumes "cut_ok y"
  shows "takeWhile is_ident_char (cs @ y) = takeWhile is_ident_char cs"
    and "dropWhile is_ident_char (cs @ y) = dropWhile is_ident_char cs @ y"
proof -
  have y: "takeWhile is_ident_char y = []" "dropWhile is_ident_char y = y"
    using assms by (cases y; simp add: neutral_def)+
  show "takeWhile is_ident_char (cs @ y) = takeWhile is_ident_char cs"
    using y by (induction cs) auto
  show "dropWhile is_ident_char (cs @ y) = dropWhile is_ident_char cs @ y"
    using y by (induction cs) auto
qed

lemma next_lexeme_cut:
  assumes n: "next_lexeme (x @ y) = Some (l, r' @ y)" and y: "cut_ok y" and x: "x \<noteq> []"
  shows "next_lexeme x = Some (l, r')"
proof -
  obtain c cs where x: "x = c # cs" using x by (cases x) auto
  show ?thesis
  proof (cases rule: lexeme_start_cases[where c = c and cs = cs])
    case quoted
    from n x obtain a where a: "l = Quoted (c # a)" "consume_quoted c (cs @ y) = (a, r' @ y)"
      by (auto simp: next_quoted[OF quoted] apfst_Cons_eq)
    from consume_quoted_cut[OF a(2) y quoted] a(1) x show ?thesis
      by (simp add: next_quoted[OF quoted])
  next
    case line
    then have "c = 35 \<or> c = 45 \<and> peek (cs @ y) = Some 45" by auto
    with line n x show ?thesis
      by (auto simp: next_line_comment apfst_Cons_eq dest: consume_line_comment_cut)
  next
    case (block ds)
    with n x show ?thesis
      by (auto simp: next_block_comment apfst_Cons_eq dest: block_comment_loop_cut)
  next
    case word
    with n x show ?thesis by (simp add: next_word word_cut[OF y])
  next
    case other
    then have "other_start c (cs @ y)" using y by (simp add: other_start_def peek_cut del: peek_Some)
    with other n x show ?thesis by (simp add: next_other)
  qed
qed

lemma lex_cut:
  assumes "lex (x @ y) = ls1 @ ls2" and "concat (map lexeme_text ls1) = x" and "cut_ok y"
  shows "lex x = ls1"
  using assms(1,2)
proof (induction ls1 arbitrary: x)
  case Nil
  then show ?case by simp
next
  case (Cons l ls1)
  from Cons.prems(1) obtain r where r: "next_lexeme (x @ y) = Some (l, r)" "lex r = ls1 @ ls2"
    "x @ y = lexeme_text l @ r" "lexeme_text l \<noteq> []"
    by (auto elim: lex_ConsD)
  let ?x = "concat (map lexeme_text ls1)"
  from r(3) Cons.prems(2) have "r = ?x @ y" by auto
  with r have "next_lexeme x = Some (l, ?x)" and "lex (?x @ y) = ls1 @ ls2"
    using next_lexeme_cut[OF _ assms(3), of x l ?x] Cons.prems(2) by auto
  with Cons.IH show ?case by (simp add: lex_next)
qed

end
