(* ===== verification/SqlProps.thy ===== *)
theory SqlProps
  imports SqlText
begin

text \<open>
  Correctness of the GoogleSQL text routines of \<^verbatim>\<open>src/sql.rs\<close>: what \<open>split_statements\<close> emits and
  conserves, that a quoted identifier is read back as one token whatever follows it, the shape of
  the extracted bind parameters, and the declarative meaning of the classification predicates.
\<close>

section \<open>Cutting the input inside its trailing whitespace\<close>

lemma quoted_loop_trunc:
  "quoted_loop q t n (x @ y) = (a, r) \<Longrightarrow> length x < length a \<Longrightarrow> quoted_loop q t n x = (x, [])"
proof (induction n x arbitrary: a r rule: quoted_loop_induct[where q = q and t = t])
  case (Close n c cs)
  then show ?case by (auto simp: quoted_loop_close)
next
  case (Step n c cs)
  then show ?case by (auto simp: quoted_loop_step apfst_Cons_eq)
qed (auto simp: quoted_loop_eqs apfst_Cons_eq)

lemma consume_quoted_trunc:
  assumes "consume_quoted q (x @ y) = (a, r)" and "length x < length a"
  shows "consume_quoted q x = (x, [])"
proof (cases x)
  case Nil
  then show ?thesis by (simp add: consume_quoted_def)
next
  case (Cons c1 x1)
  show ?thesis
  proof (cases "q \<noteq> c_backtick \<and> c1 = q")
    case False
    with Cons assms show ?thesis
      by (auto simp: consume_quoted_def intro: quoted_loop_trunc)
  next
    case True
    with Cons assms show ?thesis
      by (cases x1) (auto simp: consume_quoted_def split: if_splits prod.splits dest: quoted_loop_trunc)
  qed
qed

lemma consume_line_comment_trunc:
  "consume_line_comment (x @ y) = (a, r) \<Longrightarrow> length x < length a \<Longrightarrow>
   consume_line_comment x = (x, [])"
proof (induction x arbitrary: a)
  case (Cons c x)
  then show ?case by (auto split: if_splits prod.splits)
qed simp

lemma block_comment_loop_trunc:
  "block_comment_loop p (x @ y) = (a, r) \<Longrightarrow> length x < length a \<Longrightarrow>
   block_comment_loop p x = (x, [])"
proof (induction x arbitrary: a p)
  case (Cons c x)
  then show ?case by (auto split: if_splits prod.splits)
qed simp

text \<open>A lexeme and its truncation are of the same kind.\<close>

fun same_kind :: "lexeme \<Rightarrow> lexeme \<Rightarrow> bool" where
  "same_kind (Quoted a) (Quoted b) = True"
| "same_kind (Comment a) (Comment b) = True"
| "same_kind _ _ = False"

abbreviation all_ws :: "rstring \<Rightarrow> bool" where
  "all_ws ws \<equiv> \<forall>c \<in> set ws. is_whitespace c"

lemma all_ws_cut_ok: "all_ws ws \<Longrightarrow> cut_ok ws"
  by (cases ws) (auto intro: neutral_ws)

lemma next_lexeme_trunc:
  assumes n: "next_lexeme (t @ ws) = Some (l, r)" and y: "cut_ok ws" and t: "t \<noteq> []"
    and len: "length t < length (lexeme_text l)"
  shows "\<exists>l'. next_lexeme t = Some (l', []) \<and> same_kind l l'"
proof -
  obtain c cs where x: "t = c # cs" using t by (cases t) auto
  show ?thesis
  proof (cases rule: lexeme_start_cases[where c = c and cs = cs])
    case quoted
    from n x obtain a where a: "l = Quoted (c # a)" "consume_quoted c (cs @ ws) = (a, r)"
      by (auto simp: next_quoted[OF quoted] apfst_Cons_eq)
    with len x have "consume_quoted c cs = (cs, [])"
      by (auto intro: consume_quoted_trunc)
    with a x show ?thesis by (simp add: next_quoted[OF quoted])
  next
    case line
    then have "c = 35 \<or> c = 45 \<and> peek (cs @ ws) = Some 45" by auto
    with line n x len show ?thesis
      by (auto simp: next_line_comment apfst_Cons_eq dest: consume_line_comment_trunc)
  next
    case (block ds)
    with n x len show ?thesis
      by (auto simp: next_block_comment apfst_Cons_eq dest: block_comment_loop_trunc)
  next
    case word
    with n x have "lexeme_text l = c # takeWhile is_ident_char cs"
      by (auto simp: next_word word_cut[OF y])
    with x len length_takeWhile_le[of is_ident_char cs] show ?thesis by simp
  next
    case other
    then have "other_start c (cs @ ws)" using y by (simp add: other_start_def peek_cut del: peek_Some)
    with n x len show ?thesis by (auto simp: next_other)
  qed
qed

lemma other_start_ws: "is_whitespace c \<Longrightarrow> other_start c cs"
  by (auto simp: other_start_def is_ident_char_def char_simps)

lemma lex_ws_prefix: "all_ws ws \<Longrightarrow> lex (ws @ s) = map Other ws @ lex s"
  by (induction ws) (auto simp: next_other[OF other_start_ws] intro: lex_next[THEN trans])

lemma append_longer:
  assumes "a @ b = c @ d" and "length c \<le> length a"
  shows "a = c @ drop (length c) a" and "d = drop (length c) a @ b"
proof -
  have "take (length c) a = c"
    using arg_cong[OF assms(1), of "take (length c)"] assms(2) by simp
  then show "a = c @ drop (length c) a" by (metis append_take_drop_id)
  show "d = drop (length c) a @ b"
    using arg_cong[OF assms(1), of "drop (length c)"] assms(2) by simp
qed

lemma lex_append_ws:
  assumes ws: "all_ws ws"
  shows "lex (t @ ws) = lex t @ map Other ws \<or>
    (\<exists>ls l l' w. lex t = ls @ [l'] \<and> lex (t @ ws) = ls @ l # map Other w \<and> all_ws w \<and> same_kind l l'
       \<and> is_whitespace (last (lexeme_text l)))"
proof (induction t rule: length_induct)
  case (1 t)
  show ?case
  proof (cases "t = []")
    case True
    then show ?thesis using lex_ws_prefix[OF ws, of "[]"] by simp
  next
    case False
    then obtain l ls0 where "lex (t @ ws) = l # ls0" by (cases "lex (t @ ws)") auto
    then obtain r where n: "next_lexeme (t @ ws) = Some (l, r)"
      and tx: "t @ ws = lexeme_text l @ r" "lexeme_text l \<noteq> []"
      by (rule lex_ConsD) auto
    show ?thesis
    proof (cases "length (lexeme_text l) \<le> length t")
      case True
      let ?r = "drop (length (lexeme_text l)) t"
      note r' = append_longer[OF tx(1) True]
      have n': "next_lexeme t = Some (l, ?r)"
        by (rule next_lexeme_cut[OF n[unfolded r'(2)] all_ws_cut_ok[OF ws] False])
      from True tx(2) have "length ?r < length t" by (cases "lexeme_text l") auto
      note IH = "1.IH"[rule_format, OF this]
      have "lex t = l # lex ?r" and "lex (t @ ws) = l # lex (?r @ ws)"
        using lex_next[OF n'] lex_next[OF n] r'(2) by simp_all
      with IH show ?thesis by (metis append_Cons)
    next
      case False
      then have "length t < length (lexeme_text l)" by simp
      then obtain l' where l': "next_lexeme t = Some (l', [])" "same_kind l l'"
        using next_lexeme_trunc[OF n all_ws_cut_ok[OF ws] \<open>t \<noteq> []\<close>] by blast
      from False tx obtain us where us: "lexeme_text l = t @ us" "ws = us @ r" "us \<noteq> []"
        using append_longer[OF tx(1)[symmetric]] by (metis append_Nil2 nat_le_linear order_refl)
      with ws have "all_ws r" "is_whitespace (last (lexeme_text l))" by auto
      with lex_ws_prefix[of r "[]"] have "lex r = map Other r" by simp
      with n l' \<open>all_ws r\<close> \<open>is_whitespace (last (lexeme_text l))\<close> show ?thesis
        by (auto simp: lex_next)
    qed
  qed
qed

definition has_semi :: "rstring \<Rightarrow> bool" where
  "has_semi s \<longleftrightarrow> Other c_semi \<in> set (lex s)"

lemma not_ws_semi: "\<not> is_whitespace c_semi"
  by (simp add: char_simps)

lemma has_semi_append_ws:
  assumes "all_ws ws"
  shows "has_semi (t @ ws) = has_semi t"
proof -
  have "same_kind l l' \<Longrightarrow> l \<noteq> Other c_semi \<and> l' \<noteq> Other c_semi" for l l'
    by (cases l; cases l') auto
  with lex_append_ws[OF assms, of t] assms not_ws_semi show ?thesis
    unfolding has_semi_def by fastforce
qed

lemma has_semi_trim: "has_semi (trim x) = has_semi x"
proof -
  obtain ws where ws: "x = ws @ trim_start x" "all_ws ws" using trim_start_append_ws by blast
  then have "has_semi x = has_semi (trim_start x)"
    using lex_ws_prefix[OF ws(2), of "trim_start x"] not_ws_semi by (auto simp: has_semi_def)
  also obtain ws' where ws': "trim_start x = trim_end (trim_start x) @ ws'" "all_ws ws'"
    using trim_end_append_ws by blast
  have "has_semi (trim_start x) = has_semi (trim x)"
    using has_semi_append_ws[OF ws'(2), of "trim x"] ws'(1) by (simp add: trim_def)
  finally show ?thesis ..
qed

section \<open>Statement splitting\<close>

lemma push_statement_acc: "push_statement sts cur = sts @ push_statement [] cur"
  by (simp add: push_statement_def Let_def)

lemma split_loop_acc: "split_loop ls sts cur = sts @ split_loop ls [] cur"
proof (induction ls arbitrary: sts cur)
  case Nil
  then show ?case by (simp add: push_statement_acc[of sts])
next
  case (Cons l ls)
  show ?case
    using Cons.IH[of "push_statement sts cur" "[]"] Cons.IH[of "push_statement [] cur" "[]"]
      Cons.IH[of sts "cur @ lexeme_text l"] push_statement_acc[of sts cur]
    by simp
qed

lemma split_loop_no_semi:
  "Other c_semi \<notin> set ls \<Longrightarrow>
   split_loop ls sts cur = push_statement sts (cur @ concat (map lexeme_text ls))"
  by (induction ls arbitrary: cur) auto

text \<open>What every emitted statement satisfies: trimmed, free of top-level semicolons, not empty.\<close>

definition is_statement :: "rstring \<Rightarrow> bool" where
  "is_statement st \<longleftrightarrow> trim st = st \<and> \<not> has_semi st \<and> list_ex carries_statement (lex st)"

lemma push_statement_is_statement:
  "st \<in> set (push_statement [] cur) \<Longrightarrow> \<not> has_semi cur \<Longrightarrow> is_statement st"
  by (auto simp: push_statement_def Let_def is_statement_def has_semi_trim split: if_splits)

lemma split_loop_is_statement:
  assumes "lex (cur @ concat (map lexeme_text ls)) = ls0 @ ls"
    and "concat (map lexeme_text ls0) = cur" and "Other c_semi \<notin> set ls0"
    and "st \<in> set (split_loop ls [] cur)"
  shows "is_statement st"
  using assms
proof (induction ls arbitrary: cur ls0)
  case Nil
  then show ?case by (auto simp: has_semi_def intro: push_statement_is_statement)
next
  case (Cons l ls)
  let ?rest = "concat (map lexeme_text ls)"
  show ?case
  proof (cases "l = Other c_semi")
    case True
    with Cons.prems have "lex (cur @ c_semi # ?rest) = ls0 @ Other c_semi # ls" by simp
    then have cur: "lex cur = ls0" and rest: "lex ?rest = ls"
      using Cons.prems(2) lex_cut[of cur "c_semi # ?rest" ls0 "Other c_semi # ls"]
        lex_suffix[of "cur @ [c_semi]" ?rest "ls0 @ [Other c_semi]" ls]
      by (simp_all add: neutral_semi)
    from True Cons.prems(4) have "st \<in> set (push_statement [] cur) \<or> st \<in> set (split_loop ls [] [])"
      using split_loop_acc[of ls "push_statement [] cur" "[]"] by simp
    with cur rest Cons.prems(3) Cons.IH[of "[]" "[]"] show ?thesis
      by (auto simp: has_semi_def intro: push_statement_is_statement)
  next
    case False
    with Cons.prems Cons.IH[of "cur @ lexeme_text l" "ls0 @ [l]"] show ?thesis by simp
  qed
qed

lemma split_statements_is_statement: "st \<in> set (split_statements s) \<Longrightarrow> is_statement st"
  unfolding split_statements_def
  by (rule split_loop_is_statement[of "[]" "lex s" "[]"]) (simp_all add: lex_text)

lemma split_is_statement: "is_statement st \<Longrightarrow> split_statements st = [st]"
  by (simp add: is_statement_def has_semi_def split_statements_def split_loop_no_semi lex_text
      push_statement_def)

section \<open>Splitting conserves the significant tokens\<close>

fun closed_lexeme :: "lexeme \<Rightarrow> bool" where
  "closed_lexeme (Quoted q) = (\<not> is_whitespace (last q))"
| "closed_lexeme _ = True"

lemma quoted_loop_closed:
  "quoted_loop q t n s = (a, r) \<Longrightarrow> r \<noteq> [] \<Longrightarrow> a \<noteq> [] \<and> last a = q"
proof (induction n s arbitrary: a rule: quoted_loop_induct[where q = q and t = t])
  case (Close n c cs)
  then show ?case by (auto simp: quoted_loop_close)
next
  case (Step n c cs)
  then show ?case by (auto simp: quoted_loop_step apfst_Cons_eq)
qed (auto simp: quoted_loop_eqs apfst_Cons_eq)

lemma consume_quoted_closed:
  "consume_quoted q s = (a, r) \<Longrightarrow> r \<noteq> [] \<Longrightarrow> a \<noteq> [] \<and> last a = q"
  unfolding consume_quoted_def
  by (auto split: list.splits if_splits prod.splits dest: quoted_loop_closed)

lemma next_lexeme_closed:
  assumes "next_lexeme s = Some (l, r)" and "r \<noteq> []"
  shows "closed_lexeme l"
proof -
  from assms(1) obtain c cs where s: "s = c # cs" by (cases s) auto
  show ?thesis
  proof (cases rule: lexeme_start_cases[where c = c and cs = cs])
    case quoted
    then have "\<not> is_whitespace c" by (auto simp: char_simps)
    with quoted assms s consume_quoted_closed[of c cs] show ?thesis
      by (auto simp: next_quoted apfst_Cons_eq)
  qed (use assms s in \<open>auto simp: next_line_comment next_block_comment next_word next_other apfst_Cons_eq\<close>)
qed

lemma lex_closed:
  "s = [] \<or> \<not> is_whitespace (last s) \<Longrightarrow> list_all closed_lexeme (lex s)"
proof (induction s rule: lex.induct)
  case (1 s)
  show ?case
  proof (cases "lex s")
    case (Cons l ls)
    then obtain r where r: "next_lexeme s = Some (l, r)" "lex r = ls" "s = lexeme_text l @ r"
      "lexeme_text l \<noteq> []" by (rule lex_ConsD)
    show ?thesis
    proof (cases "r = []")
      case True
      with r "1.prems" have "\<not> is_whitespace (last (lexeme_text l))" by auto
      with True r Cons show ?thesis by (cases l) auto
    next
      case False
      with r "1.prems" have "\<not> is_whitespace (last r)" by auto
      with False r Cons next_lexeme_closed[OF r(1)] "1.IH"[OF r(1) refl] show ?thesis by simp
    qed
  qed simp
qed

lemma carries_significant: "carries_statement l \<longleftrightarrow> \<not> is_transparent l"
  by (cases l) (auto simp: carries_statement_def is_transparent_def)

lemma filter_significant_ws: "all_ws ws \<Longrightarrow> filter (\<lambda>l. \<not> is_transparent l) (map Other ws) = []"
  by (auto simp: filter_empty_conv is_transparent_def)

lemma significant_ws_prefix:
  "all_ws ws \<Longrightarrow> significant_lexemes (ws @ s) = significant_lexemes s"
  by (simp add: significant_lexemes_def lex_ws_prefix filter_significant_ws)

lemma significant_append_ws:
  assumes "all_ws ws" and "list_all closed_lexeme (lex (t @ ws))"
  shows "significant_lexemes (t @ ws) = significant_lexemes t"
  using lex_append_ws[OF assms(1), of t]
proof
  assume "lex (t @ ws) = lex t @ map Other ws"
  then show ?thesis by (simp add: significant_lexemes_def filter_significant_ws assms(1))
next
  assume "\<exists>ls l l' w. lex t = ls @ [l'] \<and> lex (t @ ws) = ls @ l # map Other w \<and> all_ws w
    \<and> same_kind l l' \<and> is_whitespace (last (lexeme_text l))"
  then obtain ls l l' w where l: "lex t = ls @ [l']" "lex (t @ ws) = ls @ l # map Other w"
    "all_ws w" "same_kind l l'" "is_whitespace (last (lexeme_text l))" by blast
  with assms(2) have "closed_lexeme l" by simp
  with l(4,5) have "is_transparent l \<and> is_transparent l'"
    by (cases l; cases l') (auto simp: is_transparent_def)
  with l filter_significant_ws[OF l(3)] show ?thesis by (simp add: significant_lexemes_def)
qed

lemma significant_trim:
  assumes "list_all closed_lexeme (lex s)"
  shows "significant_lexemes (trim s) = significant_lexemes s"
proof -
  obtain ws where ws: "s = ws @ trim_start s" "all_ws ws" using trim_start_append_ws by blast
  obtain vs where vs: "trim_start s = trim s @ vs" "all_ws vs"
    using trim_end_append_ws[of "trim_start s"] by (auto simp: trim_def)
  have "lex s = map Other ws @ lex (trim s @ vs)" using lex_ws_prefix[OF ws(2)] ws(1) vs(1) by metis
  with assms have "list_all closed_lexeme (lex (trim s @ vs))" by simp
  from significant_append_ws[OF vs(2) this] significant_ws_prefix[OF ws(2)] ws(1) vs(1)
  show ?thesis by metis
qed

lemma push_statement_significant:
  assumes "list_all closed_lexeme (lex cur)"
  shows "concat (map significant_lexemes (push_statement [] cur)) = significant_lexemes cur"
proof -
  have "significant_lexemes (trim cur) = [] \<longleftrightarrow> \<not> list_ex carries_statement (lex (trim cur))"
    by (simp add: significant_lexemes_def filter_empty_conv list_ex_iff carries_significant)
  with significant_trim[OF assms] show ?thesis by (auto simp: push_statement_def Let_def)
qed

lemma split_loop_significant:
  assumes "lex (cur @ concat (map lexeme_text ls)) = ls0 @ ls"
    and "concat (map lexeme_text ls0) = cur" and "Other c_semi \<notin> set ls0"
    and "list_all closed_lexeme (ls0 @ ls)"
  shows "concat (map significant_lexemes (split_loop ls [] cur)) =
    filter (\<lambda>l. \<not> is_transparent l \<and> l \<noteq> Other c_semi) (ls0 @ ls)"
  using assms
proof (induction ls arbitrary: cur ls0)
  case Nil
  then have "lex cur = ls0" by simp
  with Nil have "filter (\<lambda>l. \<not> is_transparent l \<and> l \<noteq> Other c_semi) ls0 = significant_lexemes cur"
    by (auto simp: significant_lexemes_def intro: filter_cong)
  with Nil \<open>lex cur = ls0\<close> push_statement_significant[of cur] show ?case by simp
next
  case (Cons l ls)
  let ?rest = "concat (map lexeme_text ls)"
  show ?case
  proof (cases "l = Other c_semi")
    case True
    with Cons.prems have "lex (cur @ c_semi # ?rest) = ls0 @ Other c_semi # ls" by simp
    then have cur: "lex cur = ls0" and rest: "lex ?rest = ls"
      using Cons.prems(2) lex_cut[of cur "c_semi # ?rest" ls0 "Other c_semi # ls"]
        lex_suffix[of "cur @ [c_semi]" ?rest "ls0 @ [Other c_semi]" ls]
      by (simp_all add: neutral_semi)
    have sig: "significant_lexemes cur = filter (\<lambda>l. \<not> is_transparent l \<and> l \<noteq> Other c_semi) ls0"
      using cur Cons.prems(3) by (auto simp: significant_lexemes_def intro: filter_cong)
    have "split_loop (l # ls) [] cur = push_statement [] cur @ split_loop ls [] []"
      using split_loop_acc[of ls "push_statement [] cur" "[]"] True by simp
    with sig cur rest True Cons.prems(4) Cons.IH[of "[]" "[]"] push_statement_significant[of cur]
    show ?thesis by simp
  next
    case False
    with Cons.prems Cons.IH[of "cur @ lexeme_text l" "ls0 @ [l]"] show ?thesis by simp
  qed
qed

section \<open>Quoting\<close>

lemma quoted_loop_ident:
  assumes "list_all (\<lambda>c. \<not> bad_ident_char c) i"
  shows "quoted_loop c_backtick False n (i @ c_backtick # rest) = (i @ [c_backtick], rest)"
  using assms
  by (induction i arbitrary: n) (auto simp: quoted_loop_eqs bad_ident_char_def)

lemma find_None_list_all: "List.find P xs = None \<longleftrightarrow> list_all (\<lambda>x. \<not> P x) xs"
  by (auto simp: find_None_iff list_all_iff)

lemma quote_ident_Inr [res_simps]:
  "quote_ident i = Inr t \<longleftrightarrow>
   i \<noteq> [] \<and> list_all (\<lambda>c. \<not> bad_ident_char c) i \<and> t = c_backtick # i @ [c_backtick]"
  by (auto simp: quote_ident_def find_None_list_all[symmetric] split: option.splits)

lemma lex_quote_ident:
  assumes "quote_ident i = Inr t"
  shows "lex (t @ rest) = Quoted t # lex rest"
proof -
  from assms have i: "list_all (\<lambda>c. \<not> bad_ident_char c) i" "t = c_backtick # i @ [c_backtick]"
    by (auto simp: res_simps)
  then have "consume_quoted c_backtick (i @ c_backtick # rest) = (i @ [c_backtick], rest)"
    using quoted_loop_ident[OF i(1), of 0 rest] by (cases i) (simp_all add: consume_quoted_def)
  with i show ?thesis by (intro lex_next) (simp add: next_quoted)
qed

lemma lex_accepted_ident:
  assumes "list_all (\<lambda>c. \<not> bad_ident_char c) i" and "i \<noteq> []"
  shows "lex (c_backtick # i @ c_backtick # rest) = Quoted (c_backtick # i @ [c_backtick]) # lex rest"
  using lex_quote_ident[of i "c_backtick # i @ [c_backtick]" rest] assms by (simp add: res_simps)

lemma lex_dot: "lex (46 # rest) = Other 46 # lex rest"
  by (rule lex_next, rule next_other) (simp add: other_start_def is_ident_char_def char_simps)

section \<open>Bind parameters\<close>

lemma quoted_param_name_Some:
  "quoted_param_name q = Some n \<Longrightarrow> q = c_backtick # n @ [c_backtick] \<and> n \<noteq> [] \<and> c_backslash \<notin> set n"
  by (auto simp: quoted_param_name_def strip_suffix_Some strip_prefix_Some simp del: strip_prefix.simps
      split: option.splits if_splits)

definition is_param_ref :: "lexeme \<Rightarrow> rstring \<Rightarrow> bool" where
  "is_param_ref l name \<longleftrightarrow>
     (l = Word name \<and> starts_param_name name) \<or>
     (l = Quoted (c_backtick # name @ [c_backtick]) \<and> name \<noteq> [] \<and> c_backslash \<notin> set name)"

lemma param_after_at_Some:
  assumes "fst (param_after_at ls) = Some n"
  obtains l rest where "ls = l # rest" "is_param_ref l n" "snd (param_after_at ls) = rest"
  using assms
  by (auto simp: param_after_at_def is_param_ref_def split: list.splits lexeme.splits if_splits
      dest: quoted_param_name_Some)

lemma named_parameters_loop_fresh:
  "n \<in> set (named_parameters_loop seen ls) \<Longrightarrow> to_ascii_lowercase n \<notin> seen"
  by (induction seen ls rule: named_parameters_loop.induct) (auto split: if_splits option.splits)

lemma named_parameters_loop_distinct:
  "distinct (map to_ascii_lowercase (named_parameters_loop seen ls))"
proof (induction seen ls rule: named_parameters_loop.induct)
  case (2 seen l ls)
  then show ?case
    by (auto split: option.splits dest: named_parameters_loop_fresh)
qed simp

lemma snd_param_after_at_suffix: "\<exists>pre. ls = pre @ snd (param_after_at ls)"
  by (auto simp: param_after_at_def split: list.splits lexeme.splits)

lemma named_parameters_loop_sound:
  "n \<in> set (named_parameters_loop seen ls) \<Longrightarrow>
   \<exists>pre l post. ls = pre @ Other 64 # l # post \<and> is_param_ref l n"
proof (induction seen ls rule: named_parameters_loop.induct)
  case (2 seen l ls)
  obtain pre where pre: "ls = pre @ snd (param_after_at ls)" using snd_param_after_at_suffix by blast
  show ?case
  proof (cases "l = Other 64 \<and> fst (param_after_at ls) = Some n")
    case True
    then obtain m rest where "ls = m # rest" "is_param_ref m n" by (auto elim: param_after_at_Some)
    with True show ?thesis by (metis append_Nil)
  next
    case False
    then have "\<exists>pre l post. ls = pre @ Other 64 # l # post \<and> is_param_ref l n \<or>
        snd (param_after_at ls) = pre @ Other 64 # l # post \<and> is_param_ref l n"
      using 2 by (auto split: if_splits option.splits)
    with pre show ?thesis by (metis append_Cons append_assoc)
  qed
qed simp

section \<open>Classification\<close>

lemma starts_with_any_disjoint:
  assumes "list_all (\<lambda>a. list_all (\<lambda>b. \<not> eq_ignore_ascii_case a b) ys) xs"
    and "starts_with_any xs sql"
  shows "\<not> starts_with_any ys sql"
  using assms
  by (fastforce simp: starts_with_any_def list_ex_iff list_all_iff eq_ignore_ascii_case_def
      split: option.splits)

lemma ddl_dml_disjoint:
  "list_all (\<lambda>a. list_all (\<lambda>b. \<not> eq_ignore_ascii_case a b) DML_KEYWORDS) DDL_KEYWORDS"
  by (simp add: DDL_KEYWORDS_def DML_KEYWORDS_def lit_def eq_ignore_ascii_case_def
      to_ascii_lowercase_def to_lower_def char_simps)

section \<open>THEN RETURN\<close>

text \<open>The tokens the detection looks at: words, and literals as word separators.\<close>

fun is_wordlike :: "lexeme \<Rightarrow> bool" where
  "is_wordlike (Word w) = True"
| "is_wordlike (Quoted s) = True"
| "is_wordlike _ = False"

fun lexeme_depth :: "nat \<Rightarrow> lexeme \<Rightarrow> nat" where
  "lexeme_depth d (Word w) = case_step d w"
| "lexeme_depth d _ = d"

fun is_word :: "string \<Rightarrow> lexeme \<Rightarrow> bool" where
  "is_word kw (Word w) = eq_ignore_ascii_case w (lit kw)"
| "is_word kw _ = False"

definition then_return_at :: "nat \<Rightarrow> lexeme list \<Rightarrow> bool" where
  "then_return_at d ts \<longleftrightarrow>
     (\<exists>pre t r post. ts = pre @ t # r # post \<and> is_word ''THEN'' t \<and> is_word ''RETURN'' r
        \<and> foldl lexeme_depth d pre = 0)"

lemma then_not_case_end:
  "is_word ''THEN'' t \<Longrightarrow> lexeme_depth d t = d"
  by (cases t) (auto simp: case_step_def lit_def eq_ignore_ascii_case_def to_ascii_lowercase_def
      to_lower_def char_simps)

lemma returning_loop_filter:
  "returning_loop p d ls = returning_loop p d (filter is_wordlike ls)"
  by (induction p d ls rule: returning_loop.induct) auto

lemma then_return_at_Cons:
  "then_return_at d (t # ts) \<longleftrightarrow>
   (d = 0 \<and> is_word ''THEN'' t \<and> (\<exists>r post. ts = r # post \<and> is_word ''RETURN'' r))
   \<or> then_return_at (lexeme_depth d t) ts"
  (is "?L \<longleftrightarrow> ?A \<or> ?R")
proof
  assume ?L
  then obtain pre a b post where s: "t # ts = pre @ a # b # post" "is_word ''THEN'' a"
    "is_word ''RETURN'' b" "foldl lexeme_depth d pre = 0"
    by (auto simp: then_return_at_def)
  show "?A \<or> ?R"
  proof (cases pre)
    case Nil
    with s show ?thesis by auto
  next
    case (Cons x pre')
    with s have "?R" unfolding then_return_at_def by (intro exI[of _ pre']) auto
    then show ?thesis ..
  qed
next
  assume "?A \<or> ?R"
  then show ?L
  proof
    assume ?A
    then obtain b post where "d = 0" "is_word ''THEN'' t" "ts = b # post" "is_word ''RETURN'' b"
      by blast
    then show ?L unfolding then_return_at_def by (intro exI[of _ "[]"]) simp
  next
    assume ?R
    then obtain pre a b post where "ts = pre @ a # b # post" "is_word ''THEN'' a"
      "is_word ''RETURN'' b" "foldl lexeme_depth (lexeme_depth d t) pre = 0"
      by (auto simp: then_return_at_def)
    then show ?L unfolding then_return_at_def by (intro exI[of _ "t # pre"]) simp
  qed
qed

lemma returning_loop_spec:
  "list_all is_wordlike ts \<Longrightarrow>
   returning_loop p d ts \<longleftrightarrow>
     (p \<and> d = 0 \<and> (\<exists>r post. ts = r # post \<and> is_word ''RETURN'' r)) \<or> then_return_at d ts"
proof (induction ts arbitrary: p d)
  case Nil
  then show ?case by (simp add: then_return_at_def)
next
  case (Cons t ts)
  show ?case
  proof (cases t)
    case (Word w)
    have "is_word ''THEN'' t \<Longrightarrow> lexeme_depth d t = d" by (rule then_not_case_end)
    with Word Cons show ?thesis by (auto simp: then_return_at_Cons)
  qed (use Cons in \<open>auto simp: then_return_at_Cons\<close>)
qed

section \<open>Properties\<close>

text \<open>
  every statement that \<open>split_statements\<close> emits is trimmed, holds a token that is neither
  whitespace nor a comment, and is a fixed point of splitting: no semicolon of it is read as a
  terminator when the statement is lexed again on its own (as the DDL and batch paths do), and
  \<open>strip_trailing_terminators\<close> leaves it unchanged.
\<close>

theorem split_statements_closed:
  assumes "st \<in> set (split_statements sql)"
  shows "trim st = st \<and> significant_lexemes st \<noteq> [] \<and> split_statements st = [st]
    \<and> strip_trailing_terminators st = st"
proof -
  have st: "is_statement st" by (rule split_statements_is_statement[OF assms])
  then have "significant_lexemes st \<noteq> []"
    by (auto simp: is_statement_def significant_lexemes_def filter_empty_conv list_ex_iff
        carries_significant)
  with st split_is_statement[OF st] show ?thesis
    by (simp add: is_statement_def strip_trailing_terminators_def)
qed

theorem split_statements_closed_witness:
  "split_statements (lit ''SELECT 1'') = [lit ''SELECT 1'']"
proof -
  have "lit ''SELECT 1'' \<in> set (split_statements (lit '' ; SELECT 1 ;-- x''))" by code_simp
  from split_statements_closed[OF this] show ?thesis by simp
qed



text \<open>
  The lexer partitions its input: concatenating the texts of the lexemes gives the input back,
  and every lexeme is non-empty (so the iterator ends after at most as many steps as there are
  chars).
\<close>

theorem lex_partition:
  "concat (map lexeme_text (lex sql)) = sql \<and> list_all (\<lambda>l. lexeme_text l \<noteq> []) (lex sql)
   \<and> length (lex sql) \<le> length sql"
proof -
  have ne: "list_all (\<lambda>l. lexeme_text l \<noteq> []) (lex s)" for s
  proof (induction s rule: lex.induct)
    case (1 s)
    then show ?case by (cases "lex s") (auto elim!: lex_ConsD)
  qed
  have "list_all (\<lambda>l. lexeme_text l \<noteq> []) ls \<Longrightarrow> length ls \<le> length (concat (map lexeme_text ls))" for ls
    by (induction ls) (auto simp: Suc_le_eq neq_Nil_conv)
  from this[OF ne[of sql]] ne[of sql] lex_text[of sql] show ?thesis by simp
qed

text \<open>
  C11: identifier quoting cannot be escaped.  Whatever text follows an accepted qualified table name,
  the lexer reads the name back as exactly the quoted identifiers it was built from (with the dot
  between them) and goes on with the following text; the quoted texts hold the names unchanged.
\<close>

theorem qualified_table_not_escapable:
  assumes "qualified_table schema table = Inr t"
  shows "lex (t @ rest) =
    (case schema of
       Some (c # cs) \<Rightarrow> [Quoted (96 # c # cs @ [96]), Other 46, Quoted (96 # table @ [96])]
     | _ \<Rightarrow> [Quoted (96 # table @ [96])]) @ lex rest"
  using assms
  using lex_accepted_ident[of "c # cs" for c cs]
  by (auto simp: qualified_table_def res_simps lex_dot lex_accepted_ident
      split: option.splits list.splits)

theorem qualified_table_not_escapable_witness:
  "lex (lit ''`s`.`t`; DROP'') =
   [Quoted (lit ''`s`''), Other 46, Quoted (lit ''`t`'')] @ lex (lit ''; DROP'')"
proof -
  have "qualified_table (Some (lit ''s'')) (lit ''t'') = Inr (lit ''`s`.`t`'')" by code_simp
  from qualified_table_not_escapable[OF this, of "lit ''; DROP''"] show ?thesis
    by (simp add: lit_def)
qed

text \<open>
  A name is accepted by \<open>quote_ident\<close> exactly when it is non-empty and free of backticks,
  backslashes and control characters; every rejection is an \<open>InvalidArguments\<close> error.
\<close>

theorem quote_ident_total:
  "(\<exists>e. quote_ident i = Inl e \<and> status e = InvalidArguments
      \<and> (i = [] \<or> list_ex bad_ident_char i))
   \<or> quote_ident i = Inr (96 # i @ [96]) \<and> i \<noteq> [] \<and> \<not> list_ex bad_ident_char i"
  by (auto simp: quote_ident_def invalid_argument_def err_def list_ex_iff find_Some_iff
      find_None_iff split: option.splits)

text \<open>
  the bind parameters reported for a statement are pairwise distinct up to ASCII case, and each
  is a name that follows an \<^verbatim>\<open>@\<close> in the statement outside comments and literals: an identifier
  starting with a letter or underscore, or the non-empty backslash-free text between backticks.
\<close>

theorem named_parameters_sound:
  "distinct (map to_ascii_lowercase (named_parameters sql)) \<and>
   list_all (\<lambda>n. \<exists>pre l post. significant_lexemes sql = pre @ Other 64 # l # post \<and> is_param_ref l n)
     (named_parameters sql)"
  using named_parameters_loop_sound[of _ "{}" "significant_lexemes sql"]
  by (simp add: named_parameters_def list_all_iff named_parameters_loop_distinct)

text \<open>
  a statement returns rows exactly when, with comments and punctuation left out, the word
  \<^verbatim>\<open>THEN\<close> is directly followed by the word \<^verbatim>\<open>RETURN\<close> at a point where every \<^verbatim>\<open>CASE\<close> before it has been
  closed by an \<^verbatim>\<open>END\<close>.
\<close>

theorem is_dml_returning_iff:
  "is_dml_returning sql \<longleftrightarrow> then_return_at 0 (filter is_wordlike (lex sql))"
proof -
  have "list_all is_wordlike (filter is_wordlike (lex sql))" by (simp add: list_all_iff)
  from returning_loop_spec[OF this, of False 0] returning_loop_filter[of False 0 "lex sql"]
  show ?thesis by (simp add: is_dml_returning_def)
qed

text \<open>No statement is classified both as DDL and as DML, so the two routes never overlap.\<close>

theorem ddl_dml_exclusive: "\<not> (is_ddl sql \<and> is_dml sql)"
  using starts_with_any_disjoint[OF ddl_dml_disjoint] by (auto simp: is_ddl_def is_dml_def)

end
