(* ===== verification/Metadata.thy ===== *)
theory Metadata
  imports Errors
begin

text \<open>
  Metadata helpers, \<^verbatim>\<open>src/metadata.rs\<close>: the catalog name and its check, and the iterative \<^verbatim>\<open>LIKE\<close> matcher with its backtrack pointers.

  The matcher walks the value by byte offset; the model keeps the offsets in bytes, so a slice at
  an offset that is no char boundary is a panic of the model too.  Its loop runs on fuel, and the
  fuel given is the iteration bound (pattern times value) the source comment claims.
\<close>

section \<open>Catalogs\<close>

definition database_catalog :: "rstring \<Rightarrow> rstring" where
  "database_catalog database =
     (case split_once (ch CHR ''/'') (rev database) of
        None \<Rightarrow> database | Some (di, _) \<Rightarrow> rev di)"

definition check_lookup_catalog :: "rstring option \<Rightarrow> rstring \<Rightarrow> unit result" where
  "check_lookup_catalog catalog reported =
     (case catalog of
        None \<Rightarrow> Inr ()
      | Some name \<Rightarrow>
          if name = reported then Inr ()
          else Inl (err (lit ''catalog not found: this connection has only one catalog'') NotFound))"

section \<open>The LIKE matcher\<close>

definition len_utf8 :: "rchar \<Rightarrow> nat" where
  "len_utf8 c = (if c < 128 then 1 else if c < 2048 then 2 else if c < 65536 then 3 else 4)"

definition byte_len :: "rstring \<Rightarrow> nat" where
  "byte_len s = sum_list (map len_utf8 s)"

text \<open>\<^verbatim>\<open>value[off..]\<close>: the suffix at a byte offset, \<open>None\<close> when it is no char boundary.\<close>

fun slice_from :: "rstring \<Rightarrow> nat \<Rightarrow> rstring option" where
  "slice_from s 0 = Some s"
| "slice_from [] (Suc n) = None"
| "slice_from (c # cs) (Suc n) =
     (if Suc n < len_utf8 c then None else slice_from cs (Suc n - len_utf8 c))"

datatype like_outcome = Panic | Returned bool

text \<open>\<^verbatim>\<open>value[off..].chars().next().expect(...)\<close>\<close>

definition char_at :: "rstring \<Rightarrow> nat \<Rightarrow> rchar option" where
  "char_at s off = (case slice_from s off of Some (c # _) \<Rightarrow> Some c | _ \<Rightarrow> None)"

text \<open>The closing loop: skip the \<^verbatim>\<open>%\<close> at the end of the pattern.\<close>

fun trailing_percents :: "rstring \<Rightarrow> bool" where
  "trailing_percents [] = True"
| "trailing_percents (c # p) = (c = ch CHR ''%'' \<and> trailing_percents p)"

fun like_loop ::
  "nat \<Rightarrow> rstring \<Rightarrow> rstring \<Rightarrow> nat \<Rightarrow> nat \<Rightarrow> (nat \<times> nat) option \<Rightarrow> like_outcome option" where
  "like_loop 0 p v pi vi star = None"
| "like_loop (Suc fuel) p v pi vi star =
     (if \<not> vi < byte_len v then Some (Returned (trailing_percents (drop pi p)))
      else case char_at v vi of
        None \<Rightarrow> Some Panic
      | Some c \<Rightarrow>
          if pi < length p \<and> p ! pi = ch CHR ''%'' then
            like_loop fuel p v (pi + 1) vi (Some (pi, vi))
          else if pi < length p \<and> (p ! pi = ch CHR ''_'' \<or> p ! pi = c) then
            like_loop fuel p v (pi + 1) (vi + len_utf8 c) star
          else (case star of
            Some (sp, sv) \<Rightarrow>
              (case char_at v sv of
                 None \<Rightarrow> Some Panic
               | Some skipped \<Rightarrow>
                   like_loop fuel p v (sp + 1) (sv + len_utf8 skipped)
                     (Some (sp, sv + len_utf8 skipped)))
          | None \<Rightarrow> Some (Returned False)))"

definition like_bound :: "rstring \<Rightarrow> rstring \<Rightarrow> nat" where
  "like_bound p v = (byte_len v + 2) * (length p + 1)"

definition like_match :: "rstring \<Rightarrow> rstring \<Rightarrow> like_outcome option" where
  "like_match p v = like_loop (like_bound p v) p v 0 0 None"

section \<open>What a LIKE pattern means\<close>

text \<open>The reference semantics: \<^verbatim>\<open>%\<close> stands for any run of chars, \<^verbatim>\<open>_\<close> for one char.\<close>

fun like_spec :: "rstring \<Rightarrow> rstring \<Rightarrow> bool" where
  "like_spec [] v = (v = [])"
| "like_spec (x # p) [] = (x = 37 \<and> like_spec p [])"
| "like_spec (x # p) (c # v) =
     (if x = 37 then like_spec p (c # v) \<or> like_spec (x # p) v
      else (x = 95 \<or> x = c) \<and> like_spec p v)"

definition seg_match :: "rstring \<Rightarrow> rstring \<Rightarrow> bool" where
  "seg_match seg m \<longleftrightarrow> list_all2 (\<lambda>x c. x \<noteq> 37 \<and> (x = 95 \<or> x = c)) seg m"

lemma seg_match_simps [simp]:
  "seg_match [] m \<longleftrightarrow> m = []"
  "seg_match seg [] \<longleftrightarrow> seg = []"
  by (auto simp: seg_match_def)

lemma seg_match_snoc:
  "seg_match seg m \<Longrightarrow> x \<noteq> 37 \<Longrightarrow> x = 95 \<or> x = c \<Longrightarrow> seg_match (seg @ [x]) (m @ [c])"
  by (auto simp: seg_match_def intro: list_all2_appendI)

lemma seg_match_length: "seg_match seg m \<Longrightarrow> length m = length seg"
  by (simp add: seg_match_def list_all2_lengthD)

lemma like_spec_seg: "seg_match seg m \<Longrightarrow> like_spec (seg @ q) (m @ w) \<longleftrightarrow> like_spec q w"
  unfolding seg_match_def by (induction seg m rule: list_all2_induct) auto

text \<open>A percent-free segment consumes exactly its own length.\<close>

lemma like_spec_segD:
  "37 \<notin> set seg \<Longrightarrow> like_spec (seg @ q) s \<Longrightarrow>
   length seg \<le> length s \<and> like_spec q (drop (length seg) s)"
proof (induction seg arbitrary: s)
  case (Cons x seg)
  then show ?case by (cases s) auto
qed simp

lemma like_spec_percent: "like_spec (37 # q) s \<longleftrightarrow> (\<exists>k \<le> length s. like_spec q (drop k s))"
proof (induction s)
  case (Cons c s)
  show ?case
  proof
    assume "like_spec (37 # q) (c # s)"
    then consider "like_spec q (c # s)" | "like_spec (37 # q) s" by auto
    then show "\<exists>k \<le> length (c # s). like_spec q (drop k (c # s))"
    proof cases
      case 1
      then show ?thesis by (intro exI[of _ 0]) simp
    next
      case 2
      with Cons obtain k where "k \<le> length s" "like_spec q (drop k s)" by auto
      then show ?thesis by (intro exI[of _ "Suc k"]) simp
    qed
  next
    assume "\<exists>k \<le> length (c # s). like_spec q (drop k (c # s))"
    then obtain k where k: "k \<le> length (c # s)" "like_spec q (drop k (c # s))" by blast
    with Cons show "like_spec (37 # q) (c # s)" by (cases k) auto
  qed
qed simp

lemma like_spec_percent_drop: "like_spec (37 # q) (drop k s) \<Longrightarrow> like_spec (37 # q) s"
proof -
  assume "like_spec (37 # q) (drop k s)"
  then obtain j where j: "j \<le> length (drop k s)" "like_spec q (drop (j + k) s)"
    by (auto simp: like_spec_percent)
  show ?thesis
  proof (cases "k \<le> length s")
    case True
    with j show ?thesis by (auto simp: like_spec_percent intro!: exI[of _ "j + k"])
  next
    case False
    with j show ?thesis by (auto simp: like_spec_percent intro!: exI[of _ "length s"])
  qed
qed

lemma seg_no_percent: "seg_match seg m \<Longrightarrow> 37 \<notin> set seg"
  unfolding seg_match_def by (induction seg m rule: list_all2_induct) auto

text \<open>The three facts behind the greedy search: only the last \<^verbatim>\<open>%\<close> has to be reconsidered.\<close>

lemma drop_length_append: "drop (length m + k) (m @ w) = drop k w"
  by simp

lemma like_spec_commit:
  assumes "seg_match seg m"
  shows "like_spec (37 # seg @ 37 # q) (m @ w) \<longleftrightarrow> like_spec (37 # q) w"
proof
  assume "like_spec (37 # seg @ 37 # q) (m @ w)"
  then obtain k where k: "like_spec (seg @ 37 # q) (drop k (m @ w))"
    by (auto simp: like_spec_percent)
  then have "like_spec (37 # q) (drop (length seg) (drop k (m @ w)))"
    using like_spec_segD[OF seg_no_percent[OF assms]] by blast
  moreover have "drop (length seg) (drop k (m @ w)) = drop k w"
    by (simp only: drop_drop seg_match_length[OF assms, symmetric] drop_length_append)
  ultimately show "like_spec (37 # q) w" using like_spec_percent_drop by metis
next
  assume "like_spec (37 # q) w"
  then show "like_spec (37 # seg @ 37 # q) (m @ w)"
    using like_spec_seg[OF assms, of "37 # q" w] like_spec_percent by (metis drop0 le0)
qed

lemma like_spec_end:
  assumes "seg_match seg m"
  shows "like_spec (37 # seg @ q) m \<longleftrightarrow> like_spec q []"
proof
  assume "like_spec (37 # seg @ q) m"
  then obtain k where k: "k \<le> length m" "like_spec (seg @ q) (drop k m)"
    by (auto simp: like_spec_percent)
  then have "length seg \<le> length (drop k m) \<and> like_spec q (drop (length seg) (drop k m))"
    using like_spec_segD[OF seg_no_percent[OF assms]] by blast
  with seg_match_length[OF assms] show "like_spec q []" by simp
next
  assume "like_spec q []"
  then show "like_spec (37 # seg @ q) m"
    using like_spec_seg[OF assms, of q "[]"] like_spec_percent by (metis append_Nil2 drop0 le0)
qed

lemma like_spec_retry:
  assumes "seg_match seg m" and "\<not> like_spec q w" and "m @ w = c # s"
  shows "like_spec (37 # seg @ q) (c # s) \<longleftrightarrow> like_spec (37 # seg @ q) s"
  using like_spec_seg[OF assms(1), of q w] assms(2,3) by simp

lemma like_spec_Nil: "like_spec q [] \<longleftrightarrow> trailing_percents q"
  by (induction q) auto

section \<open>The loop refines the reference\<close>

lemma byte_len_simps [simp]:
  "byte_len [] = 0" "byte_len (c # s) = len_utf8 c + byte_len s"
  "byte_len (a @ b) = byte_len a + byte_len b"
  by (simp_all add: byte_len_def)

lemma len_utf8_pos [simp]: "0 < len_utf8 c"
  by (simp add: len_utf8_def)

lemma byte_len_0 [simp]: "byte_len s = 0 \<longleftrightarrow> s = []"
  by (cases s) auto

lemma slice_from_prefix [simp]: "slice_from (a @ w) (byte_len a) = Some w"
proof (induction a)
  case (Cons c a)
  obtain n where n: "len_utf8 c = Suc n" using len_utf8_pos[of c] by (cases "len_utf8 c") auto
  with Cons show ?case by simp
qed simp

lemma char_at_prefix [simp]: "char_at (a @ c # w) (byte_len a) = Some c"
  by (simp add: char_at_def)

text \<open>
  The loop invariant, by the prefix \<open>a\<close> already walked and the suffix \<open>w\<close> ahead.  With a backtrack
  pointer, the pattern between its \<^verbatim>\<open>%\<close> and \<open>pi\<close> is percent-free and has matched the part \<open>m\<close> of the
  value between the two value offsets.
\<close>

definition like_inv :: "rstring \<Rightarrow> rstring \<Rightarrow> nat \<Rightarrow> nat \<Rightarrow> (nat \<times> nat) option \<Rightarrow> rstring \<Rightarrow> rstring \<Rightarrow> bool" where
  "like_inv p v pi vi star a w \<longleftrightarrow>
     v = a @ w \<and> vi = byte_len a \<and> pi \<le> length p \<and>
     (case star of
        None \<Rightarrow> like_spec p v = like_spec (drop pi p) w
      | Some (sp, sv) \<Rightarrow> \<exists>b m seg.
          a = b @ m \<and> sv = byte_len b \<and> drop sp p = 37 # seg @ drop pi p \<and> sp < length p
          \<and> seg_match seg m \<and> like_spec p v = like_spec (drop sp p) (m @ w))"

definition like_measure :: "rstring \<Rightarrow> rstring \<Rightarrow> nat \<Rightarrow> (nat \<times> nat) option \<Rightarrow> nat" where
  "like_measure p v pi star =
     (case star of None \<Rightarrow> byte_len v + 1 | Some (sp, sv) \<Rightarrow> byte_len v - sv) * (length p + 1)
     + (length p - pi)"

lemma like_inv_percent:
  assumes inv: "like_inv p v pi vi star a w" and pi: "pi < length p" "p ! pi = 37"
  shows "like_inv p v (pi + 1) vi (Some (pi, vi)) a w"
    and "like_measure p v (pi + 1) (Some (pi, vi)) < like_measure p v pi star"
proof -
  have d: "drop pi p = 37 # drop (pi + 1) p" using pi by (simp add: Cons_nth_drop_Suc[symmetric])
  have "like_spec p v = like_spec (drop pi p) w"
  proof (cases star)
    case None
    with inv show ?thesis by (auto simp: like_inv_def)
  next
    case (Some q)
    with inv obtain sp b m seg where *: "drop sp p = 37 # seg @ drop pi p" "seg_match seg m"
      "like_spec p v = like_spec (drop sp p) (m @ w)"
      by (cases q) (auto simp: like_inv_def)
    with like_spec_commit[OF *(2)] d show ?thesis by simp
  qed
  with inv pi d show "like_inv p v (pi + 1) vi (Some (pi, vi)) a w"
    by (auto simp: like_inv_def)
  have "byte_len v - vi \<le> (case star of None \<Rightarrow> byte_len v + 1 | Some (sp, sv) \<Rightarrow> byte_len v - sv)"
    using inv by (auto simp: like_inv_def split: option.splits)
  then have "(byte_len v - vi) * (length p + 1)
      \<le> (case star of None \<Rightarrow> byte_len v + 1 | Some (sp, sv) \<Rightarrow> byte_len v - sv) * (length p + 1)"
    by (rule mult_le_mono1)
  with pi show "like_measure p v (pi + 1) (Some (pi, vi)) < like_measure p v pi star"
    by (simp add: like_measure_def)
qed

lemma like_inv_char:
  assumes inv: "like_inv p v pi vi star a (c # w)" and pi: "pi < length p"
    and x: "p ! pi \<noteq> 37" "p ! pi = 95 \<or> p ! pi = c"
  shows "like_inv p v (pi + 1) (vi + len_utf8 c) star (a @ [c]) w"
    and "like_measure p v (pi + 1) star < like_measure p v pi star"
proof -
  have d: "drop pi p = p ! pi # drop (pi + 1) p" using pi by (simp add: Cons_nth_drop_Suc[symmetric])
  show "like_inv p v (pi + 1) (vi + len_utf8 c) star (a @ [c]) w"
  proof (cases star)
    case None
    with inv pi d x show ?thesis by (auto simp: like_inv_def)
  next
    case (Some q)
    with inv obtain sp sv b m seg where *: "q = (sp, sv)" "a = b @ m" "sv = byte_len b"
      "drop sp p = 37 # seg @ drop pi p" "sp < length p" "seg_match seg m"
      "like_spec p v = like_spec (drop sp p) (m @ c # w)"
      by (cases q) (auto simp: like_inv_def)
    have "drop sp p = 37 # (seg @ [p ! pi]) @ drop (pi + 1) p" using *(4) d by simp
    moreover have "seg_match (seg @ [p ! pi]) (m @ [c])" using seg_match_snoc *(6) x by blast
    moreover have "v = (a @ [c]) @ w" "vi + len_utf8 c = byte_len (a @ [c])" "pi + 1 \<le> length p"
      using inv pi by (auto simp: like_inv_def)
    moreover have "a @ [c] = b @ (m @ [c])" and "like_spec p v = like_spec (drop sp p) ((m @ [c]) @ w)"
      using *(2,7) by simp_all
    ultimately show ?thesis
      unfolding like_inv_def Some *(1) option.case prod.case using *(3,5) by blast
  qed
  show "like_measure p v (pi + 1) star < like_measure p v pi star"
    using pi by (simp add: like_measure_def)
qed

lemma like_inv_backtrack:
  assumes inv: "like_inv p v pi vi (Some (sp, sv)) a w" and w: "w \<noteq> []"
    and bad: "\<not> like_spec (drop pi p) w"
  obtains c b s where "v = b @ c # s" "sv = byte_len b"
    "like_inv p v (sp + 1) (sv + len_utf8 c) (Some (sp, sv + len_utf8 c)) (b @ [c]) s"
    "like_measure p v (sp + 1) (Some (sp, sv + len_utf8 c)) < like_measure p v pi (Some (sp, sv))"
proof -
  from inv obtain b m seg where *: "v = a @ w" "a = b @ m" "sv = byte_len b"
    "drop sp p = 37 # seg @ drop pi p" "sp < length p" "seg_match seg m"
    "like_spec p v = like_spec (drop sp p) (m @ w)"
    by (auto simp: like_inv_def)
  from w obtain c s where cs: "m @ w = c # s" by (cases "m @ w") auto
  have d: "drop sp p = 37 # drop (sp + 1) p"
    using *(4,5) by (metis Cons_nth_drop_Suc Suc_eq_plus1 list.inject)
  have "like_spec p v = like_spec (drop sp p) s"
    using like_spec_retry[OF *(6) bad cs] *(4,7) cs by simp
  with * cs d have i: "like_inv p v (sp + 1) (sv + len_utf8 c) (Some (sp, sv + len_utf8 c)) (b @ [c]) s"
    by (auto simp: like_inv_def)
  have "byte_len v - (sv + len_utf8 c) + 1 \<le> byte_len v - sv"
    using * cs arg_cong[OF cs, of byte_len] by (simp add: Suc_le_eq)
  then have "(byte_len v - (sv + len_utf8 c)) * (length p + 1) + (length p + 1)
      \<le> (byte_len v - sv) * (length p + 1)"
    by (metis add_mult_distrib mult_1 mult_le_mono1)
  then have "(byte_len v - (sv + len_utf8 c)) * (length p + 1) + (length p - (sp + 1))
      < (byte_len v - sv) * (length p + 1) + (length p - pi)"
    by linarith
  then have "like_measure p v (sp + 1) (Some (sp, sv + len_utf8 c)) < like_measure p v pi (Some (sp, sv))"
    by (simp only: like_measure_def option.case prod.case)
  with i * cs that show thesis by (metis append.assoc)
qed

lemma like_inv_end:
  assumes "like_inv p v pi vi star a []"
  shows "trailing_percents (drop pi p) = like_spec p v"
  using assms
  by (cases star) (auto simp: like_inv_def like_spec_Nil like_spec_end)

lemma like_spec_mismatch:
  assumes "pi < length p \<longrightarrow> p ! pi \<noteq> 37 \<and> p ! pi \<noteq> 95 \<and> p ! pi \<noteq> c"
  shows "\<not> like_spec (drop pi p) (c # w)"
proof (cases "pi < length p")
  case True
  then have "drop pi p = p ! pi # drop (Suc pi) p" by (simp add: Cons_nth_drop_Suc)
  with True assms show ?thesis by simp
qed simp

lemma like_loop_correct:
  "like_inv p v pi vi star a w \<Longrightarrow> like_measure p v pi star < fuel \<Longrightarrow>
   like_loop fuel p v pi vi star = Some (Returned (like_spec p v))"
proof (induction fuel arbitrary: pi vi star a w)
  case (Suc fuel)
  note inv = Suc.prems(1)
  have v: "v = a @ w" "vi = byte_len a" using inv by (auto simp: like_inv_def)
  show ?case
  proof (cases w)
    case Nil
    with inv v like_inv_end[of p v pi vi star a] show ?thesis by simp
  next
    case (Cons c w')
    then have c: "vi < byte_len v" "char_at v vi = Some c" using v by simp_all
    consider (percent) "pi < length p" "p ! pi = 37"
      | (char) "pi < length p" "p ! pi \<noteq> 37" "p ! pi = 95 \<or> p ! pi = c"
      | (retry) sp sv where "pi < length p \<longrightarrow> p ! pi \<noteq> 37 \<and> p ! pi \<noteq> 95 \<and> p ! pi \<noteq> c" "star = Some (sp, sv)"
      | (fail) "pi < length p \<longrightarrow> p ! pi \<noteq> 37 \<and> p ! pi \<noteq> 95 \<and> p ! pi \<noteq> c" "star = None"
      by (cases star) auto
    then show ?thesis
    proof cases
      case percent
      with c Suc.IH like_inv_percent[OF inv percent] Suc.prems(2) show ?thesis by simp
    next
      case char
      with c Suc.IH like_inv_char[OF inv[unfolded Cons] char] Suc.prems(2) show ?thesis by simp
    next
      case retry
      have "\<not> like_spec (drop pi p) w"
        using like_spec_mismatch[OF retry(1)] Cons by simp
      with like_inv_backtrack[OF inv[unfolded retry(2)]] Cons obtain d b s where
        r: "v = b @ d # s" "sv = byte_len b"
        "like_inv p v (sp + 1) (sv + len_utf8 d) (Some (sp, sv + len_utf8 d)) (b @ [d]) s"
        "like_measure p v (sp + 1) (Some (sp, sv + len_utf8 d)) < like_measure p v pi (Some (sp, sv))"
        by blast
      then have "char_at v sv = Some d" by simp
      with c retry Suc.IH[OF r(3)] r(4) Suc.prems(2) show ?thesis by auto
    next
      case fail
      with inv like_spec_mismatch[OF fail(1), of w'] Cons have "\<not> like_spec p v"
        by (auto simp: like_inv_def)
      with c fail show ?thesis by auto
    qed
  qed
qed simp

lemma like_match_spec: "like_match p v = Some (Returned (like_spec p v))"
proof -
  have "like_inv p v 0 0 None [] v" by (simp add: like_inv_def)
  moreover have "like_measure p v 0 None < like_bound p v"
    by (simp add: like_measure_def like_bound_def)
  ultimately show ?thesis unfolding like_match_def by (rule like_loop_correct)
qed

section \<open>Properties\<close>

text \<open>
  C12: the iterative matcher computes the meaning of the pattern.  For every pattern and value its
  loop ends within \<open>(byte_len value + 2) * (length pattern + 1)\<close> iterations, never slices the value
  off a char boundary, and returns whether the value matches, \<^verbatim>\<open>%\<close> standing for any run of chars
  and \<^verbatim>\<open>_\<close> for exactly one char.
\<close>

theorem like_match_correct: "like_match p v = Some (Returned (like_spec p v))"
  by (rule like_match_spec)

text \<open>
  For a database path the catalog is its last path segment, and a lookup catalog is accepted
  exactly when it is absent or equal to the reported one; otherwise the lookup is \<open>NotFound\<close>.
\<close>

theorem lookup_catalog_spec:
  "check_lookup_catalog cat (database_catalog (pre @ lit ''/'' @ d)) =
     (if 47 \<in> set d then check_lookup_catalog cat (database_catalog d)
      else if cat = None \<or> cat = Some d then Inr ()
      else Inl (err (lit ''catalog not found: this connection has only one catalog'') NotFound))"
proof -
  have nd: "47 \<notin> set d \<Longrightarrow> split_once 47 (rev (pre @ 47 # d)) = Some (rev d, rev pre)"
    by (simp add: split_once_Some)
  have "47 \<in> set d \<Longrightarrow> database_catalog (pre @ 47 # d) = database_catalog d"
  proof -
    assume "47 \<in> set d"
    then obtain a b where ab: "split_once 47 (rev d) = Some (a, b)"
      using split_once_None[of 47 "rev d"] by (cases "split_once 47 (rev d)") auto
    then have "split_once 47 (rev (pre @ 47 # d)) = Some (a, b @ 47 # rev pre)"
      by (simp add: split_once_Some)
    with ab show ?thesis by (simp add: database_catalog_def)
  qed
  with nd show ?thesis
    by (auto simp: database_catalog_def check_lookup_catalog_def lit_def split: option.splits)
qed

end
