(* ===== verification/Txn.thy ===== *)
theory Txn
  imports Errors
begin

text \<open>
  The manual-transaction state machine, \<^verbatim>\<open>src/connection/txn.rs\<close>, with the connection operations
  that drive it (\<^verbatim>\<open>commit\<close>, \<^verbatim>\<open>rollback\<close>, the autocommit toggle of \<^verbatim>\<open>src/connection.rs\<close>) and the statement
  paths that feed it (\<^verbatim>\<open>run_or_buffer\<close>, \<^verbatim>\<open>manual_read_transaction\<close> of \<^verbatim>\<open>src/statement.rs\<close>, the manual arm
  of \<^verbatim>\<open>run_ingest_mutations\<close>).

  Spanner's read-only snapshots, statements and mutations are opaque, so they are type variables.
  Every \<^verbatim>\<open>TxnState\<close> method is a function on the state under the lock; a failing method leaves the state
  as it was, so it returns the new state only on success.  A panic (a \<^verbatim>\<open>drain\<close> past the end, a failed
  \<^verbatim>\<open>debug_assert\<close>) is \<open>None\<close>.
\<close>

section \<open>The transaction state\<close>

datatype txn_kind = KRead | KDml

datatype ('sn, 's, 'm) manual_txn = Unset | Read 'sn | Dml "'s list" "'m list"

record ('sn, 's, 'm) txn_state =
  autocommit :: bool
  txn :: "('sn, 's, 'm) manual_txn"

definition new_txn_state :: "('sn, 's, 'm) txn_state" where
  "new_txn_state = \<lparr>autocommit = True, txn = Unset\<rparr>"

fun kind :: "('sn, 's, 'm) manual_txn \<Rightarrow> txn_kind option" where
  "kind Unset = None"
| "kind (Read _) = Some KRead"
| "kind (Dml _ _) = Some KDml"

fun has_pending_work :: "('sn, 's, 'm) manual_txn \<Rightarrow> bool" where
  "has_pending_work (Dml ss ms) = (ss \<noteq> [] \<or> ms \<noteq> [])"
| "has_pending_work _ = False"

definition check_kind_allowed :: "txn_kind \<Rightarrow> ('sn, 's, 'm) txn_state \<Rightarrow> unit result" where
  "check_kind_allowed attempted st =
     (if autocommit st then Inr ()
      else case kind (txn st) of
             None \<Rightarrow> Inr ()
           | Some active \<Rightarrow>
               if active = attempted then Inr ()
               else Inl (invalid_state (lit ''cannot mix kinds in a manual transaction'')))"

fun read_txn :: "('sn, 's, 'm) manual_txn \<Rightarrow> 'sn option" where
  "read_txn (Read sn) = Some sn"
| "read_txn _ = None"

definition start_read_txn ::
  "'sn \<Rightarrow> ('sn, 's, 'm) txn_state \<Rightarrow> (('sn, 's, 'm) txn_state \<times> 'sn) result" where
  "start_read_txn sn st =
     try_bind (check_kind_allowed KRead st) (\<lambda>_.
       case txn st of
         Read existing \<Rightarrow> Inr (st, existing)
       | _ \<Rightarrow> Inr (st\<lparr>txn := Read sn\<rparr>, sn))"

definition buffer_dml ::
  "'s list \<Rightarrow> ('sn, 's, 'm) txn_state \<Rightarrow> ('sn, 's, 'm) txn_state result" where
  "buffer_dml new st =
     try_bind (check_kind_allowed KDml st) (\<lambda>_.
       if new = [] then Inr st
       else case txn st of
              Dml ss ms \<Rightarrow> Inr (st\<lparr>txn := Dml (ss @ new) ms\<rparr>)
            | _ \<Rightarrow> Inr (st\<lparr>txn := Dml new []\<rparr>))"

definition buffer_mutation ::
  "'m \<Rightarrow> ('sn, 's, 'm) txn_state \<Rightarrow> ('sn, 's, 'm) txn_state result" where
  "buffer_mutation m st =
     try_bind (check_kind_allowed KDml st) (\<lambda>_.
       case txn st of
         Dml ss ms \<Rightarrow> Inr (st\<lparr>txn := Dml ss (ms @ [m])\<rparr>)
       | _ \<Rightarrow> Inr (st\<lparr>txn := Dml [] [m]\<rparr>))"

definition enter_autocommit ::
  "('sn, 's, 'm) txn_state \<Rightarrow> ('sn, 's, 'm) txn_state \<times> ('sn, 's, 'm) manual_txn" where
  "enter_autocommit st = (st\<lparr>autocommit := True, txn := Unset\<rparr>, txn st)"

definition restore_manual ::
  "('sn, 's, 'm) manual_txn \<Rightarrow> ('sn, 's, 'm) txn_state \<Rightarrow> ('sn, 's, 'm) txn_state option" where
  "restore_manual work st =
     (case txn st of Unset \<Rightarrow> Some (st\<lparr>autocommit := False, txn := work\<rparr>) | _ \<Rightarrow> None)"

text \<open>\<^verbatim>\<open>Vec::drain(..n)\<close>, which panics past the end.\<close>

definition drain :: "nat \<Rightarrow> 'a list \<Rightarrow> 'a list option" where
  "drain n xs = (if n \<le> length xs then Some (drop n xs) else None)"

definition finish_commit ::
  "('sn, 's, 'm) manual_txn \<Rightarrow> ('sn, 's, 'm) txn_state \<Rightarrow> ('sn, 's, 'm) txn_state option" where
  "finish_commit applied st =
     map_option (\<lambda>t. st\<lparr>txn := if has_pending_work t then t else Unset\<rparr>)
       (case (txn st, applied) of
          (Dml ss ms, Dml as am) \<Rightarrow>
            Option.bind (drain (length as) ss) (\<lambda>ss'.
              map_option (\<lambda>ms'. Dml ss' ms') (drain (length am) ms))
        | (t, _) \<Rightarrow> Some t)"

definition check_commit_writable :: "bool \<Rightarrow> ('sn, 's, 'm) manual_txn \<Rightarrow> unit result" where
  "check_commit_writable read_only work =
     (if read_only \<and> has_pending_work work
      then Inl (invalid_state (lit ''cannot commit buffered DML: the connection is read-only''))
      else Inr ())"

section \<open>The operations that use it\<close>

text \<open>
  \<^verbatim>\<open>apply_manual_txn\<close> with \<^verbatim>\<open>apply_transaction\<close>: \<open>write_only\<close> and \<open>run_batch\<close> stand for the two commit
  runners, from a server state to its answer and the next server state.
\<close>

definition apply_transaction ::
  "('srv \<Rightarrow> 'm list \<Rightarrow> unit result \<times> 'srv) \<Rightarrow>
   ('srv \<Rightarrow> 's list \<Rightarrow> 'm list \<Rightarrow> int result \<times> 'srv) \<Rightarrow>
   's list \<Rightarrow> 'm list \<Rightarrow> 'srv \<Rightarrow> unit result \<times> 'srv" where
  "apply_transaction write_only run_batch ss ms srv =
     (if ss = [] then write_only srv ms
      else case run_batch srv ss ms of
             (Inl e, srv') \<Rightarrow> (Inl e, srv')
           | (Inr _, srv') \<Rightarrow> (Inr (), srv'))"

definition apply_manual_txn ::
  "('srv \<Rightarrow> 'm list \<Rightarrow> unit result \<times> 'srv) \<Rightarrow>
   ('srv \<Rightarrow> 's list \<Rightarrow> 'm list \<Rightarrow> int result \<times> 'srv) \<Rightarrow>
   bool \<Rightarrow> ('sn, 's, 'm) manual_txn \<Rightarrow> 'srv \<Rightarrow> unit result \<times> 'srv" where
  "apply_manual_txn write_only run_batch read_only work srv =
     (case check_commit_writable read_only work of
        Inl e \<Rightarrow> (Inl e, srv)
      | Inr _ \<Rightarrow>
          (case work of
             Dml ss ms \<Rightarrow> apply_transaction write_only run_batch ss ms srv
           | _ \<Rightarrow> (Inr (), srv)))"

text \<open>\<^verbatim>\<open>commit\<close> up to the clone of the buffered state, under its first lock acquisition.\<close>

definition commit_begin :: "('sn, 's, 'm) txn_state \<Rightarrow> ('sn, 's, 'm) manual_txn result" where
  "commit_begin st =
     (if autocommit st
      then Inl (invalid_state (lit ''commit invoked with autocommit enabled; no active transaction''))
      else Inr (txn st))"

definition rollback :: "('sn, 's, 'm) txn_state \<Rightarrow> ('sn, 's, 'm) txn_state result" where
  "rollback st =
     (if autocommit st
      then Inl (invalid_state (lit ''rollback invoked with autocommit enabled; no active transaction''))
      else Inr (st\<lparr>txn := Unset\<rparr>))"

text \<open>The first lock acquisition of \<^verbatim>\<open>set_option(AutoCommit)\<close>: the new state and the work to commit.\<close>

definition toggle_begin ::
  "bool \<Rightarrow> ('sn, 's, 'm) txn_state \<Rightarrow>
   ('sn, 's, 'm) txn_state \<times> ('sn, 's, 'm) manual_txn option" where
  "toggle_begin enable st =
     (if enable \<and> \<not> autocommit st then apsnd Some (enter_autocommit st)
      else (st\<lparr>autocommit := enable\<rparr>, None))"

text \<open>The statement paths, each one lock acquisition.\<close>

definition run_or_buffer ::
  "('srv \<Rightarrow> 's list \<Rightarrow> int result \<times> 'srv) \<Rightarrow> 's list \<Rightarrow> 'srv \<Rightarrow> ('sn, 's, 'm) txn_state \<Rightarrow>
   int option result \<times> 'srv \<times> ('sn, 's, 'm) txn_state" where
  "run_or_buffer run_batch new srv st =
     (if \<not> autocommit st then
        (case buffer_dml new st of
           Inl e \<Rightarrow> (Inl e, srv, st)
         | Inr st' \<Rightarrow> (Inr None, srv, st'))
      else
        (case run_batch srv new of
           (Inl e, srv') \<Rightarrow> (Inl e, srv', st)
         | (Inr n, srv') \<Rightarrow> (Inr (Some n), srv', st)))"

text \<open>The buffering loop of a manual-mode ingest; an error ends it with what was buffered so far.\<close>

fun buffer_mutations ::
  "'m list \<Rightarrow> ('sn, 's, 'm) txn_state \<Rightarrow> unit result \<times> ('sn, 's, 'm) txn_state" where
  "buffer_mutations [] st = (Inr (), st)"
| "buffer_mutations (m # ms) st =
     (case buffer_mutation m st of
        Inl e \<Rightarrow> (Inl e, st)
      | Inr st' \<Rightarrow> buffer_mutations ms st')"

text \<open>
  \<^verbatim>\<open>manual_read_transaction\<close>: the check under the first lock, the build outside the lock (\<open>built\<close>, in
  which the state may have moved from \<open>st\<close> to \<open>st2\<close>), the install under the second lock.
\<close>

definition read_txn_check :: "('sn, 's, 'm) txn_state \<Rightarrow> 'sn option option" where
  "read_txn_check st =
     (if autocommit st then Some None
      else case read_txn (txn st) of Some sn \<Rightarrow> Some (Some sn) | None \<Rightarrow> None)"

definition read_txn_install ::
  "'sn \<Rightarrow> ('sn, 's, 'm) txn_state \<Rightarrow> (('sn, 's, 'm) txn_state \<times> 'sn option) result" where
  "read_txn_install sn st =
     (if autocommit st then Inr (st, None)
      else try_bind (start_read_txn sn st) (\<lambda>(st', sn'). Inr (st', Some sn')))"

definition manual_read_transaction ::
  "('sn, 's, 'm) txn_state \<Rightarrow> 'sn result \<Rightarrow> ('sn, 's, 'm) txn_state \<Rightarrow>
   (('sn, 's, 'm) txn_state \<times> 'sn option) result" where
  "manual_read_transaction st built st2 =
     (case read_txn_check st of
        Some r \<Rightarrow> Inr (st, r)
      | None \<Rightarrow> try_bind built (\<lambda>sn. read_txn_install sn st2))"

text \<open>
  \<^verbatim>\<open>commit\<close> and \<^verbatim>\<open>set_option(AutoCommit)\<close> run to the end with no statement in between; \<open>apply\<close> is
  \<open>apply_manual_txn\<close> with its runners, and the resulting state is \<open>None\<close> on a panic.
\<close>

definition commit ::
  "(('sn, 's, 'm) manual_txn \<Rightarrow> 'srv \<Rightarrow> unit result \<times> 'srv) \<Rightarrow> ('sn, 's, 'm) txn_state \<Rightarrow> 'srv \<Rightarrow>
   unit result \<times> 'srv \<times> ('sn, 's, 'm) txn_state option" where
  "commit apply st srv =
     (case commit_begin st of
        Inl e \<Rightarrow> (Inl e, srv, Some st)
      | Inr work \<Rightarrow>
          (case apply work srv of
             (Inl e, srv') \<Rightarrow> (Inl e, srv', Some st)
           | (Inr _, srv') \<Rightarrow> (Inr (), srv', finish_commit work st)))"

definition set_autocommit ::
  "(('sn, 's, 'm) manual_txn \<Rightarrow> 'srv \<Rightarrow> unit result \<times> 'srv) \<Rightarrow> bool \<Rightarrow> ('sn, 's, 'm) txn_state \<Rightarrow> 'srv \<Rightarrow>
   unit result \<times> 'srv \<times> ('sn, 's, 'm) txn_state option" where
  "set_autocommit apply enable st srv =
     (case toggle_begin enable st of
        (st', None) \<Rightarrow> (Inr (), srv, Some st')
      | (st', Some work) \<Rightarrow>
          (case apply work srv of
             (Inl e, srv') \<Rightarrow> (Inl e, srv', restore_manual work st')
           | (Inr _, srv') \<Rightarrow> (Inr (), srv', Some st')))"

section \<open>Facts about single operations\<close>

text \<open>The buffered statements and mutations of a manual transaction.\<close>

fun stmts :: "('sn, 's, 'm) manual_txn \<Rightarrow> 's list" where
  "stmts (Dml ss ms) = ss"
| "stmts _ = []"

fun muts :: "('sn, 's, 'm) manual_txn \<Rightarrow> 'm list" where
  "muts (Dml ss ms) = ms"
| "muts _ = []"

text \<open>The state invariant of \<^verbatim>\<open>TxnState\<close>: nothing pends in autocommit mode, no empty DML buffer.\<close>

definition txn_wf :: "('sn, 's, 'm) txn_state \<Rightarrow> bool" where
  "txn_wf st \<longleftrightarrow> (autocommit st \<longrightarrow> txn st = Unset) \<and> (kind (txn st) = Some KDml \<longrightarrow> has_pending_work (txn st))"

lemma kind_simps [simp]:
  "kind t = Some KDml \<longleftrightarrow> (\<exists>ss ms. t = Dml ss ms)"
  "kind t = Some KRead \<longleftrightarrow> (\<exists>sn. t = Read sn)"
  "kind t = None \<longleftrightarrow> t = Unset"
  by (cases t; simp)+

lemma check_kind_allowed_Inr [res_simps]:
  "check_kind_allowed k st = Inr u \<longleftrightarrow>
   autocommit st \<or> txn st = Unset \<or> kind (txn st) = Some k"
  by (auto simp: check_kind_allowed_def split: option.splits if_splits)

lemma buffer_dml_Inr:
  assumes "buffer_dml new st = Inr st'" and "\<not> autocommit st"
  shows "autocommit st' = autocommit st" "stmts (txn st') = stmts (txn st) @ new"
    "muts (txn st') = muts (txn st)" "read_txn (txn st) = None" "read_txn (txn st') = None"
    "txn_wf st \<Longrightarrow> txn_wf st'"
  using assms
  by (auto simp: buffer_dml_def res_simps txn_wf_def split: if_splits manual_txn.splits)

lemma buffer_mutation_Inr:
  assumes "buffer_mutation m st = Inr st'" and "\<not> autocommit st"
  shows "autocommit st' = autocommit st" "stmts (txn st') = stmts (txn st)"
    "muts (txn st') = muts (txn st) @ [m]" "read_txn (txn st) = None" "read_txn (txn st') = None"
    "txn_wf st \<Longrightarrow> txn_wf st'"
  using assms
  by (auto simp: buffer_mutation_def res_simps txn_wf_def split: manual_txn.splits)

lemma start_read_txn_Inr:
  assumes "start_read_txn sn st = Inr (st', sn')" and "\<not> autocommit st"
  shows "autocommit st' = autocommit st" "stmts (txn st') = []" "muts (txn st') = []"
    "stmts (txn st) = []" "muts (txn st) = []"
    "txn st' = Read sn'" "\<And>r. txn st = Read r \<Longrightarrow> sn' = r" "txn_wf st \<Longrightarrow> txn_wf st'"
  using assms
  by (auto simp: start_read_txn_def res_simps txn_wf_def split: manual_txn.splits)

lemma buffer_mutation_fails:
  "\<not> autocommit st \<Longrightarrow> (\<exists>e. buffer_mutation m st = Inl e) \<longleftrightarrow> (\<exists>sn. txn st = Read sn)"
  by (auto simp: buffer_mutation_def check_kind_allowed_def split: manual_txn.splits option.splits)

lemma buffer_mutations_Dml:
  "\<not> autocommit st \<Longrightarrow> (\<nexists>sn. txn st = Read sn) \<Longrightarrow>
   \<exists>st'. buffer_mutations ms st = (Inr (), st') \<and> \<not> autocommit st'
     \<and> stmts (txn st') = stmts (txn st) \<and> muts (txn st') = muts (txn st) @ ms
     \<and> (txn_wf st \<longrightarrow> txn_wf st') \<and> (ms = [] \<longrightarrow> st' = st)
     \<and> (\<nexists>sn. txn st' = Read sn)"
proof (induction ms arbitrary: st)
  case (Cons m ms)
  then obtain st1 where st1: "buffer_mutation m st = Inr st1"
    using buffer_mutation_fails[of st m] by (cases "buffer_mutation m st") auto
  note b = buffer_mutation_Inr[OF st1 Cons.prems(1)]
  then have "\<not> autocommit st1" "\<nexists>sn. txn st1 = Read sn" using Cons.prems by auto
  from Cons.IH[OF this] b st1 show ?case by auto
qed simp

section \<open>Properties\<close>

text \<open>
  Buffering an ingest is all or nothing.  In manual mode the buffering loop either appends all
  its mutations behind the ones already pending (changing nothing else), or, exactly when the
  transaction is a query transaction and there is something to buffer, fails with \<open>InvalidState\<close> and
  leaves the state untouched.
\<close>

theorem buffer_mutations_all_or_nothing:
  assumes "\<not> autocommit st"
  shows "if ms \<noteq> [] \<and> (\<exists>sn. txn st = Read sn)
    then \<exists>e. buffer_mutations ms st = (Inl e, st) \<and> status e = InvalidState
    else \<exists>st'. buffer_mutations ms st = (Inr (), st') \<and> muts (txn st') = muts (txn st) @ ms
      \<and> stmts (txn st') = stmts (txn st) \<and> \<not> autocommit st'"
proof (cases "\<exists>sn. txn st = Read sn")
  case True
  then show ?thesis using assms
    by (cases ms) (auto simp: buffer_mutation_def check_kind_allowed_def status_constructors)
next
  case False
  then show ?thesis using buffer_mutations_Dml[OF assms, of ms] by auto
qed

theorem buffer_mutations_all_or_nothing_witness:
  "\<exists>e. buffer_mutations [1, 2 :: nat] \<lparr>autocommit = False, txn = Read (0 :: nat) :: (nat, nat, nat) manual_txn\<rparr>
     = (Inl e, \<lparr>autocommit = False, txn = Read 0\<rparr>) \<and> status e = InvalidState"
  using buffer_mutations_all_or_nothing
    [of "\<lparr>autocommit = False, txn = Read 0 :: (nat, nat, nat) manual_txn\<rparr>" "[1, 2]"] by simp

text \<open>
  A failed commit keeps the transaction.  Whether \<^verbatim>\<open>commit\<close> fails because of the readonly flag or
  because the server refused the work, the state afterwards is the state before, still in manual
  mode, so the same work can be committed again or rolled back; and a commit that succeeds leaves
  the transaction empty.
\<close>

theorem commit_keeps_work_on_failure:
  assumes "txn_wf st"
  shows "case commit apply st srv of
      (Inl e, _, st') \<Rightarrow> st' = Some st
    | (Inr _, _, st') \<Rightarrow> \<not> autocommit st \<and> st' = Some (st\<lparr>txn := Unset\<rparr>)"
  using assms
  by (auto simp: commit_def commit_begin_def finish_commit_def drain_def txn_wf_def
      split: sum.splits prod.splits manual_txn.splits)

theorem commit_keeps_work_on_failure_witness:
  "commit (\<lambda>w srv. (Inl (invalid_state []), srv))
     \<lparr>autocommit = False, txn = Dml [1] [] :: (nat, nat, nat) manual_txn\<rparr> ()
   = (Inl (invalid_state []), (), Some \<lparr>autocommit = False, txn = Dml [1] []\<rparr>)"
  using commit_keeps_work_on_failure[of "\<lparr>autocommit = False, txn = Dml [1] [] :: (nat, nat, nat) manual_txn\<rparr>"
      "\<lambda>w srv. (Inl (invalid_state []), srv)" "()"]
  by (auto simp: txn_wf_def commit_def commit_begin_def)

text \<open>
  the autocommit toggle commits or restores.  From a well-formed state the toggle never trips
  the assertion of \<open>restore_manual\<close>; when it fails the state is exactly as before (manual mode, same
  buffered work), and when it succeeds the mode is the requested one and, if autocommit was enabled,
  nothing is left pending.
\<close>

theorem set_autocommit_commits_or_restores:
  assumes "txn_wf st"
  shows "\<exists>r srv' st'. set_autocommit apply enable st srv = (r, srv', Some st') \<and> txn_wf st'
    \<and> (case r of Inl e \<Rightarrow> st' = st \<and> enable \<and> \<not> autocommit st
        | Inr _ \<Rightarrow> autocommit st' = enable \<and> (enable \<longrightarrow> txn st' = Unset))"
proof (cases "enable \<and> \<not> autocommit st")
  case True
  obtain r srv' where a: "apply (txn st) srv = (r, srv')" by fastforce
  with True assms show ?thesis
    by (cases r) (auto simp: set_autocommit_def toggle_begin_def enter_autocommit_def
        restore_manual_def txn_wf_def)
next
  case False
  with assms show ?thesis
    by (auto simp: set_autocommit_def toggle_begin_def txn_wf_def)
qed

theorem set_autocommit_commits_or_restores_witness:
  "set_autocommit (\<lambda>w srv. (Inr (), srv)) True
     \<lparr>autocommit = False, txn = Dml [1] [] :: (nat, nat, nat) manual_txn\<rparr> ()
   = (Inr (), (), Some \<lparr>autocommit = True, txn = Unset\<rparr>)"
proof -
  have "txn_wf \<lparr>autocommit = False, txn = Dml [1] [] :: (nat, nat, nat) manual_txn\<rparr>" by (simp add: txn_wf_def)
  from set_autocommit_commits_or_restores[OF this, of "\<lambda>w srv. (Inr (), srv)" True "()"]
  show ?thesis
    by (auto simp: set_autocommit_def toggle_begin_def enter_autocommit_def)
qed

end
