(* ===== verification/TxnSystem.thy ===== *)
theory TxnSystem
  imports Txn
begin

text \<open>
  The manual transaction under concurrency.  A connection runs one of its own operations at a time
  (its methods take \<^verbatim>\<open>&mut self\<close>), but each releases the transaction lock while its commit RPC is in
  flight, and the statements of the connection may take the lock in between.  The step relation
  interleaves the lock sections of \<open>Txn\<close> in every order; history variables record what was accepted
  into a transaction and how it was settled.
\<close>

section \<open>The interleaved system\<close>

text \<open>
  The operation the connection is in the middle of: a \<^verbatim>\<open>commit\<close> whose RPC is in flight, one whose RPC
  has succeeded but which has not yet re-taken the lock, or an autocommit toggle whose RPC is in
  flight.
\<close>

datatype ('sn, 's, 'm) conn_op =
    Idle
  | Committing "('sn, 's, 'm) manual_txn"
  | Committed "('sn, 's, 'm) manual_txn"
  | Toggling "('sn, 's, 'm) manual_txn"

datatype ('s, 'm) settled = Applied "'s list" "'m list" | Discarded "'s list" "'m list"

fun settled_stmts :: "('s, 'm) settled \<Rightarrow> 's list" where
  "settled_stmts (Applied ss ms) = ss"
| "settled_stmts (Discarded ss ms) = ss"

fun settled_muts :: "('s, 'm) settled \<Rightarrow> 'm list" where
  "settled_muts (Applied ss ms) = ms"
| "settled_muts (Discarded ss ms) = ms"

record ('sn, 's, 'm) sys =
  shared :: "('sn, 's, 'm) txn_state"
  read_only :: bool
  op :: "('sn, 's, 'm) conn_op"
  accepted_stmts :: "'s list"
  accepted_muts :: "'m list"
  history :: "('s, 'm) settled list"

definition init_sys :: "('sn, 's, 'm) sys" where
  "init_sys = \<lparr>shared = new_txn_state, read_only = False, op = Idle, accepted_stmts = [],
     accepted_muts = [], history = []\<rparr>"

inductive step :: "('sn, 's, 'm) sys \<Rightarrow> ('sn, 's, 'm) sys \<Rightarrow> bool" where
  buffer_stmts: "step s (s\<lparr>shared := st', accepted_stmts := accepted_stmts s @ new\<rparr>)"
    if "\<not> autocommit (shared s)" "buffer_dml new (shared s) = Inr st'"
| buffer_muts: "step s (s\<lparr>shared := st', accepted_muts := accepted_muts s @ ms\<rparr>)"
    if "\<not> autocommit (shared s)" "buffer_mutations ms (shared s) = (Inr (), st')"
| query: "step s (s\<lparr>shared := st'\<rparr>)"
    if "read_txn_install sn (shared s) = Inr (st', r)"
| commit_start: "step s (s\<lparr>op := Committing work\<rparr>)"
    if "op s = Idle" "commit_begin (shared s) = Inr work"
| commit_rpc_ok: "step s (s\<lparr>op := Committed work, history := history s @ [Applied (stmts work) (muts work)]\<rparr>)"
    if "op s = Committing work" "check_commit_writable (read_only s) work = Inr ()"
| commit_fails: "step s (s\<lparr>op := Idle\<rparr>)"
    if "op s = Committing work"
| commit_end: "step s (s\<lparr>op := Idle, shared := st'\<rparr>)"
    if "op s = Committed work" "finish_commit work (shared s) = Some st'"
| rollback: "step s (s\<lparr>shared := st',
      history := history s @ [Discarded (stmts (txn (shared s))) (muts (txn (shared s)))]\<rparr>)"
    if "op s = Idle" "rollback (shared s) = Inr st'"
| toggle_mode: "step s (s\<lparr>shared := st'\<rparr>)"
    if "op s = Idle" "toggle_begin enable (shared s) = (st', None)"
| toggle_start: "step s (s\<lparr>op := Toggling work, shared := st'\<rparr>)"
    if "op s = Idle" "toggle_begin True (shared s) = (st', Some work)"
| toggle_rpc_ok: "step s (s\<lparr>op := Idle, history := history s @ [Applied (stmts work) (muts work)]\<rparr>)"
    if "op s = Toggling work" "check_commit_writable (read_only s) work = Inr ()"
| toggle_fails: "step s (s\<lparr>op := Idle, shared := st'\<rparr>)"
    if "op s = Toggling work" "restore_manual work (shared s) = Some st'"
| set_read_only: "step s (s\<lparr>read_only := b\<rparr>)"
    if "op s = Idle"

inductive reachable :: "('sn, 's, 'm) sys \<Rightarrow> bool" where
  reach_init: "reachable init_sys"
| reach_step: "reachable s \<Longrightarrow> step s s' \<Longrightarrow> reachable s'"

inductive_cases step_cases: "step s s'"

section \<open>A commit buffer as an interface\<close>

text \<open>
  What the connection relies on from a buffer it commits from a clone: the clone stays a prefix of
  the buffer while the RPC runs, and finishing removes exactly that prefix.  The accounting lemmas
  are proved once and used for the buffered statements and for the buffered mutations.
\<close>

locale commit_buffer =
  fixes pend :: "'t \<Rightarrow> 'w list"
    and extends :: "'t \<Rightarrow> 't \<Rightarrow> bool"
    and finish :: "'t \<Rightarrow> 't \<Rightarrow> 't option"
  assumes extends_prefix: "extends w t \<Longrightarrow> \<exists>later. pend t = pend w @ later"
    and finish_removes: "extends w t \<Longrightarrow> finish w t = Some t' \<Longrightarrow> pend t' = drop (length (pend w)) (pend t)"
begin

lemma settle_prefix:
  assumes "acc = done @ pend t" and "extends w t"
  shows "acc = (done @ pend w) @ drop (length (pend w)) (pend t)"
  using assms extends_prefix[OF assms(2)] by auto

lemma finish_pend:
  assumes "acc = done @ drop (length (pend w)) (pend t)" and "extends w t" and "finish w t = Some t'"
  shows "acc = done @ pend t'"
  using assms finish_removes by simp

lemma settle_later:
  assumes "acc = done @ drop (length (pend w)) (pend t)" and "extends w t"
    and "pend t' = pend t @ later"
  shows "acc @ later = done @ drop (length (pend w)) (pend t')"
  using assms extends_prefix[OF assms(2)] by auto

end

text \<open>\<open>extends w t\<close>: \<open>t\<close> is the cloned work \<open>w\<close>, with what was buffered behind it since.\<close>

fun extends :: "('sn, 's, 'm) manual_txn \<Rightarrow> ('sn, 's, 'm) manual_txn \<Rightarrow> bool" where
  "extends (Dml ss ms) t = (\<exists>ss' ms'. t = Dml (ss @ ss') (ms @ ms'))"
| "extends (Read sn) t = (t = Read sn)"
| "extends Unset t = True"

definition finish_txn ::
  "('sn, 's, 'm) manual_txn \<Rightarrow> ('sn, 's, 'm) manual_txn \<Rightarrow> ('sn, 's, 'm) manual_txn option" where
  "finish_txn w t = map_option txn (finish_commit w \<lparr>autocommit = False, txn = t\<rparr>)"

lemma finish_commit_extends:
  assumes "extends w (txn st)"
  shows "\<exists>st'. finish_commit w st = Some st' \<and> autocommit st' = autocommit st
    \<and> stmts (txn st') = drop (length (stmts w)) (stmts (txn st))
    \<and> muts (txn st') = drop (length (muts w)) (muts (txn st))
    \<and> (txn st' = Unset \<or> has_pending_work (txn st'))"
  using assms
  by (cases w; cases "txn st") (auto simp: finish_commit_def drain_def)

lemma finish_txn_eq:
  "finish_commit w st = Some st' \<Longrightarrow> finish_txn w (txn st) = Some (txn st')"
proof -
  have "finish_txn w (txn st) = map_option txn (finish_commit w st)"
    by (simp add: finish_txn_def finish_commit_def option.map_comp comp_def)
  then show "finish_commit w st = Some st' \<Longrightarrow> finish_txn w (txn st) = Some (txn st')" by simp
qed

lemma finish_txn_removes:
  assumes "extends w t" and "finish_txn w t = Some t'"
  shows "stmts t' = drop (length (stmts w)) (stmts t) \<and> muts t' = drop (length (muts w)) (muts t)"
  using assms finish_commit_extends[of w "\<lparr>autocommit = False, txn = t\<rparr>"]
  by (auto simp: finish_txn_def)

interpretation stmt_buffer: commit_buffer stmts extends finish_txn
proof
  fix w t :: "('sn, 's, 'm) manual_txn"
  show "extends w t \<Longrightarrow> \<exists>later. stmts t = stmts w @ later" by (cases w) auto
  show "extends w t \<Longrightarrow> finish_txn w t = Some t' \<Longrightarrow> stmts t' = drop (length (stmts w)) (stmts t)" for t'
    using finish_txn_removes by blast
qed

interpretation mut_buffer: commit_buffer muts extends finish_txn
proof
  fix w t :: "('sn, 's, 'm) manual_txn"
  show "extends w t \<Longrightarrow> \<exists>later. muts t = muts w @ later" by (cases w) auto
  show "extends w t \<Longrightarrow> finish_txn w t = Some t' \<Longrightarrow> muts t' = drop (length (muts w)) (muts t)" for t'
    using finish_txn_removes by blast
qed

section \<open>The system invariant\<close>

text \<open>
  The part of the accepted work that no settled entry covers yet: the shared buffer, less the
  applied prefix between a successful RPC and the lock, or the work a toggle has taken out.
\<close>

definition unsettled :: "(('sn, 's, 'm) manual_txn \<Rightarrow> 'w list) \<Rightarrow> ('sn, 's, 'm) sys \<Rightarrow> 'w list" where
  "unsettled pend s =
     (case op s of
        Committed w \<Rightarrow> drop (length (pend w)) (pend (txn (shared s)))
      | Toggling w \<Rightarrow> pend w
      | _ \<Rightarrow> pend (txn (shared s)))"

definition op_ok :: "('sn, 's, 'm) sys \<Rightarrow> bool" where
  "op_ok s \<longleftrightarrow>
     (case op s of
        Idle \<Rightarrow> True
      | Committing w \<Rightarrow> \<not> autocommit (shared s) \<and> extends w (txn (shared s))
      | Committed w \<Rightarrow> \<not> autocommit (shared s) \<and> extends w (txn (shared s))
      | Toggling w \<Rightarrow> autocommit (shared s) \<and> (kind w = Some KDml \<longrightarrow> has_pending_work w))"

definition sys_inv :: "('sn, 's, 'm) sys \<Rightarrow> bool" where
  "sys_inv s \<longleftrightarrow> txn_wf (shared s) \<and> op_ok s
     \<and> accepted_stmts s = concat (map settled_stmts (history s)) @ unsettled stmts s
     \<and> accepted_muts s = concat (map settled_muts (history s)) @ unsettled muts s"

lemma extends_refl [simp]: "extends w w"
  by (cases w) auto

lemma extends_Unset [simp]: "extends w Unset \<longleftrightarrow> w = Unset"
  by (cases w) auto

lemma extends_buffer:
  "extends w t \<Longrightarrow> read_txn t' = None \<Longrightarrow> read_txn t = None \<Longrightarrow>
   stmts t' = stmts t @ ss \<Longrightarrow> muts t' = muts t @ ms \<Longrightarrow> t' = Unset \<longrightarrow> t = Unset \<Longrightarrow> extends w t'"
  by (cases w; cases t; cases t') auto

lemma buffer_dml_not_Unset:
  "buffer_dml new st = Inr st' \<Longrightarrow> txn st' = Unset \<Longrightarrow> txn st = Unset"
  by (auto simp: buffer_dml_def res_simps split: if_splits manual_txn.splits)

lemma buffer_mutations_Inr:
  assumes "buffer_mutations ms st = (Inr (), st')" and "\<not> autocommit st"
  shows "\<not> autocommit st'" "stmts (txn st') = stmts (txn st)" "muts (txn st') = muts (txn st) @ ms"
    "txn_wf st \<Longrightarrow> txn_wf st'"
    "read_txn (txn st') = read_txn (txn st)" "txn st' = Unset \<longrightarrow> txn st = Unset"
    "ms \<noteq> [] \<Longrightarrow> read_txn (txn st) = None"
proof -
  consider (empty) "ms = []" | (dml) "ms \<noteq> []" "\<nexists>sn. txn st = Read sn"
    using assms buffer_mutation_fails[of st "hd ms"] by (cases ms) (auto split: sum.splits)
  then have "\<not> autocommit st' \<and> stmts (txn st') = stmts (txn st) \<and> muts (txn st') = muts (txn st) @ ms
    \<and> (txn_wf st \<longrightarrow> txn_wf st') \<and> read_txn (txn st') = read_txn (txn st)
    \<and> (txn st' = Unset \<longrightarrow> txn st = Unset) \<and> (ms \<noteq> [] \<longrightarrow> read_txn (txn st) = None)"
  proof cases
    case empty
    with assms show ?thesis by simp
  next
    case dml
    then have "read_txn (txn st) = None" by (cases "txn st") auto
    with dml assms(1) buffer_mutations_Dml[OF assms(2), of ms] show ?thesis
      by (cases "txn st'"; cases "txn st") auto
  qed
  then show "\<not> autocommit st'" "stmts (txn st') = stmts (txn st)" "muts (txn st') = muts (txn st) @ ms"
    "txn_wf st \<Longrightarrow> txn_wf st'"
    "read_txn (txn st') = read_txn (txn st)" "txn st' = Unset \<longrightarrow> txn st = Unset"
    "ms \<noteq> [] \<Longrightarrow> read_txn (txn st) = None" by simp_all
qed

text \<open>A statement that buffers: the shared state grows behind whatever is in flight.\<close>

lemma sys_inv_buffer:
  assumes inv: "sys_inv s" and m: "\<not> autocommit (shared s)" "\<not> autocommit st'"
    and wf: "txn_wf (shared s) \<Longrightarrow> txn_wf st'"
    and ss: "stmts (txn st') = stmts (txn (shared s)) @ ss"
    and ms: "muts (txn st') = muts (txn (shared s)) @ ms"
    and r: "read_txn (txn (shared s)) = None" "read_txn (txn st') = None"
    and u: "txn st' = Unset \<longrightarrow> txn (shared s) = Unset"
  shows "sys_inv (s\<lparr>shared := st', accepted_stmts := accepted_stmts s @ ss,
    accepted_muts := accepted_muts s @ ms\<rparr>)"
proof -
  have e: "extends w (txn (shared s)) \<Longrightarrow> extends w (txn st')" for w
    using extends_buffer[OF _ r(2,1) ss ms u] .
  show ?thesis
  proof (cases "op s")
    case (Committed w)
    with inv have w: "extends w (txn (shared s))" by (simp add: sys_inv_def op_ok_def)
    with Committed inv m wf e stmt_buffer.settle_later[OF _ w ss] mut_buffer.settle_later[OF _ w ms]
    show ?thesis by (simp add: sys_inv_def op_ok_def unsettled_def)
  qed (use inv m wf e ss ms in \<open>auto simp: sys_inv_def op_ok_def unsettled_def\<close>)
qed

lemma read_txn_install_Inr:
  assumes "read_txn_install sn st = Inr (st', r)"
  shows "st' = st \<or> (\<exists>sn'. \<not> autocommit st \<and> txn st = Unset \<and> st' = st\<lparr>txn := Read sn'\<rparr>)"
  using assms
  by (auto simp: read_txn_install_def start_read_txn_def res_simps split: if_splits manual_txn.splits)

lemma sys_inv_query:
  assumes inv: "sys_inv s" and q: "read_txn_install sn (shared s) = Inr (st', r)"
  shows "sys_inv (s\<lparr>shared := st'\<rparr>)"
  using read_txn_install_Inr[OF q]
proof
  assume "st' = shared s"
  with inv show ?thesis by (simp add: sys_inv_def op_ok_def unsettled_def)
next
  assume "\<exists>sn'. \<not> autocommit (shared s) \<and> txn (shared s) = Unset \<and> st' = (shared s)\<lparr>txn := Read sn'\<rparr>"
  then obtain sn' where st': "\<not> autocommit (shared s)" "txn (shared s) = Unset"
    "st' = (shared s)\<lparr>txn := Read sn'\<rparr>" by blast
  with inv st' show ?thesis
    by (cases "op s") (simp_all add: sys_inv_def txn_wf_def op_ok_def unsettled_def)
qed

lemma sys_inv_commit_rpc_ok:
  assumes inv: "sys_inv s" and o: "op s = Committing w"
  shows "sys_inv (s\<lparr>op := Committed w, history := history s @ [Applied (stmts w) (muts w)]\<rparr>)"
proof -
  from inv o have w: "extends w (txn (shared s))" by (simp add: sys_inv_def op_ok_def)
  with inv o stmt_buffer.settle_prefix[OF _ w] mut_buffer.settle_prefix[OF _ w] show ?thesis
    by (simp add: sys_inv_def op_ok_def unsettled_def)
qed

lemma sys_inv_commit_end:
  assumes inv: "sys_inv s" and o: "op s = Committed w" and f: "finish_commit w (shared s) = Some st'"
  shows "sys_inv (s\<lparr>op := Idle, shared := st'\<rparr>)"
proof -
  from inv o have w: "extends w (txn (shared s))" "\<not> autocommit (shared s)"
    by (simp_all add: sys_inv_def op_ok_def)
  from finish_commit_extends[OF w(1)] f have "autocommit st' = autocommit (shared s)"
    "txn st' = Unset \<or> has_pending_work (txn st')" by auto
  with w(2) have "txn_wf st'" by (auto simp: txn_wf_def)
  with inv o stmt_buffer.finish_pend[OF _ w(1) finish_txn_eq[OF f]]
    mut_buffer.finish_pend[OF _ w(1) finish_txn_eq[OF f]]
  show ?thesis by (simp add: sys_inv_def op_ok_def unsettled_def)
qed

lemma sys_inv_step:
  assumes "step s s'" and "sys_inv s"
  shows "sys_inv s'"
  using assms
proof (cases rule: step.cases)
  case (buffer_stmts new st')
  have "\<not> autocommit st'" using buffer_dml_Inr(1)[OF buffer_stmts(3,2)] buffer_stmts(2) by simp
  with buffer_dml_Inr[OF buffer_stmts(3,2)] buffer_dml_not_Unset[OF buffer_stmts(3)]
    sys_inv_buffer[OF assms(2) buffer_stmts(2), of st' new "[]"] buffer_stmts(1)
  show ?thesis by simp
next
  case (buffer_muts ms st')
  show ?thesis
  proof (cases "ms = []")
    case True
    with buffer_muts(3) have "st' = shared s" by simp
    with True buffer_muts(1) assms(2) show ?thesis by (simp add: sys_inv_def op_ok_def unsettled_def)
  next
    case False
    with buffer_mutations_Inr[OF buffer_muts(3,2)]
      sys_inv_buffer[OF assms(2) buffer_muts(2), of st' "[]" ms] buffer_muts(1)
    show ?thesis by simp
  qed
next
  case (query sn st' r)
  with assms(2) sys_inv_query[of s sn st' r] show ?thesis by simp
next
  case (commit_rpc_ok work)
  with assms(2) sys_inv_commit_rpc_ok[of s work] show ?thesis by simp
next
  case (commit_end work st')
  with assms(2) sys_inv_commit_end[of s work st'] show ?thesis by simp
next
  case (commit_start work)
  with assms(2) show ?thesis
    by (auto simp: sys_inv_def op_ok_def unsettled_def commit_begin_def split: if_splits)
next
  case (commit_fails work)
  with assms(2) show ?thesis by (simp add: sys_inv_def op_ok_def unsettled_def)
next
  case (rollback st')
  with assms(2) show ?thesis
    by (auto simp: sys_inv_def op_ok_def unsettled_def rollback_def txn_wf_def split: if_splits)
next
  case (toggle_mode enable st')
  with assms(2) show ?thesis
    by (auto simp: sys_inv_def op_ok_def unsettled_def toggle_begin_def enter_autocommit_def txn_wf_def
        split: if_splits)
next
  case (toggle_start st' work)
  with assms(2) show ?thesis
    by (auto simp: sys_inv_def op_ok_def unsettled_def toggle_begin_def enter_autocommit_def txn_wf_def
        split: if_splits)
next
  case (toggle_rpc_ok work)
  with assms(2) show ?thesis by (auto simp: sys_inv_def op_ok_def unsettled_def txn_wf_def)
next
  case (toggle_fails work st')
  with assms(2) show ?thesis
    by (auto simp: sys_inv_def op_ok_def unsettled_def restore_manual_def txn_wf_def
        split: manual_txn.splits)
next
  case (set_read_only b)
  with assms(2) show ?thesis by (simp add: sys_inv_def op_ok_def unsettled_def)
qed

lemma sys_inv_reachable: "reachable s \<Longrightarrow> sys_inv s"
proof (induction rule: reachable.induct)
  case reach_init
  show ?case
    by (simp add: sys_inv_def op_ok_def unsettled_def init_sys_def new_txn_state_def txn_wf_def)
next
  case (reach_step s s')
  then show ?case using sys_inv_step by blast
qed

section \<open>Properties\<close>

text \<open>
  A run in which a second statement buffers while the commit of the first is in flight, used by the
  witnesses: the state between the RPC's success and the lock, and the state after the commit.
\<close>

definition mid_commit :: "(nat, nat, nat) sys" where
  "mid_commit = \<lparr>shared = \<lparr>autocommit = False, txn = Dml [7, 8] []\<rparr>, read_only = False,
     op = Committed (Dml [7] []), accepted_stmts = [7, 8], accepted_muts = [],
     history = [Applied [7] []]\<rparr>"

lemma step_eqI: "step s s1 \<Longrightarrow> s1 = s2 \<Longrightarrow> step s s2"
  by simp

lemma mid_commit_reachable: "reachable mid_commit"
proof -
  let ?s = "\<lambda>t opn acc h. \<lparr>shared = \<lparr>autocommit = False, txn = t\<rparr>, read_only = False, op = opn,
    accepted_stmts = acc, accepted_muts = [], history = h\<rparr> :: (nat, nat, nat) sys"
  have "step init_sys (?s Unset Idle [] [])"
    by (rule step_eqI, rule toggle_mode[where enable = False])
      (simp_all add: init_sys_def new_txn_state_def toggle_begin_def)
  moreover have "step (?s Unset Idle [] []) (?s (Dml [7] []) Idle [7] [])"
    by (rule step_eqI, rule buffer_stmts[where new = "[7]"])
      (simp_all add: buffer_dml_def check_kind_allowed_def)
  moreover have "step (?s (Dml [7] []) Idle [7] []) (?s (Dml [7] []) (Committing (Dml [7] [])) [7] [])"
    by (rule step_eqI, rule commit_start) (simp_all add: commit_begin_def)
  moreover have "step (?s (Dml [7] []) (Committing (Dml [7] [])) [7] [])
      (?s (Dml [7, 8] []) (Committing (Dml [7] [])) [7, 8] [])"
    by (rule step_eqI, rule buffer_stmts[where new = "[8]"])
      (simp_all add: buffer_dml_def check_kind_allowed_def)
  moreover have "step (?s (Dml [7, 8] []) (Committing (Dml [7] [])) [7, 8] []) mid_commit"
    by (rule step_eqI, rule commit_rpc_ok[where work = "Dml [7] []"]) (simp_all add: check_commit_writable_def mid_commit_def)
  ultimately show ?thesis by (meson reach_init reach_step)
qed

text \<open>
  C7: no accepted work is lost, duplicated or reordered.  In every reachable state in which the
  connection is between operations, whatever statements ran while its commits and toggles were in
  flight, the statements (and mutations) ever accepted into a manual transaction are, in order, those
  settled by a successful commit or toggle or discarded by a rollback, followed by those still
  buffered.
\<close>

theorem accepted_work_settled_once:
  assumes "reachable s" and "op s = Idle"
  shows "accepted_stmts s = concat (map settled_stmts (history s)) @ stmts (txn (shared s))
    \<and> accepted_muts s = concat (map settled_muts (history s)) @ muts (txn (shared s))"
  using sys_inv_reachable[OF assms(1)] assms(2) by (simp add: sys_inv_def unsettled_def)

theorem accepted_work_settled_once_witness:
  "\<exists>s :: (nat, nat, nat) sys. reachable s \<and> op s = Idle \<and> history s = [Applied [7] []]
     \<and> [7, 8] = concat (map settled_stmts (history s)) @ stmts (txn (shared s))"
proof -
  let ?s = "mid_commit\<lparr>op := Idle, shared := \<lparr>autocommit = False, txn = Dml [8] []\<rparr>\<rparr>"
  have "step mid_commit ?s"
    by (rule commit_end[where work = "Dml [7] []"]) (simp_all add: mid_commit_def finish_commit_def drain_def)
  then have "reachable ?s" using mid_commit_reachable reach_step by blast
  from accepted_work_settled_once[OF this] this show ?thesis
    by (intro exI[of _ ?s]) (simp add: mid_commit_def)
qed

text \<open>
  C9: the two panics of the state machine are unreachable.  In every reachable state, when a commit
  whose RPC succeeded re-takes the lock its \<^verbatim>\<open>drain\<close> ranges are within the buffers, and when a failed
  toggle restores its work the shared state is \<open>Unset\<close>, as the assertion in \<open>restore_manual\<close> demands;
  the operation can therefore always be completed.
\<close>

theorem commit_paths_never_panic:
  assumes "reachable s"
  shows "case op s of
      Committed w \<Rightarrow> (\<exists>st'. finish_commit w (shared s) = Some st' \<and> \<not> autocommit st')
    | Toggling w \<Rightarrow> (\<exists>st'. restore_manual w (shared s) = Some st' \<and> txn st' = w \<and> \<not> autocommit st')
    | _ \<Rightarrow> txn_wf (shared s)"
proof (cases "op s")
  case (Committed w)
  with sys_inv_reachable[OF assms] have "extends w (txn (shared s))" "\<not> autocommit (shared s)"
    by (simp_all add: sys_inv_def op_ok_def)
  with Committed finish_commit_extends[of w "shared s"] show ?thesis by auto
qed (use sys_inv_reachable[OF assms] in
    \<open>auto simp: sys_inv_def op_ok_def txn_wf_def restore_manual_def\<close>)

theorem commit_paths_never_panic_witness:
  "\<exists>st'. finish_commit (Dml [7] []) (shared mid_commit) = Some st' \<and> \<not> autocommit st'"
  using commit_paths_never_panic[OF mid_commit_reachable] by (simp add: mid_commit_def)

text \<open>
  while the connection is read-only no buffered work reaches the server: a step taken with the
  flag set records at most the end of a transaction that wrote nothing, or a rollback.
\<close>

theorem read_only_applies_nothing:
  assumes "step s s'" and "read_only s"
  shows "history s' = history s \<or> history s' = history s @ [Applied [] []]
    \<or> (\<exists>ss ms. history s' = history s @ [Discarded ss ms])"
  using assms
proof (cases rule: step.cases)
  case (commit_rpc_ok work)
  with assms(2) show ?thesis
    by (cases work) (auto simp: check_commit_writable_def split: if_splits)
next
  case (toggle_rpc_ok work)
  with assms(2) show ?thesis
    by (cases work) (auto simp: check_commit_writable_def split: if_splits)
qed (use assms in auto)

theorem read_only_applies_nothing_witness:
  "history (init_sys\<lparr>read_only := True\<rparr> :: (nat, nat, nat) sys) = []"
proof -
  let ?s = "init_sys\<lparr>read_only := True\<rparr> :: (nat, nat, nat) sys"
  have "step ?s ?s"
    by (rule step_eqI, rule set_read_only[where b = True]) (simp_all add: init_sys_def)
  from read_only_applies_nothing[OF this] show ?thesis by (auto simp: init_sys_def)
qed

text \<open>
  the first statement fixes the transaction.  A step from a state whose transaction is a query
  transaction keeps the same snapshot or ends the transaction, and one from a DML transaction keeps
  it a DML transaction or ends it; work of the other kind never joins.
\<close>

theorem txn_kind_fixed:
  assumes "reachable s" and "step s s'"
  shows "case txn (shared s) of
      Read sn \<Rightarrow> txn (shared s') \<in> {Read sn, Unset}
    | Dml ss ms \<Rightarrow> (case txn (shared s') of Read _ \<Rightarrow> False | _ \<Rightarrow> True)
    | Unset \<Rightarrow> True"
  using assms(2)
proof (cases rule: step.cases)
  case (buffer_stmts new st')
  with buffer_dml_Inr[OF buffer_stmts(3,2)] show ?thesis
    by (cases "txn (shared s)"; cases "txn st'") auto
next
  case (buffer_muts ms st')
  with buffer_mutations_Inr[OF buffer_muts(3,2)] show ?thesis
    by (cases "txn (shared s)"; cases "txn st'") auto
next
  case (query sn st' r)
  with read_txn_install_Inr[OF query(2)] show ?thesis by (cases "txn (shared s)") auto
next
  case (commit_end work st')
  then show ?thesis
    by (cases "txn (shared s)")
      (auto simp: finish_commit_def drain_def split: manual_txn.splits if_splits)
next
  case (toggle_fails work st')
  then show ?thesis by (cases "txn (shared s)") (auto simp: restore_manual_def)
qed (auto simp: rollback_def toggle_begin_def enter_autocommit_def
    split: manual_txn.splits if_splits)

theorem txn_kind_fixed_witness:
  "\<not> (\<exists>s'. step mid_commit s' \<and> (\<exists>sn. txn (shared s') = Read sn))"
proof
  assume "\<exists>s'. step mid_commit s' \<and> (\<exists>sn. txn (shared s') = Read sn)"
  then obtain s' sn where s': "step mid_commit s'" "txn (shared s') = Read sn" by blast
  from txn_kind_fixed[OF mid_commit_reachable s'(1)] s'(2) show False
    by (simp add: mid_commit_def)
qed

end
