(* ===== verification/Runtime.thy ===== *)
theory Runtime
  imports Errors
begin

text \<open>
  Cancellation and prefetching, \<^verbatim>\<open>src/runtime.rs\<close>, and the deadline wrapper of \<^verbatim>\<open>src/timeout.rs\<close>.

  Three models: the store of cancel signals that slots point into (which cancel reaches which
  operation); the wait loop of \<^verbatim>\<open>CancelSignal::cancelled\<close> interleaved with a \<^verbatim>\<open>signal()\<close> call (no wakeup
  is lost); and the prefetch task interleaved with its consumer over a one-slot channel (chunks
  arrive once and in order).  Tokio's \<^verbatim>\<open>Notify\<close> is a parameter of the second.
\<close>

section \<open>Signals and slots\<close>

text \<open>
  A \<^verbatim>\<open>CancelSignal\<close> is an \<^verbatim>\<open>Arc\<close> to a latch; clones share it.  The store holds the latches in order of
  allocation, and a signal is an index into it.
\<close>

type_synonym signal = nat

definition new_signal :: "bool list \<Rightarrow> bool list \<times> signal" where
  "new_signal latches = (latches @ [False], length latches)"

definition signal :: "signal \<Rightarrow> bool list \<Rightarrow> bool list" where
  "signal h latches = latches[h := True]"

definition is_cancelled :: "bool list \<Rightarrow> signal \<Rightarrow> bool" where
  "is_cancelled latches h \<longleftrightarrow> h < length latches \<and> latches ! h"

text \<open>The slots of all live connections and statements, each holding its current signal.\<close>

record cancel_store =
  latches :: "bool list"
  slots :: "signal list"

definition new_slot :: "cancel_store \<Rightarrow> cancel_store \<times> nat" where
  "new_slot st =
     (let (ls, h) = new_signal (latches st)
      in (st\<lparr>latches := ls, slots := slots st @ [h]\<rparr>, length (slots st)))"

definition begin_operation :: "nat \<Rightarrow> cancel_store \<Rightarrow> cancel_store \<times> signal" where
  "begin_operation k st =
     (let (ls, h) = new_signal (latches st)
      in (st\<lparr>latches := ls, slots := (slots st)[k := h]\<rparr>, h))"

definition current :: "nat \<Rightarrow> cancel_store \<Rightarrow> signal" where
  "current k st = slots st ! k"

definition slot_signal :: "nat \<Rightarrow> cancel_store \<Rightarrow> cancel_store" where
  "slot_signal k st = st\<lparr>latches := signal (current k st) (latches st)\<rparr>"

text \<open>\<^verbatim>\<open>SlotCancelHandle::try_cancel\<close>: unconditionally successful.\<close>

definition try_cancel :: "nat \<Rightarrow> cancel_store \<Rightarrow> unit result \<times> cancel_store" where
  "try_cancel k st = (Inr (), slot_signal k st)"

definition cancelled_err :: error where
  "cancelled_err =
     err (lit ''operation cancelled: the ADBC cancel handle for this connection or statement was signalled'')
       Cancelled"

text \<open>
  \<^verbatim>\<open>block_on_cancellable\<close>: a biased select that polls the signal, then the operation, until one is
  ready.  The polls are given as the list of what each finds: whether the signal is latched, and the
  operation's result if it is ready.  \<open>None\<close>: still pending at the end of the list.
\<close>

fun block_on_cancellable :: "(bool \<times> 'a result option) list \<Rightarrow> 'a result option" where
  "block_on_cancellable [] = None"
| "block_on_cancellable ((cancelled, ready) # polls) =
     (if cancelled then Some (Inl cancelled_err)
      else case ready of Some r \<Rightarrow> Some r | None \<Rightarrow> block_on_cancellable polls)"

text \<open>
  \<^verbatim>\<open>with_timeout\<close>: \<open>await\<close> runs a future to its result, \<open>timeout\<close> is \<^verbatim>\<open>tokio::time::timeout\<close>, \<open>None\<close> on
  expiry.
\<close>

definition with_timeout ::
  "('f \<Rightarrow> 'a result) \<Rightarrow> ('d \<Rightarrow> 'f \<Rightarrow> 'a result option) \<Rightarrow> 'd option \<Rightarrow> rstring \<Rightarrow> 'f \<Rightarrow> 'a result" where
  "with_timeout await timeout limit option_name fut =
     (case limit of
        None \<Rightarrow> await fut
      | Some l \<Rightarrow>
          (case timeout l fut of
             Some r \<Rightarrow> r
           | None \<Rightarrow> Inl (err (lit ''operation timed out ('' @ option_name @ lit '')'') Timeout)))"

lemma block_on_cancellable_skip:
  "list_all (\<lambda>p. \<not> fst p \<and> snd p = None) pre \<Longrightarrow>
   block_on_cancellable (pre @ polls) = block_on_cancellable polls"
  by (induction pre) auto

subsection \<open>What a cancel reaches\<close>

datatype cancel_event = New | Begin nat | Cancel nat

definition wf_event :: "cancel_store \<Rightarrow> cancel_event \<Rightarrow> bool" where
  "wf_event st e = (case e of New \<Rightarrow> True | Begin k \<Rightarrow> k < length (slots st) | Cancel k \<Rightarrow> k < length (slots st))"

fun run_event :: "cancel_event \<Rightarrow> cancel_store \<Rightarrow> cancel_store" where
  "run_event New st = fst (new_slot st)"
| "run_event (Begin k) st = fst (begin_operation k st)"
| "run_event (Cancel k) st = snd (try_cancel k st)"

fun run_events :: "cancel_event list \<Rightarrow> cancel_store \<Rightarrow> cancel_store" where
  "run_events [] st = st"
| "run_events (e # es) st = run_events es (run_event e st)"

text \<open>Every event names a slot that exists when it happens.\<close>

fun wf_events :: "cancel_event list \<Rightarrow> cancel_store \<Rightarrow> bool" where
  "wf_events [] st = True"
| "wf_events (e # es) st = (wf_event st e \<and> wf_events es (run_event e st))"

definition store_wf :: "cancel_store \<Rightarrow> bool" where
  "store_wf st \<longleftrightarrow> distinct (slots st) \<and> (\<forall>h \<in> set (slots st). h < length (latches st))"

lemmas cancel_defs = new_signal_def signal_def new_slot_def begin_operation_def current_def
  slot_signal_def try_cancel_def Let_def

lemma store_wf_event: "store_wf st \<Longrightarrow> wf_event st e \<Longrightarrow> store_wf (run_event e st)"
proof (cases e)
  case New
  assume "store_wf st"
  with New show ?thesis by (fastforce simp: store_wf_def cancel_defs)
next
  case (Begin k)
  assume a: "store_wf st" "wf_event st e"
  then have "length (latches st) \<notin> set (slots st)" by (auto simp: store_wf_def)
  with a Begin show ?thesis
    by (auto simp: store_wf_def cancel_defs wf_event_def distinct_list_update
        dest!: set_update_subset_insert[THEN subsetD])
next
  case (Cancel k)
  assume "store_wf st"
  with Cancel show ?thesis by (simp add: store_wf_def cancel_defs)
qed

text \<open>
  The abstract account of one operation: its signal is latched once a cancel on its slot comes
  before the slot's next operation.
\<close>

fun cancel_hits :: "nat \<Rightarrow> cancel_event list \<Rightarrow> bool" where
  "cancel_hits k [] = False"
| "cancel_hits k (e # es) = (e = Cancel k \<or> (e \<noteq> Begin k \<and> cancel_hits k es))"

lemma is_cancelled_other:
  assumes "store_wf st" "wf_event st e" "h < length (latches st)" "h \<notin> set (slots st)"
  shows "is_cancelled (latches (run_event e st)) h = is_cancelled (latches st) h"
    and "h \<notin> set (slots (run_event e st))" "h < length (latches (run_event e st))"
proof -
  show "h \<notin> set (slots (run_event e st))" "h < length (latches (run_event e st))"
    using assms by (cases e; auto simp: cancel_defs dest!: set_update_subset_insert[THEN subsetD])+
  show "is_cancelled (latches (run_event e st)) h = is_cancelled (latches st) h"
  proof (cases e)
    case (Cancel k)
    with assms have "slots st ! k \<noteq> h" by (auto simp: wf_event_def)
    with Cancel assms(3) show ?thesis by (simp add: is_cancelled_def cancel_defs)
  qed (use assms(3) in \<open>auto simp: is_cancelled_def cancel_defs nth_append\<close>)
qed

lemma superseded_signal_frozen:
  assumes "store_wf st" "wf_events es st" "h < length (latches st)" "h \<notin> set (slots st)"
  shows "is_cancelled (latches (run_events es st)) h = is_cancelled (latches st) h"
  using assms
proof (induction es arbitrary: st)
  case (Cons e es)
  then have we: "wf_event st e" "wf_events es (run_event e st)" by simp_all
  note o = is_cancelled_other[OF Cons.prems(1) we(1) Cons.prems(3,4)]
  from Cons.IH[OF store_wf_event[OF Cons.prems(1) we(1)] we(2) o(3,2)] o(1) show ?case by simp
qed simp

lemma latched_forever:
  assumes "is_cancelled (latches st) h"
  shows "is_cancelled (latches (run_events es st)) h"
  using assms
proof (induction es arbitrary: st)
  case (Cons e es)
  have "is_cancelled (latches (run_event e st)) h"
  proof (cases e)
    case (Cancel k)
    with Cons.prems show ?thesis
      by (cases "slots st ! k = h") (simp_all add: is_cancelled_def cancel_defs)
  qed (use Cons.prems in \<open>auto simp: is_cancelled_def cancel_defs nth_append\<close>)
  with Cons.IH show ?case by simp
qed simp

lemma current_signal_fate:
  assumes "store_wf st" "wf_events es st" "k < length (slots st)"
    "h = slots st ! k" "\<not> is_cancelled (latches st) h"
  shows "is_cancelled (latches (run_events es st)) h = cancel_hits k es"
  using assms
proof (induction es arbitrary: st)
  case Nil
  then show ?case by simp
next
  case (Cons e es)
  then have we: "wf_event st e" "wf_events es (run_event e st)" by simp_all
  note wf' = store_wf_event[OF Cons.prems(1) we(1)]
  have hl: "h < length (latches st)" using Cons.prems(1,3,4) by (auto simp: store_wf_def)
  consider (hit) "e = Cancel k" | (superseded) "e = Begin k"
    | (other) "e \<noteq> Cancel k" "e \<noteq> Begin k" by blast
  then show ?case
  proof cases
    case hit
    then have "is_cancelled (latches (run_event e st)) h"
      using hl Cons.prems(4) by (simp add: is_cancelled_def cancel_defs)
    then show ?thesis using latched_forever hit by simp
  next
    case superseded
    have "h \<notin> set ((slots st)[k := length (latches st)])"
      using Cons.prems(1,3,4) hl
      by (auto simp: store_wf_def in_set_conv_nth nth_list_update nth_eq_iff_index_eq)
    with superseded hl Cons.prems(5)
    have "\<not> is_cancelled (latches (run_event e st)) h" "h \<notin> set (slots (run_event e st))"
      "h < length (latches (run_event e st))"
      by (auto simp: is_cancelled_def cancel_defs nth_append)
    with superseded_signal_frozen[OF wf' we(2)] superseded show ?thesis by simp
  next
    case other
    have "\<not> is_cancelled (latches (run_event e st)) h \<and> slots (run_event e st) ! k = h
        \<and> k < length (slots (run_event e st))"
    proof (cases e)
      case (Cancel j)
      with other we(1) Cons.prems(1,3,4) have "slots st ! j \<noteq> h"
        by (auto simp: wf_event_def store_wf_def nth_eq_iff_index_eq)
      with Cancel Cons.prems hl show ?thesis by (simp add: is_cancelled_def cancel_defs)
    qed (use other Cons.prems hl in \<open>auto simp: is_cancelled_def cancel_defs nth_append\<close>)
    with other Cons.IH[OF wf' we(2)] show ?thesis by simp
  qed
qed

section \<open>The wait loop\<close>

text \<open>
  \<^verbatim>\<open>CancelSignal::cancelled\<close> against one \<^verbatim>\<open>signal()\<close> call on another thread.  The waiter's program
  counter runs through the first load, the registration of a \<^verbatim>\<open>Notified\<close> future, the second load and
  the park; the signaller stores the flag, then notifies.  Tokio's \<^verbatim>\<open>Notify\<close> with the waiter's future
  is an opaque value \<open>'n\<close>: \<open>enable\<close> creates and registers a fresh future, \<open>notify_waiters\<close> notifies
  the registered ones, \<open>woken\<close> tells whether the waiter's future is complete.
\<close>

datatype wait_pc = Load1 | Register | Load2 | Parked | Returned

datatype signal_pc = NotSignalled | Stored | Notified

record 'n wait_sys =
  flag :: bool
  notify :: 'n
  wpc :: wait_pc
  spc :: signal_pc

definition waiter_step :: "('n \<Rightarrow> 'n) \<Rightarrow> ('n \<Rightarrow> bool) \<Rightarrow> 'n wait_sys \<Rightarrow> 'n wait_sys" where
  "waiter_step enable woken s =
     (case wpc s of
        Load1 \<Rightarrow> s\<lparr>wpc := if flag s then Returned else Register\<rparr>
      | Register \<Rightarrow> s\<lparr>notify := enable (notify s), wpc := Load2\<rparr>
      | Load2 \<Rightarrow> s\<lparr>wpc := if flag s then Returned else Parked\<rparr>
      | Parked \<Rightarrow> if woken (notify s) then s\<lparr>wpc := Load1\<rparr> else s
      | Returned \<Rightarrow> s)"

definition signaller_step :: "('n \<Rightarrow> 'n) \<Rightarrow> 'n wait_sys \<Rightarrow> 'n wait_sys" where
  "signaller_step notify_waiters s =
     (case spc s of
        NotSignalled \<Rightarrow> s\<lparr>flag := True, spc := Stored\<rparr>
      | Stored \<Rightarrow> s\<lparr>notify := notify_waiters (notify s), spc := Notified\<rparr>
      | Notified \<Rightarrow> s)"

text \<open>A schedule picks the thread that moves: \<open>True\<close> the waiter, \<open>False\<close> the signaller.\<close>

fun run_schedule ::
  "('n \<Rightarrow> 'n) \<Rightarrow> ('n \<Rightarrow> 'n) \<Rightarrow> ('n \<Rightarrow> bool) \<Rightarrow> bool list \<Rightarrow> 'n wait_sys \<Rightarrow> 'n wait_sys" where
  "run_schedule enable notify_waiters woken [] s = s"
| "run_schedule enable notify_waiters woken (w # ws) s =
     run_schedule enable notify_waiters woken ws
       (if w then waiter_step enable woken s else signaller_step notify_waiters s)"

definition init_wait :: "'n \<Rightarrow> 'n wait_sys" where
  "init_wait n = \<lparr>flag = False, notify = n, wpc = Load1, spc = NotSignalled\<rparr>"

text \<open>
  What is relied on of \<^verbatim>\<open>Notify\<close> (its documentation): a future that has been enabled is registered, and
  \<^verbatim>\<open>notify_waiters\<close> completes the futures registered when it is called.
\<close>

definition notify_contract ::
  "('n \<Rightarrow> 'n) \<Rightarrow> ('n \<Rightarrow> 'n) \<Rightarrow> ('n \<Rightarrow> bool) \<Rightarrow> ('n \<Rightarrow> bool) \<Rightarrow> bool" where
  "notify_contract enable notify_waiters registered woken \<longleftrightarrow>
     (\<forall>n. registered (enable n)) \<and> (\<forall>n. registered n \<longrightarrow> woken (notify_waiters n))"

definition wait_inv :: "('n \<Rightarrow> bool) \<Rightarrow> ('n \<Rightarrow> bool) \<Rightarrow> 'n wait_sys \<Rightarrow> bool" where
  "wait_inv registered woken s \<longleftrightarrow>
     (flag s \<longleftrightarrow> spc s \<noteq> NotSignalled)
     \<and> (wpc s = Load2 \<and> spc s \<noteq> Notified \<longrightarrow> registered (notify s))
     \<and> (wpc s = Parked \<longrightarrow> (if spc s = Notified then woken (notify s) else registered (notify s)))"

lemma wait_inv_run:
  assumes "notify_contract enable notify_waiters registered woken" and "wait_inv registered woken s"
  shows "wait_inv registered woken (run_schedule enable notify_waiters woken ws s)"
  using assms(2)
proof (induction ws arbitrary: s)
  case (Cons w ws)
  have "wait_inv registered woken (if w then waiter_step enable woken s else signaller_step notify_waiters s)"
    using Cons.prems assms(1)
    by (auto simp: wait_inv_def notify_contract_def waiter_step_def signaller_step_def
        split: wait_pc.splits signal_pc.splits)
  from Cons.IH[OF this] show ?case by simp
qed simp

lemma waiter_returns:
  assumes "wait_inv registered woken s" and "spc s = Notified"
  shows "wpc (run_schedule enable notify_waiters woken [True, True, True] s) = Returned"
  using assms
  by (cases "wpc s") (auto simp: wait_inv_def waiter_step_def)

section \<open>The prefetch task\<close>

text \<open>
  The task against its consumer, over a channel of one slot.  \<open>source\<close> lists what the remaining
  \<^verbatim>\<open>next_chunk\<close> calls return; an empty chunk (or the end of the list) is the drained source.
\<close>

datatype 'r task = Fetching | Sending "'r list" | SendingErr error | Ended

record 'r prefetch =
  source :: "'r list result list"
  task :: "'r task"
  chan :: "'r list result list"
  received :: "'r list result list"
  cancelled :: bool
  dropped :: bool

definition spawn_prefetch :: "'r list result list \<Rightarrow> 'r prefetch" where
  "spawn_prefetch src = \<lparr>source = src, task = Fetching, chan = [], received = [], cancelled = False,
     dropped = False\<rparr>"

inductive prefetch_step :: "'r prefetch \<Rightarrow> 'r prefetch \<Rightarrow> bool" where
  fetch_cancelled: "prefetch_step s (s\<lparr>task := Ended,
      chan := if chan s = [] \<and> \<not> dropped s then [Inl cancelled_err] else chan s\<rparr>)"
    if "task s = Fetching" "cancelled s"
| fetch_drained: "prefetch_step s (s\<lparr>task := Ended\<rparr>)"
    if "task s = Fetching" "\<not> cancelled s" "source s = [] \<or> (\<exists>rest. source s = Inr [] # rest)"
| fetch_rows: "prefetch_step s (s\<lparr>task := Sending rows, source := rest\<rparr>)"
    if "task s = Fetching" "\<not> cancelled s" "source s = Inr rows # rest" "rows \<noteq> []"
| fetch_err: "prefetch_step s (s\<lparr>task := SendingErr e, source := rest\<rparr>)"
    if "task s = Fetching" "\<not> cancelled s" "source s = Inl e # rest"
| send_cancelled: "prefetch_step s (s\<lparr>task := Ended\<rparr>)"
    if "task s = Sending rows" "cancelled s"
| send_rows: "prefetch_step s (s\<lparr>task := Fetching, chan := [Inr rows]\<rparr>)"
    if "task s = Sending rows" "\<not> cancelled s" "chan s = []" "\<not> dropped s"
| send_dropped: "prefetch_step s (s\<lparr>task := Ended\<rparr>)"
    if "task s = Sending rows" "\<not> cancelled s" "dropped s"
| send_err: "prefetch_step s (s\<lparr>task := Ended, chan := [Inl e]\<rparr>)"
    if "task s = SendingErr e" "chan s = []" "\<not> dropped s"
| send_err_dropped: "prefetch_step s (s\<lparr>task := Ended\<rparr>)"
    if "task s = SendingErr e" "dropped s"
| recv: "prefetch_step s (s\<lparr>chan := [], received := received s @ [x]\<rparr>)"
    if "chan s = [x]" "\<not> cancelled s" "\<not> dropped s"
| recv_cancelled: "prefetch_step s (s\<lparr>received := received s @ [Inl cancelled_err]\<rparr>)"
    if "cancelled s" "\<not> dropped s"
| cancel: "prefetch_step s (s\<lparr>cancelled := True\<rparr>)"
| drop_receiver: "prefetch_step s (s\<lparr>dropped := True, chan := []\<rparr>)"

inductive prefetch_reach :: "'r list result list \<Rightarrow> 'r prefetch \<Rightarrow> bool" for src where
  pf_init: "prefetch_reach src (spawn_prefetch src)"
| pf_step: "prefetch_reach src s \<Longrightarrow> prefetch_step s s' \<Longrightarrow> prefetch_reach src s'"

text \<open>What a consumer should see: the chunks up to the drained source, or up to and with the error.\<close>

fun stream_items :: "'r list result list \<Rightarrow> 'r list result list" where
  "stream_items [] = []"
| "stream_items (Inl e # src) = [Inl e]"
| "stream_items (Inr rows # src) = (if rows = [] then [] else Inr rows # stream_items src)"

abbreviation oks :: "'r list result list \<Rightarrow> 'r list result list" where
  "oks \<equiv> filter (\<lambda>r. \<not> isl r)"

fun in_hand :: "'r task \<Rightarrow> 'r list result list" where
  "in_hand (Sending rows) = [Inr rows]"
| "in_hand (SendingErr e) = [Inl e]"
| "in_hand _ = []"

fun ahead :: "'r task \<Rightarrow> 'r list result list \<Rightarrow> 'r list result list" where
  "ahead Fetching src = stream_items src"
| "ahead (Sending rows) src = stream_items src"
| "ahead _ src = []"

definition prefetch_inv :: "'r list result list \<Rightarrow> 'r prefetch \<Rightarrow> bool" where
  "prefetch_inv src s \<longleftrightarrow>
     length (chan s) \<le> 1
     \<and> (\<exists>t. oks (stream_items src) = oks (received s) @ t)
     \<and> (\<not> dropped s \<longrightarrow> (\<exists>t. oks (stream_items src) = oks (received s @ chan s @ in_hand (task s)) @ t
           \<and> (task s \<noteq> Ended \<longrightarrow> t = oks (ahead (task s) (source s)))))
     \<and> (\<not> dropped s \<and> \<not> cancelled s \<longrightarrow>
          stream_items src = received s @ chan s @ in_hand (task s) @ ahead (task s) (source s))"

lemma prefetch_step_eqI: "prefetch_step s s1 \<Longrightarrow> s1 = s2 \<Longrightarrow> prefetch_step s s2"
  by simp

lemma prefetch_inv_step:
  assumes "prefetch_step s s'" and "prefetch_inv src s"
  shows "prefetch_inv src s'"
  using assms
proof (cases rule: prefetch_step.cases)
  case fetch_drained
  with assms(2) show ?thesis by (auto simp: prefetch_inv_def)
next
  case (fetch_rows rows rest)
  with assms(2) show ?thesis by (auto simp: prefetch_inv_def)
next
  case (send_rows rows)
  with assms(2) show ?thesis by (auto simp: prefetch_inv_def)
next
  case (recv x)
  with assms(2) show ?thesis by (auto simp: prefetch_inv_def)
qed (use assms(2) in \<open>auto simp: prefetch_inv_def\<close>)

lemma prefetch_inv_reach: "prefetch_reach src s \<Longrightarrow> prefetch_inv src s"
proof (induction rule: prefetch_reach.induct)
  case pf_init
  show ?case by (simp add: prefetch_inv_def spawn_prefetch_def)
next
  case (pf_step s s')
  then show ?case using prefetch_inv_step by blast
qed

section \<open>Properties\<close>

text \<open>
  C23: a cancel reaches exactly the operation it is aimed at.  The signal minted for an operation on
  slot \<open>k\<close> starts unlatched, and after any later sequence of operations and cancels, on this and on
  any other connection or statement, it is latched if and only if a cancel on slot \<open>k\<close> came before the
  next operation on that slot: stale cancels do not leak forward, and later operations do not revive
  a cancelled stream.
\<close>

theorem cancel_reaches_current_operation:
  assumes "store_wf st" and "k < length (slots st)" and "begin_operation k st = (st', h)"
    and "wf_events es st'"
  shows "\<not> is_cancelled (latches st') h
    \<and> is_cancelled (latches (run_events es st')) h = cancel_hits k es"
proof -
  have st': "st' = run_event (Begin k) st" and h: "h = length (latches st)"
    using assms(3) by (auto simp: cancel_defs)
  have "store_wf st'" unfolding st' using assms(1,2) by (intro store_wf_event) (simp_all add: wf_event_def)
  moreover have "\<not> is_cancelled (latches st') h" "slots st' ! k = h" "k < length (slots st')"
    using assms(2) by (simp_all add: st' h is_cancelled_def cancel_defs nth_append)
  ultimately show ?thesis using current_signal_fate[of st' es k h] assms(4) by simp
qed

theorem cancel_reaches_current_operation_witness:
  "is_cancelled (latches (run_events [Cancel 0, Begin 0] \<lparr>latches = [True, False], slots = [1]\<rparr>)) 1"
proof -
  let ?st = "\<lparr>latches = [True], slots = [0]\<rparr>"
  have "begin_operation 0 ?st = (\<lparr>latches = [True, False], slots = [1]\<rparr>, 1)"
    by (simp add: cancel_defs)
  moreover have "store_wf ?st" by (simp add: store_wf_def)
  moreover have "wf_events [Cancel 0, Begin 0] \<lparr>latches = [True, False], slots = [1]\<rparr>"
    by (simp add: wf_event_def cancel_defs)
  ultimately show ?thesis
    using cancel_reaches_current_operation[of ?st 0 "\<lparr>latches = [True, False], slots = [1]\<rparr>" 1 "[Cancel 0, Begin 0]"]
    by simp
qed

text \<open>
  C24: no cancel is lost.  Whatever the interleaving of the wait loop with a \<^verbatim>\<open>signal()\<close> call, once the
  call has returned the waiter comes back within three of its own steps: it is never parked behind a
  notification that was sent before it registered.  Relied on of \<^verbatim>\<open>Notify\<close>: enabling registers, and
  \<^verbatim>\<open>notify_waiters\<close> completes what is registered.
\<close>

theorem cancelled_never_misses_signal:
  assumes "notify_contract enable notify_waiters registered woken"
    and "spc (run_schedule enable notify_waiters woken ws (init_wait n)) = Notified"
  shows "wpc (run_schedule enable notify_waiters woken [True, True, True]
    (run_schedule enable notify_waiters woken ws (init_wait n))) = Returned"
proof -
  have "wait_inv registered woken (init_wait n)" by (simp add: wait_inv_def init_wait_def)
  from waiter_returns[OF wait_inv_run[OF assms(1) this] assms(2)] show ?thesis .
qed

theorem cancelled_never_misses_signal_witness:
  "wpc (run_schedule (\<lambda>_. (True, False)) (\<lambda>(r, w). (r, r)) snd [True, True, True]
     (run_schedule (\<lambda>_. (True, False)) (\<lambda>(r, w). (r, r)) snd
        [True, True, True, False, False] (init_wait (False, False)))) = Returned"
proof (rule cancelled_never_misses_signal)
  show "notify_contract (\<lambda>_. (True, False)) (\<lambda>(r, w). (r, r)) fst (snd :: bool \<times> bool \<Rightarrow> bool)"
    by (simp add: notify_contract_def)
  show "spc (run_schedule (\<lambda>_. (True, False)) (\<lambda>(r, w). (r, r)) snd
        [True, True, True, False, False] (init_wait (False, False))) = Notified"
    by (simp add: init_wait_def waiter_step_def signaller_step_def)
qed

text \<open>
  A latched signal wins.  \<^verbatim>\<open>block_on_cancellable\<close> returns the operation's result only if the signal
  was unlatched at every poll up to and with the one that found the operation ready; if any of
  those polls finds it latched the outcome is the \<open>Cancelled\<close> error.
\<close>

theorem block_on_cancellable_outcome:
  "block_on_cancellable polls = Some r \<longleftrightarrow>
   (\<exists>pre c ready post. polls = pre @ (c, ready) # post
      \<and> list_all (\<lambda>p. \<not> fst p \<and> snd p = None) pre
      \<and> (c \<and> r = Inl cancelled_err \<or> \<not> c \<and> ready = Some r))"
  (is "?L polls \<longleftrightarrow> ?R polls")
proof
  show "?L polls \<Longrightarrow> ?R polls"
  proof (induction polls)
    case (Cons p polls)
    obtain c ready where p: "p = (c, ready)" by (cases p)
    show ?case
    proof (cases "\<not> c \<and> ready = None")
      case True
      with Cons p obtain pre d rd post where "polls = pre @ (d, rd) # post"
        "list_all (\<lambda>p. \<not> fst p \<and> snd p = None) pre"
        "d \<and> r = Inl cancelled_err \<or> \<not> d \<and> rd = Some r" by auto
      with True p show ?thesis by (intro exI[of _ "p # pre"]) auto
    next
      case False
      with Cons.prems p show ?thesis by (intro exI[of _ "[]"]) (auto split: if_splits option.splits)
    qed
  qed simp
  show "?R polls \<Longrightarrow> ?L polls"
    by (auto simp: block_on_cancellable_skip)
qed

text \<open>
  C25: prefetching delivers the stream.  However the task, the consumer, a cancel and a dropped
  receiver interleave, the channel holds at most one chunk and the data chunks received are, in
  order and without repetition, a prefix of the source's; and when the task has ended and the channel
  is empty without a cancel or a drop, exactly the whole stream (with its terminating error, if any)
  has been received.
\<close>

theorem prefetch_in_order:
  assumes "prefetch_reach src s"
  shows "length (chan s) \<le> 1 \<and> (\<exists>rest. oks (stream_items src) = oks (received s) @ rest)
    \<and> (task s = Ended \<and> chan s = [] \<and> \<not> cancelled s \<and> \<not> dropped s \<longrightarrow> received s = stream_items src)"
  using prefetch_inv_reach[OF assms] by (auto simp: prefetch_inv_def)

theorem prefetch_in_order_witness:
  "\<exists>s. prefetch_reach [Inr [1 :: nat]] s \<and> task s = Ended \<and> received s = stream_items [Inr [1]]"
proof -
  let ?s = "\<lambda>src t ch rec. \<lparr>source = src, task = t, chan = ch, received = rec, cancelled = False,
    dropped = False\<rparr> :: nat prefetch"
  have "prefetch_step (spawn_prefetch [Inr [1]]) (?s [] (Sending [1]) [] [])"
    by (rule prefetch_step_eqI, rule fetch_rows[where rows = "[1]"]) (simp_all add: spawn_prefetch_def)
  moreover have "prefetch_step (?s [] (Sending [1]) [] []) (?s [] Fetching [Inr [1]] [])"
    by (rule prefetch_step_eqI, rule send_rows[where rows = "[1]"]) simp_all
  moreover have "prefetch_step (?s [] Fetching [Inr [1]] []) (?s [] Fetching [] [Inr [1]])"
    by (rule prefetch_step_eqI, rule recv[where x = "Inr [1]"]) simp_all
  moreover have "prefetch_step (?s [] Fetching [] [Inr [1]]) (?s [] Ended [] [Inr [1]])"
    by (rule prefetch_step_eqI, rule fetch_drained) simp_all
  ultimately have "prefetch_reach [Inr [1]] (?s [] Ended [] [Inr [1]])" by (meson pf_init pf_step)
  with prefetch_in_order[OF this] show ?thesis by fastforce
qed

end
