(* ===== verification/Ingest.thy ===== *)
theory Ingest
  imports Txn
begin

text \<open>
  Bulk ingest, \<^verbatim>\<open>src/statement/ingest.rs\<close>: the chunk budget, the walk that cuts the bound rows into
  commit chunks, the write-only commit of a row range with its bisect on the mutation limit, the
  BatchWrite transport, and the error annotations and remaps.

  The conversion of one bound row into an insert mutation is the parameter \<open>ins\<close> (any function), and
  the write-only commit of the Spanner client is \<open>write\<close>, from a server state to its answer and the
  next server state.  Row indexes are \<^verbatim>\<open>usize\<close> and never leave the range of the bound rows, so they are
  naturals; the budget's \<^verbatim>\<open>u64\<close> arithmetic saturates and is written out.
\<close>

section \<open>The chunk budget\<close>

definition u64_max :: nat where
  "u64_max = 2 ^ 64 - 1"

definition saturating_add :: "nat \<Rightarrow> nat \<Rightarrow> nat" where
  "saturating_add a b = min (a + b) u64_max"

definition INGEST_CHUNK_MUTATION_LIMIT :: nat where
  "INGEST_CHUNK_MUTATION_LIMIT = 20000"

definition INGEST_CHUNK_BYTE_BUDGET :: nat where
  "INGEST_CHUNK_BYTE_BUDGET = 4 * 1024 * 1024"

record budget =
  b_rows :: nat
  b_mutations :: nat
  b_bytes :: nat

definition default_budget :: budget where
  "default_budget = \<lparr>b_rows = 0, b_mutations = 0, b_bytes = 0\<rparr>"

definition fits :: "nat \<Rightarrow> nat \<Rightarrow> budget \<Rightarrow> bool" where
  "fits columns row_bytes b \<longleftrightarrow>
     b_rows b = 0 \<or>
     (saturating_add (b_mutations b) columns \<le> INGEST_CHUNK_MUTATION_LIMIT
      \<and> saturating_add (b_bytes b) row_bytes \<le> INGEST_CHUNK_BYTE_BUDGET)"

definition add_row :: "nat \<Rightarrow> nat \<Rightarrow> budget \<Rightarrow> budget" where
  "add_row columns row_bytes b =
     \<lparr>b_rows = b_rows b + 1, b_mutations = saturating_add (b_mutations b) columns,
      b_bytes = saturating_add (b_bytes b) row_bytes\<rparr>"

section \<open>Error annotation\<close>

definition is_mutation_limit_exceeded :: "error \<Rightarrow> bool" where
  "is_mutation_limit_exceeded e \<longleftrightarrow>
     status e = InvalidArguments
     \<and> contains_str (to_ascii_lowercase (message e)) (lit ''too many mutations'')"

definition outcome_unknown :: "error \<Rightarrow> bool" where
  "outcome_unknown e \<longleftrightarrow> status e = Timeout \<or> status e = Cancelled"

definition committed_note :: "int \<Rightarrow> rstring" where
  "committed_note committed =
     show_int committed
       @ lit '' row(s) from this bulk ingest were already committed and remain in the table''"

definition unknown_note :: rstring where
  "unknown_note =
     lit ''this chunk's own commit outcome is unknown '' @ [8212]
       @ lit '' it may still have landed server-side, so retrying could duplicate rows''"

definition note_rows_already_committed :: "error \<Rightarrow> int \<Rightarrow> error" where
  "note_rows_already_committed e committed =
     (if committed = 0 \<and> \<not> outcome_unknown e then e
      else let note = (if committed > 0 then committed_note committed else []);
               note' = (if outcome_unknown e
                        then (if note \<noteq> [] then note @ lit ''; '' else note) @ unknown_note
                        else note)
           in annotate e (\<lambda>m. m @ lit '' ('' @ note' @ lit '')''))"

section \<open>Row ranges\<close>

text \<open>A bound record batch: its rows, its column count and its Arrow buffer footprint.\<close>

record 'r batch =
  rows :: "'r list"
  num_columns :: nat
  memory_size :: nat

abbreviation num_rows :: "'r batch \<Rightarrow> nat" where
  "num_rows b \<equiv> length (rows b)"

text \<open>The inner loop of \<^verbatim>\<open>build_range_mutations\<close>: rows \<open>lo..hi\<close> of one batch, stopping at the first error.\<close>

definition push_rows :: "('r \<Rightarrow> 'm result) \<Rightarrow> 'r batch \<Rightarrow> nat \<Rightarrow> nat \<Rightarrow> 'm list \<Rightarrow> 'm list result" where
  "push_rows ins b lo hi acc =
     try_bind (collect_results (map (\<lambda>i. ins (rows b ! i)) [lo..<hi])) (\<lambda>ms. Inr (acc @ ms))"

fun build_range_loop ::
  "('r \<Rightarrow> 'm result) \<Rightarrow> nat \<Rightarrow> nat \<Rightarrow> nat \<Rightarrow> 'r batch list \<Rightarrow> 'm list \<Rightarrow> 'm list result" where
  "build_range_loop ins start end base [] acc = Inr acc"
| "build_range_loop ins start end base (b # bs) acc =
     (let lo = max start base - base;
          hi = min end (base + num_rows b) - base
      in try_bind (push_rows ins b lo hi acc) (\<lambda>acc'.
           if base + num_rows b \<ge> end then Inr acc'
           else build_range_loop ins start end (base + num_rows b) bs acc'))"

definition build_range_mutations ::
  "('r \<Rightarrow> 'm result) \<Rightarrow> 'r batch list \<Rightarrow> nat \<Rightarrow> nat \<Rightarrow> 'm list result" where
  "build_range_mutations ins bound start end = build_range_loop ins start end 0 bound []"

text \<open>\<^verbatim>\<open>write_mutations_txn\<close>: an empty list of mutations commits nothing.\<close>

definition write_mutations_txn ::
  "('srv \<Rightarrow> 'm list \<Rightarrow> unit result \<times> 'srv) \<Rightarrow> 'm list \<Rightarrow> 'srv \<Rightarrow> unit result \<times> 'srv" where
  "write_mutations_txn write ms srv = (if ms = [] then (Inr (), srv) else write srv ms)"

text \<open>
  \<^verbatim>\<open>write_mutation_range\<close>, with \<open>build\<close> for \<open>build_range_mutations\<close> on the bound batches and \<open>write\<close>
  for the commit.
\<close>

function write_mutation_range ::
  "(nat \<Rightarrow> nat \<Rightarrow> 'm list result) \<Rightarrow> ('m list \<Rightarrow> 'srv \<Rightarrow> unit result \<times> 'srv) \<Rightarrow>
   nat \<Rightarrow> nat \<Rightarrow> int \<Rightarrow> 'srv \<Rightarrow> int result \<times> 'srv" where
  "write_mutation_range build write start end prior_total srv =
     (case build start end of
        Inl e \<Rightarrow> (Inl (note_rows_already_committed e prior_total), srv)
      | Inr ms \<Rightarrow>
          (case write ms srv of
             (Inr _, srv1) \<Rightarrow> (Inr (int (length ms)), srv1)
           | (Inl e, srv1) \<Rightarrow>
               if end - start > 1 \<and> is_mutation_limit_exceeded e then
                 (let mid = start + (end - start) div 2
                  in case write_mutation_range build write start mid prior_total srv1 of
                       (Inl e', srv2) \<Rightarrow> (Inl e', srv2)
                     | (Inr left, srv2) \<Rightarrow>
                         (case write_mutation_range build write mid end (prior_total + left) srv2 of
                            (Inl e', srv3) \<Rightarrow> (Inl e', srv3)
                          | (Inr right, srv3) \<Rightarrow> (Inr (left + right), srv3)))
               else (Inl (note_rows_already_committed e prior_total), srv1)))"
  by pat_completeness auto
termination
  by (relation "measure (\<lambda>(build, write, start, end, prior, srv). end - start)") auto

declare write_mutation_range.simps [simp del]

section \<open>BatchWrite\<close>

text \<open>
  One streamed \<^verbatim>\<open>BatchWriteResponse\<close>: the status of its groups (code, message, details) if it has one,
  and the indexes of the groups it reports on.
\<close>

record 'd write_response =
  response_status :: "(int \<times> rstring \<times> 'd list) option"
  indexes :: "int list"

definition failed_status :: "'d write_response \<Rightarrow> (int \<times> rstring \<times> 'd list) option" where
  "failed_status r =
     (case response_status r of
        Some (code, m, ds) \<Rightarrow> if code \<noteq> 0 then Some (code, m, ds) else None
      | None \<Rightarrow> None)"

text \<open>
  The response loop: \<open>applied\<close> rows so far and the first group failure.  An item of the stream is a
  response or the transport error that ends it; \<open>conv_status\<close> is \<open>from_status_parts\<close>, \<open>conv\<close> is
  \<open>from_spanner\<close>.
\<close>

fun batch_write_loop ::
  "('t \<Rightarrow> error) \<Rightarrow> (int \<times> rstring \<times> 'd list \<Rightarrow> error) \<Rightarrow> int \<Rightarrow>
   ('t + 'd write_response) list \<Rightarrow> int \<Rightarrow> error option \<Rightarrow> int result" where
  "batch_write_loop conv conv_status prior_total [] applied first_error =
     (case first_error of
        Some e \<Rightarrow> Inl (note_rows_already_committed e (prior_total + applied))
      | None \<Rightarrow> Inr applied)"
| "batch_write_loop conv conv_status prior_total (Inl t # rs) applied first_error =
     Inl (note_rows_already_committed (conv t) (prior_total + applied))"
| "batch_write_loop conv conv_status prior_total (Inr r # rs) applied first_error =
     (case failed_status r of
        None \<Rightarrow> batch_write_loop conv conv_status prior_total rs (applied + int (length (indexes r))) first_error
      | Some st \<Rightarrow>
          batch_write_loop conv conv_status prior_total rs applied
            (case first_error of None \<Rightarrow> Some (conv_status st) | Some e \<Rightarrow> Some e))"

text \<open>
  \<^verbatim>\<open>batch_write_chunk\<close>: \<open>stream\<close> is \<^verbatim>\<open>execute_streaming\<close> on one single-mutation group per row, from a
  server state to the streamed responses (or the error of the call) and the next server state.
\<close>

definition batch_write_chunk ::
  "('t \<Rightarrow> error) \<Rightarrow> (int \<times> rstring \<times> 'd list \<Rightarrow> error) \<Rightarrow>
   ('m list list \<Rightarrow> 'srv \<Rightarrow> ('t + ('t + 'd write_response) list) \<times> 'srv) \<Rightarrow>
   'm list \<Rightarrow> int \<Rightarrow> 'srv \<Rightarrow> int result \<times> 'srv" where
  "batch_write_chunk conv conv_status stream ms prior_total srv =
     (if ms = [] then (Inr 0, srv)
      else case stream (map (\<lambda>m. [m]) ms) srv of
             (Inl t, srv') \<Rightarrow> (Inl (note_rows_already_committed (conv t) prior_total), srv')
           | (Inr rs, srv') \<Rightarrow> (batch_write_loop conv conv_status prior_total rs 0 None, srv'))"

section \<open>The chunk walk\<close>

text \<open>\<^verbatim>\<open>commit_ingest_range\<close>; \<open>bw\<close> is \<open>batch_write_chunk\<close> with its transport.\<close>

definition commit_ingest_range ::
  "bool \<Rightarrow> (nat \<Rightarrow> nat \<Rightarrow> 'm list result) \<Rightarrow> ('m list \<Rightarrow> 'srv \<Rightarrow> unit result \<times> 'srv) \<Rightarrow>
   ('m list \<Rightarrow> int \<Rightarrow> 'srv \<Rightarrow> int result \<times> 'srv) \<Rightarrow>
   nat \<Rightarrow> nat \<Rightarrow> int \<Rightarrow> 'srv \<Rightarrow> int result \<times> 'srv" where
  "commit_ingest_range batch_write build write bw start end prior_total srv =
     (if start \<ge> end then (Inr 0, srv)
      else if batch_write then
        (case build start end of
           Inl e \<Rightarrow> (Inl (note_rows_already_committed e prior_total), srv)
         | Inr ms \<Rightarrow> bw ms prior_total srv)
      else write_mutation_range build write start end prior_total srv)"

record walk =
  total :: int
  chunk_budget :: budget
  chunk_start :: nat
  row_index :: nat

definition start_walk :: walk where
  "start_walk = \<lparr>total = 0, chunk_budget = default_budget, chunk_start = 0, row_index = 0\<rparr>"

text \<open>The row loop of one batch, for its remaining \<open>n\<close> rows.\<close>

fun walk_rows ::
  "(nat \<Rightarrow> nat \<Rightarrow> int \<Rightarrow> 'srv \<Rightarrow> int result \<times> 'srv) \<Rightarrow> nat \<Rightarrow> nat \<Rightarrow> nat \<Rightarrow> walk \<Rightarrow> 'srv \<Rightarrow>
   walk result \<times> 'srv" where
  "walk_rows commit_range columns row_bytes 0 w srv = (Inr w, srv)"
| "walk_rows commit_range columns row_bytes (Suc n) w srv =
     (if \<not> fits columns row_bytes (chunk_budget w) then
        (case commit_range (chunk_start w) (row_index w) (total w) srv of
           (Inl e, srv') \<Rightarrow> (Inl e, srv')
         | (Inr k, srv') \<Rightarrow>
             walk_rows commit_range columns row_bytes n
               \<lparr>total = total w + k, chunk_budget = add_row columns row_bytes default_budget,
                chunk_start = row_index w, row_index = row_index w + 1\<rparr> srv')
      else walk_rows commit_range columns row_bytes n
             (w\<lparr>chunk_budget := add_row columns row_bytes (chunk_budget w),
                row_index := row_index w + 1\<rparr>) srv)"

fun walk_batches ::
  "(nat \<Rightarrow> nat \<Rightarrow> int \<Rightarrow> 'srv \<Rightarrow> int result \<times> 'srv) \<Rightarrow> 'r batch list \<Rightarrow> walk \<Rightarrow> 'srv \<Rightarrow>
   walk result \<times> 'srv" where
  "walk_batches commit_range [] w srv = (Inr w, srv)"
| "walk_batches commit_range (b # bs) w srv =
     (case walk_rows commit_range (num_columns b) (memory_size b div max (num_rows b) 1) (num_rows b) w srv of
        (Inl e, srv') \<Rightarrow> (Inl e, srv')
      | (Inr w', srv') \<Rightarrow> walk_batches commit_range bs w' srv')"

text \<open>The autocommit arm of \<^verbatim>\<open>run_ingest_mutations\<close>, up to the count of ingested rows.\<close>

definition ingest_autocommit ::
  "(nat \<Rightarrow> nat \<Rightarrow> int \<Rightarrow> 'srv \<Rightarrow> int result \<times> 'srv) \<Rightarrow> 'r batch list \<Rightarrow> 'srv \<Rightarrow> int result \<times> 'srv" where
  "ingest_autocommit commit_range bound srv =
     (case walk_batches commit_range bound start_walk srv of
        (Inl e, srv') \<Rightarrow> (Inl e, srv')
      | (Inr w, srv') \<Rightarrow>
          (case commit_range (chunk_start w) (row_index w) (total w) srv' of
             (Inl e, srv2) \<Rightarrow> (Inl e, srv2)
           | (Inr k, srv2) \<Rightarrow> (Inr (total w + k), srv2)))"

section \<open>Building a range\<close>

definition slice :: "nat \<Rightarrow> nat \<Rightarrow> 'a list \<Rightarrow> 'a list" where
  "slice i j xs = take (j - i) (drop i xs)"

lemma slice_split: "i \<le> j \<Longrightarrow> j \<le> k \<Longrightarrow> slice i k xs = slice i j xs @ slice j k xs"
proof -
  assume "i \<le> j" "j \<le> k"
  then have "take (k - i) (drop i xs) = take (j - i) (drop i xs) @ take (k - i - (j - i)) (drop (j - i) (drop i xs))"
    by (metis diff_le_mono le_add_diff_inverse take_add)
  with \<open>i \<le> j\<close> show ?thesis by (simp add: slice_def)
qed

lemma length_slice: "j \<le> length xs \<Longrightarrow> length (slice i j xs) = j - i"
  by (simp add: slice_def)

lemma slice_empty [simp]: "slice i i xs = []"
  by (simp add: slice_def)

lemma map_nth_slice: "hi \<le> length xs \<Longrightarrow> map (\<lambda>i. f (xs ! i)) [lo..<hi] = map f (slice lo hi xs)"
  by (rule nth_equalityI) (auto simp: slice_def)

lemma collect_results_append:
  "collect_results (xs @ ys) =
   try_bind (collect_results xs) (\<lambda>a. try_bind (collect_results ys) (\<lambda>b. Inr (a @ b)))"
proof (induction xs)
  case Nil
  then show ?case by (cases "collect_results ys") auto
next
  case (Cons x xs)
  show ?case
    by (cases x; cases "collect_results xs"; cases "collect_results ys") (auto simp: Cons)
qed

lemma slice_append:
  "slice s e (xs @ ys) = slice s (min e (length xs)) xs @ slice (s - length xs) (e - length xs) ys"
  by (cases "s \<le> length xs") (auto simp: slice_def min_def)

lemma build_range_loop_eq:
  assumes "base \<le> end"
  shows "build_range_loop ins start end base bs acc =
    try_bind (collect_results (map ins (slice (start - base) (end - base) (concat (map rows bs)))))
      (\<lambda>ms. Inr (acc @ ms))"
  using assms
proof (induction bs arbitrary: base acc)
  case Nil
  then show ?case by (simp add: slice_def)
next
  case (Cons b bs)
  let ?S = "start - base" and ?E = "end - base" and ?n = "num_rows b"
  let ?rest = "concat (map rows bs)"
  have lo: "max start base - base = ?S" by simp
  have hi: "min end (base + ?n) - base = min ?E ?n" using Cons.prems by simp
  have here: "map (\<lambda>i. ins (rows b ! i)) [?S..<min ?E ?n] = map ins (slice ?S (min ?E ?n) (rows b))"
    by (rule map_nth_slice) simp
  have split: "slice ?S ?E (rows b @ ?rest) = slice ?S (min ?E ?n) (rows b) @ slice (?S - ?n) (?E - ?n) ?rest"
    by (rule slice_append)
  have P: "push_rows ins b (max start base - base) (min end (base + ?n) - base) acc =
      try_bind (collect_results (map ins (slice ?S (min ?E ?n) (rows b)))) (\<lambda>ms. Inr (acc @ ms))"
    by (simp only: push_rows_def lo hi here)
  show ?case
  proof (cases "end \<le> base + ?n")
    case True
    then have "slice (?S - ?n) (?E - ?n) ?rest = []" by (simp add: slice_def)
    with True lo hi here split show ?thesis by (simp add: push_rows_def Let_def )
  next
    case False
    let ?A = "collect_results (map ins (slice ?S (min ?E ?n) (rows b)))"
    let ?B = "collect_results (map ins (slice (?S - ?n) (?E - ?n) ?rest))"
    from False have IH: "build_range_loop ins start end (base + ?n) bs acc' =
        try_bind ?B (\<lambda>ms. Inr (acc' @ ms))" for acc'
      using Cons.IH[of "base + ?n" acc'] by simp
    have "build_range_loop ins start end base (b # bs) acc =
        try_bind (try_bind ?A (\<lambda>ms. Inr (acc @ ms))) (\<lambda>acc'. try_bind ?B (\<lambda>ms. Inr (acc' @ ms)))"
      by (simp only: build_range_loop.simps Let_def P IH False if_False)
    also have "\<dots> = try_bind (try_bind ?A (\<lambda>a. try_bind ?B (\<lambda>b. Inr (a @ b)))) (\<lambda>ms. Inr (acc @ ms))"
      by (cases ?A; cases ?B) simp_all
    finally show ?thesis by (simp only: split list.map concat.simps map_append collect_results_append)
  qed
qed

definition flat :: "'r batch list \<Rightarrow> 'r list" where
  "flat bound = concat (map rows bound)"

lemma build_range_mutations_eq:
  "build_range_mutations ins bound start end = collect_results (map ins (slice start end (flat bound)))"
  by (cases "collect_results (map ins (slice start end (flat bound)))")
    (simp_all add: build_range_mutations_def build_range_loop_eq flat_def)

section \<open>Accounting of committed rows\<close>

text \<open>
  What is relied on of the client's write-only commit: it appends exactly the given mutations when it
  succeeds and nothing when it fails, except that a commit abandoned by a deadline or a cancel may
  have done either.  \<open>tab\<close> reads the rows written so far off the server state.
\<close>

definition write_contract ::
  "('srv \<Rightarrow> 'm list) \<Rightarrow> ('m list \<Rightarrow> 'srv \<Rightarrow> unit result \<times> 'srv) \<Rightarrow> bool" where
  "write_contract tab write \<longleftrightarrow>
     (\<forall>ms srv. case write ms srv of
        (Inr _, srv') \<Rightarrow> tab srv' = tab srv @ ms
      | (Inl e, srv') \<Rightarrow> \<not> outcome_unknown e \<longrightarrow> tab srv' = tab srv)"

text \<open>
  \<open>accounts tab build start end prior r srv srv'\<close>: the answer \<open>r\<close> of committing rows \<open>start..end\<close>
  after \<open>prior\<close> earlier rows is exact.  Success has written all of them and counts them; a failure
  carries the count of all rows written before it, which are the first \<open>k\<close> of the range.
\<close>

definition accounts ::
  "('srv \<Rightarrow> 'm list) \<Rightarrow> (nat \<Rightarrow> nat \<Rightarrow> 'm list result) \<Rightarrow> nat \<Rightarrow> nat \<Rightarrow> int \<Rightarrow>
   int result \<Rightarrow> 'srv \<Rightarrow> 'srv \<Rightarrow> bool" where
  "accounts tab build start end prior r srv srv' \<longleftrightarrow>
     (case r of
        Inr n \<Rightarrow> \<exists>ms. build start end = Inr ms \<and> n = int (end - start) \<and> tab srv' = tab srv @ ms
      | Inl e' \<Rightarrow> \<exists>e k ms. e' = note_rows_already_committed e (prior + int k) \<and> start + k \<le> end
          \<and> build start (start + k) = Inr ms
          \<and> (\<not> outcome_unknown e \<longrightarrow> tab srv' = tab srv @ ms))"

definition range_builder :: "('r \<Rightarrow> 'm result) \<Rightarrow> 'r list \<Rightarrow> nat \<Rightarrow> nat \<Rightarrow> 'm list result" where
  "range_builder ins xs start end = collect_results (map ins (slice start end xs))"

lemma range_builder_split:
  "start \<le> mid \<Longrightarrow> mid \<le> end \<Longrightarrow> range_builder ins xs start end =
   try_bind (range_builder ins xs start mid) (\<lambda>a.
     try_bind (range_builder ins xs mid end) (\<lambda>b. Inr (a @ b)))"
  using slice_split[of start mid "end" xs]
  by (simp add: range_builder_def collect_results_append)

lemma range_builder_empty [simp]: "range_builder ins xs i i = Inr []"
  by (simp add: range_builder_def)

lemma collect_results_length: "collect_results rs = Inr xs \<Longrightarrow> length xs = length rs"
  by (induction rs arbitrary: xs) (auto simp: res_simps)

lemma range_builder_length:
  "range_builder ins xs i j = Inr ms \<Longrightarrow> j \<le> length xs \<Longrightarrow> length ms = j - i"
  by (auto simp: range_builder_def length_slice dest: collect_results_length)

lemma note_status [simp]:
  "status (note_rows_already_committed e n) = status e"
  "vendor_code (note_rows_already_committed e n) = vendor_code e"
  "details (note_rows_already_committed e n) = details e"
  by (simp_all add: note_rows_already_committed_def annotate_def Let_def)

lemma note_unknown [simp]: "outcome_unknown (note_rows_already_committed e n) = outcome_unknown e"
  by (simp add: outcome_unknown_def)

lemma write_mutations_txn_contract:
  "write_contract tab (\<lambda>ms srv. write srv ms) \<Longrightarrow> write_contract tab (write_mutations_txn write)"
  unfolding write_contract_def write_mutations_txn_def by auto

text \<open>An accounted failure or success of the left half, followed by the right half.\<close>

lemma accounts_combine:
  assumes "start \<le> mid" and "mid \<le> end" and "end \<le> length xs"
    and l: "accounts tab (range_builder ins xs) start mid prior (Inr n) srv srv1"
    and r: "accounts tab (range_builder ins xs) mid end (prior + n) res srv1 srv2"
  shows "accounts tab (range_builder ins xs) start end prior
    (case res of Inl e \<Rightarrow> Inl e | Inr m \<Rightarrow> Inr (n + m)) srv srv2"
proof -
  from l obtain a where a: "range_builder ins xs start mid = Inr a" "n = int (mid - start)"
    "tab srv1 = tab srv @ a" by (auto simp: accounts_def)
  show ?thesis
  proof (cases res)
    case (Inr m)
    with r a range_builder_split[OF assms(1,2), of ins xs] assms(1,2) show ?thesis
      by (auto simp: accounts_def)
  next
    case (Inl e')
    with r obtain e k b where e: "e' = note_rows_already_committed e (prior + n + int k)" "mid + k \<le> end"
      "range_builder ins xs mid (mid + k) = Inr b" "\<not> outcome_unknown e \<longrightarrow> tab srv2 = tab srv1 @ b"
      by (auto simp: accounts_def)
    have "range_builder ins xs start (mid + k) = Inr (a @ b)"
      using range_builder_split[of start mid "mid + k" ins xs] assms(1) a(1) e(3) by simp
    moreover have "mid + k = start + ((mid - start) + k)" "prior + n + int k = prior + int ((mid - start) + k)"
      using assms(1) a(2) by simp_all
    ultimately have "e' = note_rows_already_committed e (prior + int ((mid - start) + k))
        \<and> start + ((mid - start) + k) \<le> end
        \<and> range_builder ins xs start (start + ((mid - start) + k)) = Inr (a @ b)
        \<and> (\<not> outcome_unknown e \<longrightarrow> tab srv2 = tab srv @ a @ b)"
      using e(1,2,4) a(3) by (metis append.assoc)
    then show ?thesis unfolding accounts_def Inl sum.case by (metis append.assoc)
  qed
qed

lemma accounts_failed:
  "\<not> outcome_unknown e \<longrightarrow> tab srv' = tab srv \<Longrightarrow> start \<le> end \<Longrightarrow>
   accounts tab (range_builder ins xs) start end prior (Inl (note_rows_already_committed e prior)) srv srv'"
  unfolding accounts_def by (auto intro!: exI[of _ e] exI[of _ 0])

lemma limit_error_known: "is_mutation_limit_exceeded e \<Longrightarrow> \<not> outcome_unknown e"
  by (simp add: is_mutation_limit_exceeded_def outcome_unknown_def)

lemma accounts_start_cong:
  "tab srv = tab srv1 \<Longrightarrow> accounts tab build s e p r srv srv' = accounts tab build s e p r srv1 srv'"
  by (cases r) (simp_all add: accounts_def)

lemma write_mutation_range_accounts:
  assumes "write_contract tab write"
    and "start \<le> end" and "end \<le> length xs"
    and "write_mutation_range (range_builder ins xs) write start end prior srv = (r, srv')"
  shows "accounts tab (range_builder ins xs) start end prior r srv srv'"
  using assms(2-)
proof (induction "end - start" arbitrary: start "end" prior srv r srv' rule: less_induct)
  case less
  note simps = write_mutation_range.simps[of "range_builder ins xs" "write" start "end" prior srv]
  show ?case
  proof (cases "range_builder ins xs start end")
    case (Inl e)
    with less.prems simps show ?thesis by (auto intro: accounts_failed)
  next
    case b: (Inr ms)
    obtain a srv1 where w: "write ms srv = (a, srv1)" by fastforce
    have c: "case a of Inr _ \<Rightarrow> tab srv1 = tab srv @ ms | Inl e \<Rightarrow> \<not> outcome_unknown e \<longrightarrow> tab srv1 = tab srv"
      using assms(1) w unfolding write_contract_def by (metis (no_types, lifting) case_prod_conv)
    show ?thesis
    proof (cases a)
      case (Inr u)
      with b w c less.prems simps range_builder_length[OF b less.prems(2)] show ?thesis
        by (auto simp: accounts_def)
    next
      case e: (Inl e)
      show ?thesis
      proof (cases "end - start > 1 \<and> is_mutation_limit_exceeded e")
        case False
        with b w e c less.prems simps show ?thesis by (auto intro: accounts_failed)
      next
        case True
        then have t1: "tab srv = tab srv1" using c e limit_error_known by auto
        let ?mid = "start + (end - start) div 2"
        obtain l srv2 where l: "write_mutation_range (range_builder ins xs) write start ?mid prior srv1 = (l, srv2)"
          by fastforce
        have m: "start \<le> ?mid" "?mid \<le> end" "?mid - start < end - start" "end - ?mid < end - start"
          using True by auto
        have L: "accounts tab (range_builder ins xs) start ?mid prior l srv1 srv2"
          using less.hyps[OF m(3) m(1) _ l] m(2) less.prems(2) by simp
        show ?thesis
        proof (cases l)
          case (Inl e')
          then have "r = Inl e'" "srv' = srv2" using b w e True l less.prems(3) simps by (simp_all add: Let_def)
          with L Inl m(2) accounts_start_cong[of tab srv srv1, OF t1] show ?thesis by (fastforce simp: accounts_def)
        next
          case (Inr n)
          obtain rr srv3 where R: "write_mutation_range (range_builder ins xs) write ?mid end (prior + n) srv2 = (rr, srv3)"
            by fastforce
          have "accounts tab (range_builder ins xs) ?mid end (prior + n) rr srv2 srv3"
            using less.hyps[OF m(4) m(2) less.prems(2) R] .
          from accounts_combine[OF m(1,2) less.prems(2) L[unfolded Inr] this]
          have "accounts tab (range_builder ins xs) start end prior
              (case rr of Inl e \<Rightarrow> Inl e | Inr m \<Rightarrow> Inr (n + m)) srv srv3"
            using accounts_start_cong[of tab srv srv1, OF t1] by blast
          moreover have "r = (case rr of Inl e \<Rightarrow> Inl e | Inr m \<Rightarrow> Inr (n + m))" "srv' = srv3"
            using b w e True l Inr R less.prems(3) simps by (auto simp: Let_def split: sum.splits)
          ultimately show ?thesis by simp
        qed
      qed
    qed
  qed
qed

text \<open>The contract of committing a range, as the chunk walk relies on it.\<close>

definition commits_ranges ::
  "('srv \<Rightarrow> 'm list) \<Rightarrow> (nat \<Rightarrow> nat \<Rightarrow> 'm list result) \<Rightarrow> nat \<Rightarrow>
   (nat \<Rightarrow> nat \<Rightarrow> int \<Rightarrow> 'srv \<Rightarrow> int result \<times> 'srv) \<Rightarrow> bool" where
  "commits_ranges tab build n commit_range \<longleftrightarrow>
     (\<forall>s e prior srv r srv'. s \<le> e \<longrightarrow> e \<le> n \<longrightarrow> commit_range s e prior srv = (r, srv') \<longrightarrow>
        accounts tab build s e prior r srv srv')"

lemma commit_ingest_range_commits:
  assumes "write_contract tab write"
  shows "commits_ranges tab (range_builder ins xs) (length xs)
    (commit_ingest_range False (range_builder ins xs) write bw)"
  unfolding commits_ranges_def
proof (intro allI impI)
  fix s e :: nat and prior srv r srv'
  assume a: "s \<le> e" "e \<le> length xs"
    "commit_ingest_range False (range_builder ins xs) write bw s e prior srv = (r, srv')"
  show "accounts tab (range_builder ins xs) s e prior r srv srv'"
  proof (cases "s = e")
    case True
    with a(3) show ?thesis by (auto simp: commit_ingest_range_def accounts_def)
  next
    case False
    with a(1,3) have "write_mutation_range (range_builder ins xs) write s e prior srv = (r, srv')"
      by (simp add: commit_ingest_range_def)
    from write_mutation_range_accounts[OF assms a(1,2) this] show ?thesis .
  qed
qed

definition walk_ok ::
  "('srv \<Rightarrow> 'm list) \<Rightarrow> (nat \<Rightarrow> nat \<Rightarrow> 'm list result) \<Rightarrow> 'srv \<Rightarrow> walk \<Rightarrow> 'srv \<Rightarrow> bool" where
  "walk_ok tab build srv0 w srv \<longleftrightarrow>
     chunk_start w \<le> row_index w \<and> accounts tab build 0 (chunk_start w) 0 (Inr (total w)) srv0 srv"

lemma accounts_Inl_mono:
  "accounts tab build s e p (Inl x) srv srv' \<Longrightarrow> e \<le> e' \<Longrightarrow> accounts tab build s e' p (Inl x) srv srv'"
proof -
  assume "accounts tab build s e p (Inl x) srv srv'" and "e \<le> e'"
  then obtain e0 k ms where k: "x = note_rows_already_committed e0 (p + int k)" "s + k \<le> e"
    "build s (s + k) = Inr ms" "\<not> outcome_unknown e0 \<longrightarrow> tab srv' = tab srv @ ms"
    unfolding accounts_def sum.case by blast
  from k(2) \<open>e \<le> e'\<close> have "s + k \<le> e'" by simp
  with k show ?thesis unfolding accounts_def sum.case by blast
qed

lemma walk_commit:
  assumes "commits_ranges tab (range_builder ins xs) (length xs) commit_range"
    and "walk_ok tab (range_builder ins xs) srv0 w srv" and "row_index w \<le> length xs"
    and "commit_range (chunk_start w) (row_index w) (total w) srv = (r, srv')"
  shows "accounts tab (range_builder ins xs) 0 (row_index w) 0
    (case r of Inl e \<Rightarrow> Inl e | Inr k \<Rightarrow> Inr (total w + k)) srv0 srv'"
proof -
  have w: "chunk_start w \<le> row_index w"
    "accounts tab (range_builder ins xs) 0 (chunk_start w) 0 (Inr (total w)) srv0 srv"
    using assms(2) by (simp_all add: walk_ok_def)
  have "accounts tab (range_builder ins xs) (chunk_start w) (row_index w) (0 + total w) r srv srv'"
    using assms(1,3,4) w(1) by (simp add: commits_ranges_def)
  from accounts_combine[OF _ w(1) assms(3) w(2) this] show ?thesis by simp
qed

lemma walk_rows_accounts:
  assumes "commits_ranges tab (range_builder ins xs) (length xs) commit_range"
    and "walk_ok tab (range_builder ins xs) srv0 w srv" and "row_index w + n \<le> length xs"
    and "walk_rows commit_range c b n w srv = (r, srv')"
  shows "case r of
      Inl e \<Rightarrow> accounts tab (range_builder ins xs) 0 (length xs) 0 (Inl e) srv0 srv'
    | Inr w' \<Rightarrow> walk_ok tab (range_builder ins xs) srv0 w' srv' \<and> row_index w' = row_index w + n"
  using assms(2-)
proof (induction n arbitrary: w srv)
  case 0
  then show ?case by auto
next
  case (Suc n)
  show ?case
  proof (cases "fits c b (chunk_budget w)")
    case True
    let ?w = "w\<lparr>chunk_budget := add_row c b (chunk_budget w), row_index := row_index w + 1\<rparr>"
    have "walk_ok tab (range_builder ins xs) srv0 ?w srv" using Suc.prems(1) by (simp add: walk_ok_def)
    from Suc.IH[OF this] Suc.prems(2,3) True show ?thesis by (cases r) simp_all
  next
    case False
    obtain k srv1 where k: "commit_range (chunk_start w) (row_index w) (total w) srv = (k, srv1)" by fastforce
    note W = walk_commit[OF assms(1) Suc.prems(1) _ k]
    show ?thesis
    proof (cases k)
      case (Inl e)
      with W Suc.prems(2) have "accounts tab (range_builder ins xs) 0 (row_index w) 0 (Inl e) srv0 srv1" by simp
      from accounts_Inl_mono[OF this, of "length xs"] Inl False k Suc.prems(2,3) show ?thesis by auto
    next
      case (Inr m)
      let ?w = "\<lparr>total = total w + m, chunk_budget = add_row c b default_budget,
        chunk_start = row_index w, row_index = row_index w + 1\<rparr>"
      have "walk_ok tab (range_builder ins xs) srv0 ?w srv1" using W Inr Suc.prems(2) by (simp add: walk_ok_def)
      from Suc.IH[OF this] Suc.prems(2,3) False k Inr show ?thesis by (cases r) simp_all
    qed
  qed
qed

lemma walk_batches_accounts:
  assumes "commits_ranges tab (range_builder ins xs) (length xs) commit_range"
    and "walk_ok tab (range_builder ins xs) srv0 w srv"
    and "row_index w + length (flat bs) = length xs"
    and "walk_batches commit_range bs w srv = (r, srv')"
  shows "case r of
      Inl e \<Rightarrow> accounts tab (range_builder ins xs) 0 (length xs) 0 (Inl e) srv0 srv'
    | Inr w' \<Rightarrow> walk_ok tab (range_builder ins xs) srv0 w' srv' \<and> row_index w' = length xs"
  using assms(2-)
proof (induction bs arbitrary: w srv)
  case Nil
  then show ?case by (auto simp: flat_def)
next
  case (Cons b bs)
  let ?wr = "walk_rows commit_range (num_columns b) (memory_size b div max (num_rows b) 1) (num_rows b) w srv"
  obtain k srv1 where k: "?wr = (k, srv1)" by fastforce
  have len: "row_index w + num_rows b + length (flat bs) = length xs"
    using Cons.prems(2) by (simp add: flat_def)
  note W = walk_rows_accounts[OF assms(1) Cons.prems(1) _ k]
  show ?case
  proof (cases k)
    case (Inl e)
    with W len k Cons.prems(3) show ?thesis by auto
  next
    case (Inr w')
    with W len have "walk_ok tab (range_builder ins xs) srv0 w' srv1" "row_index w' = row_index w + num_rows b"
      by auto
    with Cons.IH[of w' srv1] len k Inr Cons.prems(3) show ?thesis by simp
  qed
qed

lemma ingest_autocommit_accounts:
  assumes "commits_ranges tab (range_builder ins (flat bound)) (length (flat bound)) commit_range"
    and "ingest_autocommit commit_range bound srv = (r, srv')"
  shows "accounts tab (range_builder ins (flat bound)) 0 (length (flat bound)) 0 r srv srv'"
proof -
  let ?xs = "flat bound"
  obtain k srv1 where k: "walk_batches commit_range bound start_walk srv = (k, srv1)" by fastforce
  have "walk_ok tab (range_builder ins ?xs) srv start_walk srv"
    by (simp add: walk_ok_def start_walk_def accounts_def)
  note W = walk_batches_accounts[OF assms(1) this _ k]
  show ?thesis
  proof (cases k)
    case (Inl e)
    with W k assms(2) show ?thesis by (auto simp: ingest_autocommit_def start_walk_def)
  next
    case (Inr w)
    with W have w: "walk_ok tab (range_builder ins ?xs) srv w srv1" "row_index w = length ?xs"
      by (auto simp: start_walk_def)
    obtain m srv2 where m: "commit_range (chunk_start w) (row_index w) (total w) srv1 = (m, srv2)" by fastforce
    have "r = (case m of Inl e \<Rightarrow> Inl e | Inr k \<Rightarrow> Inr (total w + k))" "srv' = srv2"
      using assms(2) k Inr m by (auto simp: ingest_autocommit_def split: sum.splits)
    with walk_commit[OF assms(1) w(1) _ m] w(2) show ?thesis by simp
  qed
qed

lemma build_range_mutations_builder: "build_range_mutations ins bound = range_builder ins (flat bound)"
  by (intro ext) (simp add: build_range_mutations_eq range_builder_def)

end
