(* ===== verification/IngestProps.thy ===== *)
theory IngestProps
  imports Ingest
begin

text \<open>
  Correctness of the autocommit bulk ingest: the rows written and the count reported agree on every
  outcome, the bisect on the mutation limit completes, and the chunks it commits respect the budget.
\<close>

section \<open>The bisect completes\<close>

text \<open>A server that refuses a commit only for its size, and never a commit of one row.\<close>

definition refuses_only_oversized :: "('m list \<Rightarrow> 'srv \<Rightarrow> unit result \<times> 'srv) \<Rightarrow> bool" where
  "refuses_only_oversized write \<longleftrightarrow>
     (\<forall>ms srv. case write ms srv of
        (Inr _, _) \<Rightarrow> True
      | (Inl e, _) \<Rightarrow> length ms > 1 \<and> is_mutation_limit_exceeded e)"

lemma range_builder_Inr_half:
  assumes "range_builder ins xs start end = Inr ms" and "start \<le> mid" and "mid \<le> end"
  shows "\<exists>a b. range_builder ins xs start mid = Inr a \<and> range_builder ins xs mid end = Inr b \<and> ms = a @ b"
  using assms(1) range_builder_split[OF assms(2,3), of ins xs] by (auto simp: res_simps)

lemma bisect_completes:
  assumes "refuses_only_oversized write" and "start \<le> end" and "end \<le> length xs"
    and "range_builder ins xs start end = Inr ms"
  shows "\<exists>srv'. write_mutation_range (range_builder ins xs) write start end prior srv
    = (Inr (int (end - start)), srv')"
  using assms(2-)
proof (induction "end - start" arbitrary: start "end" prior srv ms rule: less_induct)
  case less
  note simps = write_mutation_range.simps[of "range_builder ins xs" "write" start "end" prior srv]
  have len: "length ms = end - start" using range_builder_length[OF less.prems(3,2)] .
  obtain a srv1 where w: "write ms srv = (a, srv1)" by fastforce
  have c: "case a of Inr _ \<Rightarrow> True | Inl e \<Rightarrow> length ms > 1 \<and> is_mutation_limit_exceeded e"
    using assms(1) w unfolding refuses_only_oversized_def by (metis (no_types, lifting) case_prod_conv)
  show ?case
  proof (cases a)
    case (Inr u)
    with less.prems(3) w len simps show ?thesis by simp
  next
    case (Inl e)
    with c len have gt: "end - start > 1" "is_mutation_limit_exceeded e" by simp_all
    let ?mid = "start + (end - start) div 2"
    have m: "start \<le> ?mid" "?mid \<le> end" "?mid - start < end - start" "end - ?mid < end - start"
      using gt by auto
    obtain x y where xy: "range_builder ins xs start ?mid = Inr x" "range_builder ins xs ?mid end = Inr y"
      using range_builder_Inr_half[OF less.prems(3) m(1,2)] by blast
    obtain srv2 where l: "write_mutation_range (range_builder ins xs) write start ?mid prior srv1
        = (Inr (int (?mid - start)), srv2)"
      using less.hyps[OF m(3) m(1) _ xy(1)] m(2) less.prems(2) by fastforce
    obtain srv3 where r: "write_mutation_range (range_builder ins xs) write ?mid end
        (prior + int (?mid - start)) srv2 = (Inr (int (end - ?mid)), srv3)"
      using less.hyps[OF m(4) m(2) less.prems(2) xy(2)] by blast
    have "int (?mid - start) + int (end - ?mid) = int (end - start)" using m(1,2) by simp
    with less.prems(3) w Inl gt l r simps show ?thesis by (simp add: Let_def)
  qed
qed

section \<open>Chunks respect the budget\<close>

text \<open>The cost of each row in order (mutations and bytes), and a committer that records its ranges.\<close>

definition row_costs :: "'r batch list \<Rightarrow> (nat \<times> nat) list" where
  "row_costs bound =
     concat (map (\<lambda>b. replicate (num_rows b) (num_columns b, memory_size b div max (num_rows b) 1)) bound)"

definition record_range ::
  "nat \<Rightarrow> nat \<Rightarrow> int \<Rightarrow> (nat \<times> nat) list \<Rightarrow> int result \<times> (nat \<times> nat) list" where
  "record_range start end prior chunks =
     (if start \<ge> end then (Inr 0, chunks) else (Inr (int (end - start)), chunks @ [(start, end)]))"

definition chunk_fits :: "(nat \<times> nat) list \<Rightarrow> nat \<times> nat \<Rightarrow> bool" where
  "chunk_fits costs r =
     (fst r < snd r \<and> snd r \<le> length costs \<and>
      (snd r = fst r + 1 \<or>
       sum_list (map fst (slice (fst r) (snd r) costs)) \<le> INGEST_CHUNK_MUTATION_LIMIT
       \<and> sum_list (map snd (slice (fst r) (snd r) costs)) \<le> INGEST_CHUNK_BYTE_BUDGET))"

text \<open>Consecutive ranges from \<open>i\<close> to \<open>j\<close>.\<close>

fun tiles :: "nat \<Rightarrow> (nat \<times> nat) list \<Rightarrow> nat \<Rightarrow> bool" where
  "tiles i [] j = (i = j)"
| "tiles i ((s, e) # rs) j = (s = i \<and> i < e \<and> tiles e rs j)"

lemma tiles_snoc: "tiles i rs j \<Longrightarrow> j < k \<Longrightarrow> tiles i (rs @ [(j, k)]) k"
  by (induction i rs j rule: tiles.induct) auto

definition budget_ok :: "(nat \<times> nat) list \<Rightarrow> walk \<Rightarrow> (nat \<times> nat) list \<Rightarrow> bool" where
  "budget_ok costs w chunks \<longleftrightarrow>
     chunk_start w \<le> row_index w \<and> row_index w \<le> length costs
     \<and> tiles 0 chunks (chunk_start w) \<and> list_all (chunk_fits costs) chunks
     \<and> total w = int (chunk_start w)
     \<and> b_rows (chunk_budget w) = row_index w - chunk_start w
     \<and> b_mutations (chunk_budget w) =
         min (sum_list (map fst (slice (chunk_start w) (row_index w) costs))) u64_max
     \<and> b_bytes (chunk_budget w) =
         min (sum_list (map snd (slice (chunk_start w) (row_index w) costs))) u64_max
     \<and> (b_rows (chunk_budget w) > 1 \<longrightarrow>
          sum_list (map fst (slice (chunk_start w) (row_index w) costs)) \<le> INGEST_CHUNK_MUTATION_LIMIT
          \<and> sum_list (map snd (slice (chunk_start w) (row_index w) costs)) \<le> INGEST_CHUNK_BYTE_BUDGET)"

lemma slice_Suc: "i \<le> j \<Longrightarrow> j < length xs \<Longrightarrow> slice i (Suc j) xs = slice i j xs @ [xs ! j]"
  by (simp add: slice_def Suc_diff_le take_Suc_conv_app_nth)

lemma sat_add_min: "saturating_add (min a u64_max) b = min (a + b) u64_max"
  by (auto simp: saturating_add_def)

lemma limits_below_u64: "INGEST_CHUNK_MUTATION_LIMIT < u64_max" "INGEST_CHUNK_BYTE_BUDGET < u64_max"
  by (simp_all add: INGEST_CHUNK_MUTATION_LIMIT_def INGEST_CHUNK_BYTE_BUDGET_def u64_max_def)

lemma sat_add_le: "L < u64_max \<Longrightarrow> saturating_add (min a u64_max) b \<le> L \<longleftrightarrow> a + b \<le> L"
  by (auto simp: saturating_add_def)

lemma budget_ok_add:
  assumes "budget_ok costs w chunks" and "row_index w < length costs"
    and "costs ! row_index w = (c, b)" and "fits c b (chunk_budget w)"
  shows "budget_ok costs (w\<lparr>chunk_budget := add_row c b (chunk_budget w), row_index := row_index w + 1\<rparr>) chunks"
proof -
  let ?s = "slice (chunk_start w) (row_index w) costs"
  have s: "slice (chunk_start w) (Suc (row_index w)) costs = ?s @ [(c, b)]"
    using assms(1-3) by (simp add: slice_Suc budget_ok_def)
  have f: "b_rows (chunk_budget w) = 0 \<or>
      sum_list (map fst ?s) + c \<le> INGEST_CHUNK_MUTATION_LIMIT
      \<and> sum_list (map snd ?s) + b \<le> INGEST_CHUNK_BYTE_BUDGET"
  proof -
    have "b_mutations (chunk_budget w) = min (sum_list (map fst ?s)) u64_max"
      "b_bytes (chunk_budget w) = min (sum_list (map snd ?s)) u64_max"
      using assms(1) by (simp_all add: budget_ok_def)
    with assms(4) show ?thesis
      by (simp only: fits_def sat_add_le[OF limits_below_u64(1)] sat_add_le[OF limits_below_u64(2)])
  qed
  show ?thesis using assms(1,2) s f
    by (auto simp: budget_ok_def add_row_def sat_add_min)
qed

lemma budget_ok_cut:
  assumes "budget_ok costs w chunks" and "row_index w < length costs"
    and "costs ! row_index w = (c, b)" and "\<not> fits c b (chunk_budget w)"
  shows "\<exists>chunks'. record_range (chunk_start w) (row_index w) (total w) chunks
      = (Inr (int (row_index w - chunk_start w)), chunks')
    \<and> budget_ok costs \<lparr>total = total w + int (row_index w - chunk_start w),
        chunk_budget = add_row c b default_budget, chunk_start = row_index w,
        row_index = row_index w + 1\<rparr> chunks'"
proof -
  have lt: "chunk_start w < row_index w" using assms(1,4) by (auto simp: budget_ok_def fits_def)
  have s: "slice (row_index w) (Suc (row_index w)) costs = [(c, b)]"
    using assms(2,3) by (simp add: slice_Suc)
  have "chunk_fits costs (chunk_start w, row_index w)"
    using assms(1,2) lt by (auto simp: budget_ok_def chunk_fits_def)
  with assms(1,2) lt s show ?thesis
    by (auto simp: record_range_def budget_ok_def add_row_def default_budget_def saturating_add_def
        intro: tiles_snoc)
qed

lemma walk_rows_budget:
  assumes "budget_ok costs w chunks" and "row_index w + n \<le> length costs"
    and "\<And>i. i < n \<Longrightarrow> costs ! (row_index w + i) = (c, b)"
  shows "\<exists>w' chunks'. walk_rows record_range c b n w chunks = (Inr w', chunks')
    \<and> budget_ok costs w' chunks' \<and> row_index w' = row_index w + n"
  using assms
proof (induction n arbitrary: w chunks)
  case 0
  then show ?case by simp
next
  case (Suc n)
  have now: "row_index w < length costs" "costs ! row_index w = (c, b)"
    using Suc.prems(2) Suc.prems(3)[of 0] by simp_all
  have later: "i < n \<Longrightarrow> costs ! (row_index w + 1 + i) = (c, b)" for i
    using Suc.prems(3)[of "Suc i"] by simp
  show ?case
  proof (cases "fits c b (chunk_budget w)")
    case True
    from Suc.IH[OF budget_ok_add[OF Suc.prems(1) now True]] later Suc.prems(2) True show ?thesis by auto
  next
    case False
    from budget_ok_cut[OF Suc.prems(1) now False] obtain chunks' where
      k: "record_range (chunk_start w) (row_index w) (total w) chunks
        = (Inr (int (row_index w - chunk_start w)), chunks')"
      and ok: "budget_ok costs \<lparr>total = total w + int (row_index w - chunk_start w),
        chunk_budget = add_row c b default_budget, chunk_start = row_index w,
        row_index = row_index w + 1\<rparr> chunks'" by blast
    from Suc.IH[OF ok] later Suc.prems(2) False k show ?thesis by auto
  qed
qed

lemma walk_batches_budget:
  assumes "budget_ok costs w chunks" and "drop (row_index w) costs = row_costs bs"
  shows "\<exists>w' chunks'. walk_batches record_range bs w chunks = (Inr w', chunks')
    \<and> budget_ok costs w' chunks' \<and> row_index w' = length costs"
  using assms
proof (induction bs arbitrary: w chunks)
  case Nil
  then show ?case by (auto simp: row_costs_def budget_ok_def)
next
  case (Cons b bs)
  let ?c = "num_columns b" and ?b = "memory_size b div max (num_rows b) 1"
  have d: "drop (row_index w) costs = replicate (num_rows b) (?c, ?b) @ row_costs bs"
    using Cons.prems(2) by (simp add: row_costs_def)
  have le: "row_index w \<le> length costs" using Cons.prems(1) by (simp add: budget_ok_def)
  have len: "row_index w + num_rows b \<le> length costs"
    using arg_cong[OF d, of length] le by simp
  have nth: "i < num_rows b \<Longrightarrow> costs ! (row_index w + i) = (?c, ?b)" for i
    using arg_cong[OF d, of "\<lambda>l. l ! i"] le by (simp add: nth_append)
  have rest: "drop (row_index w + num_rows b) costs = row_costs bs"
    using arg_cong[OF d, of "drop (num_rows b)"] by (simp add: add.commute)
  from walk_rows_budget[OF Cons.prems(1) len nth] obtain w' chunks' where
    w': "walk_rows record_range ?c ?b (num_rows b) w chunks = (Inr w', chunks')"
    "budget_ok costs w' chunks'" "row_index w' = row_index w + num_rows b" by auto
  from Cons.IH[OF w'(2)] rest w'(1,3) show ?case by simp
qed

section \<open>The BatchWrite response loop\<close>

definition applied_rows :: "('t + 'd write_response) list \<Rightarrow> int" where
  "applied_rows read =
     int (sum_list (map (\<lambda>r. length (indexes (projr r))) (filter (\<lambda>r. failed_status (projr r) = None) read)))"

definition first_failure ::
  "(int \<times> rstring \<times> 'd list \<Rightarrow> error) \<Rightarrow> ('t + 'd write_response) list \<Rightarrow> error option" where
  "first_failure conv_status read =
     (case List.map_filter (\<lambda>r. failed_status (projr r)) read of [] \<Rightarrow> None | st # _ \<Rightarrow> Some (conv_status st))"

definition batch_outcome ::
  "('t \<Rightarrow> error) \<Rightarrow> int \<Rightarrow> ('t + 'd write_response) list \<Rightarrow> int \<Rightarrow> error option \<Rightarrow> int result" where
  "batch_outcome conv prior tail applied fe =
     (case tail of
        t # _ \<Rightarrow> Inl (note_rows_already_committed (conv (projl t)) (prior + applied))
      | [] \<Rightarrow> (case fe of
                 Some e \<Rightarrow> Inl (note_rows_already_committed e (prior + applied))
               | None \<Rightarrow> Inr applied))"

lemma applied_rows_simps:
  "applied_rows [] = 0"
  "applied_rows (Inr r # rs) = (if failed_status r = None then int (length (indexes r)) else 0) + applied_rows rs"
  by (simp_all add: applied_rows_def)

lemma first_failure_simps:
  "first_failure cs [] = None"
  "first_failure cs (Inr r # rs) = (case failed_status r of Some st \<Rightarrow> Some (cs st) | None \<Rightarrow> first_failure cs rs)"
  by (simp_all add: first_failure_def map_filter_simps split: option.split)

lemma batch_write_loop_eq:
  "batch_write_loop conv conv_status prior rs a fe =
   batch_outcome conv prior (dropWhile (\<lambda>r. \<not> isl r) rs) (a + applied_rows (takeWhile (\<lambda>r. \<not> isl r) rs))
     (case fe of Some e \<Rightarrow> Some e | None \<Rightarrow> first_failure conv_status (takeWhile (\<lambda>r. \<not> isl r) rs))"
proof (induction conv conv_status prior rs a fe rule: batch_write_loop.induct)
  case (3 conv conv_status prior r rs a fe)
  then show ?case
    by (cases "failed_status r"; cases fe) (simp_all add: applied_rows_simps first_failure_simps algebra_simps)
qed (simp_all add: batch_outcome_def applied_rows_simps first_failure_simps split: option.split)

section \<open>Properties\<close>





text \<open>
  C27: the walk cuts the rows into non-empty consecutive chunks that cover all of them, and every
  chunk of more than one row stays within both budgets: at most 20000 mutations (rows times columns)
  and 4 MiB of estimated size.  No sum of the budget ever saturates within a chunk of several rows.
\<close>

theorem ingest_chunks_within_budget:
  "\<exists>chunks. ingest_autocommit record_range bound [] = (Inr (int (length (row_costs bound))), chunks)
    \<and> tiles 0 chunks (length (row_costs bound)) \<and> list_all (chunk_fits (row_costs bound)) chunks"
proof -
  let ?costs = "row_costs bound"
  have "budget_ok ?costs start_walk []"
    by (simp add: budget_ok_def start_walk_def default_budget_def)
  from walk_batches_budget[OF this, of bound] obtain w chunks where
    w: "walk_batches record_range bound start_walk [] = (Inr w, chunks)" "budget_ok ?costs w chunks"
    "row_index w = length ?costs" by (auto simp: start_walk_def)
  show ?thesis
  proof (cases "chunk_start w < row_index w")
    case True
    with w(2) have "chunk_fits ?costs (chunk_start w, row_index w)"
      by (auto simp: budget_ok_def chunk_fits_def)
    with True w show ?thesis
      by (auto simp: ingest_autocommit_def record_range_def budget_ok_def intro: tiles_snoc)
  next
    case False
    with w show ?thesis by (auto simp: ingest_autocommit_def record_range_def budget_ok_def)
  qed
qed

text \<open>
  a BatchWrite chunk counts what was applied.  The streamed responses are read up to the first
  transport error; the rows counted as applied are those of the responses with an \<open>OK\<close> or absent
  status, and the outcome is the transport error if there is one, else the first failed group's
  status, else success, the error always annotated with the earlier rows plus the applied ones.
\<close>

theorem batch_write_counts_applied:
  "batch_write_loop conv conv_status prior rs 0 None =
   (let read = takeWhile (\<lambda>r. \<not> isl r) rs; applied = applied_rows read
    in case dropWhile (\<lambda>r. \<not> isl r) rs of
         t # _ \<Rightarrow> Inl (note_rows_already_committed (conv (projl t)) (prior + applied))
       | [] \<Rightarrow> (case List.map_filter (\<lambda>r. failed_status (projr r)) read of
                  st # _ \<Rightarrow> Inl (note_rows_already_committed (conv_status st) (prior + applied))
                | [] \<Rightarrow> Inr applied))"
  unfolding batch_write_loop_eq[of conv conv_status prior rs 0 None]
  by (cases "dropWhile (\<lambda>r. \<not> isl r) rs";
      cases "List.map_filter (\<lambda>r. failed_status (projr r)) (takeWhile (\<lambda>r. \<not> isl r) rs)")
    (simp_all add: Let_def batch_outcome_def first_failure_def del: dropWhile_eq_Nil_conv)

end
