(* ===== verification/Options.thy ===== *)
theory Options
  imports Complex_Main Errors
begin

text \<open>
  Option coercions, \<^verbatim>\<open>src/options.rs\<close>: booleans, strings, integers and seconds as every ADBC object
  parses them, and the raw-beside-parsed cell behind the options that round-trip through
  \<^verbatim>\<open>get_option\<close>.

  A rejection names the option it was told to name (the \<^verbatim>\<open>what\<close> label), so the label is part of the
  model's messages; the echoed value is not.  An \<^verbatim>\<open>f64\<close> is a finite rational or one of the special
  values; the rounding of a rational to the nearest double is the parameter \<open>rnd\<close>.
\<close>

section \<open>Values\<close>

datatype f64 = Fin rat | Infinite bool | NaN

type_synonym rounding = "rat \<Rightarrow> f64"

datatype option_value = OString rstring | OBytes "u8 list" | OInt int | ODouble f64

fun is_finite :: "f64 \<Rightarrow> bool" where
  "is_finite (Fin q) = True"
| "is_finite _ = False"

text \<open>\<^verbatim>\<open>x > 0.0\<close> and \<^verbatim>\<open>x >= 0.0\<close>; the sign flag of an infinity is \<open>True\<close> when negative.\<close>

fun f64_gt0 :: "f64 \<Rightarrow> bool" where
  "f64_gt0 (Fin q) = (q > 0)"
| "f64_gt0 (Infinite neg) = (\<not> neg)"
| "f64_gt0 NaN = False"

fun f64_ge0 :: "f64 \<Rightarrow> bool" where
  "f64_ge0 (Fin q) = (q \<ge> 0)"
| "f64_ge0 (Infinite neg) = (\<not> neg)"
| "f64_ge0 NaN = False"

text \<open>Multiplication by a positive finite factor, rounded.\<close>

fun f64_scale :: "rounding \<Rightarrow> f64 \<Rightarrow> rat \<Rightarrow> f64" where
  "f64_scale rnd (Fin q) u = rnd (q * u)"
| "f64_scale rnd (Infinite neg) u = Infinite neg"
| "f64_scale rnd NaN u = NaN"

text \<open>
  \<^verbatim>\<open>Duration::try_from_secs_f64\<close>: the value in whole nanoseconds, rounded to nearest with ties to even;
  \<open>None\<close> when negative, not finite, or past \<^verbatim>\<open>u64::MAX\<close> seconds.
\<close>

definition round_half_even :: "rat \<Rightarrow> int" where
  "round_half_even q =
     (let f = \<lfloor>q\<rfloor>; d = q - of_int f
      in if d < 1 / 2 then f else if d > 1 / 2 then f + 1 else if even f then f else f + 1)"

fun try_from_secs_f64 :: "f64 \<Rightarrow> nat option" where
  "try_from_secs_f64 (Fin q) =
     (if q < 0 then None
      else let n = nat (round_half_even (q * 1000000000))
           in if n div 1000000000 < 2 ^ 64 then Some n else None)"
| "try_from_secs_f64 _ = None"

text \<open>
  \<^verbatim>\<open>str::parse::<f64>\<close>: an optional sign, then \<^verbatim>\<open>inf\<close>, \<^verbatim>\<open>infinity\<close> or \<^verbatim>\<open>nan\<close> in any case, or a decimal with
  optional fraction and exponent and at least one digit.
\<close>

definition digit_run :: "rstring \<Rightarrow> rstring \<times> rstring" where
  "digit_run s = (takeWhile is_ascii_digit s, dropWhile is_ascii_digit s)"

definition parse_exponent :: "rstring \<Rightarrow> int option" where
  "parse_exponent s =
     (case s of
        [] \<Rightarrow> Some 0
      | e # rest \<Rightarrow>
          if to_lower e \<noteq> ch CHR ''e'' then None
          else (let (neg, ds) = (case rest of
                      [] \<Rightarrow> (False, [])
                    | c # cs \<Rightarrow> if c = ch CHR ''-'' then (True, cs)
                                else if c = ch CHR ''+'' then (False, cs) else (False, rest))
                in map_option (\<lambda>n. if neg then - int n else int n) (parse_nat ds)))"

definition pow10 :: "int \<Rightarrow> rat" where
  "pow10 k = (if k \<ge> 0 then 10 ^ nat k else 1 / 10 ^ nat (- k))"

definition parse_decimal :: "rstring \<Rightarrow> rat option" where
  "parse_decimal s =
     (let (ip, r1) = digit_run s;
          (fp, r2) = (case r1 of
                        c # cs \<Rightarrow> if c = ch CHR ''.'' then digit_run cs else ([], r1)
                      | [] \<Rightarrow> ([], []))
      in if ip @ fp = [] then None
         else case (parse_nat (ip @ fp), parse_exponent r2) of
                (Some m, Some k) \<Rightarrow> Some (of_nat m * pow10 (k - int (length fp)))
              | _ \<Rightarrow> None)"

definition parse_f64 :: "rounding \<Rightarrow> rstring \<Rightarrow> f64 option" where
  "parse_f64 rnd s =
     (let (neg, body) = (case s of
            [] \<Rightarrow> (False, [])
          | c # cs \<Rightarrow> if c = ch CHR ''-'' then (True, cs)
                      else if c = ch CHR ''+'' then (False, cs) else (False, s));
          low = to_ascii_lowercase body
      in if low = lit ''inf'' \<or> low = lit ''infinity'' then Some (Infinite neg)
         else if low = lit ''nan'' then Some NaN
         else map_option (\<lambda>q. rnd (if neg then - q else q)) (parse_decimal body))"

section \<open>Coercions\<close>

definition bool_option :: "option_value \<Rightarrow> rstring \<Rightarrow> bool result" where
  "bool_option value what =
     (case value of
        OString s \<Rightarrow>
          if s = lit ''true'' then Inr True
          else if s = lit ''false'' then Inr False
          else Inl (invalid_argument (what @ lit '' expects true or false''))
      | _ \<Rightarrow> Inl (invalid_argument (what @ lit '' is a boolean option and takes the strings true/false'')))"

definition bool_option_unsettable :: "option_value \<Rightarrow> rstring \<Rightarrow> bool result" where
  "bool_option_unsettable value what =
     (case value of
        OString s \<Rightarrow> if trim s = [] then Inr False else bool_option value what
      | _ \<Rightarrow> bool_option value what)"

definition string_option :: "option_value \<Rightarrow> rstring \<Rightarrow> rstring result" where
  "string_option value what =
     (case value of
        OString s \<Rightarrow> Inr s
      | _ \<Rightarrow> Inl (invalid_argument (what @ lit '' requires a string value'')))"

definition non_empty_string_option :: "option_value \<Rightarrow> rstring \<Rightarrow> rstring option result" where
  "non_empty_string_option value what =
     try_bind (string_option value what) (\<lambda>s. Inr (if s = [] then None else Some s))"

datatype f64_range = PositiveSeconds | NonNegativeSeconds | PositiveFactor

definition f64_option ::
  "rounding \<Rightarrow> option_value \<Rightarrow> rstring \<Rightarrow> f64_range \<Rightarrow> f64 option result" where
  "f64_option rnd value what rng =
     (let (bound, units) = (case rng of
            PositiveSeconds \<Rightarrow> (lit ''strictly positive'', lit '' of seconds'')
          | NonNegativeSeconds \<Rightarrow> (lit ''non-negative'', lit '' of seconds'')
          | PositiveFactor \<Rightarrow> (lit ''strictly positive'', []));
          reject = invalid_argument (lit ''option '' @ what @ lit '' must be a finite, '' @ bound
            @ lit '' number'' @ units);
          checked = (\<lambda>n.
            let in_range = (case rng of NonNegativeSeconds \<Rightarrow> f64_ge0 n | _ \<Rightarrow> f64_gt0 n)
            in if \<not> is_finite n \<or> \<not> in_range then Inl reject
               else if rng \<noteq> PositiveFactor \<and> try_from_secs_f64 n = None then Inl reject
               else Inr (Some n))
      in case value of
           OString s \<Rightarrow>
             if trim s = [] then Inr None
             else (case parse_f64 rnd (trim s) of None \<Rightarrow> Inl reject | Some n \<Rightarrow> checked n)
         | ODouble d \<Rightarrow> checked d
         | OInt i \<Rightarrow> checked (rnd (of_int i))
         | OBytes _ \<Rightarrow> Inl reject)"

definition positive_i64 :: "option_value \<Rightarrow> rstring \<Rightarrow> int result" where
  "positive_i64 value what =
     (let reject = invalid_argument (what @ lit '' must be a positive integer'')
      in try_bind (case value of
                     OInt i \<Rightarrow> Inr i
                   | OString s \<Rightarrow> ok_or reject (parse_i64 s)
                   | _ \<Rightarrow> Inl reject)
           (\<lambda>n. if n > 0 then Inr n else Inl reject))"

text \<open>\<^verbatim>\<open>usize\<close> is 64 bits wide, so every positive \<^verbatim>\<open>i64\<close> fits.\<close>

definition positive_usize :: "option_value \<Rightarrow> rstring \<Rightarrow> nat result" where
  "positive_usize value what =
     try_bind (positive_i64 value what) (\<lambda>n.
       if 0 \<le> n \<and> n < 2 ^ 64 \<and> n > 0 then Inr (nat n)
       else Inl (invalid_argument (what @ lit '' must be a positive integer'')))"

definition int_from_stored_string :: "rstring result \<Rightarrow> rstring \<Rightarrow> int result" where
  "int_from_stored_string stored what =
     try_bind stored (\<lambda>v. ok_or (invalid_argument (what @ lit '' value is not an integer'')) (parse_i64 v))"

definition double_from_stored_string :: "rounding \<Rightarrow> rstring result \<Rightarrow> rstring \<Rightarrow> f64 result" where
  "double_from_stored_string rnd stored what =
     try_bind stored (\<lambda>v. ok_or (invalid_argument (what @ lit '' value is not a double'')) (parse_f64 rnd v))"

section \<open>The raw-beside-parsed cell\<close>

record 'a raw_parsed =
  raw :: "rstring option"
  parsed :: "'a option"

definition raw_default :: "'a raw_parsed" where
  "raw_default = \<lparr>raw = None, parsed = None\<rparr>"

text \<open>\<^verbatim>\<open>RawParsed::set\<close>; a rejected value leaves the cell as it was.\<close>

definition raw_set ::
  "option_value \<Rightarrow> rstring \<Rightarrow> (rstring \<Rightarrow> 'a result) \<Rightarrow> 'a raw_parsed \<Rightarrow> 'a raw_parsed result" where
  "raw_set value what parse c =
     try_bind (string_option value what) (\<lambda>s.
       if trim s = [] then Inr (c\<lparr>raw := None, parsed := None\<rparr>)
       else try_bind (parse (trim s)) (\<lambda>v. Inr (c\<lparr>raw := Some (trim s), parsed := Some v\<rparr>)))"

section \<open>The contract of a string option\<close>

text \<open>
  An option cell as \<^verbatim>\<open>set_option\<close>/\<^verbatim>\<open>get_option\<close> use it: \<open>put\<close> stores a value or rejects it, \<open>get\<close>
  reports the stored text, \<open>ok\<close> is the state invariant.  Whatever a cell reports can be set again and
  is reported unchanged, on the same cell or on another one.
\<close>

locale option_cell =
  fixes put :: "option_value \<Rightarrow> 'c \<Rightarrow> 'c result"
    and get :: "'c \<Rightarrow> rstring option"
    and ok :: "'c \<Rightarrow> bool"
  assumes put_ok: "ok c \<Longrightarrow> put v c = Inr c' \<Longrightarrow> ok c'"
    and put_get: "put (OString s) c = Inr c' \<Longrightarrow> get c' = (if trim s = [] then None else Some (trim s))"
    and put_again: "ok c \<Longrightarrow> get c = Some r \<Longrightarrow> \<exists>d'. put (OString r) d = Inr d'"
    and get_trimmed: "ok c \<Longrightarrow> get c = Some r \<Longrightarrow> trim r = r \<and> r \<noteq> []"
    and put_other: "(\<nexists>s. v = OString s) \<Longrightarrow> \<exists>e. put v c = Inl e \<and> status e = InvalidArguments"
    and put_blank: "trim s = [] \<Longrightarrow> \<exists>c'. put (OString s) c = Inr c' \<and> get c' = None"
begin

lemma reported_value_round_trips:
  assumes "ok c" and "get c = Some r"
  shows "\<exists>d'. put (OString r) d = Inr d' \<and> get d' = Some r"
proof -
  from put_again[OF assms] obtain d' where d': "put (OString r) d = Inr d'" by blast
  with put_get[OF d'] get_trimmed[OF assms] show ?thesis by auto
qed

lemma set_then_get:
  assumes "put (OString s) c = Inr c'" and "trim s \<noteq> []"
  shows "get c' = Some (trim s)"
  using put_get[OF assms(1)] assms(2) by simp

end

text \<open>The invariant of a cell: both halves set together, the raw text trimmed and parsing to the value.\<close>

definition raw_ok :: "(rstring \<Rightarrow> 'a result) \<Rightarrow> 'a raw_parsed \<Rightarrow> bool" where
  "raw_ok parse c =
     (case raw c of
        None \<Rightarrow> parsed c = None
      | Some r \<Rightarrow> trim r = r \<and> r \<noteq> [] \<and> (\<exists>v. parse r = Inr v \<and> parsed c = Some v))"

lemma raw_set_Inr:
  "raw_set v what parse c = Inr c' \<longleftrightarrow>
   (\<exists>s. v = OString s \<and>
      (trim s = [] \<and> c' = c\<lparr>raw := None, parsed := None\<rparr> \<or>
       trim s \<noteq> [] \<and> (\<exists>x. parse (trim s) = Inr x \<and> c' = c\<lparr>raw := Some (trim s), parsed := Some x\<rparr>)))"
  by (auto simp: raw_set_def string_option_def res_simps split: option_value.splits)

interpretation raw_cell: option_cell "\<lambda>v. raw_set v what parse" raw "raw_ok parse" for what parse
proof
  fix c :: "'a raw_parsed" and v c'
  assume "raw_set v what parse c = Inr c'"
  then show "raw_ok parse c'" by (auto simp: raw_set_Inr raw_ok_def)
next
  fix s and c c' :: "'a raw_parsed"
  assume "raw_set (OString s) what parse c = Inr c'"
  then show "raw c' = (if trim s = [] then None else Some (trim s))" by (auto simp: raw_set_Inr)
next
  fix c d :: "'a raw_parsed" and r
  assume "raw_ok parse c" "raw c = Some r"
  then obtain v where "trim r = r" "r \<noteq> []" "parse r = Inr v" by (auto simp: raw_ok_def)
  then show "\<exists>d'. raw_set (OString r) what parse d = Inr d'" by (auto simp: raw_set_Inr)
next
  fix c :: "'a raw_parsed" and r
  assume "raw_ok parse c" "raw c = Some r"
  then show "trim r = r \<and> r \<noteq> []" by (simp add: raw_ok_def)
next
  fix v and c :: "'a raw_parsed"
  assume "\<nexists>s. v = OString s"
  then show "\<exists>e. raw_set v what parse c = Inl e \<and> status e = InvalidArguments"
    by (cases v) (auto simp: raw_set_def string_option_def status_constructors)
next
  fix s and c :: "'a raw_parsed"
  assume "trim s = []"
  then show "\<exists>c'. raw_set (OString s) what parse c = Inr c' \<and> raw c' = None"
    by (simp add: raw_set_def string_option_def)
qed

end
