(* ===== verification/OptionConfigs.thy ===== *)
theory OptionConfigs
  imports Options
begin

text \<open>
  The option families a connection and its statements share: the read bound (\<^verbatim>\<open>src/staleness.rs\<close>), the
  request priority, tags and commit knobs (\<^verbatim>\<open>src/request.rs\<close>), directed reads
  (\<^verbatim>\<open>src/directed_read.rs\<close>), retry and backoff tuning (\<^verbatim>\<open>src/retry.rs\<close>), optimizer options
  (\<^verbatim>\<open>src/query_options.rs\<close>), the isolation level (\<^verbatim>\<open>src/connection/exec.rs\<close>) and the timestamp precision
  (\<^verbatim>\<open>src/conversion.rs\<close>).

  The client's request builders are opaque: an \<^verbatim>\<open>apply_to_*\<close> method is modelled by the setter calls it
  makes, in order.  The RFC 3339 parser of \<^verbatim>\<open>chrono\<close> is the parameter \<open>rfc3339\<close>.
\<close>

section \<open>Option keys\<close>

definition OPTION_READ_STALENESS :: rstring where
  "OPTION_READ_STALENESS = lit ''spanner.read.staleness''"

definition OPTION_REQUEST_PRIORITY :: rstring where
  "OPTION_REQUEST_PRIORITY = lit ''spanner.request.priority''"

definition OPTION_DIRECTED_READ :: rstring where
  "OPTION_DIRECTED_READ = lit ''spanner.directed_read''"

definition OPTION_REQUEST_TAG :: rstring where
  "OPTION_REQUEST_TAG = lit ''spanner.request.tag''"

definition OPTION_QUERY_OPTIMIZER_VERSION :: rstring where
  "OPTION_QUERY_OPTIMIZER_VERSION = lit ''spanner.query.optimizer_version''"

definition OPTION_QUERY_OPTIMIZER_STATISTICS_PACKAGE :: rstring where
  "OPTION_QUERY_OPTIMIZER_STATISTICS_PACKAGE = lit ''spanner.query.optimizer_statistics_package''"

definition OPTION_RPC_TIMEOUT_QUERY :: rstring where
  "OPTION_RPC_TIMEOUT_QUERY = lit ''spanner.rpc.timeout_seconds.query''"

definition OPTION_RPC_TIMEOUT_UPDATE :: rstring where
  "OPTION_RPC_TIMEOUT_UPDATE = lit ''spanner.rpc.timeout_seconds.update''"

definition OPTION_RPC_TIMEOUT_FETCH :: rstring where
  "OPTION_RPC_TIMEOUT_FETCH = lit ''spanner.rpc.timeout_seconds.fetch''"

definition OPTION_RETRY_MAX_ATTEMPTS :: rstring where
  "OPTION_RETRY_MAX_ATTEMPTS = lit ''spanner.retry.max_attempts''"

definition OPTION_RETRY_MAX_ELAPSED_SECONDS :: rstring where
  "OPTION_RETRY_MAX_ELAPSED_SECONDS = lit ''spanner.retry.max_elapsed_seconds''"

definition OPTION_RETRY_BACKOFF_INITIAL_SECONDS :: rstring where
  "OPTION_RETRY_BACKOFF_INITIAL_SECONDS = lit ''spanner.retry.backoff.initial_seconds''"

definition OPTION_RETRY_BACKOFF_MAX_SECONDS :: rstring where
  "OPTION_RETRY_BACKOFF_MAX_SECONDS = lit ''spanner.retry.backoff.max_seconds''"

definition OPTION_RETRY_BACKOFF_MULTIPLIER :: rstring where
  "OPTION_RETRY_BACKOFF_MULTIPLIER = lit ''spanner.retry.backoff.multiplier''"

definition OPTION_TRANSACTION_TAG :: rstring where
  "OPTION_TRANSACTION_TAG = lit ''spanner.transaction.tag''"

definition OPTION_MAX_COMMIT_DELAY :: rstring where
  "OPTION_MAX_COMMIT_DELAY = lit ''spanner.commit.max_delay''"

definition OPTION_COMMIT_STATS :: rstring where
  "OPTION_COMMIT_STATS = lit ''spanner.commit_stats''"

definition OPTION_COMMIT_STATS_MUTATION_COUNT :: rstring where
  "OPTION_COMMIT_STATS_MUTATION_COUNT = lit ''spanner.commit_stats.mutation_count''"

definition OPTION_EXCLUDE_TXN_FROM_CHANGE_STREAMS :: rstring where
  "OPTION_EXCLUDE_TXN_FROM_CHANGE_STREAMS = lit ''spanner.transaction.exclude_from_change_streams''"

definition OPTION_MAX_TIMESTAMP_PRECISION :: rstring where
  "OPTION_MAX_TIMESTAMP_PRECISION = lit ''spanner.max_timestamp_precision''"

lemmas option_keys = OPTION_READ_STALENESS_def OPTION_REQUEST_PRIORITY_def OPTION_DIRECTED_READ_def
  OPTION_REQUEST_TAG_def OPTION_QUERY_OPTIMIZER_VERSION_def
  OPTION_QUERY_OPTIMIZER_STATISTICS_PACKAGE_def OPTION_RPC_TIMEOUT_QUERY_def
  OPTION_RPC_TIMEOUT_UPDATE_def OPTION_RPC_TIMEOUT_FETCH_def OPTION_RETRY_MAX_ATTEMPTS_def
  OPTION_RETRY_MAX_ELAPSED_SECONDS_def OPTION_RETRY_BACKOFF_INITIAL_SECONDS_def
  OPTION_RETRY_BACKOFF_MAX_SECONDS_def OPTION_RETRY_BACKOFF_MULTIPLIER_def
  OPTION_TRANSACTION_TAG_def OPTION_MAX_COMMIT_DELAY_def OPTION_COMMIT_STATS_def
  OPTION_COMMIT_STATS_MUTATION_COUNT_def OPTION_EXCLUDE_TXN_FROM_CHANGE_STREAMS_def
  OPTION_MAX_TIMESTAMP_PRECISION_def

section \<open>Read bounds\<close>

text \<open>Durations are in nanoseconds; timestamps are opaque.\<close>

datatype 'ts read_bound =
    ExactStaleness nat | MaxStaleness nat | ReadTimestamp 'ts | MinReadTimestamp 'ts

fun pinned_for_multi_use :: "'ts read_bound \<Rightarrow> 'ts read_bound" where
  "pinned_for_multi_use (MaxStaleness d) = ExactStaleness d"
| "pinned_for_multi_use (MinReadTimestamp t) = ReadTimestamp t"
| "pinned_for_multi_use b = b"

text \<open>The suffix dispatch of \<^verbatim>\<open>parse_duration_for\<close>: the number's text and the unit in seconds.\<close>

definition duration_unit :: "rstring \<Rightarrow> rstring \<times> rat" where
  "duration_unit value =
     (case strip_suffix (lit ''ms'') value of
        Some n \<Rightarrow> (n, 1 / 1000)
      | None \<Rightarrow>
     (case strip_suffix (lit ''us'') value of
        Some n \<Rightarrow> (n, 1 / 1000000)
      | None \<Rightarrow>
     (case strip_suffix [181, ch CHR ''s''] value of
        Some n \<Rightarrow> (n, 1 / 1000000)
      | None \<Rightarrow>
     (case strip_suffix (lit ''ns'') value of
        Some n \<Rightarrow> (n, 1 / 1000000000)
      | None \<Rightarrow>
     (case strip_suffix (lit ''s'') value of
        Some n \<Rightarrow> (n, 1)
      | None \<Rightarrow>
     (case strip_suffix (lit ''m'') value of
        Some n \<Rightarrow> (n, 60)
      | None \<Rightarrow>
     (case strip_suffix (lit ''h'') value of
        Some n \<Rightarrow> (n, 3600)
      | None \<Rightarrow> (value, 1))))))))"

text \<open>The unit constants are themselves doubles, hence rounded.\<close>

definition parse_duration_for :: "rounding \<Rightarrow> rstring \<Rightarrow> rstring \<Rightarrow> nat result" where
  "parse_duration_for rnd value key =
     (let bad = invalid_argument (lit ''option '' @ key @ lit '': not a valid duration'');
          (number, unit_secs) = duration_unit value
      in case (parse_f64 rnd (trim number), rnd unit_secs) of
           (Some magnitude, Fin u) \<Rightarrow>
             let seconds = f64_scale rnd magnitude u
             in if \<not> is_finite seconds \<or> \<not> f64_ge0 seconds then Inl bad
                else ok_or bad (try_from_secs_f64 seconds)
         | _ \<Rightarrow> Inl bad)"

definition parse_duration :: "rounding \<Rightarrow> rstring \<Rightarrow> nat result" where
  "parse_duration rnd value = parse_duration_for rnd value OPTION_READ_STALENESS"

definition grammar_err :: error where
  "grammar_err = invalid_argument (lit ''option '' @ OPTION_READ_STALENESS @ lit '': not a valid read bound'')"

definition parse_rfc3339 :: "(rstring \<Rightarrow> 'ts option) \<Rightarrow> rstring \<Rightarrow> 'ts result" where
  "parse_rfc3339 rfc3339 timestamp =
     ok_or (invalid_argument (lit ''option '' @ OPTION_READ_STALENESS
         @ lit '': does not carry a valid RFC 3339 timestamp''))
       (rfc3339 timestamp)"

definition parse_read_bound ::
  "rounding \<Rightarrow> (rstring \<Rightarrow> 'ts option) \<Rightarrow> rstring \<Rightarrow> 'ts read_bound result" where
  "parse_read_bound rnd rfc3339 value =
     (let bare = ok_or grammar_err (map_option ReadTimestamp (rfc3339 value))
      in case split_once (ch CHR '':'') value of
           None \<Rightarrow> bare
         | Some (kind, arg) \<Rightarrow>
             if trim kind = lit ''exact'' then
               try_bind (parse_duration rnd (trim arg)) (\<lambda>d. Inr (ExactStaleness d))
             else if trim kind = lit ''max'' then
               try_bind (parse_duration rnd (trim arg)) (\<lambda>d. Inr (MaxStaleness d))
             else if trim kind = lit ''read'' then
               try_bind (parse_rfc3339 rfc3339 (trim arg)) (\<lambda>t. Inr (ReadTimestamp t))
             else if trim kind = lit ''min'' then
               try_bind (parse_rfc3339 rfc3339 (trim arg)) (\<lambda>t. Inr (MinReadTimestamp t))
             else bare)"

type_synonym 'ts read_staleness = "'ts read_bound raw_parsed"

definition set_staleness ::
  "rounding \<Rightarrow> (rstring \<Rightarrow> 'ts option) \<Rightarrow> option_value \<Rightarrow> 'ts read_staleness \<Rightarrow> 'ts read_staleness result" where
  "set_staleness rnd rfc3339 value c = raw_set value OPTION_READ_STALENESS (parse_read_bound rnd rfc3339) c"

text \<open>
  The bound handed to the client: \<open>to_bound\<close> is the client's fallible \<^verbatim>\<open>TimestampBound\<close> constructor.
\<close>

definition timestamp_bound ::
  "('ts read_bound \<Rightarrow> 'b result) \<Rightarrow> 'ts read_staleness \<Rightarrow> 'b option result" where
  "timestamp_bound to_bound c =
     (case parsed c of None \<Rightarrow> Inr None | Some b \<Rightarrow> try_bind (to_bound b) (\<lambda>x. Inr (Some x)))"

definition multi_use_timestamp_bound ::
  "('ts read_bound \<Rightarrow> 'b result) \<Rightarrow> 'ts read_staleness \<Rightarrow> 'b option result" where
  "multi_use_timestamp_bound to_bound c =
     (case parsed c of
        None \<Rightarrow> Inr None
      | Some b \<Rightarrow> try_bind (to_bound (pinned_for_multi_use b)) (\<lambda>x. Inr (Some x)))"

section \<open>Requests\<close>

datatype request_priority = Low | Medium | High

definition parse_priority :: "rstring \<Rightarrow> request_priority result" where
  "parse_priority value =
     (if value = lit ''low'' then Inr Low
      else if value = lit ''medium'' then Inr Medium
      else if value = lit ''high'' then Inr High
      else Inl (invalid_argument (lit ''unknown request priority'')))"

definition MAX_COMMIT_DELAY_CAP :: nat where
  "MAX_COMMIT_DELAY_CAP = 500 * 1000000"

definition parse_max_commit_delay :: "rounding \<Rightarrow> rstring \<Rightarrow> nat result" where
  "parse_max_commit_delay rnd value =
     try_bind (parse_duration rnd value) (\<lambda>d.
       if d > MAX_COMMIT_DELAY_CAP
       then Inl (invalid_argument (lit ''spanner.commit.max_delay exceeds Spanner's maximum of 500ms''))
       else Inr d)"

record request_config =
  priority :: "request_priority raw_parsed"
  request_tag :: "rstring option"
  transaction_tag :: "rstring option"
  max_commit_delay :: "nat raw_parsed"
  return_commit_stats :: bool
  exclude_txn_from_change_streams :: bool

definition default_request :: request_config where
  "default_request = \<lparr>priority = raw_default, request_tag = None, transaction_tag = None,
     max_commit_delay = raw_default, return_commit_stats = False,
     exclude_txn_from_change_streams = False\<rparr>"

definition set_priority :: "option_value \<Rightarrow> request_config \<Rightarrow> request_config result" where
  "set_priority value c =
     try_bind (raw_set value OPTION_REQUEST_PRIORITY parse_priority (priority c))
       (\<lambda>p. Inr (c\<lparr>priority := p\<rparr>))"

definition set_request_tag :: "option_value \<Rightarrow> request_config \<Rightarrow> request_config result" where
  "set_request_tag value c =
     try_bind (non_empty_string_option value OPTION_REQUEST_TAG) (\<lambda>t. Inr (c\<lparr>request_tag := t\<rparr>))"

definition set_transaction_tag :: "option_value \<Rightarrow> request_config \<Rightarrow> request_config result" where
  "set_transaction_tag value c =
     try_bind (non_empty_string_option value OPTION_TRANSACTION_TAG) (\<lambda>t. Inr (c\<lparr>transaction_tag := t\<rparr>))"

definition set_max_commit_delay ::
  "rounding \<Rightarrow> option_value \<Rightarrow> request_config \<Rightarrow> request_config result" where
  "set_max_commit_delay rnd value c =
     try_bind (raw_set value OPTION_MAX_COMMIT_DELAY (parse_max_commit_delay rnd) (max_commit_delay c))
       (\<lambda>d. Inr (c\<lparr>max_commit_delay := d\<rparr>))"

definition set_commit_stats :: "option_value \<Rightarrow> request_config \<Rightarrow> request_config result" where
  "set_commit_stats value c =
     try_bind (bool_option_unsettable value (lit ''option '' @ OPTION_COMMIT_STATS))
       (\<lambda>b. Inr (c\<lparr>return_commit_stats := b\<rparr>))"

definition set_exclude_txn_from_change_streams ::
  "option_value \<Rightarrow> request_config \<Rightarrow> request_config result" where
  "set_exclude_txn_from_change_streams value c =
     try_bind (bool_option_unsettable value (lit ''option '' @ OPTION_EXCLUDE_TXN_FROM_CHANGE_STREAMS))
       (\<lambda>b. Inr (c\<lparr>exclude_txn_from_change_streams := b\<rparr>))"

definition bool_string :: "bool \<Rightarrow> rstring" where
  "bool_string b = (if b then lit ''true'' else lit ''false'')"

definition commit_stats_string :: "request_config \<Rightarrow> rstring" where
  "commit_stats_string c = bool_string (return_commit_stats c)"

definition exclude_txn_from_change_streams_string :: "request_config \<Rightarrow> rstring" where
  "exclude_txn_from_change_streams_string c = bool_string (exclude_txn_from_change_streams c)"

text \<open>\<^verbatim>\<open>CommitStats::record\<close> on the cell's content.\<close>

definition record_stats :: "int option \<Rightarrow> int option \<Rightarrow> int option" where
  "record_stats count cell = (case count of Some n \<Rightarrow> Some n | None \<Rightarrow> cell)"

section \<open>Directed reads\<close>

datatype dr_mode = Include | Exclude

datatype replica_type = ReadWrite | ReadOnlyReplica | AnyType

record selection =
  location :: rstring
  replica_kind :: replica_type

record directed_read_spec =
  mode :: dr_mode
  selections :: "selection list"
  auto_failover_disabled :: bool

definition parse_type :: "rstring \<Rightarrow> replica_type result" where
  "parse_type value =
     (if value = lit ''read_write'' then Inr ReadWrite
      else if value = lit ''read_only'' then Inr ReadOnlyReplica
      else if value = lit ''any'' then Inr AnyType
      else Inl (invalid_argument (lit ''unknown replica type'')))"

definition parse_selection :: "rstring \<Rightarrow> selection result" where
  "parse_selection raw_item =
     (let item = trim raw_item
      in if item = [] then
           Inl (invalid_argument (lit ''empty replica selection in spanner.directed_read''))
         else
           try_bind (case split_once (ch CHR '':'') item of
                       Some (loc, type_str) \<Rightarrow>
                         try_bind (parse_type (trim type_str))
                           (\<lambda>k. Inr \<lparr>location = trim loc, replica_kind = k\<rparr>)
                     | None \<Rightarrow> Inr \<lparr>location = item, replica_kind = AnyType\<rparr>)
             (\<lambda>sel. if location sel = [] \<and> replica_kind sel = AnyType
                    then Inl (invalid_argument (lit ''a spanner.directed_read selection needs a location and/or a replica type''))
                    else Inr sel))"

definition parse_mode :: "rstring \<Rightarrow> dr_mode result" where
  "parse_mode s =
     (if s = lit ''include'' then Inr Include
      else if s = lit ''exclude'' then Inr Exclude
      else Inl (invalid_argument (lit ''unknown spanner.directed_read mode'')))"

text \<open>\<^verbatim>\<open>parse\<close> after the flag: \<open>main\<close> is \<^verbatim>\<open><mode>\<close> or \<^verbatim>\<open><mode>:<selections>\<close>.\<close>

definition parse_directed_main :: "rstring \<Rightarrow> bool \<Rightarrow> directed_read_spec result" where
  "parse_directed_main main afd =
     (let (mode_str, sels) = (case split_once (ch CHR '':'') main of
            Some (m, rest) \<Rightarrow> (trim m, Some (trim rest))
          | None \<Rightarrow> (main, None))
      in try_bind (parse_mode mode_str) (\<lambda>md.
         try_bind (case sels of
                     None \<Rightarrow> Inr []
                   | Some str \<Rightarrow> collect_results (map parse_selection (split_on (ch CHR '','') str)))
           (\<lambda>xs.
         if afd \<and> md = Exclude then
           Inl (invalid_argument (lit ''auto_failover_disabled is only valid with an include directed read''))
         else if xs = [] \<and> \<not> (md = Include \<and> afd) then
           Inl (invalid_argument (lit ''spanner.directed_read needs at least one replica selection''))
         else Inr \<lparr>mode = md, selections = xs, auto_failover_disabled = afd\<rparr>)))"

definition parse_directed_read :: "rstring \<Rightarrow> directed_read_spec result" where
  "parse_directed_read value =
     (case split_once (ch CHR '';'') value of
        Some (main, flag) \<Rightarrow>
          if trim flag \<noteq> lit ''auto_failover_disabled''
          then Inl (invalid_argument (lit ''unknown spanner.directed_read flag''))
          else parse_directed_main (trim main) True
      | None \<Rightarrow> parse_directed_main (trim value) False)"

definition set_directed_read ::
  "option_value \<Rightarrow> directed_read_spec raw_parsed \<Rightarrow> directed_read_spec raw_parsed result" where
  "set_directed_read value c = raw_set value OPTION_DIRECTED_READ parse_directed_read c"

section \<open>Retry, optimizer, isolation and precision\<close>

record retry_config =
  max_attempts :: "nat option"
  max_elapsed_seconds :: "f64 option"
  backoff_initial_seconds :: "f64 option"
  backoff_max_seconds :: "f64 option"
  backoff_multiplier :: "f64 option"

definition default_retry :: retry_config where
  "default_retry = \<lparr>max_attempts = None, max_elapsed_seconds = None, backoff_initial_seconds = None,
     backoff_max_seconds = None, backoff_multiplier = None\<rparr>"

text \<open>\<^verbatim>\<open>d as i64\<close> of a whole double saturates at the ends of the range.\<close>

definition saturate_i64 :: "int \<Rightarrow> int" where
  "saturate_i64 i = max (- (2 ^ 63)) (min (2 ^ 63 - 1) i)"

definition parse_max_attempts :: "option_value \<Rightarrow> nat option result" where
  "parse_max_attempts value =
     (let reject = invalid_argument (lit ''option '' @ OPTION_RETRY_MAX_ATTEMPTS
            @ lit '' must be a positive integer number of attempts (>= 1)'');
          checked = (\<lambda>i :: int. if 1 \<le> i \<and> i \<le> 2 ^ 32 - 1 then Inr (Some (nat i)) else Inl reject)
      in case value of
           OString s \<Rightarrow>
             if trim s = [] then Inr None
             else (case parse_i64 (trim s) of None \<Rightarrow> Inl reject | Some i \<Rightarrow> checked i)
         | OInt i \<Rightarrow> checked i
         | ODouble d \<Rightarrow>
             (case d of
                Fin q \<Rightarrow> if of_int \<lfloor>q\<rfloor> = q then checked (saturate_i64 \<lfloor>q\<rfloor>) else Inl reject
              | _ \<Rightarrow> Inl reject)
         | OBytes _ \<Rightarrow> Inl reject)"

definition set_max_attempts :: "option_value \<Rightarrow> retry_config \<Rightarrow> retry_config result" where
  "set_max_attempts value c = try_bind (parse_max_attempts value) (\<lambda>n. Inr (c\<lparr>max_attempts := n\<rparr>))"

record query_options =
  optimizer_version :: "rstring option"
  optimizer_statistics_package :: "rstring option"

datatype isolation_level = Unspecified | Serializable | RepeatableRead

text \<open>The \<^verbatim>\<open>ADBC_OPTION_ISOLATION_LEVEL_*\<close> constants of the ADBC specification.\<close>

definition iso :: "string \<Rightarrow> rstring" where
  "iso level = lit ''adbc.connection.transaction.isolation.'' @ lit level"

definition parse_isolation_level :: "option_value \<Rightarrow> isolation_level result" where
  "parse_isolation_level value =
     (case value of
        OString s \<Rightarrow>
          if s = iso ''default'' then Inr Unspecified
          else if s = iso ''serializable'' then Inr Serializable
          else if s = iso ''repeatable_read'' then Inr RepeatableRead
          else if s = iso ''snapshot'' then Inr RepeatableRead
          else if s = iso ''read_uncommitted'' \<or> s = iso ''read_committed'' then Inr RepeatableRead
          else if s = iso ''linearizable'' then Inr Serializable
          else Inl (invalid_argument (lit ''unknown isolation level''))
      | _ \<Rightarrow> Inl (invalid_argument (lit ''expected a string isolation-level option value'')))"

fun isolation_to_adbc_string :: "isolation_level \<Rightarrow> rstring" where
  "isolation_to_adbc_string Serializable = iso ''serializable''"
| "isolation_to_adbc_string RepeatableRead = iso ''repeatable_read''"
| "isolation_to_adbc_string Unspecified = iso ''default''"

datatype timestamp_precision = NanosecondsErrorOnOverflow | Microseconds

fun precision_str :: "timestamp_precision \<Rightarrow> rstring" where
  "precision_str NanosecondsErrorOnOverflow = lit ''nanoseconds_error_on_overflow''"
| "precision_str Microseconds = lit ''microseconds''"

definition parse_precision :: "option_value \<Rightarrow> timestamp_precision result" where
  "parse_precision value =
     try_bind (string_option value (lit ''option '' @ OPTION_MAX_TIMESTAMP_PRECISION)) (\<lambda>s.
       if trim s = [] then Inr NanosecondsErrorOnOverflow
       else if trim s = precision_str NanosecondsErrorOnOverflow then Inr NanosecondsErrorOnOverflow
       else if trim s = precision_str Microseconds then Inr Microseconds
       else Inl (invalid_argument (lit ''option '' @ OPTION_MAX_TIMESTAMP_PRECISION
              @ lit '' expects one of the two modes'')))"

end
