(* ===== verification/SharedConfig.thy ===== *)
theory SharedConfig
  imports OptionConfigs
begin

text \<open>
  The configuration a connection and its statements share, \<^verbatim>\<open>SharedConfig\<close> and the
  \<^verbatim>\<open>impl_shared_option_dispatch!\<close> table of \<^verbatim>\<open>src/options.rs\<close>, with the RPC timeouts of
  \<^verbatim>\<open>src/timeout.rs\<close>.

  The two \<^verbatim>\<open>Arc\<close> fields are addresses into a store, so that the aliasing of the read-only flag and the
  fresh commit-statistics cell of \<^verbatim>\<open>inherit\<close> are visible.  The two \<^verbatim>\<open>match\<close> statements of the dispatch
  are the association lists \<open>shared_setters\<close> and \<open>shared_getters\<close>.  Rendering a double
  (\<^verbatim>\<open>f64::to_string\<close>) is the parameter \<open>sh\<close>.
\<close>

section \<open>State\<close>

record rpc_timeouts =
  query :: "f64 option"
  update :: "f64 option"
  fetch :: "f64 option"

definition as_duration :: "f64 option \<Rightarrow> nat option" where
  "as_duration seconds =
     (case seconds of None \<Rightarrow> None | Some s \<Rightarrow> if f64_gt0 s then try_from_secs_f64 s else None)"

definition query_timeout :: "rpc_timeouts \<Rightarrow> nat option" where
  "query_timeout t = as_duration (query t)"

definition update_timeout :: "rpc_timeouts \<Rightarrow> nat option" where
  "update_timeout t = as_duration (update t)"

definition fetch_timeout :: "rpc_timeouts \<Rightarrow> nat option" where
  "fetch_timeout t = as_duration (fetch t)"

type_synonym addr = nat

text \<open>The \<^verbatim>\<open>Arc\<close> cells: \<^verbatim>\<open>AtomicBool\<close> flags and commit-statistics counts, and the next free address.\<close>

record arc_store =
  flags :: "addr \<Rightarrow> bool"
  counts :: "addr \<Rightarrow> int option"
  next_addr :: addr

record 'ts shared_config =
  read_only :: addr
  isolation :: isolation_level
  read_staleness :: "'ts read_staleness"
  request :: request_config
  directed_read :: "directed_read_spec raw_parsed"
  query_options :: query_options
  timestamp_precision :: timestamp_precision
  timeouts :: rpc_timeouts
  retry :: retry_config
  commit_stats :: addr

text \<open>\<^verbatim>\<open>SharedConfig::default\<close>: two fresh cells, every option unset.\<close>

definition default_config :: "arc_store \<Rightarrow> 'ts shared_config \<times> arc_store" where
  "default_config st =
     (let a = next_addr st in
      (\<lparr>read_only = a, isolation = Unspecified, read_staleness = raw_default,
        request = default_request, directed_read = raw_default,
        query_options = \<lparr>optimizer_version = None, optimizer_statistics_package = None\<rparr>,
        timestamp_precision = NanosecondsErrorOnOverflow,
        timeouts = \<lparr>query = None, update = None, fetch = None\<rparr>,
        retry = default_retry, commit_stats = a\<rparr>,
       st\<lparr>flags := (flags st)(a := False), counts := (counts st)(a := None), next_addr := a + 1\<rparr>))"

text \<open>\<^verbatim>\<open>SharedConfig::inherit\<close>: a clone, with a fresh statistics cell; the flag's address is shared.\<close>

definition inherit :: "'ts shared_config \<Rightarrow> arc_store \<Rightarrow> 'ts shared_config \<times> arc_store" where
  "inherit c st =
     (let a = next_addr st in
      (c\<lparr>commit_stats := a\<rparr>, st\<lparr>counts := (counts st)(a := None), next_addr := a + 1\<rparr>))"

definition is_read_only :: "'ts shared_config \<Rightarrow> arc_store \<Rightarrow> bool" where
  "is_read_only c st = flags st (read_only c)"

definition set_read_only :: "bool \<Rightarrow> 'ts shared_config \<Rightarrow> arc_store \<Rightarrow> arc_store" where
  "set_read_only b c st = st\<lparr>flags := (flags st)(read_only c := b)\<rparr>"

definition record_commit :: "int option \<Rightarrow> 'ts shared_config \<Rightarrow> arc_store \<Rightarrow> arc_store" where
  "record_commit count c st =
     st\<lparr>counts := (counts st)(commit_stats c := record_stats count (counts st (commit_stats c)))\<rparr>"

section \<open>The dispatch\<close>

definition set_field :: "('v \<Rightarrow> 'c \<Rightarrow> 'c) \<Rightarrow> 'v result \<Rightarrow> 'c \<Rightarrow> 'c result" where
  "set_field upd r c = try_bind r (\<lambda>x. Inr (upd x c))"

type_synonym 'ts setter = "option_value \<Rightarrow> 'ts shared_config \<Rightarrow> 'ts shared_config result"

definition set_request ::
  "(option_value \<Rightarrow> request_config \<Rightarrow> request_config result) \<Rightarrow> 'ts setter" where
  "set_request f v c = set_field (\<lambda>x c. c\<lparr>request := x\<rparr>) (f v (request c)) c"

definition set_timeout ::
  "rounding \<Rightarrow> rstring \<Rightarrow> (f64 option \<Rightarrow> rpc_timeouts \<Rightarrow> rpc_timeouts) \<Rightarrow> 'ts setter" where
  "set_timeout rnd key upd v c =
     set_field (\<lambda>x c. c\<lparr>timeouts := upd x (timeouts c)\<rparr>) (f64_option rnd v key NonNegativeSeconds) c"

definition set_retry ::
  "rounding \<Rightarrow> rstring \<Rightarrow> f64_range \<Rightarrow> (f64 option \<Rightarrow> retry_config \<Rightarrow> retry_config) \<Rightarrow> 'ts setter" where
  "set_retry rnd key rng upd v c =
     set_field (\<lambda>x c. c\<lparr>retry := upd x (retry c)\<rparr>) (f64_option rnd v key rng) c"

definition set_optimizer ::
  "rstring \<Rightarrow> (rstring option \<Rightarrow> query_options \<Rightarrow> query_options) \<Rightarrow> 'ts setter" where
  "set_optimizer key upd v c =
     set_field (\<lambda>x c. c\<lparr>query_options := upd x (query_options c)\<rparr>) (non_empty_string_option v key) c"

definition shared_setters ::
  "rounding \<Rightarrow> (rstring \<Rightarrow> 'ts option) \<Rightarrow> (rstring \<times> 'ts setter) list" where
  "shared_setters rnd rfc =
     [(OPTION_READ_STALENESS, \<lambda>v c. set_field (\<lambda>x c. c\<lparr>read_staleness := x\<rparr>)
         (set_staleness rnd rfc v (read_staleness c)) c),
      (OPTION_REQUEST_PRIORITY, set_request set_priority),
      (OPTION_REQUEST_TAG, set_request set_request_tag),
      (OPTION_DIRECTED_READ, \<lambda>v c. set_field (\<lambda>x c. c\<lparr>directed_read := x\<rparr>)
         (set_directed_read v (directed_read c)) c),
      (OPTION_MAX_COMMIT_DELAY, set_request (set_max_commit_delay rnd)),
      (OPTION_COMMIT_STATS, set_request set_commit_stats),
      (OPTION_EXCLUDE_TXN_FROM_CHANGE_STREAMS, set_request set_exclude_txn_from_change_streams),
      (OPTION_QUERY_OPTIMIZER_VERSION,
         set_optimizer OPTION_QUERY_OPTIMIZER_VERSION (\<lambda>x q. q\<lparr>optimizer_version := x\<rparr>)),
      (OPTION_QUERY_OPTIMIZER_STATISTICS_PACKAGE,
         set_optimizer OPTION_QUERY_OPTIMIZER_STATISTICS_PACKAGE
           (\<lambda>x q. q\<lparr>optimizer_statistics_package := x\<rparr>)),
      (OPTION_MAX_TIMESTAMP_PRECISION, \<lambda>v. set_field (\<lambda>x c. c\<lparr>timestamp_precision := x\<rparr>)
         (parse_precision v)),
      (OPTION_RPC_TIMEOUT_QUERY, set_timeout rnd OPTION_RPC_TIMEOUT_QUERY (\<lambda>x t. t\<lparr>query := x\<rparr>)),
      (OPTION_RPC_TIMEOUT_UPDATE, set_timeout rnd OPTION_RPC_TIMEOUT_UPDATE (\<lambda>x t. t\<lparr>update := x\<rparr>)),
      (OPTION_RPC_TIMEOUT_FETCH, set_timeout rnd OPTION_RPC_TIMEOUT_FETCH (\<lambda>x t. t\<lparr>fetch := x\<rparr>)),
      (OPTION_RETRY_MAX_ATTEMPTS, \<lambda>v c. set_field (\<lambda>x c. c\<lparr>retry := x\<rparr>)
         (set_max_attempts v (retry c)) c),
      (OPTION_RETRY_MAX_ELAPSED_SECONDS, set_retry rnd OPTION_RETRY_MAX_ELAPSED_SECONDS PositiveSeconds
         (\<lambda>x r. r\<lparr>max_elapsed_seconds := x\<rparr>)),
      (OPTION_RETRY_BACKOFF_INITIAL_SECONDS,
         set_retry rnd OPTION_RETRY_BACKOFF_INITIAL_SECONDS PositiveSeconds
           (\<lambda>x r. r\<lparr>backoff_initial_seconds := x\<rparr>)),
      (OPTION_RETRY_BACKOFF_MAX_SECONDS, set_retry rnd OPTION_RETRY_BACKOFF_MAX_SECONDS PositiveSeconds
         (\<lambda>x r. r\<lparr>backoff_max_seconds := x\<rparr>)),
      (OPTION_RETRY_BACKOFF_MULTIPLIER, set_retry rnd OPTION_RETRY_BACKOFF_MULTIPLIER PositiveFactor
         (\<lambda>x r. r\<lparr>backoff_multiplier := x\<rparr>))]"

text \<open>\<open>Inr None\<close> is \<^verbatim>\<open>Ok(None)\<close>: not a shared key.\<close>

definition set_shared_option ::
  "rounding \<Rightarrow> (rstring \<Rightarrow> 'ts option) \<Rightarrow> rstring \<Rightarrow> option_value \<Rightarrow> 'ts shared_config \<Rightarrow>
   'ts shared_config option result" where
  "set_shared_option rnd rfc key v c =
     (case map_of (shared_setters rnd rfc) key of
        None \<Rightarrow> Inr None
      | Some f \<Rightarrow> try_bind (f v c) (\<lambda>c'. Inr (Some c')))"

type_synonym 'ts getter = "'ts shared_config \<Rightarrow> rstring option"

definition shared_getters ::
  "(f64 \<Rightarrow> rstring) \<Rightarrow> arc_store \<Rightarrow> (rstring \<times> 'ts getter) list" where
  "shared_getters sh st =
     [(OPTION_READ_STALENESS, \<lambda>c. raw (read_staleness c)),
      (OPTION_REQUEST_PRIORITY, \<lambda>c. raw (priority (request c))),
      (OPTION_REQUEST_TAG, \<lambda>c. request_tag (request c)),
      (OPTION_DIRECTED_READ, \<lambda>c. raw (directed_read c)),
      (OPTION_MAX_COMMIT_DELAY, \<lambda>c. raw (max_commit_delay (request c))),
      (OPTION_COMMIT_STATS, \<lambda>c. Some (commit_stats_string (request c))),
      (OPTION_EXCLUDE_TXN_FROM_CHANGE_STREAMS,
         \<lambda>c. Some (exclude_txn_from_change_streams_string (request c))),
      (OPTION_COMMIT_STATS_MUTATION_COUNT, \<lambda>c. map_option show_int (counts st (commit_stats c))),
      (OPTION_QUERY_OPTIMIZER_VERSION, \<lambda>c. optimizer_version (query_options c)),
      (OPTION_QUERY_OPTIMIZER_STATISTICS_PACKAGE,
         \<lambda>c. optimizer_statistics_package (query_options c)),
      (OPTION_MAX_TIMESTAMP_PRECISION, \<lambda>c. Some (precision_str (timestamp_precision c))),
      (OPTION_RPC_TIMEOUT_QUERY, \<lambda>c. map_option sh (query (timeouts c))),
      (OPTION_RPC_TIMEOUT_UPDATE, \<lambda>c. map_option sh (update (timeouts c))),
      (OPTION_RPC_TIMEOUT_FETCH, \<lambda>c. map_option sh (fetch (timeouts c))),
      (OPTION_RETRY_MAX_ATTEMPTS, \<lambda>c. map_option show_nat (max_attempts (retry c))),
      (OPTION_RETRY_MAX_ELAPSED_SECONDS, \<lambda>c. map_option sh (max_elapsed_seconds (retry c))),
      (OPTION_RETRY_BACKOFF_INITIAL_SECONDS, \<lambda>c. map_option sh (backoff_initial_seconds (retry c))),
      (OPTION_RETRY_BACKOFF_MAX_SECONDS, \<lambda>c. map_option sh (backoff_max_seconds (retry c))),
      (OPTION_RETRY_BACKOFF_MULTIPLIER, \<lambda>c. map_option sh (backoff_multiplier (retry c)))]"

definition shared_option_string ::
  "(f64 \<Rightarrow> rstring) \<Rightarrow> arc_store \<Rightarrow> rstring \<Rightarrow> 'ts shared_config \<Rightarrow> rstring result" where
  "shared_option_string sh st key c =
     ok_or (option_not_set key)
       (Option.bind (map_of (shared_getters sh st) key) (\<lambda>g. g c))"

section \<open>What a settable option promises\<close>

text \<open>
  The contract of one row of the dispatch: \<open>put\<close> keeps the invariant \<open>ok\<close> for every admissible value,
  and whatever \<open>get\<close> reports can be set again, on this object or another, and is reported unchanged.
\<close>

locale reported_option =
  fixes good :: "option_value \<Rightarrow> bool"
    and put :: "option_value \<Rightarrow> 'c \<Rightarrow> 'c result"
    and get :: "'c \<Rightarrow> rstring option"
    and ok :: "'c \<Rightarrow> bool"
  assumes put_keeps: "good v \<Longrightarrow> ok c \<Longrightarrow> put v c = Inr c' \<Longrightarrow> ok c'"
    and get_put: "ok c \<Longrightarrow> get c = Some r \<Longrightarrow> \<exists>d'. put (OString r) d = Inr d' \<and> get d' = Some r"

sublocale option_cell \<subseteq> reported_option "\<lambda>_. True" put get ok
  by unfold_locales (auto intro: put_ok reported_value_round_trips)

lemma reported_option_any:
  "reported_option (\<lambda>_. True) put get ok \<Longrightarrow> reported_option good put get ok"
  unfolding reported_option_def by blast

text \<open>A field's contract lifts to the record that holds the field.\<close>

lemma reported_option_field:
  assumes cell: "reported_option good put get ok"
    and sel_upd: "\<And>x c. sel (upd x c) = x"
    and cok_sel: "\<And>c. cok c \<Longrightarrow> ok (sel c)"
    and cok_upd: "\<And>c x. cok c \<Longrightarrow> ok x \<Longrightarrow> cok (upd x c)"
  shows "reported_option good (\<lambda>v c. set_field upd (put v (sel c)) c) (\<lambda>c. get (sel c)) cok"
proof
  fix v c c'
  assume "good v" "cok c" "set_field upd (put v (sel c)) c = Inr c'"
  then show "cok c'"
    by (auto simp: set_field_def res_simps intro: cok_upd reported_option.put_keeps[OF cell] cok_sel)
next
  fix c r d
  assume "cok c" "get (sel c) = Some r"
  then obtain x where "put (OString r) (sel d) = Inr x" "get x = Some r"
    using reported_option.get_put[OF cell cok_sel] by blast
  then show "\<exists>d'. set_field upd (put (OString r) (sel d)) d = Inr d' \<and> get (sel d') = Some r"
    by (auto simp: set_field_def sel_upd)
qed

section \<open>The cells\<close>

text \<open>Which doubles exist: the values rounding leaves alone.\<close>

fun representable :: "rounding \<Rightarrow> f64 \<Rightarrow> bool" where
  "representable rnd (Fin q) = (rnd q = Fin q)"
| "representable rnd _ = True"

text \<open>
  What the driver relies on of Rust's \<^verbatim>\<open>f64\<close>: rounding lands on a double, and the rendering of a finite
  double is non-blank text without surrounding whitespace that parses back to it.
\<close>

definition f64_contract :: "rounding \<Rightarrow> (f64 \<Rightarrow> rstring) \<Rightarrow> bool" where
  "f64_contract rnd sh \<longleftrightarrow>
     (\<forall>q. representable rnd (rnd q)) \<and>
     (\<forall>q. rnd q = Fin q \<longrightarrow>
        trim (sh (Fin q)) = sh (Fin q) \<and> sh (Fin q) \<noteq> [] \<and> parse_f64 rnd (sh (Fin q)) = Some (Fin q))"

fun good_value :: "rounding \<Rightarrow> option_value \<Rightarrow> bool" where
  "good_value rnd (ODouble d) = representable rnd d"
| "good_value rnd _ = True"

definition seconds_ok :: "rounding \<Rightarrow> f64_range \<Rightarrow> f64 option \<Rightarrow> bool" where
  "seconds_ok rnd rng x =
     (case x of
        None \<Rightarrow> True
      | Some n \<Rightarrow> is_finite n \<and> representable rnd n \<and>
          (if rng = NonNegativeSeconds then f64_ge0 n else f64_gt0 n) \<and>
          (rng \<noteq> PositiveFactor \<longrightarrow> try_from_secs_f64 n \<noteq> None))"

lemma parse_f64_representable:
  assumes "\<forall>q. representable rnd (rnd q)" and "parse_f64 rnd s = Some n"
  shows "representable rnd n"
  using assms by (auto simp: parse_f64_def Let_def split: prod.splits if_splits)

lemma f64_option_seconds_ok:
  assumes "\<forall>q. representable rnd (rnd q)" and "good_value rnd v" and "f64_option rnd v what rng = Inr x"
  shows "seconds_ok rnd rng x"
  using assms parse_f64_representable[OF assms(1)]
  by (cases v; cases rng)
    (auto simp: f64_option_def Let_def seconds_ok_def split: if_splits option.splits)

lemma f64_option_again:
  assumes "f64_contract rnd sh" and "seconds_ok rnd rng (Some n)"
  shows "f64_option rnd (OString (sh n)) what rng = Inr (Some n)"
proof -
  from assms(2) obtain q where n: "n = Fin q" "rnd q = Fin q"
    by (cases n) (auto simp: seconds_ok_def)
  then have "trim (sh n) = sh n" "sh n \<noteq> []" "parse_f64 rnd (sh n) = Some n"
    using assms(1) by (auto simp: f64_contract_def)
  then show ?thesis using assms(2) n
    by (cases rng) (auto simp: f64_option_def Let_def seconds_ok_def simp del: try_from_secs_f64.simps)
qed

lemma f64_cell:
  assumes "f64_contract rnd sh"
  shows "reported_option (good_value rnd) (\<lambda>v _. f64_option rnd v key rng) (map_option sh) (seconds_ok rnd rng)"
proof
  fix v c c'
  assume "good_value rnd v" "f64_option rnd v key rng = Inr c'"
  with assms show "seconds_ok rnd rng c'" by (auto simp: f64_contract_def intro: f64_option_seconds_ok)
next
  fix c r and d :: "f64 option"
  assume "seconds_ok rnd rng c" "map_option sh c = Some r"
  with f64_option_again[OF assms] show "\<exists>d'. f64_option rnd (OString r) key rng = Inr d' \<and> map_option sh d' = Some r"
    by auto
qed

definition text_ok :: "rstring option \<Rightarrow> bool" where
  "text_ok t = (t \<noteq> Some [])"

interpretation text_cell: reported_option "\<lambda>_. True" "\<lambda>v _. non_empty_string_option v key" "\<lambda>t. t" text_ok for key
  by unfold_locales
    (auto simp: non_empty_string_option_def string_option_def text_ok_def res_simps split: option_value.splits if_splits)

lemma trim_bool_string: "trim (bool_string b) = bool_string b \<and> bool_string b \<noteq> []"
proof (cases b)
  case True
  have "trim (bool_string True) = bool_string True \<and> bool_string True \<noteq> []" by code_simp
  with True show ?thesis by simp
next
  case False
  have "trim (bool_string False) = bool_string False \<and> bool_string False \<noteq> []" by code_simp
  with False show ?thesis by simp
qed

lemma bool_option_bool_string: "bool_option (OString (bool_string b)) what = Inr b"
proof -
  have "lit ''true'' \<noteq> lit ''false''" by code_simp
  then show ?thesis by (simp add: bool_option_def bool_string_def)
qed

interpretation bool_cell: reported_option "\<lambda>_. True" "\<lambda>v _. bool_option_unsettable v key" "\<lambda>b. Some (bool_string b)"
  "\<lambda>_. True" for key
  by unfold_locales
    (auto simp: bool_option_unsettable_def trim_bool_string bool_option_bool_string)

lemma trim_precision_str: "trim (precision_str p) = precision_str p \<and> precision_str p \<noteq> []"
proof (cases p)
  case NanosecondsErrorOnOverflow
  show ?thesis unfolding NanosecondsErrorOnOverflow by code_simp
next
  case Microseconds
  show ?thesis unfolding Microseconds by code_simp
qed

interpretation precision_cell: reported_option "\<lambda>_. True" "\<lambda>v _. parse_precision v" "\<lambda>p. Some (precision_str p)"
  "\<lambda>_. True"
proof
  fix c d :: timestamp_precision and r
  have ne: "precision_str NanosecondsErrorOnOverflow \<noteq> precision_str Microseconds" by code_simp
  assume "Some (precision_str c) = Some r"
  then show "\<exists>d'. parse_precision (OString r) = Inr d' \<and> Some (precision_str d') = Some r"
    using ne trim_precision_str[of c]
    by (cases c) (auto simp: parse_precision_def string_option_def simp del: precision_str.simps)
qed simp

definition attempts_ok :: "nat option \<Rightarrow> bool" where
  "attempts_ok n = (case n of None \<Rightarrow> True | Some k \<Rightarrow> 1 \<le> k \<and> k \<le> 2 ^ 32 - 1)"

lemma trim_digits: "s \<noteq> [] \<Longrightarrow> (\<And>c. c \<in> set s \<Longrightarrow> is_ascii_digit c) \<Longrightarrow> trim s = s"
proof -
  assume s: "s \<noteq> []" "\<And>c. c \<in> set s \<Longrightarrow> is_ascii_digit c"
  then have "is_ascii_digit (hd s)" "is_ascii_digit (last s)" by auto
  then have "\<not> is_whitespace (hd s)" "\<not> is_whitespace (last s)" by (auto simp: char_simps)
  then show ?thesis by (simp add: trim_def trim_start_id trim_end_id)
qed

lemma trim_show_nat [simp]: "trim (show_nat n) = show_nat n"
  by (rule trim_digits) (auto intro: show_nat_digits)

interpretation attempts_cell: reported_option "\<lambda>_. True" "\<lambda>v _. parse_max_attempts v" "map_option show_nat" attempts_ok
proof
  fix v and c c' :: "nat option"
  assume "parse_max_attempts v = Inr c'"
  then show "attempts_ok c'"
    by (cases v) (auto simp: parse_max_attempts_def attempts_ok_def Let_def nat_le_iff
        split: if_splits option.splits f64.splits)
next
  fix c d :: "nat option" and r
  assume c: "attempts_ok c" "map_option show_nat c = Some r"
  then obtain n where n: "c = Some n" "r = show_nat n" "1 \<le> n" "n \<le> 2 ^ 32 - 1"
    by (auto simp: attempts_ok_def)
  have "parse_i64 (show_nat n) = Some (int n)"
    using parse_i64_show_int[of "int n"] n by (simp add: show_int_def)
  with n show "\<exists>d'. parse_max_attempts (OString r) = Inr d' \<and> map_option show_nat d' = Some r"
    by (simp add: parse_max_attempts_def Let_def)
qed

end
