(* ===== verification/Builders.thy ===== *)
theory Builders
  imports SharedConfig
begin

text \<open>
  What the configuration puts on a request: the \<^verbatim>\<open>apply_to_*\<close> methods of \<^verbatim>\<open>src/request.rs\<close>,
  \<^verbatim>\<open>src/retry.rs\<close>, \<^verbatim>\<open>src/query_options.rs\<close> and \<^verbatim>\<open>src/directed_read.rs\<close>, the isolation level and runner of
  \<^verbatim>\<open>src/connection/exec.rs\<close>, and the statement builders of \<^verbatim>\<open>src/statement.rs\<close> and \<^verbatim>\<open>src/metadata.rs\<close>.

  A builder of the Spanner client is the list of the setter calls made on it, in order.  A
  \<^verbatim>\<open>Duration::from_secs_f64\<close> that would panic makes the whole construction \<open>None\<close>.
\<close>

section \<open>Builder calls\<close>

text \<open>The retry policy handed to the client: its default policy under attempt and time limits.\<close>

datatype retry_policy =
    SpannerRetryPolicy | WithAttemptLimit retry_policy nat | WithTimeLimit retry_policy nat

datatype backoff_call = WithInitialDelay nat | WithMaximumDelay nat | WithScaling f64 | Clamp

record replica_selection =
  set_location :: rstring
  set_type :: "replica_type option"

datatype replicas = IncludeReplicas "replica_selection list" bool | ExcludeReplicas "replica_selection list"

datatype builder_call =
    SetPriority request_priority | SetRequestTag rstring | SetTransactionTag rstring
  | SetCommitPriority request_priority | SetMaxCommitDelay nat | SetReturnCommitStats bool
  | SetExcludeTxn bool | SetIsolationLevel isolation_level
  | SetQueryOptions query_options | SetDirectedReadOptions replicas | SetQueryModePlan
  | SetLastStatements bool
  | WithRetryPolicy retry_policy | WithBackoffPolicy "backoff_call list"
  | WithBeginRetryPolicy retry_policy | WithCommitRetryPolicy retry_policy
  | WithBeginBackoffPolicy "backoff_call list" | WithCommitBackoffPolicy "backoff_call list"

type_synonym builder = "builder_call list"

definition opt_call :: "('a \<Rightarrow> builder_call) \<Rightarrow> 'a option \<Rightarrow> builder" where
  "opt_call f x = (case x of None \<Rightarrow> [] | Some v \<Rightarrow> [f v])"

section \<open>Requests\<close>

text \<open>
  The commit delay as the client's duration; the conversion of the \<^verbatim>\<open>wkt\<close> crate (\<open>wkt\<close>) may refuse.
\<close>

definition commit_delay :: "(nat \<Rightarrow> nat option) \<Rightarrow> request_config \<Rightarrow> nat option" where
  "commit_delay wkt r = Option.bind (parsed (max_commit_delay r)) wkt"

definition request_to_statement :: "request_config \<Rightarrow> builder \<Rightarrow> builder" where
  "request_to_statement r b =
     b @ opt_call SetPriority (parsed (priority r)) @ opt_call SetRequestTag (request_tag r)"

definition apply_priority_to_statement :: "request_config \<Rightarrow> builder \<Rightarrow> builder" where
  "apply_priority_to_statement r b = b @ opt_call SetPriority (parsed (priority r))"

definition request_to_batch_dml :: "request_config \<Rightarrow> builder \<Rightarrow> builder" where
  "request_to_batch_dml r b =
     b @ opt_call SetPriority (parsed (priority r)) @ opt_call SetRequestTag (request_tag r)"

definition request_to_batch_write :: "request_config \<Rightarrow> builder \<Rightarrow> builder" where
  "request_to_batch_write r b =
     b @ opt_call SetPriority (parsed (priority r)) @ opt_call SetTransactionTag (transaction_tag r)
       @ (if exclude_txn_from_change_streams r then [SetExcludeTxn True] else [])"

text \<open>The macro \<^verbatim>\<open>apply_to_commit_builder!\<close>, expanded as \<^verbatim>\<open>apply_to_runner\<close> and \<^verbatim>\<open>apply_to_write_only\<close>.\<close>

definition request_to_commit :: "(nat \<Rightarrow> nat option) \<Rightarrow> request_config \<Rightarrow> builder \<Rightarrow> builder" where
  "request_to_commit wkt r b =
     b @ opt_call SetCommitPriority (parsed (priority r))
       @ opt_call SetTransactionTag (transaction_tag r)
       @ opt_call SetMaxCommitDelay (commit_delay wkt r)
       @ (if return_commit_stats r then [SetReturnCommitStats True] else [])
       @ (if exclude_txn_from_change_streams r then [SetExcludeTxn True] else [])"

section \<open>Retry and backoff\<close>

definition max_elapsed_duration :: "retry_config \<Rightarrow> nat option" where
  "max_elapsed_duration r = Option.bind (max_elapsed_seconds r) try_from_secs_f64"

definition retry_policy_arg :: "retry_config \<Rightarrow> retry_policy option" where
  "retry_policy_arg r =
     (case (max_attempts r, max_elapsed_duration r) of
        (None, None) \<Rightarrow> None
      | (Some n, None) \<Rightarrow> Some (WithAttemptLimit SpannerRetryPolicy n)
      | (None, Some d) \<Rightarrow> Some (WithTimeLimit SpannerRetryPolicy d)
      | (Some n, Some d) \<Rightarrow> Some (WithAttemptLimit (WithTimeLimit SpannerRetryPolicy d) n))"

text \<open>\<^verbatim>\<open>Duration::from_secs_f64\<close> under an \<open>if let\<close>: outer \<open>None\<close> is the panic.\<close>

definition delay_call :: "(nat \<Rightarrow> backoff_call) \<Rightarrow> f64 option \<Rightarrow> backoff_call list option" where
  "delay_call f x =
     (case x of None \<Rightarrow> Some [] | Some s \<Rightarrow> map_option (\<lambda>d. [f d]) (try_from_secs_f64 s))"

definition backoff_policy_arg :: "retry_config \<Rightarrow> backoff_call list option option" where
  "backoff_policy_arg r =
     (if backoff_initial_seconds r = None \<and> backoff_max_seconds r = None \<and> backoff_multiplier r = None
      then Some None
      else Option.bind (delay_call WithInitialDelay (backoff_initial_seconds r)) (\<lambda>i.
           Option.bind (delay_call WithMaximumDelay (backoff_max_seconds r)) (\<lambda>m.
             Some (Some (i @ m @ (case backoff_multiplier r of None \<Rightarrow> [] | Some x \<Rightarrow> [WithScaling x])
               @ [Clamp])))))"

definition retry_to_request :: "retry_config \<Rightarrow> builder \<Rightarrow> builder option" where
  "retry_to_request r b =
     map_option (\<lambda>bo. b @ opt_call WithRetryPolicy (retry_policy_arg r) @ opt_call WithBackoffPolicy bo)
       (backoff_policy_arg r)"

definition retry_to_commit :: "retry_config \<Rightarrow> builder \<Rightarrow> builder option" where
  "retry_to_commit r b =
     map_option (\<lambda>bo. b
         @ (case retry_policy_arg r of None \<Rightarrow> [] | Some p \<Rightarrow> [WithBeginRetryPolicy p, WithCommitRetryPolicy p])
         @ (case bo of None \<Rightarrow> [] | Some p \<Rightarrow> [WithBeginBackoffPolicy p, WithCommitBackoffPolicy p]))
       (backoff_policy_arg r)"

section \<open>Queries\<close>

definition optimizer_to_statement :: "query_options \<Rightarrow> builder \<Rightarrow> builder" where
  "optimizer_to_statement q b =
     (if optimizer_version q = None \<and> optimizer_statistics_package q = None then b
      else b @ [SetQueryOptions q])"

definition to_options :: "directed_read_spec \<Rightarrow> replicas" where
  "to_options spec =
     (let sels = map (\<lambda>s. \<lparr>set_location = location s,
            set_type = (case replica_kind s of AnyType \<Rightarrow> None | k \<Rightarrow> Some k)\<rparr>) (selections spec)
      in case mode spec of
           Include \<Rightarrow> IncludeReplicas sels (auto_failover_disabled spec)
         | Exclude \<Rightarrow> ExcludeReplicas sels)"

definition directed_to_statement :: "directed_read_spec raw_parsed \<Rightarrow> builder \<Rightarrow> builder" where
  "directed_to_statement d b = b @ opt_call (\<lambda>s. SetDirectedReadOptions (to_options s)) (parsed d)"

definition apply_isolation :: "isolation_level \<Rightarrow> builder \<Rightarrow> builder" where
  "apply_isolation level b = (case level of Unspecified \<Rightarrow> b | l \<Rightarrow> b @ [SetIsolationLevel l])"

section \<open>The builders the driver assembles\<close>

text \<open>\<^verbatim>\<open>SpannerStatement::sql_builder\<close>, \<^verbatim>\<open>read_sql_builder\<close> and \<^verbatim>\<open>metadata_sql_builder\<close>, without the SQL.\<close>

definition sql_builder :: "'ts shared_config \<Rightarrow> builder option" where
  "sql_builder c =
     retry_to_request (retry c)
       (optimizer_to_statement (query_options c) (request_to_statement (request c) []))"

definition read_sql_builder :: "'ts shared_config \<Rightarrow> builder option" where
  "read_sql_builder c = map_option (directed_to_statement (directed_read c)) (sql_builder c)"

definition metadata_sql_builder :: "'ts shared_config \<Rightarrow> builder option" where
  "metadata_sql_builder c =
     retry_to_request (retry c)
       (directed_to_statement (directed_read c) (apply_priority_to_statement (request c) []))"

definition build_runner :: "(nat \<Rightarrow> nat option) \<Rightarrow> 'ts shared_config \<Rightarrow> builder option" where
  "build_runner wkt c =
     retry_to_commit (retry c) (request_to_commit wkt (request c) (apply_isolation (isolation c) []))"

definition batch_dml_builder :: "'ts shared_config \<Rightarrow> bool \<Rightarrow> builder option" where
  "batch_dml_builder c last_statements =
     map_option (\<lambda>b. b @ [SetLastStatements last_statements])
       (retry_to_request (retry c) (request_to_batch_dml (request c) []))"

definition write_only_builder :: "(nat \<Rightarrow> nat option) \<Rightarrow> 'ts shared_config \<Rightarrow> builder option" where
  "write_only_builder wkt c = retry_to_commit (retry c) (request_to_commit wkt (request c) [])"

end
