(* ===== verification/ConfigProps.thy ===== *)
theory ConfigProps
  imports Builders
begin

text \<open>
  What the shared option dispatch guarantees: every row keeps the configuration well formed and round-trips
  its reported value, no row disturbs another option, and the \<^verbatim>\<open>Arc\<close> fields behave as documented.
\<close>

section \<open>The invariant\<close>

definition request_ok :: "rounding \<Rightarrow> request_config \<Rightarrow> bool" where
  "request_ok rnd r \<longleftrightarrow>
     raw_ok parse_priority (priority r) \<and> text_ok (request_tag r) \<and> text_ok (transaction_tag r) \<and>
     raw_ok (parse_max_commit_delay rnd) (max_commit_delay r)"

definition retry_ok :: "rounding \<Rightarrow> retry_config \<Rightarrow> bool" where
  "retry_ok rnd r \<longleftrightarrow>
     attempts_ok (max_attempts r) \<and> seconds_ok rnd PositiveSeconds (max_elapsed_seconds r) \<and>
     seconds_ok rnd PositiveSeconds (backoff_initial_seconds r) \<and>
     seconds_ok rnd PositiveSeconds (backoff_max_seconds r) \<and>
     seconds_ok rnd PositiveFactor (backoff_multiplier r)"

definition timeouts_ok :: "rounding \<Rightarrow> rpc_timeouts \<Rightarrow> bool" where
  "timeouts_ok rnd t \<longleftrightarrow>
     seconds_ok rnd NonNegativeSeconds (query t) \<and> seconds_ok rnd NonNegativeSeconds (update t) \<and>
     seconds_ok rnd NonNegativeSeconds (fetch t)"

definition optimizer_ok :: "query_options \<Rightarrow> bool" where
  "optimizer_ok q \<longleftrightarrow> text_ok (optimizer_version q) \<and> text_ok (optimizer_statistics_package q)"

definition config_ok :: "rounding \<Rightarrow> (rstring \<Rightarrow> 'ts option) \<Rightarrow> 'ts shared_config \<Rightarrow> bool" where
  "config_ok rnd rfc c \<longleftrightarrow>
     raw_ok (parse_read_bound rnd rfc) (read_staleness c) \<and> request_ok rnd (request c) \<and>
     raw_ok parse_directed_read (directed_read c) \<and> optimizer_ok (query_options c) \<and>
     timeouts_ok rnd (timeouts c) \<and> retry_ok rnd (retry c)"

lemmas config_ok_defs = config_ok_def request_ok_def retry_ok_def timeouts_ok_def optimizer_ok_def

lemma default_config_ok: "config_ok rnd rfc (fst (default_config st))"
  by (simp add: default_config_def Let_def config_ok_defs raw_ok_def raw_default_def default_request_def
      default_retry_def text_ok_def attempts_ok_def seconds_ok_def)

section \<open>Every row keeps its contract\<close>

abbreviation row_ok where
  "row_ok rnd rfc put get \<equiv> reported_option (good_value rnd) put get (config_ok rnd rfc)"

text \<open>The rows that are a field of the configuration's own records, spelled as field updates.\<close>

lemma set_request_field:
  assumes "\<And>v r. f v r = set_field upd (p v (sel r)) r"
  shows "set_request f =
    (\<lambda>v c. set_field (\<lambda>x c. c\<lparr>request := upd x (request c)\<rparr>) (p v (sel (request c))) c)"
proof (intro ext)
  fix v c
  show "set_request f v c =
    set_field (\<lambda>x c. c\<lparr>request := upd x (request c)\<rparr>) (p v (sel (request c))) c"
    by (cases "p v (sel (request c))") (simp_all add: set_request_def assms set_field_def)
qed

lemma row_raw:
  assumes "\<And>x c. sel (upd x c) = x"
    and "\<And>c. config_ok rnd rfc c \<Longrightarrow> raw_ok parse (sel c)"
    and "\<And>c x. config_ok rnd rfc c \<Longrightarrow> raw_ok parse x \<Longrightarrow> config_ok rnd rfc (upd x c)"
  shows "row_ok rnd rfc (\<lambda>v c. set_field upd (raw_set v key parse (sel c)) c) (\<lambda>c. raw (sel c))"
  using reported_option_field[where sel = sel and upd = upd and cok = "config_ok rnd rfc",
      OF raw_cell.reported_option_axioms assms]
  by (rule reported_option_any)

lemma row_text:
  assumes "\<And>x c. sel (upd x c) = x"
    and "\<And>c. config_ok rnd rfc c \<Longrightarrow> text_ok (sel c)"
    and "\<And>c x. config_ok rnd rfc c \<Longrightarrow> text_ok x \<Longrightarrow> config_ok rnd rfc (upd x c)"
  shows "row_ok rnd rfc (\<lambda>v. set_field upd (non_empty_string_option v key)) sel"
  using reported_option_field[where sel = sel and upd = upd and cok = "config_ok rnd rfc",
      OF text_cell.reported_option_axioms assms]
  by (rule reported_option_any)

lemma row_bool:
  assumes "\<And>x c. sel (upd x c) = x"
    and "\<And>c x. config_ok rnd rfc c \<Longrightarrow> config_ok rnd rfc (upd x c)"
  shows "row_ok rnd rfc (\<lambda>v. set_field upd (bool_option_unsettable v key)) (\<lambda>c. Some (bool_string (sel c)))"
  using reported_option_field[where sel = sel and upd = upd and cok = "config_ok rnd rfc",
      OF bool_cell.reported_option_axioms assms(1) TrueI assms(2)]
  by (rule reported_option_any)

lemma row_seconds:
  assumes "f64_contract rnd sh" and "\<And>x c. sel (upd x c) = x"
    and "\<And>c. config_ok rnd rfc c \<Longrightarrow> seconds_ok rnd rng (sel c)"
    and "\<And>c x. config_ok rnd rfc c \<Longrightarrow> seconds_ok rnd rng x \<Longrightarrow> config_ok rnd rfc (upd x c)"
  shows "row_ok rnd rfc (\<lambda>v. set_field upd (f64_option rnd v key rng)) (\<lambda>c. map_option sh (sel c))"
  by (rule reported_option_field[where sel = sel and upd = upd and cok = "config_ok rnd rfc",
      OF f64_cell[OF assms(1)] assms(2-4)])

lemma row_timeout:
  assumes "f64_contract rnd sh" and "\<And>x t. sel (upd x t) = x"
    and "\<And>t. timeouts_ok rnd t \<Longrightarrow> seconds_ok rnd NonNegativeSeconds (sel t)"
    and "\<And>t x. timeouts_ok rnd t \<Longrightarrow> seconds_ok rnd NonNegativeSeconds x \<Longrightarrow> timeouts_ok rnd (upd x t)"
  shows "row_ok rnd rfc (set_timeout rnd key upd) (\<lambda>c. map_option sh (sel (timeouts c)))"
  unfolding set_timeout_def
  by (rule row_seconds) (use assms in \<open>auto simp: config_ok_def\<close>)

lemma row_retry:
  assumes "f64_contract rnd sh" and "\<And>x t. sel (upd x t) = x"
    and "\<And>t. retry_ok rnd t \<Longrightarrow> seconds_ok rnd rng (sel t)"
    and "\<And>t x. retry_ok rnd t \<Longrightarrow> seconds_ok rnd rng x \<Longrightarrow> retry_ok rnd (upd x t)"
  shows "row_ok rnd rfc (set_retry rnd key rng upd) (\<lambda>c. map_option sh (sel (retry c)))"
  unfolding set_retry_def
  by (rule row_seconds) (use assms in \<open>auto simp: config_ok_def\<close>)

lemma row_optimizer:
  assumes "\<And>x q. sel (upd x q) = x"
    and "\<And>q. optimizer_ok q \<Longrightarrow> text_ok (sel q)"
    and "\<And>q x. optimizer_ok q \<Longrightarrow> text_ok x \<Longrightarrow> optimizer_ok (upd x q)"
  shows "row_ok rnd rfc (set_optimizer key upd) (\<lambda>c. sel (query_options c))"
  unfolding set_optimizer_def
  by (rule row_text) (use assms in \<open>auto simp: config_ok_def\<close>)

lemma set_max_attempts_field:
  "set_field (\<lambda>x c. c\<lparr>retry := x\<rparr>) (set_max_attempts v (retry c)) c =
   set_field (\<lambda>x c. c\<lparr>retry := (retry c)\<lparr>max_attempts := x\<rparr>\<rparr>) (parse_max_attempts v) c"
  by (cases "parse_max_attempts v") (simp_all add: set_field_def set_max_attempts_def)

lemma row_attempts:
  "row_ok rnd rfc (\<lambda>v c. set_field (\<lambda>x c. c\<lparr>retry := x\<rparr>) (set_max_attempts v (retry c)) c)
     (\<lambda>c. map_option show_nat (max_attempts (retry c)))"
proof -
  have "reported_option (\<lambda>_. True)
    (\<lambda>v. set_field (\<lambda>x c. c\<lparr>retry := (retry c)\<lparr>max_attempts := x\<rparr>\<rparr>) (parse_max_attempts v))
    (\<lambda>c. map_option show_nat (max_attempts (retry c))) (config_ok rnd rfc)"
    by (rule reported_option_field[where sel = "\<lambda>c. max_attempts (retry c)"
        and cok = "config_ok rnd rfc", OF attempts_cell.reported_option_axioms])
      (auto simp: config_ok_def retry_ok_def)
  then show ?thesis unfolding set_max_attempts_field by (rule reported_option_any)
qed

lemma row_precision:
  "row_ok rnd rfc (\<lambda>v. set_field (\<lambda>x c. c\<lparr>timestamp_precision := x\<rparr>) (parse_precision v))
     (\<lambda>c. Some (precision_str (timestamp_precision c)))"
proof -
  have "reported_option (\<lambda>_. True) (\<lambda>v. set_field (\<lambda>x c. c\<lparr>timestamp_precision := x\<rparr>) (parse_precision v))
    (\<lambda>c. Some (precision_str (timestamp_precision c))) (config_ok rnd rfc)"
    by (rule reported_option_field[where sel = timestamp_precision and cok = "config_ok rnd rfc",
        OF precision_cell.reported_option_axioms]) (auto simp: config_ok_def)
  then show ?thesis by (rule reported_option_any)
qed

lemma row_priority: "row_ok rnd rfc (set_request set_priority) (\<lambda>c. raw (priority (request c)))"
  by (subst set_request_field[where upd = "\<lambda>x r. r\<lparr>priority := x\<rparr>" and sel = priority
        and p = "\<lambda>v. raw_set v OPTION_REQUEST_PRIORITY parse_priority"])
    (simp add: set_priority_def set_field_def, rule row_raw, auto simp: config_ok_def request_ok_def)

lemma row_delay: "row_ok rnd rfc (set_request (set_max_commit_delay rnd)) (\<lambda>c. raw (max_commit_delay (request c)))"
  by (subst set_request_field[where upd = "\<lambda>x r. r\<lparr>max_commit_delay := x\<rparr>" and sel = max_commit_delay
        and p = "\<lambda>v. raw_set v OPTION_MAX_COMMIT_DELAY (parse_max_commit_delay rnd)"])
    (simp add: set_max_commit_delay_def set_field_def, rule row_raw, auto simp: config_ok_def request_ok_def)

lemma row_tag: "row_ok rnd rfc (set_request set_request_tag) (\<lambda>c. request_tag (request c))"
  by (subst set_request_field[where upd = "\<lambda>x r. r\<lparr>request_tag := x\<rparr>" and sel = request_tag
        and p = "\<lambda>v _. non_empty_string_option v OPTION_REQUEST_TAG"])
    (simp add: set_request_tag_def set_field_def, rule row_text, auto simp: config_ok_def request_ok_def)

lemma row_commit_stats: "row_ok rnd rfc (set_request set_commit_stats) (\<lambda>c. Some (commit_stats_string (request c)))"
  unfolding commit_stats_string_def
  by (subst set_request_field[where upd = "\<lambda>x r. r\<lparr>return_commit_stats := x\<rparr>" and sel = return_commit_stats
        and p = "\<lambda>v _. bool_option_unsettable v (lit ''option '' @ OPTION_COMMIT_STATS)"])
    (simp add: set_commit_stats_def set_field_def, rule row_bool, auto simp: config_ok_def request_ok_def)

lemma row_exclude:
  "row_ok rnd rfc (set_request set_exclude_txn_from_change_streams)
     (\<lambda>c. Some (exclude_txn_from_change_streams_string (request c)))"
  unfolding exclude_txn_from_change_streams_string_def
  by (subst set_request_field[where upd = "\<lambda>x r. r\<lparr>exclude_txn_from_change_streams := x\<rparr>"
        and sel = exclude_txn_from_change_streams
        and p = "\<lambda>v _. bool_option_unsettable v (lit ''option '' @ OPTION_EXCLUDE_TXN_FROM_CHANGE_STREAMS)"])
    (simp add: set_exclude_txn_from_change_streams_def set_field_def, rule row_bool,
      auto simp: config_ok_def request_ok_def)

lemma row_staleness:
  "row_ok rnd rfc (\<lambda>v c. set_field (\<lambda>x c. c\<lparr>read_staleness := x\<rparr>) (set_staleness rnd rfc v (read_staleness c)) c)
     (\<lambda>c. raw (read_staleness c))"
  unfolding set_staleness_def by (rule row_raw) (auto simp: config_ok_def)

lemma row_directed_read:
  "row_ok rnd rfc (\<lambda>v c. set_field (\<lambda>x c. c\<lparr>directed_read := x\<rparr>) (set_directed_read v (directed_read c)) c)
     (\<lambda>c. raw (directed_read c))"
  unfolding set_directed_read_def by (rule row_raw) (auto simp: config_ok_def)

section \<open>The table\<close>

lemma setter_keys_distinct: "distinct (map fst (shared_setters rnd rfc))"
proof -
  have "distinct [OPTION_READ_STALENESS, OPTION_REQUEST_PRIORITY, OPTION_REQUEST_TAG,
    OPTION_DIRECTED_READ, OPTION_MAX_COMMIT_DELAY, OPTION_COMMIT_STATS,
    OPTION_EXCLUDE_TXN_FROM_CHANGE_STREAMS, OPTION_QUERY_OPTIMIZER_VERSION,
    OPTION_QUERY_OPTIMIZER_STATISTICS_PACKAGE, OPTION_MAX_TIMESTAMP_PRECISION,
    OPTION_RPC_TIMEOUT_QUERY, OPTION_RPC_TIMEOUT_UPDATE, OPTION_RPC_TIMEOUT_FETCH,
    OPTION_RETRY_MAX_ATTEMPTS, OPTION_RETRY_MAX_ELAPSED_SECONDS,
    OPTION_RETRY_BACKOFF_INITIAL_SECONDS, OPTION_RETRY_BACKOFF_MAX_SECONDS,
    OPTION_RETRY_BACKOFF_MULTIPLIER]" by code_simp
  then show ?thesis by (simp only: shared_setters_def list.map fst_conv)
qed

lemma getter_keys_distinct: "distinct (map fst (shared_getters sh st))"
proof -
  have "distinct [OPTION_READ_STALENESS, OPTION_REQUEST_PRIORITY, OPTION_REQUEST_TAG,
    OPTION_DIRECTED_READ, OPTION_MAX_COMMIT_DELAY, OPTION_COMMIT_STATS,
    OPTION_EXCLUDE_TXN_FROM_CHANGE_STREAMS, OPTION_COMMIT_STATS_MUTATION_COUNT,
    OPTION_QUERY_OPTIMIZER_VERSION,
    OPTION_QUERY_OPTIMIZER_STATISTICS_PACKAGE, OPTION_MAX_TIMESTAMP_PRECISION,
    OPTION_RPC_TIMEOUT_QUERY, OPTION_RPC_TIMEOUT_UPDATE, OPTION_RPC_TIMEOUT_FETCH,
    OPTION_RETRY_MAX_ATTEMPTS, OPTION_RETRY_MAX_ELAPSED_SECONDS,
    OPTION_RETRY_BACKOFF_INITIAL_SECONDS, OPTION_RETRY_BACKOFF_MAX_SECONDS,
    OPTION_RETRY_BACKOFF_MULTIPLIER]" by code_simp
  then show ?thesis by (simp only: shared_getters_def list.map fst_conv)
qed

lemma set_shared_option_Some:
  "set_shared_option rnd rfc k v c = Inr (Some c') \<longleftrightarrow>
   (\<exists>f. (k, f) \<in> set (shared_setters rnd rfc) \<and> f v c = Inr c')"
  unfolding map_of_eq_Some_iff[OF setter_keys_distinct, symmetric]
  by (auto simp: set_shared_option_def res_simps split: option.splits)

lemma shared_option_string_Inr:
  "shared_option_string sh st k c = Inr r \<longleftrightarrow>
   (\<exists>g. (k, g) \<in> set (shared_getters sh st) \<and> g c = Some r)"
  by (auto simp: shared_option_string_def res_simps Option.bind_eq_Some_conv
      map_of_eq_Some_iff[OF getter_keys_distinct])

lemma getter_unique:
  "(k, g) \<in> set (shared_getters sh st) \<Longrightarrow> (k, g') \<in> set (shared_getters sh st) \<Longrightarrow> g = g'"
  by (metis map_of_eq_Some_iff[OF getter_keys_distinct] option.inject)

text \<open>Every key but the read-only count has a setter, and the two rows of a key keep the contract.\<close>

lemma shared_rows:
  assumes "f64_contract rnd sh"
  shows "list_all (\<lambda>(k, f). \<exists>g. (k, g) \<in> set (shared_getters sh st) \<and> row_ok rnd rfc f g)
    (shared_setters rnd rfc)"
  unfolding shared_setters_def list.pred_inject prod.case
  apply (intro conjI TrueI)
  subgoal by (rule exI, rule conjI[OF _ row_staleness]) (simp_all add: shared_getters_def)
  subgoal by (rule exI, rule conjI[OF _ row_priority]) (simp_all add: shared_getters_def)
  subgoal by (rule exI, rule conjI[OF _ row_tag]) (simp_all add: shared_getters_def)
  subgoal by (rule exI, rule conjI[OF _ row_directed_read]) (simp_all add: shared_getters_def)
  subgoal by (rule exI, rule conjI[OF _ row_delay]) (simp_all add: shared_getters_def)
  subgoal by (rule exI, rule conjI[OF _ row_commit_stats]) (simp_all add: shared_getters_def)
  subgoal by (rule exI, rule conjI[OF _ row_exclude]) (simp_all add: shared_getters_def)
  subgoal by (rule exI, rule conjI[OF _ row_optimizer[where sel = optimizer_version]]) (simp_all add: shared_getters_def optimizer_ok_def timeouts_ok_def retry_ok_def)
  subgoal by (rule exI, rule conjI[OF _ row_optimizer[where sel = optimizer_statistics_package]]) (simp_all add: shared_getters_def optimizer_ok_def timeouts_ok_def retry_ok_def)
  subgoal by (rule exI, rule conjI[OF _ row_precision]) (simp_all add: shared_getters_def)
  subgoal by (rule exI, rule conjI[OF _ row_timeout[OF assms, where sel = query]]) (simp_all add: shared_getters_def optimizer_ok_def timeouts_ok_def retry_ok_def)
  subgoal by (rule exI, rule conjI[OF _ row_timeout[OF assms, where sel = update]]) (simp_all add: shared_getters_def optimizer_ok_def timeouts_ok_def retry_ok_def)
  subgoal by (rule exI, rule conjI[OF _ row_timeout[OF assms, where sel = fetch]]) (simp_all add: shared_getters_def optimizer_ok_def timeouts_ok_def retry_ok_def)
  subgoal by (rule exI, rule conjI[OF _ row_attempts]) (simp_all add: shared_getters_def)
  subgoal by (rule exI, rule conjI[OF _ row_retry[OF assms, where sel = max_elapsed_seconds]]) (simp_all add: shared_getters_def optimizer_ok_def timeouts_ok_def retry_ok_def)
  subgoal by (rule exI, rule conjI[OF _ row_retry[OF assms, where sel = backoff_initial_seconds]]) (simp_all add: shared_getters_def optimizer_ok_def timeouts_ok_def retry_ok_def)
  subgoal by (rule exI, rule conjI[OF _ row_retry[OF assms, where sel = backoff_max_seconds]]) (simp_all add: shared_getters_def optimizer_ok_def timeouts_ok_def retry_ok_def)
  subgoal by (rule exI, rule conjI[OF _ row_retry[OF assms, where sel = backoff_multiplier]]) (simp_all add: shared_getters_def optimizer_ok_def timeouts_ok_def retry_ok_def)
  subgoal by simp
  done

lemma shared_row:
  assumes "f64_contract rnd sh" and "(k, f) \<in> set (shared_setters rnd rfc)"
  obtains g where "(k, g) \<in> set (shared_getters sh st)" and "row_ok rnd rfc f g"
  using shared_rows[OF assms(1)] assms(2) unfolding list_all_iff by blast

lemma getter_has_setter:
  assumes "(k, g) \<in> set (shared_getters sh st)" and "k \<noteq> OPTION_COMMIT_STATS_MUTATION_COUNT"
  shows "k \<in> fst ` set (shared_setters rnd rfc)"
  using assms by (auto simp: shared_getters_def shared_setters_def)

section \<open>Properties\<close>


text \<open>Setting one option keeps the whole configuration well formed.\<close>

lemma set_shared_option_keeps_ok:
  assumes "f64_contract rnd sh" and "good_value rnd v" and "config_ok rnd rfc c"
    and "set_shared_option rnd rfc k v c = Inr (Some c')"
  shows "config_ok rnd rfc c'"
proof -
  from assms(4) obtain f where f: "(k, f) \<in> set (shared_setters rnd rfc)" "f v c = Inr c'"
    by (auto simp: set_shared_option_Some)
  from shared_row[OF assms(1) f(1)] obtain g where "row_ok rnd rfc f g" .
  from reported_option.put_keeps[OF this assms(2,3) f(2)] show ?thesis .
qed

text \<open>The frame of one row: what an accepted value leaves alone.\<close>

definition frame_ok :: "(f64 \<Rightarrow> rstring) \<Rightarrow> arc_store \<Rightarrow> rstring \<Rightarrow> 'ts setter \<Rightarrow> bool" where
  "frame_ok sh st k f \<longleftrightarrow>
     (\<forall>v c c'. f v c = Inr c' \<longrightarrow>
        (\<forall>(k', g) \<in> set (shared_getters sh st). k' \<noteq> k \<longrightarrow> g c' = g c) \<and>
        isolation c' = isolation c \<and> read_only c' = read_only c \<and> commit_stats c' = commit_stats c \<and>
        transaction_tag (request c') = transaction_tag (request c))"

lemmas setter_defs = set_field_def set_request_def set_timeout_def set_retry_def set_optimizer_def
  set_priority_def set_request_tag_def set_max_commit_delay_def set_commit_stats_def
  set_exclude_txn_from_change_streams_def set_max_attempts_def

lemma shared_frames: "list_all (\<lambda>(k, f). frame_ok sh st k f) (shared_setters rnd rfc)"
  unfolding shared_setters_def list.pred_inject prod.case frame_ok_def
  by (intro conjI TrueI allI impI)
    (auto simp: shared_getters_def setter_defs res_simps commit_stats_string_def
      exclude_txn_from_change_streams_string_def)

text \<open>
  Setting one shared option changes no other: every other key reports what it reported, and the
  isolation level and both shared cells stay where they were.
\<close>

theorem shared_options_independent:
  assumes "set_shared_option rnd rfc k v c = Inr (Some c')" and "k' \<noteq> k"
  shows "shared_option_string sh st k' c' = shared_option_string sh st k' c \<and>
    isolation c' = isolation c \<and> read_only c' = read_only c \<and> commit_stats c' = commit_stats c \<and>
    transaction_tag (request c') = transaction_tag (request c)"
proof -
  from assms(1) obtain f where f: "(k, f) \<in> set (shared_setters rnd rfc)" "f v c = Inr c'"
    by (auto simp: set_shared_option_Some)
  have "frame_ok sh st k f" using shared_frames f(1) unfolding list_all_iff by blast
  then have fr: "\<And>g. (k', g) \<in> set (shared_getters sh st) \<Longrightarrow> g c' = g c"
    "isolation c' = isolation c \<and> read_only c' = read_only c \<and> commit_stats c' = commit_stats c \<and>
     transaction_tag (request c') = transaction_tag (request c)"
    using f(2) assms(2) unfolding frame_ok_def by (blast, blast)
  have "shared_option_string sh st k' c' = shared_option_string sh st k' c"
    unfolding shared_option_string_def using fr(1)[OF map_of_SomeD]
    by (cases "map_of (shared_getters sh st :: (rstring \<times> 'a getter) list) k'") simp_all
  with fr(2) show ?thesis by simp
qed

section \<open>Sequences of option calls\<close>

text \<open>A sequence of \<^verbatim>\<open>set_option\<close> calls; a rejected or unknown one leaves the configuration as it was.\<close>

fun apply_sets ::
  "rounding \<Rightarrow> (rstring \<Rightarrow> 'ts option) \<Rightarrow> (rstring \<times> option_value) list \<Rightarrow> 'ts shared_config \<Rightarrow>
   'ts shared_config" where
  "apply_sets rnd rfc [] c = c"
| "apply_sets rnd rfc ((k, v) # ops) c =
     apply_sets rnd rfc ops
       (case set_shared_option rnd rfc k v c of Inr (Some c') \<Rightarrow> c' | _ \<Rightarrow> c)"

lemma apply_sets_ok:
  assumes "f64_contract rnd sh" and "list_all (good_value rnd \<circ> snd) ops" and "config_ok rnd rfc c"
  shows "config_ok rnd rfc (apply_sets rnd rfc ops c)"
  using assms(2,3)
proof (induction ops arbitrary: c)
  case Nil
  then show ?case by simp
next
  case (Cons op ops)
  obtain k v where op: "op = (k, v)" by (cases op)
  have "config_ok rnd rfc (case set_shared_option rnd rfc k v c of Inr (Some c') \<Rightarrow> c' | _ \<Rightarrow> c)"
    using Cons.prems op set_shared_option_keeps_ok[OF assms(1)]
    by (auto split: sum.splits option.splits)
  with Cons op show ?case by simp
qed

lemma seconds_ok_duration:
  "seconds_ok rnd rng (Some s) \<Longrightarrow> rng \<noteq> PositiveFactor \<Longrightarrow> \<exists>d. try_from_secs_f64 s = Some d"
  by (auto simp: seconds_ok_def)

lemma delay_call_total:
  "seconds_ok rnd PositiveSeconds x \<Longrightarrow> \<exists>cs. delay_call f x = Some cs"
  by (cases x) (auto simp: delay_call_def dest!: seconds_ok_duration simp del: try_from_secs_f64.simps)

lemma backoff_policy_total: "retry_ok rnd r \<Longrightarrow> \<exists>p. backoff_policy_arg r = Some p"
  using delay_call_total[of rnd "backoff_initial_seconds r" WithInitialDelay]
    delay_call_total[of rnd "backoff_max_seconds r" WithMaximumDelay]
  by (auto simp: backoff_policy_arg_def retry_ok_def)

lemma builders_total:
  assumes "retry_ok rnd (retry c)"
  shows "sql_builder c \<noteq> None" "read_sql_builder c \<noteq> None" "metadata_sql_builder c \<noteq> None"
    "build_runner wkt c \<noteq> None" "batch_dml_builder c b \<noteq> None" "write_only_builder wkt c \<noteq> None"
  using backoff_policy_total[OF assms]
  by (auto simp: sql_builder_def read_sql_builder_def metadata_sql_builder_def build_runner_def
      batch_dml_builder_def write_only_builder_def retry_to_request_def retry_to_commit_def)

lemma max_commit_delay_capped:
  assumes "raw_ok (parse_max_commit_delay rnd) c" and "parsed c = Some d"
  shows "d \<le> MAX_COMMIT_DELAY_CAP"
  using assms
  by (auto simp: raw_ok_def parse_max_commit_delay_def res_simps split: option.splits if_splits)

text \<open>A stored timeout: a positive value is a deadline, zero and unset are none.\<close>

lemma as_duration_ok:
  assumes "seconds_ok rnd NonNegativeSeconds x"
  shows "as_duration x = None \<longleftrightarrow> x = None \<or> x = Some (Fin 0)"
proof (cases x)
  case None
  then show ?thesis by (simp add: as_duration_def)
next
  case (Some s)
  with assms obtain q where s: "s = Fin q" "q \<ge> 0" by (cases s) (auto simp: seconds_ok_def)
  from seconds_ok_duration[OF assms[unfolded Some]] obtain d where "try_from_secs_f64 s = Some d" by auto
  with Some s show ?thesis by (auto simp: as_duration_def simp del: try_from_secs_f64.simps)
qed

text \<open>
  C29: Whatever sequence of shared options is set on a fresh connection, accepted or rejected, no
  request builder panics on a stored duration, the commit delay never exceeds Spanner's cap, the
  attempt limit fits its \<^verbatim>\<open>u32\<close>, and a timeout is dropped only when it is unset or zero.
\<close>

theorem configured_requests_never_panic:
  assumes "f64_contract rnd sh" and "list_all (good_value rnd \<circ> snd) ops"
    and "c = apply_sets rnd rfc ops (fst (default_config st))"
  shows "sql_builder c \<noteq> None \<and> read_sql_builder c \<noteq> None \<and> metadata_sql_builder c \<noteq> None \<and>
    build_runner wkt c \<noteq> None \<and> batch_dml_builder c b \<noteq> None \<and> write_only_builder wkt c \<noteq> None \<and>
    pred_option (\<lambda>d. d \<le> MAX_COMMIT_DELAY_CAP) (parsed (max_commit_delay (request c))) \<and>
    pred_option (\<lambda>n. 1 \<le> n \<and> n < 2 ^ 32) (max_attempts (retry c)) \<and>
    list_all (\<lambda>x. (as_duration x = None) = (x = None \<or> x = Some (Fin 0)))
      [query (timeouts c), update (timeouts c), fetch (timeouts c)]"
proof -
  have ok: "config_ok rnd rfc c"
    unfolding assms(3) by (rule apply_sets_ok[OF assms(1,2) default_config_ok])
  then have r: "retry_ok rnd (retry c)" and t: "timeouts_ok rnd (timeouts c)"
    and d: "raw_ok (parse_max_commit_delay rnd) (max_commit_delay (request c))"
    by (auto simp: config_ok_def request_ok_def)
  have "pred_option (\<lambda>n. 1 \<le> n \<and> n < 2 ^ 32) (max_attempts (retry c))"
    using r by (cases "max_attempts (retry c)") (auto simp: retry_ok_def attempts_ok_def)
  moreover have "pred_option (\<lambda>d. d \<le> MAX_COMMIT_DELAY_CAP) (parsed (max_commit_delay (request c)))"
    using max_commit_delay_capped[OF d] by (cases "parsed (max_commit_delay (request c))") auto
  ultimately show ?thesis using builders_total[OF r] t
    by (simp add: timeouts_ok_def as_duration_ok[of rnd])
qed

section \<open>What reaches which request\<close>

definition is_directed :: "builder_call \<Rightarrow> bool" where
  "is_directed x = (case x of SetDirectedReadOptions _ \<Rightarrow> True | _ \<Rightarrow> False)"

definition is_tag :: "builder_call \<Rightarrow> bool" where
  "is_tag x = (case x of SetRequestTag _ \<Rightarrow> True | SetTransactionTag _ \<Rightarrow> True | _ \<Rightarrow> False)"

definition is_request_tag :: "builder_call \<Rightarrow> bool" where
  "is_request_tag x = (case x of SetRequestTag _ \<Rightarrow> True | _ \<Rightarrow> False)"

definition is_commit_option :: "builder_call \<Rightarrow> bool" where
  "is_commit_option x =
     (case x of SetTransactionTag _ \<Rightarrow> True | SetCommitPriority _ \<Rightarrow> True | SetMaxCommitDelay _ \<Rightarrow> True
      | SetReturnCommitStats _ \<Rightarrow> True | SetExcludeTxn _ \<Rightarrow> True | SetIsolationLevel _ \<Rightarrow> True | _ \<Rightarrow> False)"

definition never :: "(builder_call \<Rightarrow> bool) \<Rightarrow> builder option \<Rightarrow> bool" where
  "never p b = pred_option (list_all (\<lambda>x. \<not> p x)) b"

lemmas call_class_defs = is_directed_def is_tag_def is_request_tag_def is_commit_option_def

lemmas builder_defs = sql_builder_def read_sql_builder_def metadata_sql_builder_def build_runner_def
  batch_dml_builder_def write_only_builder_def retry_to_request_def retry_to_commit_def
  optimizer_to_statement_def request_to_statement_def directed_to_statement_def
  apply_priority_to_statement_def request_to_batch_dml_def request_to_commit_def apply_isolation_def

lemma never_simps [simp]:
  "never p None"
  "never p (Some b) = list_all (\<lambda>x. \<not> p x) b"
  "never p (map_option f x) = pred_option (\<lambda>b. list_all (\<lambda>x. \<not> p x) (f b)) x"
  by (simp_all add: never_def option.pred_map comp_def)

lemma list_all_opt_call [simp]: "list_all P (opt_call f x) = pred_option (\<lambda>v. P (f v)) x"
  by (simp add: opt_call_def split: option.splits)

text \<open>
  A directed read never reaches a read/write, batch or write-only request; the driver's own
  metadata reads carry neither a tag nor a commit option; no commit carries a request tag; and a
  read-only query carries no commit option.
\<close>

theorem request_options_stay_in_scope:
  "never is_directed (sql_builder c) \<and> never is_directed (batch_dml_builder c l) \<and>
   never is_directed (build_runner wkt c) \<and> never is_directed (write_only_builder wkt c) \<and>
   never is_tag (metadata_sql_builder c) \<and> never is_commit_option (metadata_sql_builder c) \<and>
   never is_request_tag (build_runner wkt c) \<and> never is_request_tag (write_only_builder wkt c) \<and>
   never is_commit_option (read_sql_builder c)"
proof -
  have any: "pred_option P x" if "\<And>y. P y" for P and x :: "'z option" using that by (cases x) auto
  show ?thesis
    by (intro conjI)
      (auto simp: builder_defs call_class_defs option.pred_map comp_def intro!: any
        split: option.splits isolation_level.splits)
qed

end
