(* ===== verification/OptionProps.thy ===== *)
theory OptionProps
  imports ConfigProps
begin

text \<open>
  Properties of the single option families (directed reads, read bounds, the isolation level), of the
  \<^verbatim>\<open>Arc\<close> cells behind \<^verbatim>\<open>inherit\<close>, and the witnesses of the dispatch properties.
\<close>

section \<open>A model of the double arithmetic\<close>

text \<open>The doubles that are integers, rendered in decimal: an instance of \<open>f64_contract\<close>.\<close>

definition int_rounding :: rounding where
  "int_rounding q = Fin (of_int \<lfloor>q\<rfloor>)"

definition int_text :: "f64 \<Rightarrow> rstring" where
  "int_text x = (case x of Fin q \<Rightarrow> show_int \<lfloor>q\<rfloor> | _ \<Rightarrow> [])"

lemma digit_run_show_nat: "digit_run (show_nat n) = (show_nat n, [])"
  by (simp add: digit_run_def takeWhile_eq_all_conv show_nat_digits)

lemma parse_decimal_show_nat: "parse_decimal (show_nat n) = Some (of_nat n)"
  by (simp add: parse_decimal_def digit_run_show_nat parse_exponent_def pow10_def)

lemma show_nat_not_word:
  assumes "w \<noteq> []" and "\<not> is_ascii_digit (hd w)"
  shows "to_ascii_lowercase (show_nat n) \<noteq> w"
proof
  assume "to_ascii_lowercase (show_nat n) = w"
  then have "hd w = to_lower (hd (show_nat n))"
    by (metis list.map_sel(1) show_nat_ne to_ascii_lowercase_def)
  with hd_show_nat_digit[of n] assms(2) show False
    by (simp add: to_lower_def char_simps split: if_splits)
qed

lemma parse_f64_show_nat:
  "parse_f64 rnd (show_nat n) = Some (rnd (of_nat n))"
  "parse_f64 rnd (45 # show_nat n) = Some (rnd (- of_nat n))"
proof -
  have words: "to_ascii_lowercase (show_nat n) \<noteq> lit ''inf''"
    "to_ascii_lowercase (show_nat n) \<noteq> lit ''infinity''"
    "to_ascii_lowercase (show_nat n) \<noteq> lit ''nan''"
    by (rule show_nat_not_word; simp add: lit_def is_ascii_digit_def)+
  obtain c cs where s: "show_nat n = c # cs" by (cases "show_nat n") auto
  have "is_ascii_digit c" using hd_show_nat_digit[of n] s by simp
  then have "c \<noteq> 45" "c \<noteq> 43" by (auto simp: is_ascii_digit_def)
  with words parse_decimal_show_nat[of n] s
  show "parse_f64 rnd (show_nat n) = Some (rnd (of_nat n))"
    by (simp add: parse_f64_def)
  from words parse_decimal_show_nat[of n]
  show "parse_f64 rnd (45 # show_nat n) = Some (rnd (- of_nat n))"
    by (simp add: parse_f64_def)
qed

lemma digit_not_whitespace: "is_ascii_digit c \<Longrightarrow> \<not> is_whitespace c"
  by (auto simp: char_simps)

lemma trim_show_int: "trim (show_int i) = show_int i"
proof -
  have l: "\<not> is_whitespace (last (show_nat n))" for n
    by (rule digit_not_whitespace, rule show_nat_digits[of _ n]) simp
  have h: "\<not> is_whitespace (hd (show_nat n))" for n
    by (rule digit_not_whitespace) (rule hd_show_nat_digit)
  have "\<not> is_whitespace 45" by (simp add: is_whitespace_def)
  with l h show ?thesis by (simp add: trim_def trim_start_id trim_end_id show_int_def)
qed

lemma int_rounding_contract: "f64_contract int_rounding int_text"
proof -
  have "parse_f64 int_rounding (show_int i) = Some (Fin (of_int i))" for i
    by (simp add: show_int_def parse_f64_show_nat int_rounding_def)
  moreover have "show_int i \<noteq> []" for i by (simp add: show_int_def)
  ultimately show ?thesis
    by (auto simp: f64_contract_def int_text_def trim_show_int)
      (simp_all add: int_rounding_def)
qed

definition witness_store :: arc_store where
  "witness_store = \<lparr>flags = \<lambda>_. False, counts = \<lambda>_. None, next_addr = 0\<rparr>"

definition witness_config :: "nat shared_config" where
  "witness_config = (fst (default_config witness_store))
     \<lparr>timeouts := \<lparr>query = Some (Fin 30), update = None, fetch = None\<rparr>\<rparr>"

lemma witness_config_ok: "config_ok int_rounding (\<lambda>_. None) witness_config"
  by (simp add: witness_config_def default_config_def Let_def config_ok_defs raw_ok_def raw_default_def
      default_request_def default_retry_def text_ok_def attempts_ok_def seconds_ok_def int_rounding_def
      round_half_even_def)

section \<open>Witnesses of the dispatch properties\<close>

lemma witness_query_reported:
  "shared_option_string int_text witness_store OPTION_RPC_TIMEOUT_QUERY witness_config = Inr (lit ''30'')"
proof -
  have "show_int 30 = lit ''30''" by code_simp
  then have "map_option int_text (query (timeouts witness_config)) = Some (lit ''30'')"
    by (simp add: witness_config_def int_text_def)
  then show ?thesis unfolding shared_option_string_Inr
    by (intro exI[of _ "\<lambda>c. map_option int_text (query (timeouts c))"]) (simp add: shared_getters_def)
qed


theorem shared_options_independent_witness:
  "let c = fst (default_config witness_store) :: nat shared_config;
       c' = c\<lparr>query_options := \<lparr>optimizer_version = Some (lit ''7''), optimizer_statistics_package = None\<rparr>\<rparr>
   in set_shared_option int_rounding (\<lambda>_. None) OPTION_QUERY_OPTIMIZER_VERSION (OString (lit ''7'')) c
        = Inr (Some c') \<and>
      shared_option_string int_text witness_store OPTION_COMMIT_STATS c'
        = shared_option_string int_text witness_store OPTION_COMMIT_STATS c"
proof -
  define c where "c = (fst (default_config witness_store) :: nat shared_config)"
  define c' where "c' = c\<lparr>query_options :=
    \<lparr>optimizer_version = Some (lit ''7''), optimizer_statistics_package = None\<rparr>\<rparr>"
  have "lit ''7'' \<noteq> []" by code_simp
  then have "set_optimizer OPTION_QUERY_OPTIMIZER_VERSION (\<lambda>x q. q\<lparr>optimizer_version := x\<rparr>)
      (OString (lit ''7'')) c = Inr c'"
    by (simp add: set_optimizer_def set_field_def non_empty_string_option_def
        string_option_def c'_def c_def default_config_def Let_def)
  then have set: "set_shared_option int_rounding (\<lambda>_. None) OPTION_QUERY_OPTIMIZER_VERSION
      (OString (lit ''7'')) c = Inr (Some c')"
    unfolding set_shared_option_Some
    by (intro exI[of _ "set_optimizer OPTION_QUERY_OPTIMIZER_VERSION (\<lambda>x q. q\<lparr>optimizer_version := x\<rparr>)"])
      (simp add: shared_setters_def)
  have "OPTION_COMMIT_STATS \<noteq> OPTION_QUERY_OPTIMIZER_VERSION" by code_simp
  from shared_options_independent[OF set this] set show ?thesis
    unfolding c'_def c_def Let_def by blast
qed

theorem configured_requests_never_panic_witness:
  "let ops = [(OPTION_RETRY_MAX_ATTEMPTS, OInt 3), (OPTION_MAX_COMMIT_DELAY, OString (lit ''abc''))];
       c = apply_sets int_rounding (\<lambda>_. None) ops (fst (default_config witness_store) :: nat shared_config)
   in list_all (good_value int_rounding \<circ> snd) ops \<and> sql_builder c \<noteq> None \<and>
      pred_option (\<lambda>n. 1 \<le> n \<and> n < 2 ^ 32) (max_attempts (retry c))"
proof -
  define ops where "ops = [(OPTION_RETRY_MAX_ATTEMPTS, OInt 3), (OPTION_MAX_COMMIT_DELAY, OString (lit ''abc''))]"
  have "list_all (good_value int_rounding \<circ> snd) ops" by (simp add: ops_def)
  from configured_requests_never_panic[OF int_rounding_contract this refl] this show ?thesis
    unfolding ops_def Let_def by blast
qed

section \<open>Directed reads\<close>

lemma parse_selection_ok:
  "parse_selection s = Inr sel \<Longrightarrow> location sel \<noteq> [] \<or> replica_kind sel \<noteq> AnyType"
  by (auto simp: parse_selection_def Let_def res_simps split: if_splits)

definition spec_ok :: "directed_read_spec \<Rightarrow> bool" where
  "spec_ok spec \<longleftrightarrow>
     (auto_failover_disabled spec \<longrightarrow> mode spec = Include) \<and>
     (selections spec = [] \<longrightarrow> mode spec = Include \<and> auto_failover_disabled spec) \<and>
     (\<forall>s \<in> set (selections spec). location s \<noteq> [] \<or> replica_kind s \<noteq> AnyType)"

lemma parse_selections_ok:
  assumes "collect_results (map parse_selection ps) = Inr xs" and "s \<in> set xs"
  shows "location s \<noteq> [] \<or> replica_kind s \<noteq> AnyType"
proof -
  from assms have "Inr s \<in> set (map parse_selection ps)" by (simp add: res_simps)
  then show ?thesis using parse_selection_ok by auto
qed

lemma parse_directed_main_ok:
  assumes "parse_directed_main main afd = Inr spec"
  shows "spec_ok spec"
proof -
  obtain m sels where ms: "(case split_once (ch CHR '':'') main of
      Some (m, rest) \<Rightarrow> (trim m, Some (trim rest)) | None \<Rightarrow> (main, None)) = (m, sels)"
    by (meson surj_pair)
  let ?r = "case sels of None \<Rightarrow> Inr []
    | Some str \<Rightarrow> collect_results (map parse_selection (split_on (ch CHR '','') str))"
  from assms obtain md xs where "?r = Inr xs"
    "\<not> (afd \<and> md = Exclude)" "\<not> (xs = [] \<and> \<not> (md = Include \<and> afd))"
    "spec = \<lparr>mode = md, selections = xs, auto_failover_disabled = afd\<rparr>"
    unfolding parse_directed_main_def ms Let_def prod.case
    by (auto simp: try_bind_Inr simp del: of_char_of of_char_Char split: if_splits)
  moreover from this(1) have "\<forall>s \<in> set xs. location s \<noteq> [] \<or> replica_kind s \<noteq> AnyType"
    using parse_selections_ok by (cases sels) auto
  ultimately show ?thesis by (cases md) (auto simp: spec_ok_def)
qed

lemma parse_directed_read_ok: "parse_directed_read v = Inr spec \<Longrightarrow> spec_ok spec"
  unfolding parse_directed_read_def
  by (auto split: option.splits if_splits intro: parse_directed_main_ok)

text \<open>
  A directed read the driver accepts is one Spanner can act on: an exclude list is never empty, an
  include list is empty only with failover disabled, every replica selection names a location or a
  type, and the failover flag is only ever sent with an include list.
\<close>

theorem directed_read_options_meaningful:
  assumes "raw_ok parse_directed_read d" and "parsed d = Some spec"
  shows "case to_options spec of
      IncludeReplicas sels afd \<Rightarrow> (sels \<noteq> [] \<or> afd) \<and>
        list_all (\<lambda>s. set_location s \<noteq> [] \<or> set_type s \<noteq> None) sels
    | ExcludeReplicas sels \<Rightarrow> sels \<noteq> [] \<and> \<not> auto_failover_disabled spec \<and>
        list_all (\<lambda>s. set_location s \<noteq> [] \<or> set_type s \<noteq> None) sels"
proof -
  from assms obtain v where "parse_directed_read v = Inr spec"
    by (auto simp: raw_ok_def split: option.splits)
  note spec = parse_directed_read_ok[OF this, unfolded spec_ok_def]
  have "list_all (\<lambda>s. set_location s \<noteq> [] \<or> set_type s \<noteq> None)
    (map (\<lambda>s. \<lparr>set_location = location s,
       set_type = (case replica_kind s of AnyType \<Rightarrow> None | k \<Rightarrow> Some k)\<rparr>) (selections spec))"
    using spec by (auto simp: list_all_iff split: replica_type.splits)
  with spec show ?thesis by (cases "mode spec") (auto simp: to_options_def Let_def)
qed

theorem directed_read_options_meaningful_witness:
  "let spec = \<lparr>mode = Include, selections = [\<lparr>location = lit ''us'', replica_kind = AnyType\<rparr>],
         auto_failover_disabled = False\<rparr>;
       d = \<lparr>raw = Some (lit ''include:us''), parsed = Some spec\<rparr>
   in raw_ok parse_directed_read d \<and>
      to_options spec = IncludeReplicas [\<lparr>set_location = lit ''us'', set_type = None\<rparr>] False \<and>
      (case to_options spec of
         IncludeReplicas sels afd \<Rightarrow> (sels \<noteq> [] \<or> afd) \<and>
           list_all (\<lambda>s. set_location s \<noteq> [] \<or> set_type s \<noteq> None) sels
       | ExcludeReplicas sels \<Rightarrow> sels \<noteq> [] \<and> \<not> auto_failover_disabled spec \<and>
           list_all (\<lambda>s. set_location s \<noteq> [] \<or> set_type s \<noteq> None) sels)"
proof -
  define spec where "spec = \<lparr>mode = Include, selections = [\<lparr>location = lit ''us'', replica_kind = AnyType\<rparr>],
         auto_failover_disabled = False\<rparr>"
  define d where "d = \<lparr>raw = Some (lit ''include:us''), parsed = Some spec\<rparr>"
  have "parse_directed_read (lit ''include:us'') = Inr spec" unfolding spec_def by code_simp
  moreover have "trim (lit ''include:us'') = lit ''include:us'' \<and> lit ''include:us'' \<noteq> []" by code_simp
  ultimately have ok: "raw_ok parse_directed_read d" by (simp add: raw_ok_def d_def)
  have "to_options spec = IncludeReplicas [\<lparr>set_location = lit ''us'', set_type = None\<rparr>] False"
    by (simp add: to_options_def spec_def)
  with ok directed_read_options_meaningful[OF ok, of spec] show ?thesis
    unfolding Let_def d_def spec_def by simp
qed

section \<open>Statements inherit from their connection\<close>

lemma shared_option_string_count:
  assumes "counts st (commit_stats c) = counts st' a"
  shows "shared_option_string sh st' k (c\<lparr>commit_stats := a\<rparr>) = shared_option_string sh st k c"
  unfolding shared_option_string_def shared_getters_def
  by (auto simp: assms)

lemma shared_option_string_store:
  assumes "counts st (commit_stats c) = counts st' (commit_stats c)"
  shows "shared_option_string sh st' k c = shared_option_string sh st k c"
  using shared_option_string_count[where a = "commit_stats c", OF assms] by simp

lemma shared_option_string_other:
  assumes "k \<noteq> OPTION_COMMIT_STATS_MUTATION_COUNT"
  shows "shared_option_string sh st' k (c\<lparr>commit_stats := a\<rparr>) = shared_option_string sh st k c"
  unfolding shared_option_string_def shared_getters_def
  by (auto simp: assms)

lemma count_reported:
  "shared_option_string sh st OPTION_COMMIT_STATS_MUTATION_COUNT (c :: 'ts shared_config) =
   ok_or (option_not_set OPTION_COMMIT_STATS_MUTATION_COUNT) (map_option show_int (counts st (commit_stats c)))"
proof -
  have "(OPTION_COMMIT_STATS_MUTATION_COUNT, \<lambda>c. map_option show_int (counts st (commit_stats c)))
    \<in> set (shared_getters sh st :: (rstring \<times> 'ts getter) list)" by (simp add: shared_getters_def)
  then show ?thesis
    unfolding shared_option_string_def map_of_eq_Some_iff[OF getter_keys_distinct, symmetric] by simp
qed

text \<open>
  A new statement reports every option value of its connection, except that it has no commit count
  of its own yet; a later toggle of the connection's read-only flag reaches it, while a commit recorded
  on either object is never visible on the other.
\<close>

theorem inherited_configuration:
  assumes "commit_stats c < next_addr st" and "inherit c st = (s, st1)"
  shows "(k \<noteq> OPTION_COMMIT_STATS_MUTATION_COUNT \<longrightarrow>
      shared_option_string sh st1 k s = shared_option_string sh st k c) \<and>
    shared_option_string sh st1 OPTION_COMMIT_STATS_MUTATION_COUNT s
      = Inl (option_not_set OPTION_COMMIT_STATS_MUTATION_COUNT) \<and>
    is_read_only s (set_read_only b c st2) = b \<and>
    shared_option_string sh (record_commit n c st1) j s = shared_option_string sh st1 j s \<and>
    shared_option_string sh (record_commit n s st1) j c = shared_option_string sh st1 j c"
proof -
  from assms(2) have s: "s = c\<lparr>commit_stats := next_addr st\<rparr>"
    and st1: "st1 = st\<lparr>counts := (counts st)(next_addr st := None), next_addr := next_addr st + 1\<rparr>"
    by (auto simp: inherit_def Let_def)
  have "k \<noteq> OPTION_COMMIT_STATS_MUTATION_COUNT \<longrightarrow>
      shared_option_string sh st1 k s = shared_option_string sh st k c"
    unfolding s by (blast intro: shared_option_string_other)
  moreover have "shared_option_string sh st1 OPTION_COMMIT_STATS_MUTATION_COUNT s
      = Inl (option_not_set OPTION_COMMIT_STATS_MUTATION_COUNT)"
    by (simp add: count_reported s st1)
  moreover have "is_read_only s (set_read_only b c st2) = b"
    by (simp add: is_read_only_def set_read_only_def s)
  moreover have "shared_option_string sh (record_commit n c st1) j s = shared_option_string sh st1 j s"
    by (rule shared_option_string_store) (use assms(1) in \<open>simp add: record_commit_def s\<close>)
  moreover have "shared_option_string sh (record_commit n s st1) j c = shared_option_string sh st1 j c"
    by (rule shared_option_string_store) (use assms(1) in \<open>simp add: record_commit_def s\<close>)
  ultimately show ?thesis by simp
qed

theorem inherited_configuration_witness:
  "let (c, st) = default_config witness_store :: nat shared_config \<times> arc_store;
       (s, st1) = inherit c st
   in is_read_only s (set_read_only True c st1) \<and>
      shared_option_string int_text (record_commit (Some 7) c st1) OPTION_COMMIT_STATS_MUTATION_COUNT s
        = Inl (option_not_set OPTION_COMMIT_STATS_MUTATION_COUNT)"
proof -
  obtain c :: "nat shared_config" and st where c: "default_config witness_store = (c, st)"
    by (meson surj_pair)
  obtain s st1 where s: "inherit c st = (s, st1)" by (meson surj_pair)
  from c have "commit_stats c < next_addr st" by (auto simp: default_config_def Let_def)
  from inherited_configuration[OF this s, where b = True and n = "Some 7" and ?st2.0 = st1
      and j = OPTION_COMMIT_STATS_MUTATION_COUNT and sh = int_text
      and k = OPTION_COMMIT_STATS_MUTATION_COUNT] show ?thesis
    by (simp add: c s)
qed

section \<open>Isolation levels and read bounds\<close>

text \<open>
  The isolation level a connection reports is accepted back and selects the same level.
\<close>

theorem isolation_level_round_trip:
  "parse_isolation_level (OString (isolation_to_adbc_string l)) = Inr l"
proof (cases l)
  case Unspecified
  show ?thesis unfolding Unspecified by code_simp
next
  case Serializable
  show ?thesis unfolding Serializable by code_simp
next
  case RepeatableRead
  show ?thesis unfolding RepeatableRead by code_simp
qed

text \<open>A read bound pinned for a multi-use transaction is one Spanner accepts there.\<close>

fun multi_use_legal :: "'ts read_bound \<Rightarrow> bool" where
  "multi_use_legal (ExactStaleness _) = True"
| "multi_use_legal (ReadTimestamp _) = True"
| "multi_use_legal _ = False"

lemma pinned_legal: "multi_use_legal (pinned_for_multi_use b)"
  by (cases b) auto

lemma pinned_id: "multi_use_legal b \<Longrightarrow> pinned_for_multi_use b = b"
  by (cases b) auto

text \<open>
  A malformed commit delay is refused, but under the read-staleness option's name, because
  \<^verbatim>\<open>parse_max_commit_delay\<close> calls the staleness parser.
\<close>

theorem max_commit_delay_error_names_staleness:
  "set_max_commit_delay rnd (OString (lit ''abc'')) c =
   Inl (invalid_argument (lit ''option '' @ OPTION_READ_STALENESS @ lit '': not a valid duration''))"
proof -
  have "trim (lit ''abc'') = lit ''abc''" "lit ''abc'' \<noteq> []" by code_simp+
  moreover have "duration_unit (lit ''abc'') = (lit ''abc'', 1)" by code_simp
  moreover have "parse_decimal (lit ''abc'') = None" by code_simp
  then have "parse_f64 rnd (lit ''abc'') = None"
    by (simp add: parse_f64_def lit_def to_ascii_lowercase_def to_lower_def is_ascii_uppercase_def)
  ultimately show ?thesis
    by (simp add: set_max_commit_delay_def raw_set_def string_option_def parse_max_commit_delay_def
        parse_duration_def parse_duration_for_def)
qed

end
