(* ===== verification/Bind.thy ===== *)
theory Bind
  imports SqlProps Builders
begin

text \<open>
  Parameter binding, \<^verbatim>\<open>src/bind.rs\<close>: which query parameter each bound column goes to, the parameters one
  bound row puts on a statement, and the mutation it becomes in a bulk ingest.

  The conversion of one Arrow cell into a Spanner value (\<^verbatim>\<open>cell_value\<close>) is the argument \<open>cell\<close>: it maps
  the label used in errors, the row and the column index to the value with its explicit type, if any.
\<close>

section \<open>Definitions\<close>

text \<open>\<^verbatim>\<open>HashMap::get\<close> on the map of lower-cased parameters to their spelling in the query.\<close>

definition param_set_get :: "rstring list \<Rightarrow> rstring \<Rightarrow> rstring option" where
  "param_set_get params key = map_of (rev (map (\<lambda>p. (to_ascii_lowercase p, p)) params)) key"

fun resolve_by_name :: "rstring list \<Rightarrow> rstring set \<Rightarrow> rstring list \<Rightarrow> rstring list result" where
  "resolve_by_name params bound [] = Inr []"
| "resolve_by_name params bound (column # columns) =
     (case param_set_get params (to_ascii_lowercase column) of
        None \<Rightarrow> Inl (invalid_argument (lit ''cannot bind column: it names no query parameter''))
      | Some p \<Rightarrow>
          if to_ascii_lowercase p \<in> bound
          then Inl (invalid_argument (lit ''cannot bind column: it names the same query parameter as an earlier column''))
          else try_bind (resolve_by_name params (insert (to_ascii_lowercase p) bound) columns)
                 (\<lambda>ps. Inr (p # ps)))"

definition resolve_parameter_names :: "rstring \<Rightarrow> rstring list \<Rightarrow> bool \<Rightarrow> rstring list result" where
  "resolve_parameter_names sql columns bind_by_name =
     (let params = named_parameters sql
      in if bind_by_name then resolve_by_name params {} columns
         else if length params \<noteq> length columns
         then Inl (invalid_argument (lit ''parameter count mismatch''))
         else Inr params)"

text \<open>A Spanner statement: its text, the setter calls on its builder and its parameters in order.\<close>

record 'v spanner_sql =
  sql_text :: rstring
  calls :: builder
  params :: "(rstring \<times> 'v) list"

fun bind_params_from ::
  "(rstring \<Rightarrow> 'r \<Rightarrow> nat \<Rightarrow> 'v result) \<Rightarrow> nat \<Rightarrow> rstring list \<Rightarrow> 'r \<Rightarrow> 'v spanner_sql \<Rightarrow> 'v spanner_sql result" where
  "bind_params_from cell i [] row s = Inr s"
| "bind_params_from cell i (name # names) row s =
     try_bind (cell name row i) (\<lambda>v.
       bind_params_from cell (Suc i) names row (s\<lparr>params := params s @ [(name, v)]\<rparr>))"

definition bind_params ::
  "(rstring \<Rightarrow> 'r \<Rightarrow> nat \<Rightarrow> 'v result) \<Rightarrow> 'v spanner_sql \<Rightarrow> rstring list \<Rightarrow> 'r \<Rightarrow> 'v spanner_sql result" where
  "bind_params cell s names row = bind_params_from cell 0 names row s"

record 'v mutation =
  into_table :: rstring
  assignments :: "(rstring \<times> 'v) list"

definition insert_mutation ::
  "(rstring \<Rightarrow> 'r \<Rightarrow> nat \<Rightarrow> 'v result) \<Rightarrow> rstring \<Rightarrow> rstring list \<Rightarrow> 'r \<Rightarrow> 'v mutation result" where
  "insert_mutation cell table columns row =
     try_bind (collect_results (map (\<lambda>(i, name). try_bind (cell name row i) (\<lambda>v. Inr (name, v)))
                 (enumerate 0 columns)))
       (\<lambda>as. Inr \<lparr>into_table = table, assignments = as\<rparr>)"

definition mutation_table :: "rstring option \<Rightarrow> rstring \<Rightarrow> rstring" where
  "mutation_table db_schema table_name =
     (case db_schema of
        Some (c # cs) \<Rightarrow> (c # cs) @ ch CHR ''.'' # table_name
      | _ \<Rightarrow> table_name)"

section \<open>Lemmas\<close>

lemma param_set_get_Some:
  assumes "param_set_get ps (to_ascii_lowercase c) = Some p"
  shows "p \<in> set ps \<and> eq_ignore_ascii_case p c"
  using map_of_SomeD[OF assms[unfolded param_set_get_def]]
  by (auto simp: eq_ignore_ascii_case_def)

lemma param_set_get_None:
  "param_set_get ps (to_ascii_lowercase c) = None \<longleftrightarrow> (\<forall>p \<in> set ps. \<not> eq_ignore_ascii_case p c)"
  by (auto simp: param_set_get_def map_of_eq_None_iff eq_ignore_ascii_case_def image_iff)

lemma resolve_by_name_sound:
  assumes "resolve_by_name ps b cs = Inr ns"
  shows "set ns \<subseteq> set ps \<and> list_all2 eq_ignore_ascii_case ns cs \<and>
    distinct (map to_ascii_lowercase ns) \<and> to_ascii_lowercase ` set ns \<inter> b = {}"
  using assms
proof (induction ps b cs arbitrary: ns rule: resolve_by_name.induct)
  case (1 ps b)
  then show ?case by simp
next
  case (2 ps b c cs)
  from "2.prems" obtain p qs where p: "param_set_get ps (to_ascii_lowercase c) = Some p"
    and new: "to_ascii_lowercase p \<notin> b"
    and rest: "resolve_by_name ps (insert (to_ascii_lowercase p) b) cs = Inr qs" "ns = p # qs"
    by (auto simp: res_simps split: option.splits if_splits)
  have "set qs \<subseteq> set ps \<and> list_all2 eq_ignore_ascii_case qs cs \<and> distinct (map to_ascii_lowercase qs) \<and>
    to_ascii_lowercase ` set qs \<inter> insert (to_ascii_lowercase p) b = {}"
    using "2.IH"[OF p new rest(1)] .
  with param_set_get_Some[OF p] new rest(2) show ?case by auto
qed

lemma resolve_by_name_complete:
  assumes "distinct (map to_ascii_lowercase cs)"
    and "\<forall>c \<in> set cs. \<exists>p \<in> set ps. eq_ignore_ascii_case p c"
    and "to_ascii_lowercase ` set cs \<inter> b = {}"
  shows "\<exists>ns. resolve_by_name ps b cs = Inr ns"
  using assms
proof (induction cs arbitrary: b)
  case Nil
  then show ?case by simp
next
  case (Cons c cs)
  obtain p where p: "param_set_get ps (to_ascii_lowercase c) = Some p"
    using Cons.prems(2) by (cases "param_set_get ps (to_ascii_lowercase c)") (auto simp: param_set_get_None)
  then have pc: "to_ascii_lowercase p = to_ascii_lowercase c"
    using param_set_get_Some[OF p] by (simp add: eq_ignore_ascii_case_def)
  have "\<exists>ns. resolve_by_name ps (insert (to_ascii_lowercase p) b) cs = Inr ns"
    by (rule Cons.IH) (use Cons.prems pc in auto)
  with p pc Cons.prems(3) show ?case by auto
qed

lemma list_all2_lower_distinct:
  "list_all2 eq_ignore_ascii_case ns cs \<Longrightarrow> map to_ascii_lowercase ns = map to_ascii_lowercase cs"
  by (induction rule: list_all2_induct) (auto simp: eq_ignore_ascii_case_def)

text \<open>
  Positional binding pairs the columns with the query's parameters in order, and needs as many of
  one as of the other.  Binding by name succeeds exactly when the columns are distinct up to case and
  each names a parameter of the query; then each column goes to a parameter that matches it, under the
  query's own spelling.
\<close>

theorem resolve_parameter_names_spec:
  "(resolve_parameter_names sql cols False = Inr ns) =
     (ns = named_parameters sql \<and> length cols = length ns) \<and>
   ((\<exists>ns. resolve_parameter_names sql cols True = Inr ns) =
     (distinct (map to_ascii_lowercase cols) \<and>
      list_all (\<lambda>c. list_ex (\<lambda>p. eq_ignore_ascii_case p c) (named_parameters sql)) cols)) \<and>
   (resolve_parameter_names sql cols True = Inr ms \<longrightarrow>
      set ms \<subseteq> set (named_parameters sql) \<and> list_all2 eq_ignore_ascii_case ms cols)"
proof (intro conjI impI)
  show "(resolve_parameter_names sql cols False = Inr ns) =
      (ns = named_parameters sql \<and> length cols = length ns)"
    by (auto simp: resolve_parameter_names_def Let_def)
next
  show "(\<exists>ns. resolve_parameter_names sql cols True = Inr ns) =
     (distinct (map to_ascii_lowercase cols) \<and>
      list_all (\<lambda>c. list_ex (\<lambda>p. eq_ignore_ascii_case p c) (named_parameters sql)) cols)"
  proof
    assume "\<exists>ns. resolve_parameter_names sql cols True = Inr ns"
    then obtain ns where "resolve_by_name (named_parameters sql) {} cols = Inr ns"
      by (auto simp: resolve_parameter_names_def)
    from resolve_by_name_sound[OF this] have ns: "set ns \<subseteq> set (named_parameters sql)"
      "list_all2 eq_ignore_ascii_case ns cols" "distinct (map to_ascii_lowercase ns)" by auto
    have "\<exists>p \<in> set (named_parameters sql). eq_ignore_ascii_case p c" if "c \<in> set cols" for c
      using that ns(1,2) by (auto simp: list_all2_conv_all_nth in_set_conv_nth) (metis nth_mem subsetD)
    with ns(3) list_all2_lower_distinct[OF ns(2)]
    show "distinct (map to_ascii_lowercase cols) \<and>
      list_all (\<lambda>c. list_ex (\<lambda>p. eq_ignore_ascii_case p c) (named_parameters sql)) cols"
      by (simp add: list_all_iff list_ex_iff)
  next
    assume "distinct (map to_ascii_lowercase cols) \<and>
      list_all (\<lambda>c. list_ex (\<lambda>p. eq_ignore_ascii_case p c) (named_parameters sql)) cols"
    then show "\<exists>ns. resolve_parameter_names sql cols True = Inr ns"
      using resolve_by_name_complete[of cols "named_parameters sql" "{}"]
      by (simp add: resolve_parameter_names_def list_all_iff list_ex_iff)
  qed
next
  assume "resolve_parameter_names sql cols True = Inr ms"
  then have "resolve_by_name (named_parameters sql) {} cols = Inr ms"
    by (simp add: resolve_parameter_names_def)
  from resolve_by_name_sound[OF this]
  show "set ms \<subseteq> set (named_parameters sql)" "list_all2 eq_ignore_ascii_case ms cols" by auto
qed

theorem resolve_parameter_names_spec_witness:
  "resolve_parameter_names (lit ''SELECT @p'') [lit ''P''] True = Inr [lit ''p''] \<and>
   set [lit ''p''] \<subseteq> set (named_parameters (lit ''SELECT @p'')) \<and>
   list_all2 eq_ignore_ascii_case [lit ''p''] [lit ''P'']"
proof -
  have "resolve_parameter_names (lit ''SELECT @p'') [lit ''P''] True = Inr [lit ''p'']" by code_simp
  with resolve_parameter_names_spec[of "lit ''SELECT @p''" "[lit ''P'']" "[]" "[lit ''p'']"]
  show ?thesis by blast
qed

lemma bind_params_from_Inr:
  "bind_params_from cell i ns row s = Inr s' \<Longrightarrow>
   sql_text s' = sql_text s \<and> calls s' = calls s \<and> map fst (params s') = map fst (params s) @ ns"
  by (induction ns arbitrary: i s) (auto simp: res_simps)

lemma bind_params_Inr:
  "bind_params cell s ns row = Inr s' \<Longrightarrow>
   sql_text s' = sql_text s \<and> calls s' = calls s \<and> map fst (params s') = map fst (params s) @ ns"
  by (simp add: bind_params_def bind_params_from_Inr)

end
