(* ===== verification/Statement.thy ===== *)
theory Statement
  imports Bind Ingest Runtime Metadata
begin

text \<open>
  The statement object, \<^verbatim>\<open>src/statement.rs\<close>: its state and options, the bound data, the guards, and the
  DML, DDL and query paths below the entry points.

  An operation runs on a \<open>machine\<close>: the statement itself, the \<^verbatim>\<open>Arc\<close> cells, the connection's transaction
  state, the cancel slots and the server.  Everything the Spanner client does is a field of \<open>env\<close>, a
  function from the request (with the builder calls and the deadline it is sent under) and the server
  state to the answer and the next server state.  A panic in a builder is the error \<open>panicked\<close>.
\<close>

section \<open>State\<close>

definition OPTION_ROWS_PER_BATCH :: rstring where
  "OPTION_ROWS_PER_BATCH = lit ''spanner.rows_per_batch''"

definition OPTION_DATA_BOOST :: rstring where
  "OPTION_DATA_BOOST = lit ''spanner.data_boost''"

definition OPTION_BIND_BY_NAME :: rstring where
  "OPTION_BIND_BY_NAME = lit ''adbc.statement.bind_by_name''"

definition OPTION_INGEST_BATCH_WRITE :: rstring where
  "OPTION_INGEST_BATCH_WRITE = lit ''spanner.ingest.batch_write''"

definition OPTION_DML_PARTITIONED :: rstring where
  "OPTION_DML_PARTITIONED = lit ''spanner.dml.partitioned''"

datatype ingest_mode = Append | Create | CreateAppend | Replace

type_synonym 'ty schema = "(rstring \<times> 'ty) list"

definition DEFAULT_ROWS_PER_BATCH :: nat where
  "DEFAULT_ROWS_PER_BATCH = 8192"

record ('r, 'ty, 'ts) statement =
  config :: "'ts shared_config"
  slot :: nat
  database :: rstring
  sql :: "rstring option"
  bound :: "('ty schema \<times> 'r batch) list"
  ingest_schema :: "'ty schema option"
  target_table :: "rstring option"
  target_db_schema :: "rstring option"
  target_catalog :: "rstring option"
  ingest_mode :: "ingest_mode option"
  ingest_batch_write :: bool
  dml_partitioned :: bool
  bind_by_name :: bool
  rows_per_batch :: nat
  data_boost :: bool

definition new_statement :: "'ts shared_config \<Rightarrow> nat \<Rightarrow> rstring \<Rightarrow> ('r, 'ty, 'ts) statement" where
  "new_statement cfg k db =
     \<lparr>config = cfg, slot = k, database = db, sql = None, bound = [], ingest_schema = None,
      target_table = None, target_db_schema = None, target_catalog = None, ingest_mode = None,
      ingest_batch_write = False, dml_partitioned = False, bind_by_name = False,
      rows_per_batch = DEFAULT_ROWS_PER_BATCH, data_boost = False\<rparr>"

definition catalog :: "('r, 'ty, 'ts) statement \<Rightarrow> rstring" where
  "catalog s = database_catalog (database s)"

section \<open>Options\<close>

text \<open>
  \<^verbatim>\<open>OptionStatement\<close>; \<open>Unlisted\<close> stands for the variants of the non-exhaustive enum the driver has no
  arm for.
\<close>

datatype option_statement =
    TargetTable | TargetDbSchema | TargetCatalog | Temporary | Incremental | IngestMode
  | OtherKey rstring | Unlisted rstring

fun key_str :: "option_statement \<Rightarrow> rstring" where
  "key_str TargetTable = lit ''adbc.ingest.target_table''"
| "key_str TargetDbSchema = lit ''adbc.ingest.target_db_schema''"
| "key_str TargetCatalog = lit ''adbc.ingest.target_catalog''"
| "key_str Temporary = lit ''adbc.ingest.temporary''"
| "key_str Incremental = lit ''adbc.statement.exec.incremental''"
| "key_str IngestMode = lit ''adbc.ingest.mode''"
| "key_str (OtherKey k) = k"
| "key_str (Unlisted k) = k"

definition string_value :: "option_statement \<Rightarrow> option_value \<Rightarrow> rstring result" where
  "string_value key value = string_option value (lit ''option '' @ key_str key)"

definition check_target_catalog :: "rstring \<Rightarrow> rstring \<Rightarrow> rstring result" where
  "check_target_catalog name own =
     (if name = own then Inr name
      else Inl (unsupported (lit ''ingest target catalog: this connection can only write to its own'')))"

fun mode_str :: "ingest_mode \<Rightarrow> rstring" where
  "mode_str Append = lit ''append''"
| "mode_str Create = lit ''create''"
| "mode_str CreateAppend = lit ''create_append''"
| "mode_str Replace = lit ''replace''"

text \<open>\<^verbatim>\<open>String::from(IngestMode)\<close>, the canonical constants of the ADBC specification.\<close>

definition mode_constant :: "ingest_mode \<Rightarrow> rstring" where
  "mode_constant m = lit ''adbc.ingest.mode.'' @ mode_str m"

definition ingest_mode_option :: "option_statement \<Rightarrow> option_value \<Rightarrow> ingest_mode result" where
  "ingest_mode_option key value =
     try_bind (string_value key value) (\<lambda>s.
       if s = mode_constant Append \<or> s = mode_str Append then Inr Append
       else if s = mode_constant Create \<or> s = mode_str Create then Inr Create
       else if s = mode_constant CreateAppend \<or> s = mode_str CreateAppend then Inr CreateAppend
       else if s = mode_constant Replace \<or> s = mode_str Replace then Inr Replace
       else Inl (not_implemented (lit ''ingest mode'')))"

definition ingest_batch_write_option :: "option_value \<Rightarrow> bool result" where
  "ingest_batch_write_option value =
     bool_option_unsettable value (lit ''option '' @ OPTION_INGEST_BATCH_WRITE)"

definition dml_partitioned_option :: "option_value \<Rightarrow> bool result" where
  "dml_partitioned_option value =
     bool_option_unsettable value (lit ''option '' @ OPTION_DML_PARTITIONED)"

definition check_unsupported_true :: "option_value \<Rightarrow> rstring \<Rightarrow> rstring \<Rightarrow> unit result" where
  "check_unsupported_true value what rejection =
     try_bind (bool_option value what) (\<lambda>b. if b then Inl (unsupported rejection) else Inr ())"

definition set_statement_option ::
  "rounding \<Rightarrow> (rstring \<Rightarrow> 'ts option) \<Rightarrow> option_statement \<Rightarrow> option_value \<Rightarrow>
   ('r, 'ty, 'ts) statement \<Rightarrow> ('r, 'ty, 'ts) statement result" where
  "set_statement_option rnd rfc key value s =
     (case key of
        TargetTable \<Rightarrow> try_bind (string_value key value) (\<lambda>t. Inr (s\<lparr>target_table := Some t, sql := None\<rparr>))
      | TargetDbSchema \<Rightarrow> try_bind (string_value key value) (\<lambda>t. Inr (s\<lparr>target_db_schema := Some t\<rparr>))
      | TargetCatalog \<Rightarrow>
          try_bind (string_value key value) (\<lambda>t.
          try_bind (check_target_catalog t (catalog s)) (\<lambda>c. Inr (s\<lparr>target_catalog := Some c\<rparr>)))
      | Temporary \<Rightarrow>
          try_bind (check_unsupported_true value (lit ''option adbc.ingest.temporary'')
              (lit ''setting adbc.ingest.temporary to true: Spanner has no temporary tables'')) (\<lambda>_. Inr s)
      | Incremental \<Rightarrow>
          try_bind (check_unsupported_true value (lit ''option adbc.statement.exec.incremental'')
              (lit ''setting adbc.statement.exec.incremental to true: not implemented'')) (\<lambda>_. Inr s)
      | IngestMode \<Rightarrow> try_bind (ingest_mode_option key value) (\<lambda>m. Inr (s\<lparr>ingest_mode := Some m\<rparr>))
      | OtherKey k \<Rightarrow>
          if k = OPTION_INGEST_BATCH_WRITE then
            try_bind (ingest_batch_write_option value) (\<lambda>b. Inr (s\<lparr>ingest_batch_write := b\<rparr>))
          else if k = OPTION_DML_PARTITIONED then
            try_bind (dml_partitioned_option value) (\<lambda>b. Inr (s\<lparr>dml_partitioned := b\<rparr>))
          else if k = OPTION_BIND_BY_NAME then
            try_bind (bool_option value (lit ''option adbc.statement.bind_by_name''))
              (\<lambda>b. Inr (s\<lparr>bind_by_name := b\<rparr>))
          else if k = OPTION_ROWS_PER_BATCH then
            try_bind (positive_usize value (lit ''option spanner.rows_per_batch''))
              (\<lambda>n. Inr (s\<lparr>rows_per_batch := n\<rparr>))
          else if k = OPTION_DATA_BOOST then
            try_bind (bool_option value (lit ''option spanner.data_boost'')) (\<lambda>b. Inr (s\<lparr>data_boost := b\<rparr>))
          else
            try_bind (set_shared_option rnd rfc k value (config s)) (\<lambda>r.
              case r of
                None \<Rightarrow> Inl (unknown_option (lit ''statement'') k)
              | Some c \<Rightarrow> Inr (s\<lparr>config := c\<rparr>))
      | Unlisted k \<Rightarrow> Inl (unknown_option (lit ''statement'') k))"

definition statement_option_string ::
  "(f64 \<Rightarrow> rstring) \<Rightarrow> arc_store \<Rightarrow> option_statement \<Rightarrow> ('r, 'ty, 'ts) statement \<Rightarrow> rstring result" where
  "statement_option_string sh st key s =
     (let report = (\<lambda>v. ok_or (option_not_set (key_str key)) v)
      in case key of
           TargetTable \<Rightarrow> report (target_table s)
         | TargetDbSchema \<Rightarrow> report (target_db_schema s)
         | TargetCatalog \<Rightarrow> report (target_catalog s)
         | Temporary \<Rightarrow> report (Some (bool_string False))
         | Incremental \<Rightarrow> report (Some (bool_string False))
         | IngestMode \<Rightarrow>
             report (Some (mode_constant (case ingest_mode s of None \<Rightarrow> Create | Some m \<Rightarrow> m)))
         | OtherKey k \<Rightarrow>
             if k = OPTION_INGEST_BATCH_WRITE then report (Some (bool_string (ingest_batch_write s)))
             else if k = OPTION_DML_PARTITIONED then report (Some (bool_string (dml_partitioned s)))
             else if k = OPTION_BIND_BY_NAME then report (Some (bool_string (bind_by_name s)))
             else if k = OPTION_ROWS_PER_BATCH then report (Some (show_nat (rows_per_batch s)))
             else if k = OPTION_DATA_BOOST then report (Some (bool_string (data_boost s)))
             else shared_option_string sh st k (config s)
         | Unlisted k \<Rightarrow> report None)"

section \<open>Bound data\<close>

definition set_sql_query :: "rstring \<Rightarrow> ('r, 'ty, 'ts) statement \<Rightarrow> ('r, 'ty, 'ts) statement" where
  "set_sql_query q s = s\<lparr>sql := Some q, target_table := None\<rparr>"

definition bind_batch ::
  "'ty schema \<times> 'r batch \<Rightarrow> ('r, 'ty, 'ts) statement \<Rightarrow> ('r, 'ty, 'ts) statement" where
  "bind_batch b s = s\<lparr>bound := [b], ingest_schema := None\<rparr>"

text \<open>\<^verbatim>\<open>bind_stream\<close>: the reader is its schema and what it yields, up to and including its first failure.\<close>

definition bind_stream ::
  "'ty schema \<Rightarrow> (rstring + 'r batch) list \<Rightarrow> ('r, 'ty, 'ts) statement \<Rightarrow> ('r, 'ty, 'ts) statement result" where
  "bind_stream sch items s =
     try_bind (map_err (\<lambda>e. err (lit ''failed to read bound stream: '' @ e) InvalidData) (collect_results items))
       (\<lambda>bs. Inr (s\<lparr>ingest_schema := if bs = [] then Some sch else None, bound := map (Pair sch) bs\<rparr>))"

definition clear_bound :: "('r, 'ty, 'ts) statement \<Rightarrow> ('r, 'ty, 'ts) statement" where
  "clear_bound s = s\<lparr>bound := [], ingest_schema := None\<rparr>"

definition bound_ingest_schema :: "('r, 'ty, 'ts) statement \<Rightarrow> 'ty schema option" where
  "bound_ingest_schema s =
     (case bound s of b # bs \<Rightarrow> Some (fst b) | [] \<Rightarrow> ingest_schema s)"

definition bound_rows :: "('r, 'ty, 'ts) statement \<Rightarrow> nat" where
  "bound_rows s = sum_list (map (\<lambda>b. num_rows (snd b)) (bound s))"

definition sql_of :: "('r, 'ty, 'ts) statement \<Rightarrow> rstring result" where
  "sql_of s =
     ok_or (invalid_state (lit ''no SQL query set on statement; call set_sql_query first'')) (sql s)"

definition check_bound_has_destination :: "('r, 'ty, 'ts) statement \<Rightarrow> unit result" where
  "check_bound_has_destination s =
     (if sql s = None \<and> target_table s = None \<and> (bound s \<noteq> [] \<or> ingest_schema s \<noteq> None)
      then Inl (invalid_state (lit ''data has been bound but no SQL query or bulk-ingest target is set''))
      else Inr ())"

definition check_single_bound_row :: "('r, 'ty, 'ts) statement \<Rightarrow> unit result" where
  "check_single_bound_row s =
     (if bound_rows s > 1
      then Inl (invalid_argument (lit ''execute_partitions supports at most one bound parameter row''))
      else Inr ())"

definition prepare :: "('r, 'ty, 'ts) statement \<Rightarrow> unit result" where
  "prepare s =
     (if sql s = None \<and> target_table s = None
      then Inl (invalid_state (lit ''cannot prepare: no SQL query set on statement''))
      else Inr ())"

section \<open>Guards on the SQL\<close>

definition check_query_only :: "rstring \<Rightarrow> rstring \<Rightarrow> unit result" where
  "check_query_only q entry_point =
     (if is_ddl q then Inl (invalid_argument (entry_point @ lit '' is only valid for queries''))
      else if is_dml q then Inl (invalid_argument (entry_point @ lit '' only supports queries''))
      else Inr ())"

definition check_all_dml_batch :: "rstring list \<Rightarrow> unit result" where
  "check_all_dml_batch statements =
     (if length statements > 1 \<and> list_ex (\<lambda>q. \<not> is_dml q) statements
      then Inl (invalid_argument (lit ''a semicolon-separated statement batch must be all-DML''))
      else Inr ())"

definition check_partitioned_dml :: "rstring \<Rightarrow> bool \<Rightarrow> nat \<Rightarrow> unit result" where
  "check_partitioned_dml q auto_commit n_rows =
     (if \<not> auto_commit then
        Inl (invalid_state (lit ''option spanner.dml.partitioned is set, but the connection is in a manual transaction''))
      else if is_dml_returning q then
        Inl (invalid_argument (lit ''option spanner.dml.partitioned is set, but the statement has a THEN RETURN clause''))
      else if length (split_statements q) > 1 then
        Inl (invalid_argument (lit ''option spanner.dml.partitioned is set, but the SQL is a batch''))
      else if n_rows > 1 then
        Inl (invalid_argument (lit ''option spanner.dml.partitioned is set, but several parameter rows are bound''))
      else Inr ())"

section \<open>The machine an operation runs on\<close>

record ('sn, 'v, 'r, 'ty, 'ts, 'srv) machine =
  stm :: "('r, 'ty, 'ts) statement"
  store :: arc_store
  txns :: "('sn, 'v spanner_sql, 'v mutation) txn_state"
  cancels :: cancel_store
  server :: 'srv

type_synonym ('a, 'srv) rpc = "'srv \<Rightarrow> 'a result \<times> 'srv"

text \<open>
  What lies outside the statement: cell conversion, the client's conversions and constructors, and the
  RPCs.  A result row set is opaque (\<open>'raw\<close>); \<open>e_convert\<close> turns it into a schema and a batch.
\<close>

record ('sn, 'v, 'r, 'ty, 'ts, 'b, 'raw, 'bat, 'rd, 't, 'd, 'srv) env =
  e_cell :: "rstring \<Rightarrow> 'r \<Rightarrow> nat \<Rightarrow> 'v result"
  e_wkt :: "nat \<Rightarrow> nat option"
  e_to_bound :: "'ts read_bound \<Rightarrow> 'b result"
  e_convert :: "timestamp_precision \<Rightarrow> 'raw \<Rightarrow> ('ty schema \<times> 'bat) result"
  e_create_table :: "rstring \<Rightarrow> rstring option \<Rightarrow> 'ty schema \<Rightarrow> bool \<Rightarrow> rstring result"
  e_batch_dml :: "builder \<Rightarrow> builder \<Rightarrow> 'v spanner_sql list \<Rightarrow> 'v mutation list \<Rightarrow> nat option \<Rightarrow>
    (int list \<times> int option, 'srv) rpc"
  e_returning :: "builder \<Rightarrow> 'v spanner_sql list \<Rightarrow> nat option \<Rightarrow>
    (('raw \<times> nat \<times> int option) list \<times> int option, 'srv) rpc"
  e_partitioned :: "bool \<Rightarrow> 'v spanner_sql \<Rightarrow> nat option \<Rightarrow> (int, 'srv) rpc"
  e_ddl :: "rstring \<Rightarrow> rstring list \<Rightarrow> nat option \<Rightarrow> (unit, 'srv) rpc"
  e_write_only :: "builder \<Rightarrow> 'v mutation list \<Rightarrow> nat option \<Rightarrow> (int option, 'srv) rpc"
  e_stream :: "builder \<Rightarrow> nat option \<Rightarrow> 'v mutation list list \<Rightarrow> 'srv \<Rightarrow>
    ('t + ('t + 'd write_response) list) \<times> 'srv"
  e_conv :: "'t \<Rightarrow> error"
  e_conv_status :: "int \<times> rstring \<times> 'd list \<Rightarrow> error"
  e_snapshot :: "'b option \<Rightarrow> ('sn, 'srv) rpc"
  e_query_single :: "'b option \<Rightarrow> 'v spanner_sql \<Rightarrow> nat \<Rightarrow> timestamp_precision \<Rightarrow> nat option \<Rightarrow> nat option \<Rightarrow>
    ('rd, 'srv) rpc"
  e_query_shared :: "'sn \<Rightarrow> 'v spanner_sql \<Rightarrow> nat \<Rightarrow> timestamp_precision \<Rightarrow> nat option \<Rightarrow> nat option \<Rightarrow>
    ('rd, 'srv) rpc"
  e_query_many :: "'sn \<Rightarrow> 'v spanner_sql result list \<Rightarrow> nat \<Rightarrow> timestamp_precision \<Rightarrow> nat option \<Rightarrow>
    nat option \<Rightarrow> ('rd, 'srv) rpc"
  e_plan :: "'b option \<Rightarrow> 'v spanner_sql \<Rightarrow> timestamp_precision \<Rightarrow> nat option \<Rightarrow> ('ty schema, 'srv) rpc"
  e_partition :: "'b option \<Rightarrow> 'v spanner_sql \<Rightarrow> 'v spanner_sql \<Rightarrow> bool \<Rightarrow> timestamp_precision \<Rightarrow> nat option \<Rightarrow>
    ('ty schema \<times> u8 list list, 'srv) rpc"
  e_table_exists :: "rstring \<Rightarrow> rstring \<Rightarrow> nat option \<Rightarrow> (bool, 'srv) rpc"
  e_drain :: "'rd \<Rightarrow> (unit, 'srv) rpc"

type_synonym ('a, 'sn, 'v, 'r, 'ty, 'ts, 'srv) action =
  "('sn, 'v, 'r, 'ty, 'ts, 'srv) machine \<Rightarrow> 'a result \<times> ('sn, 'v, 'r, 'ty, 'ts, 'srv) machine"

text \<open>Sequencing with an early return on error, a pure result, and a call of the server.\<close>

definition seqr :: "('w \<Rightarrow> 'a result \<times> 'w) \<Rightarrow> ('a \<Rightarrow> 'w \<Rightarrow> 'b result \<times> 'w) \<Rightarrow> 'w \<Rightarrow> 'b result \<times> 'w" where
  "seqr m f w = (case m w of (Inl e, w') \<Rightarrow> (Inl e, w') | (Inr x, w') \<Rightarrow> f x w')"

definition pure :: "'a result \<Rightarrow> 'w \<Rightarrow> 'a result \<times> 'w" where
  "pure r w = (r, w)"

definition rpc :: "('a, 'srv) rpc \<Rightarrow> ('a, 'sn, 'v, 'r, 'ty, 'ts, 'srv) action" where
  "rpc f m = (case f (server m) of (r, srv') \<Rightarrow> (r, m\<lparr>server := srv'\<rparr>))"

abbreviation cfg :: "('sn, 'v, 'r, 'ty, 'ts, 'srv) machine \<Rightarrow> 'ts shared_config" where
  "cfg m \<equiv> config (stm m)"

definition update_deadline :: "('sn, 'v, 'r, 'ty, 'ts, 'srv) machine \<Rightarrow> nat option" where
  "update_deadline m = update_timeout (timeouts (cfg m))"

definition query_deadline :: "('sn, 'v, 'r, 'ty, 'ts, 'srv) machine \<Rightarrow> nat option" where
  "query_deadline m = query_timeout (timeouts (cfg m))"

definition fetch_deadline :: "('sn, 'v, 'r, 'ty, 'ts, 'srv) machine \<Rightarrow> nat option" where
  "fetch_deadline m = fetch_timeout (timeouts (cfg m))"

definition record_stats_m :: "int option \<Rightarrow> (unit, 'sn, 'v, 'r, 'ty, 'ts, 'srv) action" where
  "record_stats_m n m = (Inr (), m\<lparr>store := record_commit n (cfg m) (store m)\<rparr>)"

section \<open>Building statements\<close>

definition plain_sql :: "builder \<Rightarrow> rstring \<Rightarrow> 'v spanner_sql" where
  "plain_sql b q = \<lparr>sql_text = q, calls = b, params = []\<rparr>"

definition build_sql :: "'ts shared_config \<Rightarrow> rstring \<Rightarrow> 'v spanner_sql result" where
  "build_sql c q = try_bind (ok_or panicked (sql_builder c)) (\<lambda>b. Inr (plain_sql b q))"

definition build_read_sql :: "'ts shared_config \<Rightarrow> rstring \<Rightarrow> 'v spanner_sql result" where
  "build_read_sql c q = try_bind (ok_or panicked (read_sql_builder c)) (\<lambda>b. Inr (plain_sql b q))"

definition bind_rows ::
  "(rstring \<Rightarrow> 'r \<Rightarrow> nat \<Rightarrow> 'v result) \<Rightarrow> 'v spanner_sql result \<Rightarrow> rstring list \<Rightarrow> 'r batch \<Rightarrow>
   'v spanner_sql list result" where
  "bind_rows cell base names b =
     collect_results (map (\<lambda>row. try_bind base (\<lambda>s. bind_params cell s names row)) (rows b))"

fun build_bound_loop ::
  "(rstring \<Rightarrow> 'r \<Rightarrow> nat \<Rightarrow> 'v result) \<Rightarrow> 'v spanner_sql result \<Rightarrow> rstring \<Rightarrow> bool \<Rightarrow>
   ('ty schema \<times> 'r batch) list \<Rightarrow> 'v spanner_sql list result" where
  "build_bound_loop cell base q by_name [] = Inr []"
| "build_bound_loop cell base q by_name ((sch, b) # bs) =
     (if num_rows b = 0 then build_bound_loop cell base q by_name bs
      else try_bind (resolve_parameter_names q (map fst sch) by_name) (\<lambda>names.
           try_bind (bind_rows cell base names b) (\<lambda>ss.
           try_bind (build_bound_loop cell base q by_name bs) (\<lambda>rest. Inr (ss @ rest)))))"

definition build_bound_statements ::
  "(rstring \<Rightarrow> 'r \<Rightarrow> nat \<Rightarrow> 'v result) \<Rightarrow> rstring \<Rightarrow> ('r, 'ty, 'ts) statement \<Rightarrow> 'v spanner_sql list result" where
  "build_bound_statements cell q s =
     build_bound_loop cell (build_sql (config s) q) q (bind_by_name s) (bound s)"

definition build_dml_statements ::
  "(rstring \<Rightarrow> 'r \<Rightarrow> nat \<Rightarrow> 'v result) \<Rightarrow> rstring \<Rightarrow> ('r, 'ty, 'ts) statement \<Rightarrow> 'v spanner_sql list result" where
  "build_dml_statements cell q s =
     (if bound s \<noteq> [] then build_bound_statements cell q s
      else try_bind (check_all_dml_batch (split_statements q)) (\<lambda>_.
             collect_results (map (build_sql (config s)) (split_statements q))))"

text \<open>
  \<^verbatim>\<open>LazyBoundStatements\<close>: the resolved groups and the cursor; \<^verbatim>\<open>next_statement\<close> as one step of its loop.
\<close>

record ('v, 'r) lazy_bound =
  lb_base :: "'v spanner_sql"
  lb_groups :: "(rstring list \<times> 'r batch) list"
  lb_group :: nat
  lb_row :: nat

function next_statement ::
  "(rstring \<Rightarrow> 'r \<Rightarrow> nat \<Rightarrow> 'v result) \<Rightarrow> ('v, 'r) lazy_bound \<Rightarrow>
   'v spanner_sql result option \<times> ('v, 'r) lazy_bound" where
  "next_statement cell lb =
     (if lb_group lb \<ge> length (lb_groups lb) then (None, lb)
      else let (names, b) = lb_groups lb ! lb_group lb
           in if lb_row lb \<ge> num_rows b
              then next_statement cell (lb\<lparr>lb_group := lb_group lb + 1, lb_row := 0\<rparr>)
              else (Some (bind_params cell (lb_base lb) names (rows b ! lb_row lb)),
                    lb\<lparr>lb_row := lb_row lb + 1\<rparr>))"
  by pat_completeness auto
termination
  by (relation "measure (\<lambda>(cell, lb). length (lb_groups lb) - lb_group lb)") auto

declare next_statement.simps [simp del]

section \<open>DML\<close>

definition run_batch_txn ::
  "('sn, 'v, 'r, 'ty, 'ts, 'b, 'raw, 'bat, 'rd, 't, 'd, 'srv) env \<Rightarrow> 'v spanner_sql list \<Rightarrow>
   'v mutation list \<Rightarrow> bool \<Rightarrow> (int, 'sn, 'v, 'r, 'ty, 'ts, 'srv) action" where
  "run_batch_txn E ss ms last_statements m =
     (if ss = [] \<and> ms = [] then (Inr 0, m)
      else
        seqr (pure (ok_or panicked (build_runner (e_wkt E) (cfg m)))) (\<lambda>runner.
        seqr (pure (if ss = [] then Inr [] else ok_or panicked (batch_dml_builder (cfg m) last_statements)))
          (\<lambda>batch.
        seqr (rpc (e_batch_dml E runner batch ss ms (update_deadline m))) (\<lambda>(counts, stats).
        seqr (record_stats_m stats) (\<lambda>_.
        pure (Inr (sum_list counts)))))) m)"

definition run_or_buffer_m ::
  "('sn, 'v, 'r, 'ty, 'ts, 'b, 'raw, 'bat, 'rd, 't, 'd, 'srv) env \<Rightarrow> 'v spanner_sql list \<Rightarrow>
   (int option, 'sn, 'v, 'r, 'ty, 'ts, 'srv) action" where
  "run_or_buffer_m E ss m =
     (case run_or_buffer (\<lambda>m ss. run_batch_txn E ss [] True m) ss m (txns m) of
        (r, m', st') \<Rightarrow> (r, m'\<lparr>txns := st'\<rparr>))"

text \<open>The conversion loop at the end of \<^verbatim>\<open>execute_returning_dml\<close>; the first result's schema is reported.\<close>

fun convert_results ::
  "('raw \<Rightarrow> ('ty schema \<times> 'bat) result) \<Rightarrow> ('raw \<times> nat \<times> int option) list \<Rightarrow>
   'ty schema option \<Rightarrow> 'bat list \<Rightarrow> int \<Rightarrow> ('bat list \<times> 'ty schema \<times> int) result" where
  "convert_results conv [] sch bs n = Inr (bs, (case sch of None \<Rightarrow> [] | Some s \<Rightarrow> s), n)"
| "convert_results conv ((raw_rows, drained, count) # rest) sch bs n =
     try_bind (conv raw_rows) (\<lambda>(s, b).
       convert_results conv rest (Some (case sch of None \<Rightarrow> s | Some s0 \<Rightarrow> s0)) (bs @ [b])
         (n + (case count of Some c \<Rightarrow> c | None \<Rightarrow> int drained)))"

definition execute_returning_dml ::
  "('sn, 'v, 'r, 'ty, 'ts, 'b, 'raw, 'bat, 'rd, 't, 'd, 'srv) env \<Rightarrow> 'v spanner_sql list \<Rightarrow>
   ('bat list \<times> 'ty schema \<times> int, 'sn, 'v, 'r, 'ty, 'ts, 'srv) action" where
  "execute_returning_dml E ss m =
     seqr (pure (ok_or panicked (build_runner (e_wkt E) (cfg m)))) (\<lambda>runner.
     seqr (rpc (e_returning E runner ss (update_deadline m))) (\<lambda>(results, stats).
     seqr (record_stats_m stats) (\<lambda>_.
     pure (convert_results (e_convert E (timestamp_precision (cfg m))) results None [] 0)))) m"

datatype ('bat, 'ty) dml_outcome = Plain "int option" | Returning "'bat list" "'ty schema" int

definition run_partitioned_dml ::
  "('sn, 'v, 'r, 'ty, 'ts, 'b, 'raw, 'bat, 'rd, 't, 'd, 'srv) env \<Rightarrow> rstring \<Rightarrow>
   (int, 'sn, 'v, 'r, 'ty, 'ts, 'srv) action" where
  "run_partitioned_dml E q m =
     seqr (pure (check_partitioned_dml q (autocommit (txns m)) (bound_rows (stm m)))) (\<lambda>_.
     seqr (pure (build_dml_statements (e_cell E) q (stm m))) (\<lambda>ss.
     if ss = [] then pure (Inr 0)
     else rpc (e_partitioned E
       (exclude_txn_from_change_streams_string (request (cfg m)) = lit ''true'')
       (last ss) (update_deadline m)))) m"

definition run_dml ::
  "('sn, 'v, 'r, 'ty, 'ts, 'b, 'raw, 'bat, 'rd, 't, 'd, 'srv) env \<Rightarrow> rstring \<Rightarrow>
   (('bat, 'ty) dml_outcome, 'sn, 'v, 'r, 'ty, 'ts, 'srv) action" where
  "run_dml E q m =
     (if is_read_only (cfg m) (store m) then
        (Inl (invalid_state (lit ''cannot execute DML: the connection is read-only'')), m)
      else if dml_partitioned (stm m) then
        seqr (run_partitioned_dml E q) (\<lambda>n. pure (Inr (Plain (Some n)))) m
      else if \<not> is_dml_returning q then
        seqr (pure (build_dml_statements (e_cell E) q (stm m))) (\<lambda>ss.
        seqr (run_or_buffer_m E ss) (\<lambda>n. pure (Inr (Plain n)))) m
      else if \<not> autocommit (txns m) then
        (Inl (invalid_state (lit ''DML with THEN RETURN cannot run in a manual transaction'')), m)
      else
        seqr (pure (if bound (stm m) = [] then
                      (if length (split_statements q) > 1
                       then Inl (not_implemented (lit ''THEN RETURN in a multi-statement DML batch''))
                       else collect_results (map (build_sql (cfg m)) (split_statements q)))
                    else build_bound_statements (e_cell E) q (stm m))) (\<lambda>ss.
        seqr (execute_returning_dml E ss) (\<lambda>(bs, sch, n). pure (Inr (Returning bs sch n)))) m)"

section \<open>DDL\<close>

definition run_ddl ::
  "('sn, 'v, 'r, 'ty, 'ts, 'b, 'raw, 'bat, 'rd, 't, 'd, 'srv) env \<Rightarrow> rstring list \<Rightarrow>
   (unit, 'sn, 'v, 'r, 'ty, 'ts, 'srv) action" where
  "run_ddl E statements m =
     (if is_read_only (cfg m) (store m)
      then (Inl (invalid_state (lit ''cannot execute DDL: the connection is read-only'')), m)
      else rpc (e_ddl E (database (stm m)) statements (update_deadline m)) m)"

end
