(* ===== verification/Execute.thy ===== *)
theory Execute
  imports Statement
begin

text \<open>
  The entry points of a statement, \<^verbatim>\<open>src/statement.rs\<close> and \<^verbatim>\<open>src/statement/ingest.rs\<close>: \<^verbatim>\<open>execute\<close>,
  \<^verbatim>\<open>execute_update\<close>, \<^verbatim>\<open>execute_schema\<close>, \<^verbatim>\<open>execute_partitions\<close>, with the query and ingest paths they route to.
\<close>

section \<open>Queries\<close>

datatype ('bat, 'ty, 'rd) reader = Rows "'bat list" "'ty schema" | Stream 'rd

definition empty_reader :: "('bat, 'ty, 'rd) reader" where
  "empty_reader = Rows [] []"

definition ensure_query_allowed :: "(unit, 'sn, 'v, 'r, 'ty, 'ts, 'srv) action" where
  "ensure_query_allowed m = (check_kind_allowed KRead (txns m), m)"

text \<open>
  \<^verbatim>\<open>manual_read_transaction\<close> with no concurrent statement between its two lock acquisitions.
\<close>

definition manual_read ::
  "('sn, 'v, 'r, 'ty, 'ts, 'b, 'raw, 'bat, 'rd, 't, 'd, 'srv) env \<Rightarrow>
   ('sn option, 'sn, 'v, 'r, 'ty, 'ts, 'srv) action" where
  "manual_read E m =
     (case read_txn_check (txns m) of
        Some r \<Rightarrow> (Inr r, m)
      | None \<Rightarrow>
          seqr (pure (multi_use_timestamp_bound (e_to_bound E) (read_staleness (cfg m)))) (\<lambda>bd.
          seqr (rpc (e_snapshot E bd)) (\<lambda>sn m'.
            case read_txn_install sn (txns m') of
              Inl e \<Rightarrow> (Inl e, m')
            | Inr (st', r) \<Rightarrow> (Inr r, m'\<lparr>txns := st'\<rparr>))) m)"

text \<open>\<^verbatim>\<open>plan_query_schema\<close>: the parameters come from the first bound batch, when it has rows.\<close>

definition plan_statement ::
  "('sn, 'v, 'r, 'ty, 'ts, 'b, 'raw, 'bat, 'rd, 't, 'd, 'srv) env \<Rightarrow> rstring \<Rightarrow> ('r, 'ty, 'ts) statement \<Rightarrow>
   'v spanner_sql result" where
  "plan_statement E q s =
     try_bind (build_read_sql (config s) q) (\<lambda>p.
       let p' = p\<lparr>calls := calls p @ [SetQueryModePlan]\<rparr>
       in case bound s of
            (sch, b) # _ \<Rightarrow>
              (case rows b of
                 row # _ \<Rightarrow>
                   try_bind (resolve_parameter_names q (map fst sch) (bind_by_name s)) (\<lambda>names.
                     bind_params (e_cell E) p' names row)
               | [] \<Rightarrow> Inr p')
          | [] \<Rightarrow> Inr p')"

definition plan_query_schema ::
  "('sn, 'v, 'r, 'ty, 'ts, 'b, 'raw, 'bat, 'rd, 't, 'd, 'srv) env \<Rightarrow> rstring \<Rightarrow>
   ('ty schema, 'sn, 'v, 'r, 'ty, 'ts, 'srv) action" where
  "plan_query_schema E q m =
     seqr (pure (timestamp_bound (e_to_bound E) (read_staleness (cfg m)))) (\<lambda>bd.
     seqr (pure (plan_statement E q (stm m))) (\<lambda>p.
     rpc (e_plan E bd p (timestamp_precision (cfg m)) (query_deadline m)))) m"

text \<open>The groups of \<^verbatim>\<open>execute_bound_query\<close>: one per non-empty bound batch, names resolved up front.\<close>

fun bound_groups ::
  "rstring \<Rightarrow> bool \<Rightarrow> ('ty schema \<times> 'r batch) list \<Rightarrow> (rstring list \<times> 'r batch) list result" where
  "bound_groups q by_name [] = Inr []"
| "bound_groups q by_name ((sch, b) # bs) =
     (if num_rows b = 0 then bound_groups q by_name bs
      else try_bind (resolve_parameter_names q (map fst sch) by_name) (\<lambda>names.
           try_bind (bound_groups q by_name bs) (\<lambda>gs. Inr ((names, b) # gs))))"

text \<open>What the reader pulls from the lazy source, statement by statement, until it is exhausted.\<close>

function lazy_statements ::
  "(rstring \<Rightarrow> 'r \<Rightarrow> nat \<Rightarrow> 'v result) \<Rightarrow> nat \<Rightarrow> ('v, 'r) lazy_bound \<Rightarrow> 'v spanner_sql result list" where
  "lazy_statements cell fuel lb =
     (if fuel = 0 then []
      else case next_statement cell lb of
             (None, _) \<Rightarrow> []
           | (Some s, lb') \<Rightarrow> s # lazy_statements cell (fuel - 1) lb')"
  by pat_completeness auto
termination
  by (relation "measure (\<lambda>(cell, fuel, lb). fuel)") auto

declare lazy_statements.simps [simp del]

definition lazy_source :: "'v spanner_sql \<Rightarrow> (rstring list \<times> 'r batch) list \<Rightarrow> ('v, 'r) lazy_bound" where
  "lazy_source base gs = \<lparr>lb_base = base, lb_groups = gs, lb_group = 0, lb_row = 0\<rparr>"

definition group_rows :: "(rstring list \<times> 'r batch) list \<Rightarrow> nat" where
  "group_rows gs = sum_list (map (\<lambda>g. num_rows (snd g)) gs)"

definition run_query ::
  "('sn, 'v, 'r, 'ty, 'ts, 'b, 'raw, 'bat, 'rd, 't, 'd, 'srv) env \<Rightarrow> 'sn option \<Rightarrow> 'v spanner_sql \<Rightarrow>
   (('bat, 'ty, 'rd) reader, 'sn, 'v, 'r, 'ty, 'ts, 'srv) action" where
  "run_query E manual_txn p m =
     seqr (pure (timestamp_bound (e_to_bound E) (read_staleness (cfg m)))) (\<lambda>bd.
     seqr (rpc (case manual_txn of
             Some sn \<Rightarrow> e_query_shared E sn p (rows_per_batch (stm m)) (timestamp_precision (cfg m))
               (query_deadline m) (fetch_deadline m)
           | None \<Rightarrow> e_query_single E bd p (rows_per_batch (stm m)) (timestamp_precision (cfg m))
               (query_deadline m) (fetch_deadline m))) (\<lambda>rd.
     pure (Inr (Stream rd)))) m"

definition execute_bound_query ::
  "('sn, 'v, 'r, 'ty, 'ts, 'b, 'raw, 'bat, 'rd, 't, 'd, 'srv) env \<Rightarrow> rstring \<Rightarrow>
   (('bat, 'ty, 'rd) reader, 'sn, 'v, 'r, 'ty, 'ts, 'srv) action" where
  "execute_bound_query E q m =
     seqr (pure (bound_groups q (bind_by_name (stm m)) (bound (stm m)))) (\<lambda>groups.
     seqr (pure (build_read_sql (cfg m) q)) (\<lambda>base.
     seqr (manual_read E) (\<lambda>manual_txn.
     if group_rows groups \<le> 1 then
       (case groups of
          [] \<Rightarrow> seqr (plan_query_schema E q) (\<lambda>sch. pure (Inr (Rows [] sch)))
        | (names, b) # _ \<Rightarrow>
            seqr (pure (bind_params (e_cell E) base names (rows b ! 0))) (\<lambda>p. run_query E manual_txn p))
     else
       seqr (pure (multi_use_timestamp_bound (e_to_bound E) (read_staleness (cfg m)))) (\<lambda>bd.
       seqr (case manual_txn of Some sn \<Rightarrow> pure (Inr sn) | None \<Rightarrow> rpc (e_snapshot E bd)) (\<lambda>sn.
       seqr (rpc (e_query_many E sn
               (lazy_statements (e_cell E) (group_rows groups + 1) (lazy_source base groups))
               (rows_per_batch (stm m)) (timestamp_precision (cfg m)) (query_deadline m) (fetch_deadline m)))
         (\<lambda>rd. pure (Inr (Stream rd)))))))) m"

definition clear_bound_m :: "('sn, 'v, 'r, 'ty, 'ts, 'srv) machine \<Rightarrow> ('sn, 'v, 'r, 'ty, 'ts, 'srv) machine" where
  "clear_bound_m m = m\<lparr>stm := clear_bound (stm m)\<rparr>"

text \<open>\<^verbatim>\<open>let result = f(self); self.clear_bound(); result\<close>.\<close>

definition then_clear ::
  "('a, 'sn, 'v, 'r, 'ty, 'ts, 'srv) action \<Rightarrow> ('a, 'sn, 'v, 'r, 'ty, 'ts, 'srv) action" where
  "then_clear f m = (case f m of (r, m') \<Rightarrow> (r, clear_bound_m m'))"

definition execute_query_reader ::
  "('sn, 'v, 'r, 'ty, 'ts, 'b, 'raw, 'bat, 'rd, 't, 'd, 'srv) env \<Rightarrow> rstring \<Rightarrow>
   (('bat, 'ty, 'rd) reader, 'sn, 'v, 'r, 'ty, 'ts, 'srv) action" where
  "execute_query_reader E q0 =
     (let q = strip_trailing_terminators q0
      in seqr ensure_query_allowed (\<lambda>_ m.
           if bound (stm m) \<noteq> [] then then_clear (execute_bound_query E q) m
           else seqr (manual_read E) (\<lambda>manual_txn.
                seqr (pure (timestamp_bound (e_to_bound E) (read_staleness (cfg m)))) (\<lambda>_.
                seqr (pure (build_read_sql (cfg m) q)) (\<lambda>p. run_query E manual_txn p))) m))"

section \<open>Bulk ingest\<close>

definition ingest_table_exists ::
  "('sn, 'v, 'r, 'ty, 'ts, 'b, 'raw, 'bat, 'rd, 't, 'd, 'srv) env \<Rightarrow> rstring \<Rightarrow>
   (bool, 'sn, 'v, 'r, 'ty, 'ts, 'srv) action" where
  "ingest_table_exists E table m =
     rpc (e_table_exists E (case target_db_schema (stm m) of None \<Rightarrow> [] | Some s \<Rightarrow> s) table
            (query_deadline m)) m"

definition build_ingest_table_ddl ::
  "('sn, 'v, 'r, 'ty, 'ts, 'b, 'raw, 'bat, 'rd, 't, 'd, 'srv) env \<Rightarrow> rstring \<Rightarrow> ingest_mode option \<Rightarrow>
   ('r, 'ty, 'ts) statement \<Rightarrow> rstring list option result" where
  "build_ingest_table_ddl E table md s =
     (let build = (\<lambda>if_not_exists drop_first.
            try_bind (ok_or (invalid_state (lit ''cannot create the ingest table: no data is bound''))
                (bound_ingest_schema s)) (\<lambda>sch.
            try_bind (if drop_first
                      then try_bind (qualified_table (target_db_schema s) table)
                             (\<lambda>t. Inr [lit ''DROP TABLE IF EXISTS '' @ t])
                      else Inr []) (\<lambda>drops.
            try_bind (e_create_table E table (target_db_schema s) sch if_not_exists) (\<lambda>c.
            Inr (Some (drops @ [c]))))))
      in case md of
           Some Append \<Rightarrow> Inr None
         | None \<Rightarrow> build False False
         | Some Create \<Rightarrow> build False False
         | Some CreateAppend \<Rightarrow> build True False
         | Some Replace \<Rightarrow> build False True)"

definition remap_ingest_append_error ::
  "('sn, 'v, 'r, 'ty, 'ts, 'b, 'raw, 'bat, 'rd, 't, 'd, 'srv) env \<Rightarrow> rstring \<Rightarrow> error \<Rightarrow>
   ('sn, 'v, 'r, 'ty, 'ts, 'srv) machine \<Rightarrow> error \<times> ('sn, 'v, 'r, 'ty, 'ts, 'srv) machine" where
  "remap_ingest_append_error E table e m =
     (if ingest_mode (stm m) \<notin> {Some Append, Some CreateAppend} then (e, m)
      else if status e = InvalidState then (e, m)
      else if status e = AlreadyExists then
        (annotate e (\<lambda>msg. lit ''bulk ingest append into table '' @ table @ lit '' failed: '' @ msg), m)
      else case ingest_table_exists E table m of
             (Inr True, m') \<Rightarrow>
               (err (lit ''bulk ingest append into table '' @ table
                  @ lit '' failed: the bound data is incompatible with the existing table's schema ('' @ message e @ lit '')'')
                  AlreadyExists, m')
           | (Inr False, m') \<Rightarrow>
               (err (lit ''bulk ingest append target table '' @ table @ lit '' not found ('' @ message e @ lit '')'')
                  NotFound, m')
           | (Inl _, m') \<Rightarrow> (e, m'))"

definition remap_ingest_create_error ::
  "('sn, 'v, 'r, 'ty, 'ts, 'b, 'raw, 'bat, 'rd, 't, 'd, 'srv) env \<Rightarrow> rstring \<Rightarrow> error \<Rightarrow>
   ('sn, 'v, 'r, 'ty, 'ts, 'srv) machine \<Rightarrow> error \<times> ('sn, 'v, 'r, 'ty, 'ts, 'srv) machine" where
  "remap_ingest_create_error E table e m =
     (if ingest_mode (stm m) \<notin> {None, Some Create} then (e, m)
      else case ingest_table_exists E table m of
             (Inr True, m') \<Rightarrow>
               (err (lit ''bulk ingest create target table '' @ table @ lit '' already exists ('' @ message e @ lit '')'')
                  AlreadyExists, m')
           | (_, m') \<Rightarrow> (e, m'))"

definition check_empty_append_target ::
  "('sn, 'v, 'r, 'ty, 'ts, 'b, 'raw, 'bat, 'rd, 't, 'd, 'srv) env \<Rightarrow> rstring \<Rightarrow> int \<Rightarrow>
   (unit, 'sn, 'v, 'r, 'ty, 'ts, 'srv) action" where
  "check_empty_append_target E table ingested m =
     (if ingested = 0 \<and> ingest_mode (stm m) = Some Append then
        (case ingest_table_exists E table m of
           (Inr False, m') \<Rightarrow>
             (Inl (err (lit ''bulk ingest append target table '' @ table @ lit '' not found'') NotFound), m')
         | (_, m') \<Rightarrow> (Inr (), m'))
      else (Inr (), m))"

text \<open>The bound rows as insert mutations: each row with its own batch's columns.\<close>

definition tagged_batches :: "('r, 'ty, 'ts) statement \<Rightarrow> (rstring list \<times> 'r) batch list" where
  "tagged_batches s =
     map (\<lambda>(sch, b). \<lparr>rows = map (Pair (map fst sch)) (rows b), num_columns = num_columns b,
                      memory_size = memory_size b\<rparr>) (bound s)"

definition build_range ::
  "('sn, 'v, 'r, 'ty, 'ts, 'b, 'raw, 'bat, 'rd, 't, 'd, 'srv) env \<Rightarrow> rstring \<Rightarrow> ('r, 'ty, 'ts) statement \<Rightarrow>
   nat \<Rightarrow> nat \<Rightarrow> 'v mutation list result" where
  "build_range E target s =
     build_range_mutations (\<lambda>(columns, row). insert_mutation (e_cell E) target columns row) (tagged_batches s)"

text \<open>\<^verbatim>\<open>write_mutations_txn\<close> with its builder, deadline and statistics.\<close>

definition write_mutations_m ::
  "('sn, 'v, 'r, 'ty, 'ts, 'b, 'raw, 'bat, 'rd, 't, 'd, 'srv) env \<Rightarrow> 'v mutation list \<Rightarrow>
   (unit, 'sn, 'v, 'r, 'ty, 'ts, 'srv) action" where
  "write_mutations_m E ms =
     write_mutations_txn (\<lambda>m ms.
       seqr (pure (ok_or panicked (write_only_builder (e_wkt E) (cfg m)))) (\<lambda>b.
       seqr (rpc (e_write_only E b ms (update_deadline m))) (\<lambda>stats. record_stats_m stats)) m) ms"

definition batch_write_m ::
  "('sn, 'v, 'r, 'ty, 'ts, 'b, 'raw, 'bat, 'rd, 't, 'd, 'srv) env \<Rightarrow> 'v mutation list \<Rightarrow> int \<Rightarrow>
   (int, 'sn, 'v, 'r, 'ty, 'ts, 'srv) action" where
  "batch_write_m E ms prior m =
     (case batch_write_chunk (e_conv E) (e_conv_status E)
             (e_stream E (request_to_batch_write (request (cfg m)) []) (update_deadline m)) ms prior (server m) of
        (r, srv') \<Rightarrow> (r, m\<lparr>server := srv'\<rparr>))"

definition run_ingest_mutations ::
  "('sn, 'v, 'r, 'ty, 'ts, 'b, 'raw, 'bat, 'rd, 't, 'd, 'srv) env \<Rightarrow> rstring \<Rightarrow>
   (int option, 'sn, 'v, 'r, 'ty, 'ts, 'srv) action" where
  "run_ingest_mutations E table m =
     (let s = stm m; target = mutation_table (target_db_schema s) table
      in if \<not> autocommit (txns m) then
           seqr (pure (check_kind_allowed KDml (txns m))) (\<lambda>_.
           seqr (pure (build_range E target s 0 (bound_rows s))) (\<lambda>ms.
           seqr (check_empty_append_target E table (int (bound_rows s))) (\<lambda>_ m'.
             case buffer_mutations ms (txns m') of
               (Inl e, st') \<Rightarrow> (Inl e, m'\<lparr>txns := st'\<rparr>)
             | (Inr _, st') \<Rightarrow> (Inr None, m'\<lparr>txns := st'\<rparr>)))) m
         else
           seqr (ingest_autocommit
                   (commit_ingest_range (ingest_batch_write s) (build_range E target s)
                      (write_mutations_m E) (batch_write_m E))
                   (map snd (bound s))) (\<lambda>total.
           seqr (check_empty_append_target E table total) (\<lambda>_.
           pure (Inr (Some total)))) m)"

definition map_err_m ::
  "(error \<Rightarrow> 'w \<Rightarrow> error \<times> 'w) \<Rightarrow> ('w \<Rightarrow> 'a result \<times> 'w) \<Rightarrow> 'w \<Rightarrow> 'a result \<times> 'w" where
  "map_err_m f g w = (case g w of (Inl e, w') \<Rightarrow> apfst Inl (f e w') | (Inr x, w') \<Rightarrow> (Inr x, w'))"

definition run_bound_ingest ::
  "('sn, 'v, 'r, 'ty, 'ts, 'b, 'raw, 'bat, 'rd, 't, 'd, 'srv) env \<Rightarrow> rstring \<Rightarrow>
   (int option, 'sn, 'v, 'r, 'ty, 'ts, 'srv) action" where
  "run_bound_ingest E table m =
     seqr (pure (if autocommit (txns m) then Inr () else check_kind_allowed KDml (txns m))) (\<lambda>_.
     seqr (pure (build_ingest_table_ddl E table (ingest_mode (stm m)) (stm m))) (\<lambda>ddl.
     seqr (case ddl of
             None \<Rightarrow> pure (Inr ())
           | Some d \<Rightarrow> map_err_m (remap_ingest_create_error E table) (run_ddl E d)) (\<lambda>_.
     map_err_m (remap_ingest_append_error E table) (run_ingest_mutations E table)))) m"

definition run_ingest ::
  "('sn, 'v, 'r, 'ty, 'ts, 'b, 'raw, 'bat, 'rd, 't, 'd, 'srv) env \<Rightarrow> rstring \<Rightarrow>
   (int option, 'sn, 'v, 'r, 'ty, 'ts, 'srv) action" where
  "run_ingest E table m =
     (if is_read_only (cfg m) (store m)
      then (Inl (invalid_state (lit ''cannot ingest: the connection is read-only'')), m)
      else if bound (stm m) = [] \<and> ingest_schema (stm m) = None
      then (Inl (invalid_state (lit ''cannot ingest: no data has been bound'')), m)
      else then_clear (run_bound_ingest E table) m)"

section \<open>Entry points\<close>

definition begin_op :: "('sn, 'v, 'r, 'ty, 'ts, 'srv) machine \<Rightarrow> ('sn, 'v, 'r, 'ty, 'ts, 'srv) machine" where
  "begin_op m = m\<lparr>cancels := fst (begin_operation (slot (stm m)) (cancels m))\<rparr>"

text \<open>The bulk-ingest route of \<^verbatim>\<open>execute\<close> and \<^verbatim>\<open>execute_update\<close>.\<close>

definition ingest_target :: "('r, 'ty, 'ts) statement \<Rightarrow> rstring option" where
  "ingest_target s = (if sql s = None then target_table s else None)"

definition execute ::
  "('sn, 'v, 'r, 'ty, 'ts, 'b, 'raw, 'bat, 'rd, 't, 'd, 'srv) env \<Rightarrow>
   (('bat, 'ty, 'rd) reader, 'sn, 'v, 'r, 'ty, 'ts, 'srv) action" where
  "execute E m0 =
     (let m = begin_op m0
      in case ingest_target (stm m) of
           Some table \<Rightarrow> seqr (run_ingest E table) (\<lambda>_. pure (Inr empty_reader)) m
         | None \<Rightarrow>
             seqr (pure (check_bound_has_destination (stm m))) (\<lambda>_.
             seqr (pure (sql_of (stm m))) (\<lambda>q.
               if is_ddl q then
                 seqr (run_ddl E (split_statements q)) (\<lambda>_ m'. (Inr empty_reader, clear_bound_m m'))
               else if is_dml q then
                 seqr (then_clear (run_dml E q)) (\<lambda>out.
                   pure (Inr (case out of Returning bs sch _ \<Rightarrow> Rows bs sch | Plain _ \<Rightarrow> empty_reader)))
               else execute_query_reader E q)) m)"

definition drain_discarding_rows ::
  "('sn, 'v, 'r, 'ty, 'ts, 'b, 'raw, 'bat, 'rd, 't, 'd, 'srv) env \<Rightarrow> ('bat, 'ty, 'rd) reader \<Rightarrow>
   (unit, 'sn, 'v, 'r, 'ty, 'ts, 'srv) action" where
  "drain_discarding_rows E rd =
     (case rd of Rows _ _ \<Rightarrow> pure (Inr ()) | Stream s \<Rightarrow> rpc (e_drain E s))"

definition execute_update ::
  "('sn, 'v, 'r, 'ty, 'ts, 'b, 'raw, 'bat, 'rd, 't, 'd, 'srv) env \<Rightarrow>
   (int option, 'sn, 'v, 'r, 'ty, 'ts, 'srv) action" where
  "execute_update E m0 =
     (let m = begin_op m0
      in case ingest_target (stm m) of
           Some table \<Rightarrow> run_ingest E table m
         | None \<Rightarrow>
             seqr (pure (check_bound_has_destination (stm m))) (\<lambda>_.
             seqr (pure (sql_of (stm m))) (\<lambda>q.
               if is_ddl q then
                 seqr (run_ddl E (split_statements q)) (\<lambda>_ m'. (Inr None, clear_bound_m m'))
               else if \<not> is_dml q then
                 seqr (pure (check_all_dml_batch (split_statements q))) (\<lambda>_.
                 seqr (execute_query_reader E q) (\<lambda>rd.
                 seqr (drain_discarding_rows E rd) (\<lambda>_. pure (Inr None))))
               else
                 seqr (then_clear (run_dml E q)) (\<lambda>out.
                   pure (Inr (case out of Returning _ _ n \<Rightarrow> Some n | Plain n \<Rightarrow> n))))) m)"

definition execute_schema ::
  "('sn, 'v, 'r, 'ty, 'ts, 'b, 'raw, 'bat, 'rd, 't, 'd, 'srv) env \<Rightarrow>
   ('ty schema, 'sn, 'v, 'r, 'ty, 'ts, 'srv) action" where
  "execute_schema E m0 =
     (let m = begin_op m0
      in seqr (pure (sql_of (stm m))) (\<lambda>q.
         seqr (pure (check_query_only q (lit ''execute_schema''))) (\<lambda>_.
         plan_query_schema E (strip_trailing_terminators q))) m)"

definition build_query_statement ::
  "('sn, 'v, 'r, 'ty, 'ts, 'b, 'raw, 'bat, 'rd, 't, 'd, 'srv) env \<Rightarrow> rstring \<Rightarrow> bool \<Rightarrow>
   ('r, 'ty, 'ts) statement \<Rightarrow> 'v spanner_sql result" where
  "build_query_statement E q plan s =
     try_bind (build_read_sql (config s) q) (\<lambda>p.
       let p' = (if plan then p\<lparr>calls := calls p @ [SetQueryModePlan]\<rparr> else p)
       in case find (\<lambda>b. num_rows (snd b) > 0) (bound s) of
            None \<Rightarrow> Inr p'
          | Some (sch, b) \<Rightarrow>
              try_bind (resolve_parameter_names q (map fst sch) (bind_by_name s)) (\<lambda>names.
                bind_params (e_cell E) p' names (rows b ! 0)))"

definition run_partition_query ::
  "('sn, 'v, 'r, 'ty, 'ts, 'b, 'raw, 'bat, 'rd, 't, 'd, 'srv) env \<Rightarrow> rstring \<Rightarrow>
   (u8 list list \<times> 'ty schema \<times> int, 'sn, 'v, 'r, 'ty, 'ts, 'srv) action" where
  "run_partition_query E q m =
     seqr (pure (check_single_bound_row (stm m))) (\<lambda>_.
     seqr (pure (build_query_statement E q True (stm m))) (\<lambda>plan_stmt.
     seqr (pure (build_query_statement E q False (stm m))) (\<lambda>query_stmt.
     seqr (pure (timestamp_bound (e_to_bound E) (read_staleness (cfg m)))) (\<lambda>bd.
     seqr (rpc (e_partition E bd plan_stmt query_stmt (data_boost (stm m)) (timestamp_precision (cfg m))
             (query_deadline m))) (\<lambda>(sch, tokens).
     pure (Inr (tokens, sch, -1))))))) m"

definition execute_partitions ::
  "('sn, 'v, 'r, 'ty, 'ts, 'b, 'raw, 'bat, 'rd, 't, 'd, 'srv) env \<Rightarrow>
   (u8 list list \<times> 'ty schema \<times> int, 'sn, 'v, 'r, 'ty, 'ts, 'srv) action" where
  "execute_partitions E m0 =
     (let m = begin_op m0
      in seqr (pure (sql_of (stm m))) (\<lambda>q.
         seqr (pure (check_query_only q (lit ''execute_partitions''))) (\<lambda>_.
         seqr ensure_query_allowed (\<lambda>_.
         then_clear (run_partition_query E (strip_trailing_terminators q))))) m)"

end
