(* ===== verification/Scan.thy ===== *)
theory Scan
  imports Errors "HOL-Library.Monad_Syntax"
begin

text \<open>
  The byte-level scanners of \<^verbatim>\<open>src/conversion.rs\<close>, which read Spanner's \<^verbatim>\<open>DATE\<close>, \<^verbatim>\<open>TIMESTAMP\<close> and \<^verbatim>\<open>NUMERIC\<close> wire
  strings at fixed offsets, and the formatters of \<^verbatim>\<open>src/bind.rs\<close> that write them.

  The scanners work on the UTF-8 bytes of the string; a byte is an \<^typ>\<open>u8\<close>, so that \<^verbatim>\<open>wrapping_sub\<close> is
  subtraction, and the fraction of a timestamp is accumulated in 32 bits as in the code.  The
  calendar is the \<^verbatim>\<open>chrono\<close> crate's, a record of the functions the driver calls.
\<close>

section \<open>Bytes\<close>

definition utf8_char :: "rchar \<Rightarrow> u8 list" where
  "utf8_char c =
     (if c < 128 then [of_nat c]
      else if c < 2048 then [of_nat (192 + c div 64), of_nat (128 + c mod 64)]
      else if c < 65536 then
        [of_nat (224 + c div 4096), of_nat (128 + (c div 64) mod 64), of_nat (128 + c mod 64)]
      else [of_nat (240 + c div 262144), of_nat (128 + (c div 4096) mod 64),
            of_nat (128 + (c div 64) mod 64), of_nat (128 + c mod 64)])"

definition as_bytes :: "rstring \<Rightarrow> u8 list" where
  "as_bytes s = concat (map utf8_char s)"

text \<open>\<^verbatim>\<open>let d = b.wrapping_sub(b'0'); (d < 10).then_some(d)\<close>.\<close>

definition digit :: "u8 \<Rightarrow> nat option" where
  "digit b = (let d = b - 48 in if d < 10 then Some (unat d) else None)"

section \<open>The calendar\<close>

record ('d, 'dt) chrono =
  from_ymd_opt :: "int \<Rightarrow> nat \<Rightarrow> nat \<Rightarrow> 'd option"
  num_days_from_ce :: "'d \<Rightarrow> int"
  epoch_plus_days :: "int \<Rightarrow> 'd option"
  format_ymd :: "'d \<Rightarrow> rstring"
  and_hms_nano_opt :: "'d \<Rightarrow> nat \<Rightarrow> nat \<Rightarrow> nat \<Rightarrow> nat \<Rightarrow> 'dt option"
  timestamp :: "'dt \<Rightarrow> int"
  timestamp_subsec_micros :: "'dt \<Rightarrow> nat"
  timestamp_nanos_opt :: "'dt \<Rightarrow> int option"
  from_timestamp :: "int \<Rightarrow> 'dt option"
  from_timestamp_millis :: "int \<Rightarrow> 'dt option"
  from_timestamp_micros :: "int \<Rightarrow> 'dt option"
  from_timestamp_nanos :: "int \<Rightarrow> 'dt"
  to_rfc3339_opts :: "nat \<Rightarrow> 'dt \<Rightarrow> rstring"
  is_rfc3339 :: "rstring \<Rightarrow> bool"

section \<open>Scanners\<close>

definition parse_date_days :: "('d, 'dt) chrono \<Rightarrow> rstring \<Rightarrow> int option" where
  "parse_date_days cal s =
     (let b = as_bytes s in
      if length b \<noteq> 10 \<or> b ! 4 \<noteq> 45 \<or> b ! 7 \<noteq> 45 then None
      else do {
        y0 \<leftarrow> digit (b ! 0); y1 \<leftarrow> digit (b ! 1); y2 \<leftarrow> digit (b ! 2); y3 \<leftarrow> digit (b ! 3);
        m0 \<leftarrow> digit (b ! 5); m1 \<leftarrow> digit (b ! 6);
        d0 \<leftarrow> digit (b ! 8); d1 \<leftarrow> digit (b ! 9);
        date \<leftarrow> from_ymd_opt cal (int (y0 * 1000 + y1 * 100 + y2 * 10 + y3)) (m0 * 10 + m1) (d0 * 10 + d1);
        Some (num_days_from_ce cal date - 719163)
      })"

text \<open>Two digits at \<open>off\<close>, or \<open>None\<close>.\<close>

definition two_digits :: "u8 list \<Rightarrow> nat \<Rightarrow> nat option" where
  "two_digits b off =
     (let hi = b ! off - 48; lo = b ! (off + 1) - 48
      in if hi < 10 \<and> lo < 10 then Some (unat hi * 10 + unat lo) else None)"

type_synonym u32 = "32 word"

fun scan_fraction :: "u32 \<Rightarrow> u8 list \<Rightarrow> u32 option" where
  "scan_fraction nanos [] = Some nanos"
| "scan_fraction nanos (b # bs) =
     (let d = b - 48 in if d \<ge> 10 then None else scan_fraction (nanos * 10 + ucast d) bs)"

definition scan_nanos :: "u8 list \<Rightarrow> u32 option" where
  "scan_nanos b =
     (if b ! 19 = 90 \<and> length b = 20 then Some 0
      else if b ! 19 = 46 \<and> length b > 20 then
        (let frac = take (length b - 1 - 20) (drop 20 b)
         in if b ! (length b - 1) \<noteq> 90 \<or> frac = [] \<or> length frac > 9 then None
            else map_option (\<lambda>n. n * 10 ^ (9 - length frac)) (scan_fraction 0 frac))
      else None)"

definition scan_timestamp_utc :: "('d, 'dt) chrono \<Rightarrow> rstring \<Rightarrow> 'dt option" where
  "scan_timestamp_utc cal s =
     (let b = as_bytes s in
      if length b < 20 \<or> b ! 4 \<noteq> 45 \<or> b ! 7 \<noteq> 45 \<or> b ! 10 \<noteq> 84 \<or> b ! 13 \<noteq> 58 \<or> b ! 16 \<noteq> 58 then None
      else do {
        y0 \<leftarrow> two_digits b 0; y1 \<leftarrow> two_digits b 2;
        month \<leftarrow> two_digits b 5; day \<leftarrow> two_digits b 8;
        hour \<leftarrow> two_digits b 11; minute \<leftarrow> two_digits b 14; sec \<leftarrow> two_digits b 17;
        nanos \<leftarrow> scan_nanos b;
        date \<leftarrow> from_ymd_opt cal (int (y0 * 100 + y1)) month day;
        and_hms_nano_opt cal date hour minute sec (unat nanos)
      })"

definition parse_timestamp_nanos :: "('d, 'dt) chrono \<Rightarrow> rstring \<Rightarrow> int option" where
  "parse_timestamp_nanos cal s = Option.bind (scan_timestamp_utc cal s) (timestamp_nanos_opt cal)"

text \<open>\<^verbatim>\<open>checked_*\<close> at a width: the value when it fits in \<open>w\<close> signed bits.\<close>

definition checked :: "nat \<Rightarrow> int \<Rightarrow> int option" where
  "checked w v = (if - (2 ^ (w - 1)) \<le> v \<and> v < 2 ^ (w - 1) then Some v else None)"

definition parse_timestamp_micros :: "('d, 'dt) chrono \<Rightarrow> rstring \<Rightarrow> int option" where
  "parse_timestamp_micros cal s = do {
     dt \<leftarrow> scan_timestamp_utc cal s;
     us \<leftarrow> checked 64 (timestamp cal dt * 1000000);
     checked 64 (us + int (timestamp_subsec_micros cal dt))
   }"

definition NUMERIC_SCALE :: nat where
  "NUMERIC_SCALE = 9"

fun scan_int128 :: "int \<Rightarrow> u8 list \<Rightarrow> int option" where
  "scan_int128 v [] = Some v"
| "scan_int128 v (b # bs) =
     (let d = b - 48
      in if d \<ge> 10 then None
         else Option.bind (checked 128 (v * 10)) (\<lambda>v10.
              Option.bind (checked 128 (v10 + uint d)) (\<lambda>v'. scan_int128 v' bs)))"

fun scan_frac128 :: "int \<Rightarrow> u8 list \<Rightarrow> int option" where
  "scan_frac128 v [] = Some v"
| "scan_frac128 v (b # bs) =
     (let d = b - 48 in if d \<ge> 10 then None else scan_frac128 (v * 10 + uint d) bs)"

text \<open>The split at the first point: \<open>None\<close> for a trailing point.\<close>

definition split_point :: "u8 list \<Rightarrow> (u8 list \<times> u8 list) option" where
  "split_point b =
     (let i = length (takeWhile (\<lambda>x. x \<noteq> 46) b)
      in if i = length b then Some (b, [])
         else if i + 1 < length b then Some (take i b, drop (i + 1) b)
         else None)"

definition parse_numeric_i128 :: "rstring \<Rightarrow> int option" where
  "parse_numeric_i128 s =
     (let b0 = as_bytes s;
          (negative, bytes) = (case b0 of x # rest \<Rightarrow> if x = 45 then (True, rest) else (False, b0) | [] \<Rightarrow> (False, b0))
      in do {
        (int_part, frac_part) \<leftarrow> split_point bytes;
        if int_part = [] \<or> length frac_part > NUMERIC_SCALE then None
        else do {
          int_val \<leftarrow> scan_int128 0 int_part;
          frac_val \<leftarrow> scan_frac128 0 frac_part;
          scaled \<leftarrow> checked 128 (int_val * 1000000000);
          unscaled \<leftarrow> checked 128 (scaled + frac_val * 10 ^ (NUMERIC_SCALE - length frac_part));
          Some (if negative then - unscaled else unscaled)
        }
      })"

section \<open>Formatters\<close>

text \<open>\<^verbatim>\<open>{:0width$}\<close>: zero-padded on the left.\<close>

definition zero_pad :: "nat \<Rightarrow> nat \<Rightarrow> rstring" where
  "zero_pad width n = replicate (width - length (show_nat n)) 48 @ show_nat n"

definition numeric_string :: "int \<Rightarrow> nat \<Rightarrow> rstring" where
  "numeric_string unscaled scale =
     (if scale = 0 then show_int unscaled
      else let magnitude = nat \<bar>unscaled\<bar>; divisor = 10 ^ scale
           in (if unscaled < 0 then [45] else []) @ show_nat (magnitude div divisor) @ [46]
              @ zero_pad scale (magnitude mod divisor))"

definition date64_days :: "int \<Rightarrow> int result" where
  "date64_days millis =
     ok_or (invalid_argument (lit ''cannot bind DATE parameter: out of range'')) (checked 32 (millis div 86400000))"

definition date_string :: "('d, 'dt) chrono \<Rightarrow> int \<Rightarrow> rstring result" where
  "date_string cal days =
     try_bind (ok_or (invalid_argument (lit ''cannot bind DATE parameter: out of range'')) (epoch_plus_days cal days))
       (\<lambda>d. Inr (format_ymd cal d))"

datatype time_unit = Second | Millisecond | Microsecond | Nanosecond

text \<open>The number of fractional digits selects \<^verbatim>\<open>SecondsFormat\<close>.\<close>

definition timestamp_string :: "('d, 'dt) chrono \<Rightarrow> time_unit \<Rightarrow> int \<Rightarrow> rstring result" where
  "timestamp_string cal unit v =
     (let (ts, digits) =
            (case unit of
               Second \<Rightarrow> (from_timestamp cal v, 0)
             | Millisecond \<Rightarrow> (from_timestamp_millis cal v, 3)
             | Microsecond \<Rightarrow> (from_timestamp_micros cal v, 6)
             | Nanosecond \<Rightarrow> (Some (from_timestamp_nanos cal v), 9))
      in try_bind (ok_or (invalid_argument (lit ''cannot bind TIMESTAMP parameter: out of range'')) ts)
           (\<lambda>t. Inr (to_rfc3339_opts cal digits t)))"

definition numeric_scale :: "int \<Rightarrow> nat result" where
  "numeric_scale scale =
     (if 0 \<le> scale \<and> scale \<le> 38 then Inr (nat scale)
      else Inl (invalid_argument (lit ''cannot bind NUMERIC parameter: unsupported scale'')))"

end
