(* ===== verification/Arrow.thy ===== *)
theory Arrow
  imports OptionConfigs Scan
begin

text \<open>
  The data on both sides of the driver: Arrow types, fields and arrays as the Arrow columnar format
  lays them out, and Spanner's wire values and result types.

  An array of a flat type is its cells, a null cell being \<open>None\<close>; a list array has offsets, validity
  and a child; a dictionary array has keys and values; a dense union array
  has, per slot, the type id of a branch and an offset into that branch, and no validity of its own.  A wire value is a value of the client library
  as its \<^verbatim>\<open>kind()\<close> and accessors present it.
\<close>

section \<open>Arrow\<close>

datatype data_type =
    Null | Boolean | Int8 | Int16 | Int32 | Int64 | UInt8 | UInt16 | UInt32 | UInt64
  | Float16 | Float32 | Float64 | Utf8 | LargeUtf8 | Utf8View
  | Binary | LargeBinary | BinaryView | FixedSizeBinary int | Date32 | Date64
  | Timestamp time_unit "rstring option" | Decimal128 nat int
  | List field | LargeList field | Struct "field list" | Dictionary data_type data_type
  | Union "(int \<times> field) list" | OtherType rstring
  and field = Field (field_name: rstring) (field_type: data_type) (nullable: bool)
    (metadata: "(rstring \<times> rstring) list")

text \<open>\<^verbatim>\<open>Field::new\<close>.\<close>

definition plain_field :: "rstring \<Rightarrow> data_type \<Rightarrow> field" where
  "plain_field n dt = Field n dt True []"

datatype cell = CBool bool | CInt int | CFloat f64 | CStr rstring | CBytes "u8 list"

datatype arr =
    FlatArr data_type "cell option list"
  | ListArr bool field "nat list" "bool list" arr
  | StructArr "field list" "bool list" "arr list"
  | DictArr data_type "nat option list" arr
  | UnionArr "(int \<times> field) list" "int list" "nat list" "arr list"

fun arr_type :: "arr \<Rightarrow> data_type" where
  "arr_type (FlatArr dt cs) = dt"
| "arr_type (ListArr large item offsets validity child) = (if large then LargeList item else List item)"
| "arr_type (StructArr fs validity children) = Struct fs"
| "arr_type (DictArr key keys values) = Dictionary key (arr_type values)"
| "arr_type (UnionArr fs type_ids offsets children) = Union fs"

fun arr_len :: "arr \<Rightarrow> nat" where
  "arr_len (FlatArr dt cs) = length cs"
| "arr_len (ListArr large item offsets validity child) = length validity"
| "arr_len (StructArr fs validity children) = length validity"
| "arr_len (DictArr key keys values) = length keys"
| "arr_len (UnionArr fs type_ids offsets children) = length type_ids"

fun is_null :: "arr \<Rightarrow> nat \<Rightarrow> bool" where
  "is_null (FlatArr dt cs) i = (cs ! i = None)"
| "is_null (ListArr large item offsets validity child) i = (\<not> validity ! i)"
| "is_null (StructArr fs validity children) i = (\<not> validity ! i)"
| "is_null (DictArr key keys values) i = (keys ! i = None)"
| "is_null (UnionArr fs type_ids offsets children) i = False"

section \<open>Spanner\<close>

datatype wire =
    WNull | WBool bool | WNumber f64 | WString rstring | WList "wire list" | WStruct "(rstring \<times> wire) list"

datatype type_code =
    CodeUnspecified | CodeBool | CodeInt64 | CodeFloat64 | CodeFloat32 | CodeTimestamp | CodeDate
  | CodeString | CodeBytes | CodeArray | CodeStruct | CodeNumeric | CodeJson | CodeProto | CodeEnum
  | CodeInterval | CodeUuid | CodeUnknown int

datatype spanner_type =
  SType (code: type_code) (array_element: "spanner_type option")
    (struct_type: "(rstring \<times> spanner_type option) list option")

definition default_type :: spanner_type where
  "default_type = SType CodeUnspecified None None"

fun try_as_string :: "wire \<Rightarrow> rstring option" where
  "try_as_string (WString s) = Some s"
| "try_as_string _ = None"

fun try_as_bool :: "wire \<Rightarrow> bool option" where
  "try_as_bool (WBool b) = Some b"
| "try_as_bool _ = None"

fun try_as_f64 :: "wire \<Rightarrow> f64 option" where
  "try_as_f64 (WNumber x) = Some x"
| "try_as_f64 _ = None"

text \<open>
  Code of other crates the conversions call: the calendar, base64, the \<^verbatim>\<open>as f32\<close> rounding and the
  double parser's rounding, the text of a JSON value, and the checked constructors of the Arrow
  library (\<open>Some msg\<close> is their rejection).
\<close>

datatype json =
    JNull | JBool bool | JNumber f64 | JUint nat | JString rstring | JArray "json list" | JObject "(rstring \<times> json) list"

record ('d, 'dt) crates =
  calendar :: "('d, 'dt) chrono"
  b64_decode :: "rstring \<Rightarrow> u8 list option"
  as_f32 :: "f64 \<Rightarrow> f64"
  f64_rounding :: rounding
  json_text :: "json \<Rightarrow> rstring"
  try_decimal :: "nat \<Rightarrow> int \<Rightarrow> rstring option"
  try_list :: "field \<Rightarrow> nat list \<Rightarrow> bool list \<Rightarrow> arr \<Rightarrow> rstring option"
  try_struct :: "field list \<Rightarrow> bool list \<Rightarrow> arr list \<Rightarrow> rstring option"
  try_batch :: "field list \<Rightarrow> arr list \<Rightarrow> rstring option"

end
