(* ===== verification/Conversion.thy ===== *)
theory Conversion
  imports Arrow
begin

text \<open>
  From Spanner results to Arrow, \<^verbatim>\<open>src/conversion.rs\<close>: the type mapping with its depth limit, and the
  column builders with their strict decoding.
\<close>

section \<open>Types\<close>

definition MAX_TYPE_NESTING_DEPTH :: nat where
  "MAX_TYPE_NESTING_DEPTH = 100"

definition NUMERIC_PRECISION :: nat where
  "NUMERIC_PRECISION = 38"

definition TIMESTAMP_TZ :: rstring where
  "TIMESTAMP_TZ = lit ''UTC''"

definition LIST_ITEM :: rstring where
  "LIST_ITEM = lit ''item''"

definition ARROW_EXTENSION_NAME :: rstring where
  "ARROW_EXTENSION_NAME = lit ''ARROW:extension:name''"

definition ARROW_EXTENSION_METADATA :: rstring where
  "ARROW_EXTENSION_METADATA = lit ''ARROW:extension:metadata''"

definition ARROW_JSON_EXTENSION :: rstring where
  "ARROW_JSON_EXTENSION = lit ''arrow.json''"

fun time_unit_of :: "timestamp_precision \<Rightarrow> time_unit" where
  "time_unit_of NanosecondsErrorOnOverflow = Nanosecond"
| "time_unit_of Microseconds = Microsecond"

definition json_extension_metadata :: "(rstring \<times> rstring) list" where
  "json_extension_metadata = [(ARROW_EXTENSION_NAME, ARROW_JSON_EXTENSION), (ARROW_EXTENSION_METADATA, [])]"

text \<open>The field around an already mapped type: \<^verbatim>\<open>JSON\<close> columns carry the extension.\<close>

definition tagged_field :: "rstring \<Rightarrow> type_code \<Rightarrow> data_type \<Rightarrow> bool \<Rightarrow> field" where
  "tagged_field n c dt nul = Field n dt nul (if c = CodeJson then json_extension_metadata else [])"

text \<open>
  \<^verbatim>\<open>arrow_type\<close>, \<^verbatim>\<open>struct_arrow_type\<close> and \<^verbatim>\<open>struct_fields\<close>; \<^verbatim>\<open>arrow_field_at\<close> is a call of the first wrapped by
  \<open>tagged_field\<close>.  A struct field without a type has the default one.
\<close>

function (sequential) arrow_type :: "timestamp_precision \<Rightarrow> spanner_type \<Rightarrow> nat \<Rightarrow> data_type result"
  and struct_fields ::
    "timestamp_precision \<Rightarrow> (rstring \<times> spanner_type option) list \<Rightarrow> nat \<Rightarrow> field list result" where
  "arrow_type prec (SType c elem st) depth =
     (if depth > MAX_TYPE_NESTING_DEPTH
      then Inl (err (lit ''nested STRUCT/ARRAY type exceeds the maximum depth'') Internal)
      else case c of
             CodeBool \<Rightarrow> Inr Boolean
           | CodeInt64 \<Rightarrow> Inr Int64
           | CodeFloat64 \<Rightarrow> Inr Float64
           | CodeFloat32 \<Rightarrow> Inr Float32
           | CodeBytes \<Rightarrow> Inr Binary
           | CodeDate \<Rightarrow> Inr Date32
           | CodeTimestamp \<Rightarrow> Inr (Timestamp (time_unit_of prec) (Some TIMESTAMP_TZ))
           | CodeNumeric \<Rightarrow> Inr (Decimal128 NUMERIC_PRECISION (int NUMERIC_SCALE))
           | CodeStruct \<Rightarrow>
               (case st of
                  None \<Rightarrow> Inr Utf8
                | Some fs \<Rightarrow> try_bind (struct_fields prec fs depth) (\<lambda>fl. Inr (Struct fl)))
           | CodeArray \<Rightarrow>
               (case elem of
                  None \<Rightarrow> Inr Utf8
                | Some e \<Rightarrow>
                    if code e = CodeArray \<or> code e = CodeUnspecified then Inr Utf8
                    else try_bind (arrow_type prec e (depth + 1))
                           (\<lambda>dt. Inr (List (tagged_field LIST_ITEM (code e) dt True))))
           | CodeEnum \<Rightarrow> Inr Int64
           | CodeProto \<Rightarrow> Inr Binary
           | _ \<Rightarrow> Inr Utf8)"
| "struct_fields prec [] depth = Inr []"
| "struct_fields prec ((n, t) # fs) depth =
     try_bind
       (case t of
          None \<Rightarrow> try_bind (arrow_type prec default_type (depth + 1))
                    (\<lambda>dt. Inr (tagged_field n (code default_type) dt True))
        | Some ty \<Rightarrow> try_bind (arrow_type prec ty (depth + 1)) (\<lambda>dt. Inr (tagged_field n (code ty) dt True)))
       (\<lambda>f. try_bind (struct_fields prec fs depth) (\<lambda>rest. Inr (f # rest)))"
  by pat_completeness auto
termination
  by (relation "measure (\<lambda>x. case x of
        Inl (p, ty, d) \<Rightarrow> 2 * size ty
      | Inr (p, fs, d) \<Rightarrow> 2 * size_list (size_prod (\<lambda>_. 0) (size_option size)) fs + 1)")
    (auto simp: default_type_def)

declare arrow_type.simps [simp del]

definition arrow_field :: "rstring \<Rightarrow> spanner_type \<Rightarrow> bool \<Rightarrow> timestamp_precision \<Rightarrow> field result" where
  "arrow_field n ty nul prec = try_bind (arrow_type prec ty 0) (\<lambda>dt. Inr (tagged_field n (code ty) dt nul))"

definition is_json_field :: "field \<Rightarrow> bool" where
  "is_json_field f \<longleftrightarrow>
     (case (case field_type f of Dictionary _ v \<Rightarrow> v | other \<Rightarrow> other) of
        Utf8 \<Rightarrow> True | LargeUtf8 \<Rightarrow> True | Utf8View \<Rightarrow> True | _ \<Rightarrow> False) \<and>
     map_of (metadata f) ARROW_EXTENSION_NAME = Some ARROW_JSON_EXTENSION"

text \<open>Result-set metadata is its column names and types; a row its raw values.\<close>

fun meta_fields :: "timestamp_precision \<Rightarrow> rstring list \<Rightarrow> spanner_type list \<Rightarrow> field list result" where
  "meta_fields prec [] types = Inr []"
| "meta_fields prec (n # ns) types =
     try_bind
       (case types of
          ty # _ \<Rightarrow> map_err (\<lambda>e. annotate e (\<lambda>m. lit ''column '' @ n @ lit '': '' @ m)) (arrow_field n ty True prec)
        | [] \<Rightarrow> Inr (plain_field n Utf8))
       (\<lambda>f. try_bind (meta_fields prec ns (tl types)) (\<lambda>fs. Inr (f # fs)))"

definition build_schema ::
  "(rstring list \<times> spanner_type list) option \<Rightarrow> wire list option \<Rightarrow> timestamp_precision \<Rightarrow> field list result" where
  "build_schema md first_row prec =
     (case md of
        Some (n # ns, types) \<Rightarrow> meta_fields prec (n # ns) types
      | _ \<Rightarrow> Inr (map (\<lambda>i. plain_field (lit ''col'' @ show_nat i) Utf8)
                   [0..<(case first_row of None \<Rightarrow> 0 | Some r \<Rightarrow> length r)]))"

section \<open>Values\<close>

fun value_to_json :: "wire \<Rightarrow> json" where
  "value_to_json WNull = JNull"
| "value_to_json (WBool b) = JBool b"
| "value_to_json (WNumber x) = JNumber x"
| "value_to_json (WString s) = JString s"
| "value_to_json (WList vs) = JArray (map value_to_json vs)"
| "value_to_json (WStruct fs) = JObject (map (\<lambda>(k, v). (k, value_to_json v)) fs)"

text \<open>\<^verbatim>\<open>present\<close>: the value unless it is absent or SQL \<^verbatim>\<open>NULL\<close>.\<close>

fun present :: "wire option \<Rightarrow> wire option" where
  "present None = None"
| "present (Some WNull) = None"
| "present (Some v) = Some v"

definition arrow_err :: "rstring \<Rightarrow> error" where
  "arrow_err msg = err (lit ''failed to build Arrow array: '' @ msg) Internal"

definition decode_error :: "rstring \<Rightarrow> wire \<Rightarrow> error" where
  "decode_error spanner_type v = err (lit ''cannot decode Spanner '' @ spanner_type @ lit '' wire value'') InvalidData"

definition parse_int64 :: "wire \<Rightarrow> int option" where
  "parse_int64 v = Option.bind (try_as_string v) parse_i64"

definition parse_wire_f64 :: "rounding \<Rightarrow> wire \<Rightarrow> f64 option" where
  "parse_wire_f64 rnd v =
     (case try_as_f64 v of
        Some x \<Rightarrow> Some x
      | None \<Rightarrow> Option.bind (try_as_string v) (\<lambda>s.
          if s = lit ''NaN'' then Some NaN
          else if s = lit ''Infinity'' then Some (Infinite False)
          else if s = lit ''-Infinity'' then Some (Infinite True)
          else parse_f64 rnd s))"

text \<open>\<^verbatim>\<open>build_with\<close>: a null slot for a missing value, \<open>dec\<close> for a present one.\<close>

fun build_with :: "(wire \<Rightarrow> cell result) \<Rightarrow> wire option list \<Rightarrow> cell option list result" where
  "build_with dec [] = Inr []"
| "build_with dec (v # vs) =
     (case present v of
        None \<Rightarrow> try_bind (build_with dec vs) (\<lambda>cs. Inr (None # cs))
      | Some x \<Rightarrow> try_bind (dec x) (\<lambda>c. try_bind (build_with dec vs) (\<lambda>cs. Inr (Some c # cs))))"

definition build_primitive ::
  "rstring \<Rightarrow> (wire \<Rightarrow> 'n option) \<Rightarrow> ('n \<Rightarrow> cell) \<Rightarrow> wire option list \<Rightarrow> cell option list result" where
  "build_primitive what parse mk vs =
     build_with (\<lambda>v. try_bind (ok_or (decode_error what v) (parse v)) (\<lambda>x. Inr (mk x))) vs"

definition decode_nanos :: "('d, 'dt) chrono \<Rightarrow> wire \<Rightarrow> cell result" where
  "decode_nanos cal v =
     try_bind (ok_or (decode_error (lit ''TIMESTAMP'') v) (try_as_string v)) (\<lambda>s.
       case parse_timestamp_nanos cal s of
         Some n \<Rightarrow> Inr (CInt n)
       | None \<Rightarrow>
           if is_rfc3339 cal s
           then Inl (invalid_argument (lit ''TIMESTAMP value is outside the range representable as an Arrow Timestamp(Nanosecond)''))
           else Inl (decode_error (lit ''TIMESTAMP'') v))"

text \<open>The arms of \<^verbatim>\<open>build_array\<close> for flat types; every other type is rendered as text.\<close>

definition build_flat :: "('d, 'dt) crates \<Rightarrow> data_type \<Rightarrow> wire option list \<Rightarrow> arr result" where
  "build_flat K dt vs =
     (case dt of
        Boolean \<Rightarrow>
          try_bind (build_primitive (lit ''BOOL'') try_as_bool CBool vs) (\<lambda>cs. Inr (FlatArr dt cs))
      | Int64 \<Rightarrow> try_bind (build_primitive (lit ''INT64'') parse_int64 CInt vs) (\<lambda>cs. Inr (FlatArr dt cs))
      | Float64 \<Rightarrow>
          try_bind (build_primitive (lit ''FLOAT64'') (parse_wire_f64 (f64_rounding K)) CFloat vs)
            (\<lambda>cs. Inr (FlatArr dt cs))
      | Float32 \<Rightarrow>
          try_bind (build_primitive (lit ''FLOAT32'')
              (\<lambda>v. map_option (as_f32 K) (parse_wire_f64 (f64_rounding K) v)) CFloat vs)
            (\<lambda>cs. Inr (FlatArr dt cs))
      | Date32 \<Rightarrow>
          try_bind (build_primitive (lit ''DATE'')
              (\<lambda>v. Option.bind (try_as_string v) (parse_date_days (calendar K))) CInt vs)
            (\<lambda>cs. Inr (FlatArr dt cs))
      | Timestamp Nanosecond tz \<Rightarrow>
          try_bind (build_with (decode_nanos (calendar K)) vs) (\<lambda>cs. Inr (FlatArr dt cs))
      | Timestamp Microsecond tz \<Rightarrow>
          try_bind (build_primitive (lit ''TIMESTAMP'')
              (\<lambda>v. Option.bind (try_as_string v) (parse_timestamp_micros (calendar K))) CInt vs)
            (\<lambda>cs. Inr (FlatArr dt cs))
      | Decimal128 precision scale \<Rightarrow>
          try_bind (build_primitive (lit ''NUMERIC'')
              (\<lambda>v. Option.bind (try_as_string v) parse_numeric_i128) CInt vs)
            (\<lambda>cs. case try_decimal K precision scale of
                    None \<Rightarrow> Inr (FlatArr dt cs)
                  | Some msg \<Rightarrow> Inl (arrow_err msg))
      | Binary \<Rightarrow>
          try_bind (build_primitive (lit ''BYTES'')
              (\<lambda>v. Option.bind (try_as_string v) (b64_decode K)) CBytes vs)
            (\<lambda>cs. Inr (FlatArr dt cs))
      | _ \<Rightarrow>
          try_bind (build_with (\<lambda>v. Inr (CStr (case try_as_string v of
              Some s \<Rightarrow> s
            | None \<Rightarrow> json_text K (value_to_json v)))) vs) (\<lambda>cs. Inr (FlatArr Utf8 cs)))"

fun list_loop ::
  "wire option list \<Rightarrow> wire option list \<Rightarrow> nat list \<Rightarrow> bool list \<Rightarrow>
   (wire option list \<times> nat list \<times> bool list) result" where
  "list_loop [] children offsets validity = Inr (children, offsets, validity)"
| "list_loop (v # vs) children offsets validity =
     try_bind
       (case present v of
          None \<Rightarrow> Inr (children, False)
        | Some (WList xs) \<Rightarrow> Inr (children @ map Some xs, True)
        | Some x \<Rightarrow> Inl (decode_error (lit ''ARRAY'') x))
       (\<lambda>(children', valid).
         if length children' \<ge> 2 ^ 31
         then Inl (err (lit ''ARRAY result exceeds the i32 offset range'') Internal)
         else list_loop vs children' (offsets @ [length children']) (validity @ [valid]))"

text \<open>One value per row and field; \<^verbatim>\<open>list.get(i)\<close> is \<open>None\<close> past the end.\<close>

definition nth_opt :: "'a list \<Rightarrow> nat \<Rightarrow> 'a option" where
  "nth_opt xs i = (if i < length xs then Some (xs ! i) else None)"

fun struct_loop ::
  "wire option list \<Rightarrow> wire option list list \<Rightarrow> bool list \<Rightarrow> (wire option list list \<times> bool list) result" where
  "struct_loop [] children validity = Inr (children, validity)"
| "struct_loop (v # vs) children validity =
     (case present v of
        None \<Rightarrow> struct_loop vs (map (\<lambda>c. c @ [None]) children) (validity @ [False])
      | Some (WList xs) \<Rightarrow>
          struct_loop vs (map (\<lambda>(i, c). c @ [nth_opt xs i]) (enumerate 0 children)) (validity @ [True])
      | Some x \<Rightarrow> Inl (decode_error (lit ''STRUCT'') x))"

fun build_array :: "('d, 'dt) crates \<Rightarrow> data_type \<Rightarrow> wire option list \<Rightarrow> arr result"
  and build_fields :: "('d, 'dt) crates \<Rightarrow> field list \<Rightarrow> wire option list list \<Rightarrow> arr list result" where
  "build_array K (List (Field n dt nul md)) vs =
     try_bind (list_loop vs [] [0] []) (\<lambda>(children, offsets, validity).
     try_bind (build_array K dt children) (\<lambda>child.
       case try_list K (Field n dt nul md) offsets validity child of
         None \<Rightarrow> Inr (ListArr False (Field n dt nul md) offsets validity child)
       | Some msg \<Rightarrow> Inl (arrow_err msg)))"
| "build_array K (Struct fs) vs =
     try_bind (struct_loop vs (replicate (length fs) []) []) (\<lambda>(children, validity).
     try_bind (build_fields K fs children) (\<lambda>arrays.
       case try_struct K fs validity arrays of
         None \<Rightarrow> Inr (StructArr fs validity arrays)
       | Some msg \<Rightarrow> Inl (arrow_err msg)))"
| "build_array K dt vs = build_flat K dt vs"
| "build_fields K (Field n dt nul md # fs) (c # cs) =
     try_bind (build_array K dt c) (\<lambda>a. try_bind (build_fields K fs cs) (\<lambda>as. Inr (a # as)))"
| "build_fields K fs cs = Inr []"

text \<open>\<^verbatim>\<open>build_column\<close> and \<^verbatim>\<open>build_batch\<close>: one column per field, a value missing from a short row being null.\<close>

definition build_column :: "('d, 'dt) crates \<Rightarrow> field \<Rightarrow> wire option list \<Rightarrow> arr result" where
  "build_column K f vs =
     map_err (\<lambda>e. annotate e (\<lambda>m. lit ''column '' @ field_name f @ lit '': '' @ m))
       (build_array K (field_type f) vs)"

definition build_batch :: "('d, 'dt) crates \<Rightarrow> field list \<Rightarrow> wire list list \<Rightarrow> arr list result" where
  "build_batch K fs rows =
     try_bind (collect_results (map (\<lambda>(i, f). build_column K f (map (\<lambda>r. nth_opt r i) rows)) (enumerate 0 fs)))
       (\<lambda>arrays. case try_batch K fs arrays of
          None \<Rightarrow> Inr arrays
        | Some msg \<Rightarrow> Inl (err (lit ''failed to build record batch: '' @ msg) Internal))"

definition rows_to_batch ::
  "('d, 'dt) crates \<Rightarrow> (rstring list \<times> spanner_type list) option \<Rightarrow> wire list list \<Rightarrow> timestamp_precision \<Rightarrow>
   (field list \<times> arr list) result" where
  "rows_to_batch K md rows prec =
     try_bind (build_schema md (case rows of [] \<Rightarrow> None | r # _ \<Rightarrow> Some r) prec) (\<lambda>schema.
     try_bind (build_batch K schema rows) (\<lambda>b. Inr (schema, b)))"

end
