(* ===== verification/ResultStream.thy ===== *)
theory ResultStream
  imports Conversion Runtime Metadata
begin

text \<open>
  Streaming query results, \<^verbatim>\<open>src/conversion.rs\<close>: pulling bounded chunks from a result set, moving from one
  bound row's result set to the next, and the reader that hands batches to the consumer.

  A result set is what is left of its row stream, each item a row or the error that ends it.  The
  prefetch task and its channel are those of \<^verbatim>\<open>src/runtime.rs\<close>.
\<close>

section \<open>Chunks\<close>

definition CHUNK_BYTE_BUDGET :: nat where
  "CHUNK_BYTE_BUDGET = 32 * 1024 * 1024"

fun approx_value_bytes :: "wire \<Rightarrow> nat" where
  "approx_value_bytes WNull = 0"
| "approx_value_bytes (WBool b) = 1"
| "approx_value_bytes (WNumber x) = 8"
| "approx_value_bytes (WString s) = byte_len s"
| "approx_value_bytes (WList vs) = sum_list (map approx_value_bytes vs)"
| "approx_value_bytes (WStruct fs) = sum_list (map (\<lambda>(_, v). approx_value_bytes v) fs)"

definition approx_row_bytes :: "wire list \<Rightarrow> nat" where
  "approx_row_bytes row = sum_list (map approx_value_bytes row)"

definition saturating_add :: "nat \<Rightarrow> nat \<Rightarrow> nat" where
  "saturating_add a b = min (2 ^ 64 - 1) (a + b)"

text \<open>The loop of \<^verbatim>\<open>pull_chunk\<close>: the rows so far and their bytes; what is left of the result set.\<close>

function pull_loop ::
  "('r \<Rightarrow> nat) \<Rightarrow> nat \<Rightarrow> 'r result list \<Rightarrow> 'r list \<Rightarrow> nat \<Rightarrow> 'r list result \<times> 'r result list" where
  "pull_loop sz mx rs rows bytes =
     (if length rows \<ge> mx then (Inr rows, rs)
      else case rs of
             [] \<Rightarrow> (Inr rows, [])
           | Inl e # rest \<Rightarrow> (Inl e, rest)
           | Inr row # rest \<Rightarrow>
               (let bytes' = saturating_add bytes (sz row)
                in if bytes' \<ge> CHUNK_BYTE_BUDGET then (Inr (rows @ [row]), rest)
                   else pull_loop sz mx rest (rows @ [row]) bytes'))"
  by pat_completeness auto
termination
  by (relation "measure (\<lambda>(sz, mx, rs, rows, bytes). length rs)") auto

declare pull_loop.simps [simp del]

definition pull_chunk :: "('r \<Rightarrow> nat) \<Rightarrow> nat \<Rightarrow> 'r result list \<Rightarrow> 'r list result \<times> 'r result list" where
  "pull_chunk sz mx rs = pull_loop sz mx rs [] 0"

section \<open>Bound queries\<close>

text \<open>
  \<^verbatim>\<open>next_bound_chunk\<close> on the live result set and the statements still to run; \<open>exec\<close> is
  \<^verbatim>\<open>transaction.execute_query\<close>.
\<close>

function next_bound_chunk ::
  "('r \<Rightarrow> nat) \<Rightarrow> nat \<Rightarrow> ('st \<Rightarrow> 'r result list result) \<Rightarrow> 'r result list option \<Rightarrow> 'st result list \<Rightarrow>
   'r list option result \<times> 'r result list option \<times> 'st result list" where
  "next_bound_chunk sz mx exec cur stmts =
     (let advance =
            (case stmts of
               [] \<Rightarrow> (Inr None, None, [])
             | Inl e # rest \<Rightarrow> (Inl e, None, rest)
             | Inr st # rest \<Rightarrow>
                 (case exec st of
                    Inl e \<Rightarrow> (Inl e, None, rest)
                  | Inr rs \<Rightarrow> next_bound_chunk sz mx exec (Some rs) rest))
      in case cur of
           None \<Rightarrow> advance
         | Some rs \<Rightarrow>
             (case pull_chunk sz mx rs of
                (Inl e, rs') \<Rightarrow> (Inl e, Some rs', stmts)
              | (Inr rows, rs') \<Rightarrow> if rows \<noteq> [] then (Inr (Some rows), Some rs', stmts) else advance))"
  by pat_completeness auto
termination
  by (relation "measure (\<lambda>(sz, mx, exec, cur, stmts). length stmts)") auto

declare next_bound_chunk.simps [simp del]

text \<open>A chunk source of the prefetch task: what each successive \<^verbatim>\<open>next_chunk\<close> returns.\<close>

fun pull_all :: "nat \<Rightarrow> ('s \<Rightarrow> 'r list result \<times> 's) \<Rightarrow> 's \<Rightarrow> 'r list result list" where
  "pull_all 0 src s = []"
| "pull_all (Suc n) src s = (case src s of (r, s') \<Rightarrow> r # pull_all n src s')"

definition result_set_chunks ::
  "('r \<Rightarrow> nat) \<Rightarrow> nat \<Rightarrow> 'r result list \<Rightarrow> 'r list result \<times> 'r result list" where
  "result_set_chunks sz mx rs = pull_chunk sz mx rs"

definition bound_query_chunks ::
  "('r \<Rightarrow> nat) \<Rightarrow> nat \<Rightarrow> ('st \<Rightarrow> 'r result list result) \<Rightarrow> 'r result list option \<times> 'st result list \<Rightarrow>
   'r list result \<times> 'r result list option \<times> 'st result list" where
  "bound_query_chunks sz mx exec s =
     (case next_bound_chunk sz mx exec (fst s) (snd s) of
        (Inl e, s') \<Rightarrow> (Inl e, s')
      | (Inr c, s') \<Rightarrow> (Inr (case c of None \<Rightarrow> [] | Some rows \<Rightarrow> rows), s'))"

section \<open>The reader\<close>

text \<open>
  \<^verbatim>\<open>SpannerBatchReader\<close>: the first chunk, and the items still to come over the channel (\<open>None\<close> once the
  reader has dropped it).
\<close>

record 'r batch_reader =
  first :: "'r list option"
  chunks :: "'r list result list option"

definition reader_next ::
  "('r list \<Rightarrow> 'b result) \<Rightarrow> bool \<Rightarrow> 'r batch_reader \<Rightarrow> 'b result option \<times> 'r batch_reader" where
  "reader_next build latched rd =
     (let rd1 = rd\<lparr>first := None\<rparr>
      in case first rd of
           Some (r # rs) \<Rightarrow> (Some (build (r # rs)), rd1)
         | _ \<Rightarrow>
             (case chunks rd of
                None \<Rightarrow> (None, rd1)
              | Some items \<Rightarrow>
                  if latched then (Some (Inl cancelled_err), rd1\<lparr>chunks := None\<rparr>)
                  else case items of
                         [] \<Rightarrow> (None, rd1\<lparr>chunks := None\<rparr>)
                       | Inr rows # rest \<Rightarrow> (Some (build rows), rd1\<lparr>chunks := Some rest\<rparr>)
                       | Inl e # rest \<Rightarrow> (Some (Inl e), rd1\<lparr>chunks := None\<rparr>)))"

text \<open>
  \<^verbatim>\<open>stream_query\<close>: the first chunk settles the schema, the channel carries the rest of the result set.
\<close>

definition stream_query ::
  "('d, 'dt) crates \<Rightarrow> nat \<Rightarrow> timestamp_precision \<Rightarrow> (rstring list \<times> spanner_type list) option \<Rightarrow>
   wire list result list \<Rightarrow> (field list \<times> wire list list \<times> wire list result list) result" where
  "stream_query K batch_size prec md rs =
     (case pull_chunk approx_row_bytes batch_size rs of
        (Inl e, _) \<Rightarrow> Inl e
      | (Inr rows, rs') \<Rightarrow>
          try_bind (build_schema md (case rows of [] \<Rightarrow> None | r # _ \<Rightarrow> Some r) prec) (\<lambda>schema.
            Inr (schema, rows, rs')))"

text \<open>\<^verbatim>\<open>result_set_to_batch\<close>: drain the whole result set, then convert it in one go.\<close>

fun drain_rows :: "'r result list \<Rightarrow> 'r list result" where
  "drain_rows [] = Inr []"
| "drain_rows (Inl e # rs) = Inl e"
| "drain_rows (Inr r # rs) = try_bind (drain_rows rs) (\<lambda>rows. Inr (r # rows))"

definition result_set_to_batch ::
  "('d, 'dt) crates \<Rightarrow> (rstring list \<times> spanner_type list) option \<Rightarrow> wire list result list \<Rightarrow>
   timestamp_precision \<Rightarrow> (field list \<times> arr list) result" where
  "result_set_to_batch K md rs prec = try_bind (drain_rows rs) (\<lambda>rows. rows_to_batch K md rows prec)"

text \<open>\<^verbatim>\<open>stream_bound_query\<close>: the same after running the first bound row's statement.\<close>

definition stream_bound_query ::
  "('d, 'dt) crates \<Rightarrow> nat \<Rightarrow> timestamp_precision \<Rightarrow>
   ('st \<Rightarrow> ((rstring list \<times> spanner_type list) option \<times> wire list result list) result) \<Rightarrow> 'st result list \<Rightarrow>
   (field list \<times> wire list list option \<times> wire list result list option \<times> 'st result list) result" where
  "stream_bound_query K batch_size prec exec stmts =
     (case stmts of
        [] \<Rightarrow> Inr ([], None, None, [])
      | st # rest \<Rightarrow>
          try_bind st (\<lambda>s.
          try_bind (exec s) (\<lambda>(md, rs).
            case pull_chunk approx_row_bytes batch_size rs of
              (Inl e, _) \<Rightarrow> Inl e
            | (Inr rows, rs') \<Rightarrow>
                try_bind (build_schema md (case rows of [] \<Rightarrow> None | r # _ \<Rightarrow> Some r) prec) (\<lambda>schema.
                  Inr (schema, Some rows, Some rs', rest)))))"

end
