(* ===== verification/Connection.thy ===== *)
theory Connection
  imports Execute ResultStream
begin

text \<open>
  The connection object, \<^verbatim>\<open>src/connection.rs\<close>: options, statements, commit and rollback with the runners
  of \<^verbatim>\<open>src/connection/exec.rs\<close>, table schemas, and the partition descriptors it reads back.

  A connection shares the store, the transaction state, the cancel slots and the server with its
  statements: the \<open>world\<close>.  The runners read the configuration of the object they are called for, which
  a \<open>machine\<close> carries in its statement, so the connection calls them on a machine that holds its own.
\<close>

section \<open>State\<close>

record 'ts connection =
  c_config :: "'ts shared_config"
  c_slot :: nat
  c_database :: rstring

record ('sn, 'v, 'ts, 'srv) world =
  con :: "'ts connection"
  w_store :: arc_store
  w_txns :: "('sn, 'v spanner_sql, 'v mutation) txn_state"
  w_cancels :: cancel_store
  w_server :: 'srv

text \<open>\<^verbatim>\<open>SpannerConnection::new\<close>: defaults, autocommit, a fresh cancel slot.\<close>

definition new_connection :: "rstring \<Rightarrow> arc_store \<Rightarrow> cancel_store \<Rightarrow> 'srv \<Rightarrow> ('sn, 'v, 'ts, 'srv) world" where
  "new_connection db st cs srv =
     (let (c, st') = default_config st; (cs', k) = new_slot cs
      in \<lparr>con = \<lparr>c_config = c, c_slot = k, c_database = db\<rparr>, w_store = st', w_txns = new_txn_state,
          w_cancels = cs', w_server = srv\<rparr>)"

definition connection_catalog :: "'ts connection \<Rightarrow> rstring" where
  "connection_catalog c = database_catalog (c_database c)"

type_synonym ('a, 'sn, 'v, 'ts, 'srv) conn_action =
  "('sn, 'v, 'ts, 'srv) world \<Rightarrow> 'a result \<times> ('sn, 'v, 'ts, 'srv) world"

definition own_machine :: "('sn, 'v, 'ts, 'srv) world \<Rightarrow> ('sn, 'v, 'r, 'ty, 'ts, 'srv) machine" where
  "own_machine w =
     \<lparr>stm = new_statement (c_config (con w)) (c_slot (con w)) (c_database (con w)), store = w_store w,
      txns = w_txns w, cancels = w_cancels w, server = w_server w\<rparr>"

definition put_back ::
  "('sn, 'v, 'r, 'ty, 'ts, 'srv) machine \<Rightarrow> ('sn, 'v, 'ts, 'srv) world \<Rightarrow> ('sn, 'v, 'ts, 'srv) world" where
  "put_back m w = w\<lparr>w_store := store m, w_txns := txns m, w_cancels := cancels m, w_server := server m\<rparr>"

definition as_conn ::
  "('a, 'sn, 'v, 'r, 'ty, 'ts, 'srv) action \<Rightarrow> ('a, 'sn, 'v, 'ts, 'srv) conn_action" where
  "as_conn f w = (case f (own_machine w) of (r, m) \<Rightarrow> (r, put_back m w))"

definition conn_begin_op :: "('sn, 'v, 'ts, 'srv) world \<Rightarrow> ('sn, 'v, 'ts, 'srv) world" where
  "conn_begin_op w = w\<lparr>w_cancels := fst (begin_operation (c_slot (con w)) (w_cancels w))\<rparr>"

text \<open>\<^verbatim>\<open>new_statement\<close>: an inherited configuration and a cancel slot of its own, on the shared world.\<close>

definition open_statement :: "('sn, 'v, 'ts, 'srv) world \<Rightarrow> ('sn, 'v, 'r, 'ty, 'ts, 'srv) machine" where
  "open_statement w =
     (let (c, st') = inherit (c_config (con w)) (w_store w); (cs', k) = new_slot (w_cancels w)
      in \<lparr>stm = new_statement c k (c_database (con w)), store = st', txns = w_txns w, cancels = cs',
          server = w_server w\<rparr>)"

section \<open>Transactions\<close>

definition conn_apply ::
  "('sn, 'v, 'r, 'ty, 'ts, 'b, 'raw, 'bat, 'rd, 't, 'd, 'srv) env \<Rightarrow>
   ('sn, 'v spanner_sql, 'v mutation) manual_txn \<Rightarrow> (unit, 'sn, 'v, 'ts, 'srv) conn_action" where
  "conn_apply E work w =
     apply_manual_txn
       (\<lambda>w ms. as_conn (write_mutations_m E ms) (conn_begin_op w))
       (\<lambda>w ss ms. as_conn (run_batch_txn E ss ms False) (conn_begin_op w))
       (is_read_only (c_config (con w)) (w_store w)) work w"

definition finish ::
  "unit result \<times> ('sn, 'v, 'ts, 'srv) world \<times> ('sn, 'v spanner_sql, 'v mutation) txn_state option \<Rightarrow>
   unit result \<times> ('sn, 'v, 'ts, 'srv) world" where
  "finish out =
     (case out of
        (r, w, Some st) \<Rightarrow> (r, w\<lparr>w_txns := st\<rparr>)
      | (r, w, None) \<Rightarrow> (Inl panicked, w))"

definition conn_commit ::
  "('sn, 'v, 'r, 'ty, 'ts, 'b, 'raw, 'bat, 'rd, 't, 'd, 'srv) env \<Rightarrow> (unit, 'sn, 'v, 'ts, 'srv) conn_action" where
  "conn_commit E w = finish (commit (conn_apply E) (w_txns w) w)"

definition conn_rollback :: "(unit, 'sn, 'v, 'ts, 'srv) conn_action" where
  "conn_rollback w =
     (case rollback (w_txns w) of
        Inl e \<Rightarrow> (Inl e, w)
      | Inr st \<Rightarrow> (Inr (), w\<lparr>w_txns := st\<rparr>))"

definition conn_set_autocommit ::
  "('sn, 'v, 'r, 'ty, 'ts, 'b, 'raw, 'bat, 'rd, 't, 'd, 'srv) env \<Rightarrow> bool \<Rightarrow> (unit, 'sn, 'v, 'ts, 'srv) conn_action" where
  "conn_set_autocommit E enable w = finish (set_autocommit (conn_apply E) enable (w_txns w) w)"

section \<open>Options\<close>

datatype option_connection =
    AutoCommit | ReadOnly | IsolationLevel | CurrentCatalog | CurrentSchema
  | OtherConn rstring | UnlistedConn rstring

fun conn_key_str :: "option_connection \<Rightarrow> rstring" where
  "conn_key_str AutoCommit = lit ''adbc.connection.autocommit''"
| "conn_key_str ReadOnly = lit ''adbc.connection.readonly''"
| "conn_key_str IsolationLevel = lit ''adbc.connection.transaction.isolation_level''"
| "conn_key_str CurrentCatalog = lit ''adbc.connection.catalog''"
| "conn_key_str CurrentSchema = lit ''adbc.connection.db_schema''"
| "conn_key_str (OtherConn k) = k"
| "conn_key_str (UnlistedConn k) = k"

definition check_fixed_catalog_or_schema :: "option_value \<Rightarrow> rstring \<Rightarrow> rstring \<Rightarrow> unit result" where
  "check_fixed_catalog_or_schema value what fixed =
     (case value of
        OString s \<Rightarrow>
          if s = fixed then Inr ()
          else Inl (unsupported (lit ''setting the '' @ what @ lit '': Spanner has no settable '' @ what))
      | _ \<Rightarrow> Inl (invalid_argument (lit ''expected a string '' @ what @ lit '' value'')))"

definition set_config :: "'ts shared_config \<Rightarrow> ('sn, 'v, 'ts, 'srv) world \<Rightarrow> ('sn, 'v, 'ts, 'srv) world" where
  "set_config c w = w\<lparr>con := (con w)\<lparr>c_config := c\<rparr>\<rparr>"

definition set_connection_option ::
  "('sn, 'v, 'r, 'ty, 'ts, 'b, 'raw, 'bat, 'rd, 't, 'd, 'srv) env \<Rightarrow> rounding \<Rightarrow> (rstring \<Rightarrow> 'ts option) \<Rightarrow>
   option_connection \<Rightarrow> option_value \<Rightarrow> (unit, 'sn, 'v, 'ts, 'srv) conn_action" where
  "set_connection_option E rnd rfc key value w =
     (let c = c_config (con w)
      in case key of
           AutoCommit \<Rightarrow>
             seqr (pure (bool_option value (lit ''option adbc.connection.autocommit''))) (conn_set_autocommit E) w
         | ReadOnly \<Rightarrow>
             seqr (pure (bool_option value (lit ''option adbc.connection.readonly'')))
               (\<lambda>b w. (Inr (), w\<lparr>w_store := set_read_only b c (w_store w)\<rparr>)) w
         | IsolationLevel \<Rightarrow>
             seqr (pure (parse_isolation_level value)) (\<lambda>i w. (Inr (), set_config (c\<lparr>isolation := i\<rparr>) w)) w
         | OtherConn k \<Rightarrow>
             if k = OPTION_TRANSACTION_TAG then
               seqr (pure (set_transaction_tag value (request c)))
                 (\<lambda>r w. (Inr (), set_config (c\<lparr>request := r\<rparr>) w)) w
             else
               seqr (pure (set_shared_option rnd rfc k value c)) (\<lambda>r w.
                 case r of
                   None \<Rightarrow> (Inl (unknown_option (lit ''connection'') k), w)
                 | Some c' \<Rightarrow> (Inr (), set_config c' w)) w
         | CurrentCatalog \<Rightarrow>
             (check_fixed_catalog_or_schema value (lit ''current catalog'') (connection_catalog (con w)), w)
         | CurrentSchema \<Rightarrow> (check_fixed_catalog_or_schema value (lit ''current schema'') [], w)
         | UnlistedConn k \<Rightarrow> (Inl (unknown_option (lit ''connection'') k), w))"

definition connection_option_string ::
  "(f64 \<Rightarrow> rstring) \<Rightarrow> option_connection \<Rightarrow> ('sn, 'v, 'ts, 'srv) world \<Rightarrow> rstring result" where
  "connection_option_string sh key w =
     (let c = c_config (con w)
      in case key of
           AutoCommit \<Rightarrow> Inr (bool_string (autocommit (w_txns w)))
         | ReadOnly \<Rightarrow> Inr (bool_string (is_read_only c (w_store w)))
         | IsolationLevel \<Rightarrow> Inr (isolation_to_adbc_string (isolation c))
         | OtherConn k \<Rightarrow>
             if k = OPTION_TRANSACTION_TAG
             then ok_or (option_not_set OPTION_TRANSACTION_TAG) (transaction_tag (request c))
             else shared_option_string sh (w_store w) k c
         | CurrentCatalog \<Rightarrow> Inr (connection_catalog (con w))
         | CurrentSchema \<Rightarrow> Inr []
         | UnlistedConn k \<Rightarrow> Inl (option_not_set k))"

section \<open>Table schemas\<close>

text \<open>
  \<open>query_rows\<close> runs a query in a single-use transaction under a deadline: its metadata and row stream.
\<close>

definition get_table_schema ::
  "('sn, 'v, 'r, 'ty, 'ts, 'b, 'raw, 'bat, 'rd, 't, 'd, 'srv) env \<Rightarrow> ('dd, 'dt) crates \<Rightarrow>
   ('b option \<Rightarrow> 'v spanner_sql \<Rightarrow> nat option \<Rightarrow>
      ((rstring list \<times> spanner_type list) option \<times> wire list result list, 'srv) rpc) \<Rightarrow>
   rstring option \<Rightarrow> rstring option \<Rightarrow> rstring \<Rightarrow> (field list, 'sn, 'v, 'ts, 'srv) conn_action" where
  "get_table_schema E K query_rows cat db_schema table_name w0 =
     (let w = conn_begin_op w0; c = c_config (con w); deadline = query_timeout (timeouts c)
      in seqr (pure (check_lookup_catalog cat (connection_catalog (con w)))) (\<lambda>_.
         seqr (pure (qualified_table db_schema table_name)) (\<lambda>table.
         seqr (pure (timestamp_bound (e_to_bound E) (read_staleness c))) (\<lambda>bd.
         seqr (pure (ok_or panicked (metadata_sql_builder c))) (\<lambda>b w1.
           case query_rows bd (plain_sql b (lit ''SELECT * FROM '' @ table @ lit '' LIMIT 0'')) deadline
                  (w_server w1) of
             (out, srv) \<Rightarrow>
               (case try_bind out (\<lambda>(md, rs). result_set_to_batch K md rs (timestamp_precision c)) of
                  Inr (sch, _) \<Rightarrow> (Inr sch, w1\<lparr>w_server := srv\<rparr>)
                | Inl error \<Rightarrow>
                    (case e_table_exists E (case db_schema of None \<Rightarrow> [] | Some s \<Rightarrow> s) table_name deadline srv of
                       (Inr False, srv') \<Rightarrow>
                         (Inl (err (lit ''table '' @ table_name @ lit '' not found'') NotFound), w1\<lparr>w_server := srv'\<rparr>)
                     | (_, srv') \<Rightarrow> (Inl error, w1\<lparr>w_server := srv'\<rparr>))))))) w)"

section \<open>Partition descriptors\<close>

text \<open>\<^verbatim>\<open>serde_json\<close>: printing and parsing JSON text, and the serde form of the client's \<^verbatim>\<open>Partition\<close>.\<close>

record 'p serde =
  to_value :: "'p \<Rightarrow> json option"
  from_value :: "json \<Rightarrow> 'p option"
  to_vec :: "json \<Rightarrow> u8 list option"
  from_slice :: "u8 list \<Rightarrow> json option"

definition PARTITION_DESCRIPTOR_VERSION :: nat where
  "PARTITION_DESCRIPTOR_VERSION = 1"

definition encode_partition :: "'p serde \<Rightarrow> 'p \<Rightarrow> u8 list result" where
  "encode_partition S p =
     (let internal = err (lit ''failed to serialize partition descriptor'') Internal
      in try_bind (ok_or internal (to_value S p)) (\<lambda>payload.
         ok_or internal (to_vec S (JObject [(lit ''v'', JUint PARTITION_DESCRIPTOR_VERSION), (lit ''partition'', payload)]))))"

definition json_get :: "json \<Rightarrow> rstring \<Rightarrow> json option" where
  "json_get j k = (case j of JObject kvs \<Rightarrow> map_of kvs k | _ \<Rightarrow> None)"

fun as_u64 :: "json \<Rightarrow> nat option" where
  "as_u64 (JUint n) = Some n"
| "as_u64 _ = None"

definition decode_partition :: "'p serde \<Rightarrow> u8 list \<Rightarrow> 'p result" where
  "decode_partition S descriptor =
     (let invalid = invalid_argument (lit ''invalid partition descriptor'')
      in try_bind (ok_or invalid (from_slice S descriptor)) (\<lambda>value.
         try_bind (ok_or (invalid_argument (lit ''invalid partition descriptor: missing v version field''))
             (json_get value (lit ''v''))) (\<lambda>v.
         try_bind (ok_or (invalid_argument (lit ''invalid partition descriptor: version is not an unsigned integer''))
             (as_u64 v)) (\<lambda>n.
         if n \<noteq> PARTITION_DESCRIPTOR_VERSION
         then Inl (invalid_argument (lit ''partition descriptor version not supported by this driver''))
         else
           try_bind (ok_or (invalid_argument (lit ''invalid partition descriptor: missing partition field''))
             (json_get value (lit ''partition''))) (\<lambda>payload.
           ok_or invalid (from_value S payload))))))"

text \<open>\<open>exec\<close> is \<^verbatim>\<open>partition.execute\<close>; the rows stream out exactly as those of a query do.\<close>

definition read_partition ::
  "('dd, 'dt) crates \<Rightarrow> 'p serde \<Rightarrow>
   ('p \<Rightarrow> nat option \<Rightarrow> ((rstring list \<times> spanner_type list) option \<times> wire list result list, 'srv) rpc) \<Rightarrow>
   u8 list \<Rightarrow>
   (field list \<times> wire list list \<times> wire list result list, 'sn, 'v, 'ts, 'srv) conn_action" where
  "read_partition K S exec descriptor w0 =
     (let w = conn_begin_op w0; c = c_config (con w)
      in seqr (pure (decode_partition S descriptor)) (\<lambda>p w1.
           case exec p (query_timeout (timeouts c)) (w_server w1) of
             (out, srv) \<Rightarrow>
               (try_bind out (\<lambda>(md, rs). stream_query K DEFAULT_ROWS_PER_BATCH (timestamp_precision c) md rs),
                w1\<lparr>w_server := srv\<rparr>)) w)"

definition table_types :: "rstring list" where
  "table_types = [lit ''BASE TABLE'', lit ''VIEW'']"

end
