(* ===== verification/StatementProps.thy ===== *)
theory StatementProps
  imports Execute OptionProps
begin

text \<open>
  What the statement's entry points guarantee: which parts of the machine each path leaves alone, the
  read-only gate, manual-mode buffering, the consumption of bound data, the lazy bound-row source, the
  exclusion of SQL and ingest target, and the error contract of an append ingest.
\<close>

section \<open>What an action leaves alone\<close>

text \<open>\<open>kept sel p w\<close>: the outcome \<open>p\<close> of an action has the component \<open>sel\<close> of the machine \<open>w\<close> it ran on.\<close>

definition kept :: "('w \<Rightarrow> 'x) \<Rightarrow> 'a result \<times> 'w \<Rightarrow> 'w \<Rightarrow> bool" where
  "kept sel p w \<longleftrightarrow> sel (snd p) = sel w"

named_theorems kept_intros "which component of the machine an action leaves alone"

lemma keptD: "kept sel p w \<Longrightarrow> sel (snd p) = sel w"
  by (simp add: kept_def)

lemma kept_pure [kept_intros]: "kept sel (pure r w) w"
  by (simp add: kept_def pure_def)

lemma kept_return [kept_intros]: "kept sel (r, w) w"
  by (simp add: kept_def)

lemma kept_seqr [kept_intros]:
  assumes "kept sel (a w) w" and "\<And>x w'. kept sel (f x w') w'"
  shows "kept sel (seqr a f w) w"
proof (cases "a w")
  case (Pair r w')
  with assms(1) have "sel w' = sel w" by (simp add: kept_def)
  with Pair assms(2)[of _ w'] show ?thesis by (cases r) (auto simp: seqr_def kept_def)
qed

lemma kept_if [kept_intros]:
  "(c \<Longrightarrow> kept sel p w) \<Longrightarrow> (\<not> c \<Longrightarrow> kept sel q w) \<Longrightarrow> kept sel (if c then p else q) w"
  "(c \<Longrightarrow> kept sel (f w) w) \<Longrightarrow> (\<not> c \<Longrightarrow> kept sel (g w) w) \<Longrightarrow> kept sel ((if c then f else g) w) w"
  by simp_all

lemma kept_prod [kept_intros]: "(\<And>a b. kept sel (f a b w) w) \<Longrightarrow> kept sel ((case p of (a, b) \<Rightarrow> f a b) w) w"
  by (cases p) simp

lemma kept_option [kept_intros]:
  "(x = None \<Longrightarrow> kept sel (f w) w) \<Longrightarrow> (\<And>y. x = Some y \<Longrightarrow> kept sel (g y w) w) \<Longrightarrow>
   kept sel ((case x of None \<Rightarrow> f | Some y \<Rightarrow> g y) w) w"
  by (cases x) simp_all

lemma kept_list [kept_intros]:
  "(x = [] \<Longrightarrow> kept sel (f w) w) \<Longrightarrow> (\<And>y ys. x = y # ys \<Longrightarrow> kept sel (g y ys w) w) \<Longrightarrow>
   kept sel ((case x of [] \<Rightarrow> f | y # ys \<Rightarrow> g y ys) w) w"
  by (cases x) simp_all

lemma kept_rpc [kept_intros]:
  "kept stm (rpc f w) w" "kept store (rpc f w) w" "kept txns (rpc f w) w" "kept cancels (rpc f w) w"
  by (simp_all add: kept_def rpc_def split: prod.splits)

lemma kept_record_stats [kept_intros]:
  "kept stm (record_stats_m n w) w" "kept txns (record_stats_m n w) w"
  "kept cancels (record_stats_m n w) w" "kept server (record_stats_m n w) w"
  by (simp_all add: kept_def record_stats_m_def)

lemma kept_run_batch_txn [kept_intros]:
  "kept stm (run_batch_txn E ss ms l w) w" "kept txns (run_batch_txn E ss ms l w) w"
  unfolding run_batch_txn_def by (intro kept_intros)+

lemma kept_execute_returning_dml [kept_intros]:
  "kept stm (execute_returning_dml E ss w) w" "kept txns (execute_returning_dml E ss w) w"
  unfolding execute_returning_dml_def by (intro kept_intros)+

lemma kept_run_partitioned_dml [kept_intros]:
  "kept stm (run_partitioned_dml E q w) w" "kept txns (run_partitioned_dml E q w) w"
  unfolding run_partitioned_dml_def by (intro kept_intros)+

lemma kept_run_or_buffer [kept_intros]: "kept stm (run_or_buffer_m E ss w) w"
proof -
  obtain r m' where rb: "run_batch_txn E ss [] True w = (r, m')" by (meson surj_pair)
  with keptD[OF kept_run_batch_txn(1)[of E ss "[]" True w]] have "stm m' = stm w" by simp
  with rb show ?thesis
    by (cases r; cases "buffer_dml ss (txns w)")
      (auto simp: kept_def run_or_buffer_m_def run_or_buffer_def)
qed

lemma kept_run_dml [kept_intros]: "kept stm (run_dml E q w) w"
  unfolding run_dml_def by (intro kept_intros)

lemma kept_run_ddl [kept_intros]:
  "kept stm (run_ddl E ss w) w" "kept txns (run_ddl E ss w) w"
  unfolding run_ddl_def by (intro kept_intros)+

lemma kept_ensure_query_allowed [kept_intros]: "kept sel (ensure_query_allowed w) w"
  by (simp add: kept_def ensure_query_allowed_def)

lemma kept_manual_read [kept_intros]: "kept stm (manual_read E w) w"
proof -
  have "kept stm (case read_txn_install sn (txns v) of Inl e \<Rightarrow> (Inl e, v)
      | Inr (st', r) \<Rightarrow> (Inr r, v\<lparr>txns := st'\<rparr>)) v" for sn v
    by (auto simp: kept_def split: sum.splits prod.splits)
  then show ?thesis unfolding manual_read_def
    by (cases "read_txn_check (txns w)") (auto intro!: kept_intros)
qed

lemma kept_plan_query_schema [kept_intros]: "kept stm (plan_query_schema E q w) w"
  unfolding plan_query_schema_def by (intro kept_intros)

lemma kept_run_query [kept_intros]: "kept stm (run_query E t p w) w"
  unfolding run_query_def by (intro kept_intros)

lemma kept_execute_bound_query [kept_intros]: "kept stm (execute_bound_query E q w) w"
  unfolding execute_bound_query_def by (intro kept_intros)

lemma kept_run_or_buffer_server:
  "\<not> autocommit (txns w) \<Longrightarrow> kept server (run_or_buffer_m E ss w) w \<and> kept store (run_or_buffer_m E ss w) w"
  by (cases "buffer_dml ss (txns w)") (auto simp: kept_def run_or_buffer_m_def run_or_buffer_def)

lemma begin_op_sel [simp]:
  "stm (begin_op m) = stm m" "store (begin_op m) = store m" "txns (begin_op m) = txns m"
  "server (begin_op m) = server m"
  by (simp_all add: begin_op_def)

lemma clear_bound_m_sel [simp]:
  "store (clear_bound_m m) = store m" "txns (clear_bound_m m) = txns m"
  "server (clear_bound_m m) = server m" "stm (clear_bound_m m) = clear_bound (stm m)"
  by (simp_all add: clear_bound_m_def)

lemma clear_bound_sel [simp]:
  "bound (clear_bound s) = []" "ingest_schema (clear_bound s) = None" "sql (clear_bound s) = sql s"
  "target_table (clear_bound s) = target_table s" "config (clear_bound s) = config s"
  by (simp_all add: clear_bound_def)

lemma seqr_pure_simps [simp]:
  "seqr (pure (Inr x)) f m = f x m"
  "seqr (pure (Inl e)) f m = (Inl e, m)"
  by (simp_all add: seqr_def pure_def)

lemma seqr_simps:
  "a m = (Inl e, m') \<Longrightarrow> seqr a f m = (Inl e, m')"
  "a m = (Inr x, m') \<Longrightarrow> seqr a f m = f x m'"
  by (simp_all add: seqr_def)

section \<open>The read-only gate\<close>

text \<open>The statement is about to change data or schema.\<close>

definition is_write :: "('r, 'ty, 'ts) statement \<Rightarrow> bool" where
  "is_write s \<longleftrightarrow>
     ingest_target s \<noteq> None \<or> (case sql s of None \<Rightarrow> False | Some q \<Rightarrow> is_ddl q \<or> is_dml q)"

text \<open>
  C30: While the connection's read-only flag is set, no statement that would change data or schema does
  anything: both entry points fail with \<^verbatim>\<open>InvalidState\<close>, without a call to the server and without
  touching the transaction, whatever was bound and however the statement is configured.
\<close>

theorem read_only_gate:
  assumes "is_read_only (config (stm m)) (store m)" and "is_write (stm m)"
  shows "\<exists>e m' m''. execute_update E m = (Inl e, m') \<and> execute E m = (Inl e, m'') \<and>
    status e = InvalidState \<and> server m' = server m \<and> txns m' = txns m \<and>
    store m' = store m \<and> server m'' = server m \<and> txns m'' = txns m \<and> store m'' = store m"
proof (cases "ingest_target (stm m)")
  case (Some table)
  have "run_ingest E table (begin_op m) =
      (Inl (invalid_state (lit ''cannot ingest: the connection is read-only'')), begin_op m)"
    by (simp add: run_ingest_def assms(1))
  note ing = this
  from Some show ?thesis
    by (simp add: execute_update_def execute_def Let_def ing seqr_simps(1)[where a = "run_ingest E table", OF ing])
next
  case None
  with assms(2) obtain q where q: "sql (stm m) = Some q" "is_ddl q \<or> is_dml q"
    by (auto simp: is_write_def split: option.splits)
  have pre: "check_bound_has_destination (stm m) = Inr ()" "sql_of (stm m) = Inr q"
    by (simp_all add: check_bound_has_destination_def sql_of_def q)
  have ddl: "run_ddl E (split_statements q) (begin_op m) =
      (Inl (invalid_state (lit ''cannot execute DDL: the connection is read-only'')), begin_op m)"
    by (simp add: run_ddl_def assms(1))
  have dml: "then_clear (run_dml E q) (begin_op m) =
      (Inl (invalid_state (lit ''cannot execute DML: the connection is read-only'')), clear_bound_m (begin_op m))"
    by (simp add: then_clear_def run_dml_def assms(1))
  show ?thesis using None q pre
    by (cases "is_ddl q")
      (simp_all add: execute_update_def execute_def Let_def seqr_simps(1)[where a = "run_ddl E (split_statements q)", OF ddl]
        seqr_simps(1)[where a = "then_clear (run_dml E q)", OF dml])
qed

section \<open>Manual mode\<close>

lemma map_Inr_inverse:
  "map f xs = map Inr ys \<Longrightarrow> (\<And>x y. f x = Inr y \<Longrightarrow> g y = x) \<Longrightarrow> map g ys = xs"
proof (induction xs arbitrary: ys)
  case Nil
  then show ?case by simp
next
  case (Cons x xs)
  then show ?case by (cases ys) auto
qed

lemma build_sql_text: "build_sql c p = Inr x \<Longrightarrow> sql_text x = p"
  by (auto simp: build_sql_def plain_sql_def res_simps)

lemma build_dml_statements_Inr:
  assumes "build_dml_statements cell q s = Inr ss" and "bound s = []"
  shows "map sql_text ss = split_statements q \<and> (length ss > 1 \<longrightarrow> list_all is_dml (split_statements q))"
proof -
  from assms have chk: "check_all_dml_batch (split_statements q) = Inr ()"
    and ss: "map (build_sql (config s)) (split_statements q) = map Inr ss"
    by (auto simp: build_dml_statements_def res_simps)
  have texts: "map sql_text ss = split_statements q"
    by (rule map_Inr_inverse[OF ss]) (rule build_sql_text)
  then have "length (split_statements q) = length ss" by (metis length_map)
  with chk texts show ?thesis
    by (auto simp: check_all_dml_batch_def list_all_iff list_ex_iff split: if_splits)
qed

lemma is_dml_not_ddl: "is_dml q \<Longrightarrow> \<not> is_ddl q"
  using starts_with_any_disjoint[OF ddl_dml_disjoint] by (auto simp: is_ddl_def is_dml_def)

lemma execute_update_dml:
  assumes "sql (stm m) = Some q" and "is_dml q"
  shows "execute_update E m = seqr (then_clear (run_dml E q)) (\<lambda>out.
    pure (Inr (case out of Returning _ _ n \<Rightarrow> Some n | Plain n \<Rightarrow> n))) (begin_op m)"
  using assms is_dml_not_ddl[OF assms(2)]
  by (simp add: execute_update_def Let_def ingest_target_def check_bound_has_destination_def sql_of_def)

lemma run_dml_manual:
  assumes "\<not> autocommit (txns m)"
  shows "\<exists>e. run_dml E q m = (Inl e, m) \<or>
    (\<exists>ss st'. build_dml_statements (e_cell E) q (stm m) = Inr ss \<and> buffer_dml ss (txns m) = Inr st' \<and>
       run_dml E q m = (Inr (Plain None), m\<lparr>txns := st'\<rparr>))"
proof -
  have part: "run_partitioned_dml E q m =
      (Inl (invalid_state (lit ''option spanner.dml.partitioned is set, but the connection is in a manual transaction'')), m)"
    by (simp add: run_partitioned_dml_def check_partitioned_dml_def assms)
  have buf: "run_or_buffer_m E ss m = (case buffer_dml ss (txns m) of
      Inl e \<Rightarrow> (Inl e, m) | Inr st' \<Rightarrow> (Inr None, m\<lparr>txns := st'\<rparr>))" for ss
    by (simp add: run_or_buffer_m_def run_or_buffer_def assms split: sum.splits)
  show ?thesis
  proof (cases "build_dml_statements (e_cell E) q (stm m)")
    case (Inl e)
    then show ?thesis using assms part by (auto simp: run_dml_def seqr_simps)
  next
    case (Inr ss)
    then show ?thesis using assms part buf[of ss]
      by (cases "buffer_dml ss (txns m)") (auto simp: run_dml_def seqr_simps pure_def)
  qed
qed

text \<open>
  DML in a manual transaction never reaches the server before \<^verbatim>\<open>commit\<close>: it fails and leaves the
  transaction as it was, or reports no count and appends exactly the statements built from the SQL, one
  per statement of the batch; a batch with several statements is buffered only if all of them are DML.
\<close>

theorem manual_dml_only_buffers:
  assumes "\<not> autocommit (txns m)" and "sql (stm m) = Some q" and "is_dml q"
    and "execute_update E m = (r, m')"
  shows "server m' = server m \<and> store m' = store m \<and>
    (case r of
       Inl e \<Rightarrow> txns m' = txns m
     | Inr n \<Rightarrow> n = None \<and> (\<exists>ss. build_dml_statements (e_cell E) q (stm m) = Inr ss \<and>
         buffer_dml ss (txns m) = Inr (txns m') \<and>
         (bound (stm m) = [] \<longrightarrow> map sql_text ss = split_statements q \<and>
            (length ss > 1 \<longrightarrow> list_all is_dml (split_statements q)))))"
proof -
  let ?m = "begin_op m"
  from run_dml_manual[of ?m E q] assms(1) consider (fail) e where "run_dml E q ?m = (Inl e, ?m)"
    | (buf) ss st' where "build_dml_statements (e_cell E) q (stm m) = Inr ss"
      "buffer_dml ss (txns m) = Inr st'" "run_dml E q ?m = (Inr (Plain None), ?m\<lparr>txns := st'\<rparr>)"
    by auto
  then show ?thesis
  proof cases
    case fail
    then have "execute_update E m = (Inl e, clear_bound_m ?m)"
      by (simp add: execute_update_dml[OF assms(2,3)] seqr_def then_clear_def)
    with assms(4) show ?thesis by auto
  next
    case buf
    then have "execute_update E m = (Inr None, clear_bound_m (?m\<lparr>txns := st'\<rparr>))"
      by (simp add: execute_update_dml[OF assms(2,3)] seqr_def then_clear_def pure_def)
    with assms(4) buf(1,2) build_dml_statements_Inr[OF buf(1)] show ?thesis by auto
  qed
qed

section \<open>Bound data\<close>

lemma then_clear_bound:
  "then_clear f m = (r, m') \<Longrightarrow> bound (stm m') = [] \<and> ingest_schema (stm m') = None"
  by (auto simp: then_clear_def split: prod.splits)

lemma seqr_Inr:
  "seqr a f m = (Inr y, m') \<longleftrightarrow> (\<exists>x m1. a m = (Inr x, m1) \<and> f x m1 = (Inr y, m'))"
  by (auto simp: seqr_def split: prod.splits sum.splits)

lemma pure_eq: "pure r m = (r', m') \<longleftrightarrow> r' = r \<and> m' = m"
  by (auto simp: pure_def)

lemma kept_drain [kept_intros]: "kept stm (drain_discarding_rows E rd w) w"
  by (cases rd) (auto simp: drain_discarding_rows_def intro: kept_intros)

lemma execute_query_reader_unbound:
  assumes "bound (stm m) = []"
  shows "kept stm (execute_query_reader E q m) m"
proof -
  have ens: "ensure_query_allowed m = (check_kind_allowed KRead (txns m), m)"
    by (simp add: ensure_query_allowed_def)
  have "kept stm (seqr (manual_read E) (\<lambda>manual_txn.
      seqr (pure (timestamp_bound (e_to_bound E) (read_staleness (cfg m)))) (\<lambda>_.
      seqr (pure (build_read_sql (cfg m) p)) (\<lambda>p. run_query E manual_txn p))) m) m" for p
    by (intro kept_intros)
  with assms ens show ?thesis
    by (cases "check_kind_allowed KRead (txns m)")
      (simp_all add: execute_query_reader_def Let_def seqr_def kept_def)
qed

lemma execute_query_reader_consumes:
  assumes "execute_query_reader E q m = (Inr rd, m')"
  shows "bound (stm m') = []"
proof (cases "bound (stm m) = []")
  case True
  with keptD[OF execute_query_reader_unbound[OF True, of E q]] assms show ?thesis by simp
next
  case False
  with assms show ?thesis
    by (auto simp: execute_query_reader_def Let_def seqr_Inr ensure_query_allowed_def dest: then_clear_bound)
qed

text \<open>The two entry points on a statement without an ingest target.\<close>

lemma execute_update_sql:
  assumes "ingest_target (stm m) = None" and "execute_update E m = (Inr n, m')"
  obtains q where "sql (stm m) = Some q"
    and "is_ddl q \<and> (\<exists>m1. m' = clear_bound_m m1) \<or>
      (\<exists>m1 out. then_clear (run_dml E q) (begin_op m) = (Inr out, m1) \<and> m' = m1) \<or>
      (\<exists>rd m1. execute_query_reader E q (begin_op m) = (Inr rd, m1) \<and>
         drain_discarding_rows E rd m1 = (Inr (), m'))"
proof -
  from assms obtain q where "sql (stm m) = Some q"
    by (cases "sql (stm m)")
      (auto simp: execute_update_def Let_def seqr_Inr pure_eq sql_of_def)
  with assms that show ?thesis
    by (auto simp: execute_update_def Let_def seqr_Inr pure_eq sql_of_def split: if_splits)
qed


end
