(* ===== verification/ExecuteProps.thy ===== *)
theory ExecuteProps
  imports StatementProps
begin

text \<open>
  The lazy source of bound statements against its eager reading, the statement invariant over any
  sequence of calls, and the error contract of an append ingest.
\<close>

section \<open>The lazy bound-row source\<close>

text \<open>What the source has still to yield: the rest of the current group, then the later groups.\<close>

definition group_statements ::
  "(rstring \<Rightarrow> 'r \<Rightarrow> nat \<Rightarrow> 'v result) \<Rightarrow> 'v spanner_sql \<Rightarrow> rstring list \<times> 'r batch \<Rightarrow> 'v spanner_sql result list" where
  "group_statements cell base g = map (bind_params cell base (fst g)) (rows (snd g))"

definition pending ::
  "(rstring \<Rightarrow> 'r \<Rightarrow> nat \<Rightarrow> 'v result) \<Rightarrow> ('v, 'r) lazy_bound \<Rightarrow> 'v spanner_sql result list" where
  "pending cell lb =
     (case drop (lb_group lb) (lb_groups lb) of
        [] \<Rightarrow> []
      | g # gs \<Rightarrow> drop (lb_row lb) (group_statements cell (lb_base lb) g)
                   @ concat (map (group_statements cell (lb_base lb)) gs))"

lemma drop_Cons_nth: "i < length xs \<Longrightarrow> drop i xs = xs ! i # drop (Suc i) xs"
  by (simp add: Cons_nth_drop_Suc)

lemma pending_next_group:
  assumes "lb_group lb < length (lb_groups lb)"
    and "num_rows (snd (lb_groups lb ! lb_group lb)) \<le> lb_row lb"
  shows "pending cell (lb\<lparr>lb_group := lb_group lb + 1, lb_row := 0\<rparr>) = pending cell lb"
  using assms
  by (simp add: pending_def drop_Cons_nth group_statements_def)
    (cases "drop (Suc (lb_group lb)) (lb_groups lb)"; simp)

lemma next_statement_pending:
  "(case next_statement cell lb of
      (None, _) \<Rightarrow> pending cell lb = []
    | (Some s, lb') \<Rightarrow> pending cell lb = s # pending cell lb')"
proof (induction cell lb rule: next_statement.induct)
  case (1 cell lb)
  show ?case
  proof (cases "lb_group lb \<ge> length (lb_groups lb)")
    case True
    then show ?thesis by (subst next_statement.simps) (simp add: pending_def)
  next
    case False
    obtain names b where g: "lb_groups lb ! lb_group lb = (names, b)" by (meson surj_pair)
    show ?thesis
    proof (cases "lb_row lb \<ge> num_rows b")
      case True
      then have nx: "next_statement cell lb = next_statement cell (lb\<lparr>lb_group := lb_group lb + 1, lb_row := 0\<rparr>)"
        using False g by (subst next_statement.simps) simp
      have pn: "pending cell (lb\<lparr>lb_group := lb_group lb + 1, lb_row := 0\<rparr>) = pending cell lb"
        by (rule pending_next_group) (use False g True in auto)
      show ?thesis unfolding nx using "1.IH"[OF False g[symmetric] refl True] unfolding pn .
    next
      case row: False
      then have nx: "next_statement cell lb =
          (Some (bind_params cell (lb_base lb) names (rows b ! lb_row lb)), lb\<lparr>lb_row := lb_row lb + 1\<rparr>)"
        using False g by (subst next_statement.simps) simp
      show ?thesis unfolding nx using False row g
        by (simp add: pending_def drop_Cons_nth[of "lb_group lb"] group_statements_def drop_map
            drop_Cons_nth[of "lb_row lb" "rows b"])
    qed
  qed
qed

lemma lazy_statements_take: "lazy_statements cell fuel lb = take fuel (pending cell lb)"
proof (induction fuel arbitrary: lb)
  case 0
  then show ?case by (subst lazy_statements.simps) simp
next
  case (Suc fuel)
  with next_statement_pending[of cell lb] show ?case
    by (subst lazy_statements.simps) (auto split: prod.splits option.splits)
qed

lemma pending_start:
  "pending cell (lazy_source base gs) = concat (map (group_statements cell base) gs)"
  by (cases gs) (simp_all add: pending_def lazy_source_def)

lemma length_group_statements: "length (concat (map (group_statements cell base) gs)) = group_rows gs"
  by (simp add: length_concat comp_def group_statements_def group_rows_def)

text \<open>
  The lazy source behind a bound query yields exactly the statements of an eager pass: every bound row
  of every non-empty batch once, in bind order, each under its own batch's parameter names.
\<close>

theorem lazy_source_is_eager:
  "lazy_statements cell (group_rows gs + 1) (lazy_source base gs) =
   concat (map (\<lambda>(names, b). map (bind_params cell base names) (rows b)) gs)"
proof -
  have "(\<lambda>(names, b). map (bind_params cell base names) (rows b)) = group_statements cell base"
    by (auto simp: group_statements_def)
  with length_group_statements[of cell base gs] show ?thesis
    by (simp add: lazy_statements_take pending_start)
qed

section \<open>The ingest paths leave the statement alone\<close>

lemma kept_ingest_table_exists [kept_intros]: "kept stm (ingest_table_exists E t w) w"
  unfolding ingest_table_exists_def by (intro kept_intros)

lemma kept_check_empty_append_target [kept_intros]: "kept stm (check_empty_append_target E t n w) w"
  using keptD[OF kept_ingest_table_exists[of E t w]]
  by (auto simp: check_empty_append_target_def kept_def split: prod.splits sum.splits bool.splits)

lemma kept_write_mutations [kept_intros]: "kept stm (write_mutations_m E ms w) w"
  unfolding write_mutations_m_def write_mutations_txn_def by (intro kept_intros)

lemma kept_batch_write [kept_intros]: "kept stm (batch_write_m E ms p w) w"
  by (simp add: batch_write_m_def kept_def split: prod.splits)

lemma kept_write_mutation_range:
  assumes wr: "\<And>ms w. kept sel (commit_ms ms w) w"
  shows "kept sel (write_mutation_range build commit_ms a b p w) w"
proof (induction "b - a" arbitrary: a b p w rule: less_induct)
  case less
  show ?case
  proof (cases "build a b")
    case (Inl e)
    then show ?thesis by (subst write_mutation_range.simps) (simp add: kept_def)
  next
    case (Inr ms)
    obtain r w1 where c: "commit_ms ms w = (r, w1)" by (meson surj_pair)
    with wr[of ms w] have w1: "sel w1 = sel w" by (simp add: kept_def)
    show ?thesis
    proof (cases "\<exists>e. r = Inl e \<and> b - a > 1 \<and> is_mutation_limit_exceeded e")
      case False
      with Inr c w1 show ?thesis
        by (subst write_mutation_range.simps) (auto simp: kept_def split: sum.splits)
    next
      case True
      define mid where "mid = a + (b - a) div 2"
      have lt: "mid - a < b - a" "b - mid < b - a" using True by (auto simp: mid_def)
      obtain l w2 where l: "write_mutation_range build commit_ms a mid p w1 = (l, w2)" by (meson surj_pair)
      have w2: "sel w2 = sel w1" using less(1)[OF lt(1), of p w1] l by (simp add: kept_def)
      have w3: "sel (snd (write_mutation_range build commit_ms mid b p' w2)) = sel w2" for p'
        using less(1)[OF lt(2), of p' w2] by (simp add: kept_def)
      show ?thesis
      proof (cases l)
        case (Inl e)
        with True Inr c l w1 w2 show ?thesis
          by (subst write_mutation_range.simps) (auto simp: kept_def mid_def[symmetric])
      next
        case l': (Inr x)
        obtain r3 v3 where r3: "write_mutation_range build commit_ms mid b (p + x) w2 = (r3, v3)"
          by (meson surj_pair)
        with w3[of "p + x"] have "sel v3 = sel w2" by simp
        with True Inr c l l' r3 w1 w2 show ?thesis
          by (subst write_mutation_range.simps)
            (auto simp: kept_def mid_def[symmetric] split: sum.splits)
      qed
    qed
  qed
qed

lemma kept_commit_ingest_range:
  assumes "\<And>ms w. kept sel (commit_ms ms w) w" and "\<And>ms p w. kept sel (bw ms p w) w"
  shows "kept sel (commit_ingest_range flg build commit_ms bw a b p w) w"
  using assms(2) kept_write_mutation_range[OF assms(1)]
  by (auto simp: commit_ingest_range_def kept_def split: sum.splits)

lemma kept_walk_rows:
  assumes "\<And>a b p w. kept sel (commit_range a b p w) w"
  shows "kept sel (walk_rows commit_range cols rb n wk w) w"
proof (induction n arbitrary: wk w)
  case 0
  then show ?case by (simp add: kept_def)
next
  case (Suc n)
  obtain r w1 where c: "commit_range (chunk_start wk) (row_index wk) (total wk) w = (r, w1)"
    by (meson surj_pair)
  with assms[of "chunk_start wk" "row_index wk" "total wk" w] have "sel w1 = sel w" by (simp add: kept_def)
  with c Suc[of _ w1] Suc[of _ w] show ?case by (auto simp: kept_def split: sum.splits)
qed

lemma kept_walk_batches:
  assumes "\<And>a b p w. kept sel (commit_range a b p w) w"
  shows "kept sel (walk_batches commit_range bs wk w) w"
proof (induction bs arbitrary: wk w)
  case Nil
  then show ?case by (simp add: kept_def)
next
  case (Cons b bs)
  obtain r w1 where c: "walk_rows commit_range (num_columns b)
      (memory_size b div max (num_rows b) 1) (num_rows b) wk w = (r, w1)" by (meson surj_pair)
  with kept_walk_rows[where commit_range = commit_range and sel = sel and cols = "num_columns b"
      and rb = "memory_size b div max (num_rows b) 1" and n = "num_rows b" and wk = wk and w = w, OF assms]
  have "sel w1 = sel w" by (simp add: kept_def)
  with c Cons[of _ w1] show ?case by (auto simp: kept_def split: sum.splits)
qed

lemma kept_ingest_autocommit:
  assumes "\<And>a b p w. kept sel (commit_range a b p w) w"
  shows "kept sel (ingest_autocommit commit_range bs w) w"
proof -
  obtain r w1 where c: "walk_batches commit_range bs start_walk w = (r, w1)" by (meson surj_pair)
  with kept_walk_batches[where commit_range = commit_range and sel = sel and bs = bs
      and wk = start_walk and w = w, OF assms] have w1: "sel w1 = sel w" by (simp add: kept_def)
  show ?thesis
  proof (cases r)
    case (Inl e)
    with c w1 show ?thesis by (simp add: ingest_autocommit_def kept_def)
  next
    case (Inr wk)
    with c w1 assms[of "chunk_start wk" "row_index wk" "total wk" w1] show ?thesis
      by (auto simp: ingest_autocommit_def kept_def split: sum.splits prod.splits)
  qed
qed

lemma kept_run_ingest_mutations [kept_intros]: "kept stm (run_ingest_mutations E t w) w"
proof -
  have buf: "kept stm (case buffer_mutations ms (txns v) of (Inl e, st') \<Rightarrow> (Inl e, v\<lparr>txns := st'\<rparr>)
      | (Inr _, st') \<Rightarrow> (Inr None, v\<lparr>txns := st'\<rparr>)) v" for ms v
    by (auto simp: kept_def split: prod.splits sum.splits)
  have auto_c: "kept stm (ingest_autocommit (commit_ingest_range f b (write_mutations_m E) (batch_write_m E)) bs v) v"
    for f b bs v
    by (intro kept_ingest_autocommit kept_commit_ingest_range kept_intros)
  show ?thesis unfolding run_ingest_mutations_def Let_def
    by (intro kept_intros buf auto_c)
qed

lemma kept_map_err:
  assumes "kept sel (g w) w" and "\<And>e v. sel (snd (f e v)) = sel v"
  shows "kept sel (map_err_m f g w) w"
proof (cases "g w")
  case (Pair r v)
  with assms(1) have v: "sel v = sel w" by (simp add: kept_def)
  with Pair assms(2)[of _ v] show ?thesis by (cases r) (auto simp: map_err_m_def kept_def)
qed

lemma kept_remaps:
  "stm (snd (remap_ingest_append_error E t e m)) = stm m"
  "stm (snd (remap_ingest_create_error E t e m)) = stm m"
  using keptD[OF kept_ingest_table_exists[of E t m]]
  by (auto simp: remap_ingest_append_error_def remap_ingest_create_error_def split: prod.splits sum.splits bool.splits)

lemma kept_run_bound_ingest [kept_intros]: "kept stm (run_bound_ingest E t w) w"
  unfolding run_bound_ingest_def
  by (intro kept_intros kept_map_err kept_remaps)

section \<open>The statement invariant\<close>

datatype ('r, 'ty) stmt_call =
    SetSqlQuery rstring | SetOption option_statement option_value
  | BindBatch "'ty schema \<times> 'r batch" | BindStream "'ty schema" "(rstring + 'r batch) list"
  | Execute | ExecuteUpdate | ExecuteSchema | ExecutePartitions

definition or_keep :: "'a result \<Rightarrow> 'a \<Rightarrow> 'a" where
  "or_keep r x = (case r of Inl _ \<Rightarrow> x | Inr y \<Rightarrow> y)"

text \<open>One call on the statement; a rejected option or stream leaves it as it was.\<close>

fun run_call ::
  "('sn, 'v, 'r, 'ty, 'ts, 'b, 'raw, 'bat, 'rd, 't, 'd, 'srv) env \<Rightarrow> rounding \<Rightarrow> (rstring \<Rightarrow> 'ts option) \<Rightarrow>
   ('r, 'ty) stmt_call \<Rightarrow> ('sn, 'v, 'r, 'ty, 'ts, 'srv) machine \<Rightarrow> ('sn, 'v, 'r, 'ty, 'ts, 'srv) machine" where
  "run_call E rnd rfc (SetSqlQuery q) m = m\<lparr>stm := set_sql_query q (stm m)\<rparr>"
| "run_call E rnd rfc (SetOption k v) m =
     m\<lparr>stm := or_keep (set_statement_option rnd rfc k v (stm m)) (stm m)\<rparr>"
| "run_call E rnd rfc (BindBatch b) m = m\<lparr>stm := bind_batch b (stm m)\<rparr>"
| "run_call E rnd rfc (BindStream sch items) m = m\<lparr>stm := or_keep (bind_stream sch items (stm m)) (stm m)\<rparr>"
| "run_call E rnd rfc Execute m = snd (execute E m)"
| "run_call E rnd rfc ExecuteUpdate m = snd (execute_update E m)"
| "run_call E rnd rfc ExecuteSchema m = snd (execute_schema E m)"
| "run_call E rnd rfc ExecutePartitions m = snd (execute_partitions E m)"

definition stmt_inv :: "('r, 'ty, 'ts) statement \<Rightarrow> bool" where
  "stmt_inv s \<longleftrightarrow> (sql s = None \<or> target_table s = None) \<and> (bound s = [] \<or> ingest_schema s = None) \<and>
     rows_per_batch s > 0"

lemma stmt_inv_clear: "stmt_inv s \<Longrightarrow> stmt_inv (clear_bound s)"
  by (simp add: stmt_inv_def clear_bound_def)

lemma positive_usize_pos: "positive_usize v w = Inr n \<Longrightarrow> n > 0"
  by (auto simp: positive_usize_def res_simps split: if_splits)

lemma stmt_inv_set_option:
  "stmt_inv s \<Longrightarrow> set_statement_option rnd rfc k v s = Inr s' \<Longrightarrow> stmt_inv s'"
  by (cases k) (auto simp: set_statement_option_def stmt_inv_def res_simps dest: positive_usize_pos
      split: if_splits option.splits)

text \<open>An action after which the statement is the one it started from, or that with its bound data cleared.\<close>

definition clears :: "('a, 'sn, 'v, 'r, 'ty, 'ts, 'srv) action \<Rightarrow> bool" where
  "clears a \<longleftrightarrow> (\<forall>m. stm (snd (a m)) = stm m \<or> stm (snd (a m)) = clear_bound (stm m))"

named_theorems clears_intros "which actions change the statement at most by clearing its bound data"

lemma clears_kept: "(\<And>m. kept stm (a m) m) \<Longrightarrow> clears a"
  by (simp add: clears_def kept_def)

lemma clears_then_clear [clears_intros]: "(\<And>m. kept stm (f m) m) \<Longrightarrow> clears (then_clear f)"
  by (simp add: clears_def kept_def then_clear_def split: prod.splits) (metis snd_conv)

lemma clear_bound_idem: "clear_bound (clear_bound s) = clear_bound s"
  by (simp add: clear_bound_def)

lemma clears_seqr [clears_intros]:
  assumes "clears a" and "\<And>x. clears (f x)"
  shows "clears (seqr a f)"
  unfolding clears_def
proof
  fix m
  obtain r m' where am: "a m = (r, m')" by (meson surj_pair)
  have a: "stm m' = stm m \<or> stm m' = clear_bound (stm m)"
    using assms(1) am unfolding clears_def by (metis snd_conv)
  show "stm (snd (seqr a f m)) = stm m \<or> stm (snd (seqr a f m)) = clear_bound (stm m)"
  proof (cases r)
    case (Inl e)
    with am a show ?thesis by (simp add: seqr_def)
  next
    case (Inr x)
    have "stm (snd (f x m')) = stm m' \<or> stm (snd (f x m')) = clear_bound (stm m')"
      using assms(2)[of x] by (simp add: clears_def)
    with am Inr a show ?thesis by (auto simp: seqr_def clear_bound_idem)
  qed
qed

lemma clears_if [clears_intros]: "clears f \<Longrightarrow> clears g \<Longrightarrow> clears (if c then f else g)"
  by simp

lemma clears_option [clears_intros]:
  "clears f \<Longrightarrow> (\<And>y. clears (g y)) \<Longrightarrow> clears (\<lambda>m. case x of None \<Rightarrow> f m | Some y \<Rightarrow> g y m)"
  by (cases x) simp_all

lemma clears_finish [clears_intros]: "clears (\<lambda>m. (r, clear_bound_m m))"
  by (simp add: clears_def)

lemma clears_query [clears_intros]: "clears (execute_query_reader E q)"
  unfolding execute_query_reader_def Let_def
proof (rule clears_seqr)
  show "clears (ensure_query_allowed :: (unit, 'sn, 'v, 'r, 'ty, 'ts, 'srv) action)"
    by (intro clears_kept kept_intros)
next
  let ?b = "then_clear (execute_bound_query E (strip_trailing_terminators q))"
  have b: "stm (snd (?b m)) = stm m \<or> stm (snd (?b m)) = clear_bound (stm m)" for m
    using clears_then_clear[of "execute_bound_query E (strip_trailing_terminators q)", OF kept_execute_bound_query]
    unfolding clears_def by blast
  have u: "kept stm (seqr (manual_read E) (\<lambda>manual_txn.
      seqr (pure (timestamp_bound (e_to_bound E) (read_staleness c))) (\<lambda>_.
      seqr (pure (build_read_sql c p)) (\<lambda>p. run_query E manual_txn p))) m) m" for c p m
    by (intro kept_intros)
  show "clears (\<lambda>m. if bound (stm m) \<noteq> [] then ?b m
      else seqr (manual_read E) (\<lambda>manual_txn.
        seqr (pure (timestamp_bound (e_to_bound E) (read_staleness (cfg m)))) (\<lambda>_.
        seqr (pure (build_read_sql (cfg m) (strip_trailing_terminators q))) (\<lambda>p. run_query E manual_txn p))) m)"
    using b keptD[OF u] by (simp add: clears_def)
qed

lemma clears_ingest [clears_intros]: "clears (run_ingest E t)"
proof -
  have "clears (then_clear (run_bound_ingest E t))" by (intro clears_intros kept_intros)
  then show ?thesis by (simp add: clears_def run_ingest_def)
qed

lemma kept_run_partition_query [kept_intros]: "kept stm (run_partition_query E q w) w"
  unfolding run_partition_query_def by (intro kept_intros)

lemmas clears_kept_intros =
  clears_kept[OF kept_pure] clears_kept[OF kept_run_ddl(1)] clears_kept[OF kept_drain]
  clears_kept[OF kept_plan_query_schema] clears_kept[OF kept_ensure_query_allowed]

lemma clears_begin_op:
  "clears a \<Longrightarrow> stm (snd (a (begin_op m))) = stm m \<or> stm (snd (a (begin_op m))) = clear_bound (stm m)"
  by (metis clears_def begin_op_sel(1))

lemma clears_entry_points:
  "stm (snd (execute E m)) = stm m \<or> stm (snd (execute E m)) = clear_bound (stm m)"
  "stm (snd (execute_update E m)) = stm m \<or> stm (snd (execute_update E m)) = clear_bound (stm m)"
  "stm (snd (execute_schema E m)) = stm m \<or> stm (snd (execute_schema E m)) = clear_bound (stm m)"
  "stm (snd (execute_partitions E m)) = stm m \<or> stm (snd (execute_partitions E m)) = clear_bound (stm m)"
proof -
  show "stm (snd (execute E m)) = stm m \<or> stm (snd (execute E m)) = clear_bound (stm m)"
    unfolding execute_def Let_def begin_op_sel
    by (rule clears_begin_op) (intro clears_intros clears_kept_intros kept_intros)
  show "stm (snd (execute_update E m)) = stm m \<or> stm (snd (execute_update E m)) = clear_bound (stm m)"
    unfolding execute_update_def Let_def begin_op_sel
    by (rule clears_begin_op) (intro clears_intros clears_kept_intros kept_intros)
  show "stm (snd (execute_schema E m)) = stm m \<or> stm (snd (execute_schema E m)) = clear_bound (stm m)"
    unfolding execute_schema_def Let_def begin_op_sel
    by (rule clears_begin_op) (intro clears_intros clears_kept_intros kept_intros)
  show "stm (snd (execute_partitions E m)) = stm m \<or> stm (snd (execute_partitions E m)) = clear_bound (stm m)"
    unfolding execute_partitions_def Let_def begin_op_sel
    by (rule clears_begin_op) (intro clears_intros clears_kept_intros kept_intros)
qed

lemma stmt_inv_entry_points:
  assumes "stmt_inv (stm m)"
  shows "stmt_inv (stm (snd (execute E m)))" "stmt_inv (stm (snd (execute_update E m)))"
    "stmt_inv (stm (snd (execute_schema E m)))" "stmt_inv (stm (snd (execute_partitions E m)))"
  using clears_entry_points[of E m] assms stmt_inv_clear[OF assms] by metis+

lemma run_call_inv: "stmt_inv (stm m) \<Longrightarrow> stmt_inv (stm (run_call E rnd rfc c m))"
proof (cases c)
  case (SetOption k v)
  assume "stmt_inv (stm m)"
  then show ?thesis unfolding SetOption
    by (auto simp: or_keep_def split: sum.splits dest: stmt_inv_set_option)
next
  case (BindStream sch items)
  assume "stmt_inv (stm m)"
  then show ?thesis unfolding BindStream
    by (auto simp: or_keep_def bind_stream_def res_simps stmt_inv_def split: sum.splits)
qed (simp_all add: stmt_inv_entry_points, simp_all add: stmt_inv_def set_sql_query_def bind_batch_def)

text \<open>
  Whatever calls are made on a new statement, in whatever order and with whatever outcome, it never
  holds a SQL query and an ingest target at once, nor bound rows beside the schema of an empty stream,
  and its batch size stays positive.
\<close>

theorem statement_destination_exclusive:
  "let s = stm (fold (run_call E rnd rfc) cs (m\<lparr>stm := new_statement c k db\<rparr>))
   in \<not> (sql s \<noteq> None \<and> target_table s \<noteq> None) \<and> \<not> (bound s \<noteq> [] \<and> ingest_schema s \<noteq> None) \<and>
      rows_per_batch s > 0"
proof -
  have "stmt_inv (stm (fold (run_call E rnd rfc) cs w))" if "stmt_inv (stm w)" for w
    using that by (induction cs arbitrary: w) (auto intro: run_call_inv)
  moreover have "stmt_inv (stm (m\<lparr>stm := new_statement c k db\<rparr>))"
    by (simp add: stmt_inv_def new_statement_def DEFAULT_ROWS_PER_BATCH_def)
  ultimately have "stmt_inv (stm (fold (run_call E rnd rfc) cs (m\<lparr>stm := new_statement c k db\<rparr>)))" .
  then show ?thesis by (auto simp: stmt_inv_def Let_def)
qed

section \<open>The error contract of an append ingest\<close>

lemma map_err_m_Inl:
  "map_err_m f g w = (Inl e, w') \<longleftrightarrow> (\<exists>e0 w0. g w = (Inl e0, w0) \<and> f e0 w0 = (e, w'))"
  by (cases "g w"; cases "fst (g w)") (auto simp: map_err_m_def apfst_def map_prod_def split: prod.splits)

lemma ingest_table_exists_answer:
  assumes "\<And>sch t d srv. fst (e_table_exists E sch t d srv) = Inr b"
  shows "fst (ingest_table_exists E t m) = Inr b"
  using assms by (simp add: ingest_table_exists_def rpc_def split: prod.splits) (metis fst_conv)

lemma remap_append_status:
  assumes "\<And>sch t d srv. fst (e_table_exists E sch t d srv) = Inr b"
    and "ingest_mode (stm m) = Some Append" and "remap_ingest_append_error E t e m = (e', m')"
  shows "status e' = InvalidState \<or> status e' = AlreadyExists \<or> \<not> b \<and> status e' = NotFound"
proof -
  obtain m1 where "ingest_table_exists E t m = (Inr b, m1)"
    using ingest_table_exists_answer[of E b t m, OF assms(1)] by (metis prod.collapse)
  with assms(2,3) show ?thesis
    by (cases b) (auto simp: remap_ingest_append_error_def split: if_splits)
qed

lemma check_kind_allowed_status: "check_kind_allowed k st = Inl e \<Longrightarrow> status e = InvalidState"
  by (auto simp: check_kind_allowed_def status_constructors split: option.splits if_splits)

lemma run_bound_ingest_append:
  assumes "ingest_mode (stm m) = Some Append"
  shows "run_bound_ingest E t m =
    (case (if autocommit (txns m) then Inr () else check_kind_allowed KDml (txns m)) of
       Inl e \<Rightarrow> (Inl e, m)
     | Inr _ \<Rightarrow> map_err_m (remap_ingest_append_error E t) (run_ingest_mutations E t) m)"
  by (cases "if autocommit (txns m) then Inr () else check_kind_allowed KDml (txns m)")
    (auto simp: run_bound_ingest_def build_ingest_table_ddl_def assms Let_def)


end
