(* ===== verification/StatementWitness.thy ===== *)
theory StatementWitness
  imports ExecuteProps
begin

text \<open>
  A concrete server, statement and machine on which the hypotheses of the statement properties hold:
  a database whose one table exists and whose writes time out.
\<close>

definition demo_env ::
  "(unit, nat, nat list, unit, nat, unit, unit, unit, unit, unit, unit, nat) env" where
  "demo_env =
     \<lparr>e_cell = \<lambda>_ row i. Inr (row ! i), e_wkt = Some, e_to_bound = \<lambda>_. Inr (),
      e_convert = \<lambda>_ _. Inr ([], ()), e_create_table = \<lambda>_ _ _ _. Inr [],
      e_batch_dml = \<lambda>_ _ ss _ _ n. (Inr (map (\<lambda>_. 1) ss, None), n + 1),
      e_returning = \<lambda>_ _ _ n. (Inr ([], None), n + 1), e_partitioned = \<lambda>_ _ _ n. (Inr 1, n + 1),
      e_ddl = \<lambda>_ _ _ n. (Inr (), n + 1),
      e_write_only = \<lambda>_ _ _ n. (Inl (err (lit ''deadline exceeded'') Timeout), n + 1),
      e_stream = \<lambda>_ _ _ n. (Inr [], n + 1), e_conv = \<lambda>_. panicked, e_conv_status = \<lambda>_. panicked,
      e_snapshot = \<lambda>_ n. (Inr (), n + 1), e_query_single = \<lambda>_ _ _ _ _ _ n. (Inr (), n + 1),
      e_query_shared = \<lambda>_ _ _ _ _ _ n. (Inr (), n + 1), e_query_many = \<lambda>_ _ _ _ _ _ n. (Inr (), n + 1),
      e_plan = \<lambda>_ _ _ _ n. (Inr [], n + 1), e_partition = \<lambda>_ _ _ _ _ _ n. (Inr ([], []), n + 1),
      e_table_exists = \<lambda>_ _ _ n. (Inr True, n + 1), e_drain = \<lambda>_ n. (Inr (), n + 1)\<rparr>"

definition demo_statement :: "(nat list, unit, nat) statement" where
  "demo_statement = new_statement (fst (default_config witness_store)) 0 (lit ''db'')"

definition demo_machine ::
  "(nat list, unit, nat) statement \<Rightarrow> bool \<Rightarrow> bool \<Rightarrow> (unit, nat, nat list, unit, nat, nat) machine" where
  "demo_machine s ro auto_commit =
     \<lparr>stm = s, store = witness_store\<lparr>flags := \<lambda>_. ro\<rparr>, txns = new_txn_state\<lparr>autocommit := auto_commit\<rparr>,
      cancels = fst (new_slot \<lparr>latches = [], slots = []\<rparr>), server = 0\<rparr>"

definition demo_dml :: rstring where
  "demo_dml = lit ''DELETE FROM t WHERE true''"

lemma demo_dml_facts: "is_dml demo_dml" "split_statements demo_dml = [demo_dml]" "\<not> is_dml_returning demo_dml"
  by code_simp+

lemma demo_sql_builder: "sql_builder (fst (default_config witness_store) :: nat shared_config) \<noteq> None"
  by code_simp

abbreviation dml_machine :: "bool \<Rightarrow> bool \<Rightarrow> (unit, nat, nat list, unit, nat, nat) machine" where
  "dml_machine \<equiv> demo_machine (set_sql_query demo_dml demo_statement)"

theorem read_only_gate_witness:
  "\<exists>e m' m''. execute_update demo_env (dml_machine True True) = (Inl e, m') \<and>
     execute demo_env (dml_machine True True) = (Inl e, m'') \<and> status e = InvalidState \<and>
     server m' = 0 \<and> server m'' = 0"
proof -
  have "is_read_only (config (stm (dml_machine True True))) (store (dml_machine True True))"
    by (simp add: demo_machine_def is_read_only_def)
  moreover have "is_write (stm (dml_machine True True))"
    by (simp add: is_write_def demo_machine_def set_sql_query_def demo_dml_facts)
  ultimately show ?thesis
    using read_only_gate[of "dml_machine True True" demo_env] by (auto simp: demo_machine_def)
qed

lemma demo_update_outcome: "fst (execute_update demo_env (dml_machine False False)) = Inr None"
  by code_simp

theorem manual_dml_only_buffers_witness:
  "let m' = snd (execute_update demo_env (dml_machine False False))
   in fst (execute_update demo_env (dml_machine False False)) = Inr None \<and> server m' = 0 \<and>
      (\<exists>ss. buffer_dml ss (txns (dml_machine False False)) = Inr (txns m') \<and> map sql_text ss = [demo_dml])"
proof -
  let ?m = "dml_machine False False"
  have m: "\<not> autocommit (txns ?m)" "sql (stm ?m) = Some demo_dml" "server ?m = 0" "bound (stm ?m) = []"
    by (simp_all add: demo_machine_def set_sql_query_def demo_statement_def new_statement_def)
  have "execute_update demo_env ?m = (Inr None, snd (execute_update demo_env ?m))"
    using demo_update_outcome by (metis prod.collapse)
  from manual_dml_only_buffers[OF m(1,2) demo_dml_facts(1) this] m(3,4) show ?thesis
    unfolding Let_def demo_update_outcome by (auto simp: demo_dml_facts)
qed


definition append_machine :: "(unit, nat, nat list, unit, nat, nat) machine" where
  "append_machine =
     demo_machine (bind_batch ([(lit ''k'', ())], \<lparr>rows = [[7]], num_columns = 1, memory_size = 8\<rparr>)
       (demo_statement\<lparr>target_table := Some (lit ''t''), ingest_mode := Some Append\<rparr>)) False True"

lemma append_outcome:
  "\<exists>e. fst (run_ingest demo_env (lit ''t'') append_machine) = Inl e \<and> status e = AlreadyExists"
proof -
  have "(case fst (run_ingest demo_env (lit ''t'') append_machine) of
      Inl e \<Rightarrow> status e = AlreadyExists | Inr _ \<Rightarrow> False)" by code_simp
  then show ?thesis by (auto split: sum.splits)
qed


end
