(* ===== verification/ConnectionProps.thy ===== *)
theory ConnectionProps
  imports Connection StatementWitness
begin

text \<open>
  Properties of the connection: partition descriptors, and what a manual session of several statements
  sends to the server when it is committed.
\<close>

section \<open>Partition descriptors\<close>

lemma decode_partition_Inr:
  "decode_partition S d = Inr p \<longleftrightarrow>
   (\<exists>j payload. from_slice S d = Some j \<and> json_get j (lit ''v'') = Some (JUint PARTITION_DESCRIPTOR_VERSION) \<and>
      json_get j (lit ''partition'') = Some payload \<and> from_value S payload = Some p)"
proof -
  have u: "as_u64 v = Some n \<longleftrightarrow> v = JUint n" for v n by (cases v) auto
  show ?thesis by (auto simp: decode_partition_def Let_def res_simps u)
qed

lemma encode_partition_Inr:
  "encode_partition S p = Inr d \<longleftrightarrow>
   (\<exists>payload. to_value S p = Some payload \<and>
      to_vec S (JObject [(lit ''v'', JUint PARTITION_DESCRIPTOR_VERSION), (lit ''partition'', payload)]) = Some d)"
  by (auto simp: encode_partition_def Let_def res_simps)

text \<open>
  A partition descriptor decodes to the partition it was made from, given that \<^verbatim>\<open>serde_json\<close> parses
  what it prints and that the client's \<^verbatim>\<open>Partition\<close> deserialises from its own serialised form.
\<close>

theorem partition_round_trip:
  assumes print_parse: "\<And>j d. to_vec S j = Some d \<Longrightarrow> from_slice S d = Some j"
    and serialise_parse: "\<And>p j. to_value S p = Some j \<Longrightarrow> from_value S j = Some p"
    and "encode_partition S p = Inr d"
  shows "decode_partition S d = Inr p"
proof -
  have "lit ''v'' \<noteq> lit ''partition''" by code_simp
  then show ?thesis
    using assms(3) print_parse serialise_parse
    by (fastforce simp: encode_partition_Inr decode_partition_Inr json_get_def)
qed

text \<open>A client whose partitions are numbers, and a codec that writes a number as that many zero bytes.\<close>

definition demo_serde :: "nat serde" where
  "demo_serde =
     \<lparr>to_value = \<lambda>p. Some (JUint p), from_value = as_u64,
      to_vec = \<lambda>j. (case j of
        JObject [(k, v), (k', JUint n)] \<Rightarrow>
          if k = lit ''v'' \<and> v = JUint PARTITION_DESCRIPTOR_VERSION \<and> k' = lit ''partition''
          then Some (replicate n 0) else None
      | _ \<Rightarrow> None),
      from_slice = \<lambda>d. Some (JObject [(lit ''v'', JUint PARTITION_DESCRIPTOR_VERSION), (lit ''partition'', JUint (length d))])\<rparr>"

theorem partition_round_trip_witness:
  "encode_partition demo_serde 3 = Inr [0, 0, 0] \<and> decode_partition demo_serde [0, 0, 0] = Inr 3"
proof -
  have "encode_partition demo_serde 3 = Inr [0, 0, 0]" by code_simp
  moreover have "from_slice demo_serde d = Some j" if "to_vec demo_serde j = Some d" for j d
    using that by (auto simp: demo_serde_def split: json.splits list.splits prod.splits if_splits)
  moreover have "from_value demo_serde j = Some p" if "to_value demo_serde p = Some j" for j p
    using that by (auto simp: demo_serde_def)
  ultimately show ?thesis using partition_round_trip[of demo_serde 3] by blast
qed

text \<open>
  Decoding any bytes yields a partition or \<open>InvalidArguments\<close>, never a panic; it yields a partition
  only from an envelope of version 1, and a JSON document that carries another version is rejected
  whatever its payload is.
\<close>

theorem decode_partition_checks_version:
  "case decode_partition S d of
     Inl e \<Rightarrow> status e = InvalidArguments
   | Inr p \<Rightarrow> \<exists>j payload. from_slice S d = Some j \<and> json_get j (lit ''v'') = Some (JUint 1) \<and>
       json_get j (lit ''partition'') = Some payload \<and> from_value S payload = Some p"
proof (cases "decode_partition S d")
  case (Inl e)
  then show ?thesis
    by (auto simp: decode_partition_def Let_def try_bind_def ok_or_def status_constructors
        split: option.splits if_splits sum.splits)
next
  case (Inr p)
  then have "\<exists>j payload. from_slice S d = Some j \<and> json_get j (lit ''v'') = Some (JUint 1) \<and>
      json_get j (lit ''partition'') = Some payload \<and> from_value S payload = Some p"
    by (simp add: decode_partition_Inr PARTITION_DESCRIPTOR_VERSION_def)
  with Inr show ?thesis by simp
qed

section \<open>A manual session\<close>

text \<open>One SQL update on a connection: a new statement, \<^verbatim>\<open>set_sql_query\<close>, \<^verbatim>\<open>execute_update\<close>, and drop it.\<close>

definition run_update ::
  "('sn, 'v, 'r, 'ty, 'ts, 'b, 'raw, 'bat, 'rd, 't, 'd, 'srv) env \<Rightarrow> rstring \<Rightarrow>
   (int option, 'sn, 'v, 'ts, 'srv) conn_action" where
  "run_update E q w =
     (let m = open_statement w
      in case execute_update E (m\<lparr>stm := set_sql_query q (stm m)\<rparr>) of (r, m') \<Rightarrow> (r, put_back m' w))"

fun run_updates ::
  "('sn, 'v, 'r, 'ty, 'ts, 'b, 'raw, 'bat, 'rd, 't, 'd, 'srv) env \<Rightarrow> rstring list \<Rightarrow>
   (unit, 'sn, 'v, 'ts, 'srv) conn_action" where
  "run_updates E [] w = (Inr (), w)"
| "run_updates E (q # qs) w = seqr (run_update E q) (\<lambda>_. run_updates E qs) w"

lemma open_statement_sel [simp]:
  "txns (open_statement w) = w_txns w" "server (open_statement w) = w_server w"
  "bound (stm (open_statement w)) = []"
  by (simp_all add: open_statement_def new_statement_def Let_def split: prod.splits)

lemma execute_update_manual:
  assumes "\<not> autocommit (txns m)" and "sql (stm m) = Some q" and "is_dml q" and "bound (stm m) = []"
    and "execute_update E m = (Inr n, m')"
  shows "server m' = server m \<and>
    (\<exists>ss. map sql_text ss = split_statements q \<and> buffer_dml ss (txns m) = Inr (txns m'))"
proof -
  from run_dml_manual[of "begin_op m" E q] assms(1) consider
      (fail) e where "run_dml E q (begin_op m) = (Inl e, begin_op m)"
    | (buf) ss st' where "build_dml_statements (e_cell E) q (stm m) = Inr ss"
      "buffer_dml ss (txns m) = Inr st'" "run_dml E q (begin_op m) = (Inr (Plain None), (begin_op m)\<lparr>txns := st'\<rparr>)"
    by auto
  then show ?thesis
  proof cases
    case fail
    with assms(5) show ?thesis by (simp add: execute_update_dml[OF assms(2,3)] seqr_def then_clear_def)
  next
    case buf
    then have "execute_update E m = (Inr None, clear_bound_m ((begin_op m)\<lparr>txns := st'\<rparr>))"
      by (simp add: execute_update_dml[OF assms(2,3)] seqr_def then_clear_def pure_def)
    with assms(5) buf(2) build_dml_statements_Inr[OF buf(1) assms(4)] show ?thesis by auto
  qed
qed

lemma run_update_manual:
  assumes "\<not> autocommit (w_txns w)" and "is_dml q" and "run_update E q w = (Inr n, w')"
  shows "con w' = con w \<and> w_server w' = w_server w \<and>
    (\<exists>ss. map sql_text ss = split_statements q \<and> buffer_dml ss (w_txns w) = Inr (w_txns w'))"
proof -
  from assms(3) obtain m' where
    m': "execute_update E ((open_statement w)\<lparr>stm := set_sql_query q (stm (open_statement w))\<rparr>) = (Inr n, m')"
      "w' = put_back m' w"
    by (auto simp: run_update_def Let_def split: prod.splits)
  show ?thesis
    using execute_update_manual[OF _ _ assms(2) _ m'(1)] assms(1) m'(2)
    by (auto simp: put_back_def set_sql_query_def)
qed

text \<open>The transaction that has buffered exactly the statements \<open>ss\<close>.\<close>

definition pending_dml :: "'s list \<Rightarrow> ('sn, 's, 'm) txn_state" where
  "pending_dml ss = \<lparr>autocommit = False, txn = if ss = [] then Unset else Dml ss []\<rparr>"

lemma buffer_dml_pending: "buffer_dml new (pending_dml ss) = Inr (pending_dml (ss @ new))"
  by (auto simp: buffer_dml_def pending_dml_def check_kind_allowed_def try_bind_def)

lemma run_updates_manual:
  "run_updates E qs w = (Inr u, w') \<Longrightarrow> list_all is_dml qs \<Longrightarrow> w_txns w = pending_dml ss0 \<Longrightarrow>
   con w' = con w \<and> w_server w' = w_server w \<and>
   (\<exists>ss. map sql_text ss = concat (map split_statements qs) \<and> w_txns w' = pending_dml (ss0 @ ss))"
proof (induction qs arbitrary: w ss0)
  case (Cons q qs)
  then obtain n w1 where 1: "run_update E q w = (Inr n, w1)" "run_updates E qs w1 = (Inr u, w')"
    by (auto simp: seqr_Inr)
  have "\<not> autocommit (w_txns w)" using Cons.prems(3) by (simp add: pending_dml_def)
  from run_update_manual[OF this _ 1(1)] Cons.prems obtain ss where
    s: "con w1 = con w" "w_server w1 = w_server w" "map sql_text ss = split_statements q"
      "w_txns w1 = pending_dml (ss0 @ ss)"
    by (auto simp: buffer_dml_pending)
  from Cons.IH[OF 1(2) _ s(4)] Cons.prems(2) obtain ss' where
    "con w' = con w1" "w_server w' = w_server w1" "map sql_text ss' = concat (map split_statements qs)"
    "w_txns w' = pending_dml ((ss0 @ ss) @ ss')" by auto
  then show ?case using s by (intro conjI exI[of _ "ss @ ss'"]) auto
qed auto

lemma conn_commit_pending:
  assumes "w_txns w = pending_dml ss" and "\<not> is_read_only (c_config (con w)) (w_store w)"
    and "build_runner (e_wkt E) (c_config (con w)) = Some runner"
    and "batch_dml_builder (c_config (con w)) False = Some batch"
  shows "case conn_commit E w of
     (r, w'') \<Rightarrow>
       if ss = [] then r = Inr () \<and> w_server w'' = w_server w
       else (case e_batch_dml E runner batch ss [] (update_timeout (timeouts (c_config (con w)))) (w_server w) of
         (Inl e, srv) \<Rightarrow> r = Inl e \<and> w_server w'' = srv \<and> w_txns w'' = pending_dml ss
       | (Inr _, srv) \<Rightarrow> r = Inr () \<and> w_server w'' = srv \<and> w_txns w'' = pending_dml [])"
proof (cases "ss = []")
  case True
  with assms show ?thesis
    by (simp add: conn_commit_def commit_def commit_begin_def pending_dml_def conn_apply_def apply_manual_txn_def
        check_commit_writable_def finish_commit_def finish_def)
next
  case False
  with assms show ?thesis
    by (auto simp: conn_commit_def commit_def commit_begin_def pending_dml_def conn_apply_def apply_manual_txn_def
        apply_transaction_def check_commit_writable_def finish_commit_def drain_def finish_def as_conn_def own_machine_def
        run_batch_txn_def conn_begin_op_def seqr_def pure_def rpc_def ok_or_def record_stats_m_def put_back_def
        new_statement_def update_deadline_def split: prod.splits sum.splits)
qed

text \<open>
  C1: A manual session of DML statements reaches the server in one piece, at \<^verbatim>\<open>commit\<close>: after any number of
  successful updates on new statements of the connection the server has not been called; \<^verbatim>\<open>commit\<close> then
  sends one batch holding every statement of every update, in order and with no mutations, and reports
  its outcome.  After success the transaction is empty; after a failure every statement is still
  buffered.  With nothing buffered the commit calls nothing.
\<close>

theorem manual_session_commits_once:
  assumes "w_txns w = pending_dml []" and "list_all is_dml qs" and "run_updates E qs w = (Inr u, w')"
    and "\<not> is_read_only (c_config (con w')) (w_store w')"
    and "build_runner (e_wkt E) (c_config (con w)) = Some runner"
    and "batch_dml_builder (c_config (con w)) False = Some batch"
  shows "w_server w' = w_server w \<and>
    (\<exists>ss. map sql_text ss = concat (map split_statements qs) \<and> w_txns w' = pending_dml ss \<and>
      (case conn_commit E w' of
         (r, w'') \<Rightarrow>
           if ss = [] then r = Inr () \<and> w_server w'' = w_server w
           else (case e_batch_dml E runner batch ss [] (update_timeout (timeouts (c_config (con w)))) (w_server w) of
             (Inl e, srv) \<Rightarrow> r = Inl e \<and> w_server w'' = srv \<and> w_txns w'' = pending_dml ss
           | (Inr _, srv) \<Rightarrow> r = Inr () \<and> w_server w'' = srv \<and> w_txns w'' = pending_dml [])))"
proof -
  from run_updates_manual[OF assms(3,2,1)] obtain ss where
    w': "con w' = con w" "w_server w' = w_server w" "map sql_text ss = concat (map split_statements qs)"
      "w_txns w' = pending_dml ss" by auto
  note c = conn_commit_pending[OF w'(4) assms(4), of E runner batch, unfolded w'(1,2), OF assms(5,6)]
  from w'(2) show ?thesis by (intro conjI exI[of _ ss] w' c)
qed

definition demo_world :: "(unit, nat, nat, nat) world" where
  "demo_world =
     (new_connection (lit ''db'') witness_store \<lparr>latches = [], slots = []\<rparr> 0)\<lparr>w_txns := pending_dml []\<rparr>"

lemma demo_session:
  "fst (run_updates demo_env [demo_dml, demo_dml] demo_world) = Inr ()"
  "\<not> (let w' = snd (run_updates demo_env [demo_dml, demo_dml] demo_world)
      in is_read_only (c_config (con w')) (w_store w'))"
  "build_runner (e_wkt demo_env) (c_config (con demo_world)) \<noteq> None"
  "batch_dml_builder (c_config (con demo_world)) False \<noteq> None"
  by code_simp+

theorem manual_session_commits_once_witness:
  "let w' = snd (run_updates demo_env [demo_dml, demo_dml] demo_world); (r, w'') = conn_commit demo_env w'
   in w_server w' = 0 \<and> r = Inr () \<and> w_server w'' = 1 \<and> w_txns w'' = pending_dml [] \<and>
      map sql_text (stmts (txn (w_txns w'))) = [demo_dml, demo_dml]"
proof -
  let ?w' = "snd (run_updates demo_env [demo_dml, demo_dml] demo_world)"
  obtain runner batch where b: "build_runner (e_wkt demo_env) (c_config (con demo_world)) = Some runner"
    "batch_dml_builder (c_config (con demo_world)) False = Some batch"
    using demo_session(3,4) by blast
  have w: "w_txns demo_world = pending_dml []" "list_all is_dml [demo_dml, demo_dml]" "w_server demo_world = 0"
    by (simp_all add: demo_world_def demo_dml_facts new_connection_def split: prod.splits)
  have "run_updates demo_env [demo_dml, demo_dml] demo_world = (Inr (), ?w')"
    using demo_session(1) by (metis prod.collapse)
  from manual_session_commits_once[OF w(1,2) this demo_session(2)[unfolded Let_def] b] w(3)
  show ?thesis
    by (cases "conn_commit demo_env ?w'")
      (auto simp: demo_dml_facts demo_env_def pending_dml_def Let_def split: if_splits)
qed

end
