(* ===== verification/BindCell.thy ===== *)
theory BindCell
  imports Bind Conversion
begin

text \<open>
  Arrow cells to Spanner values, \<^verbatim>\<open>src/bind.rs\<close>: the one scalar mapping shared by parameter binding and
  bulk ingest, its list and dictionary containers, and the \<^verbatim>\<open>CREATE TABLE\<close> an ingest issues.

  How the client library puts an integer, a double or bytes on the wire is the record \<open>client\<close>.  A
  downcast to the wrong array type is a panic.
\<close>

section \<open>Scalars\<close>

record client =
  v_i64 :: "int \<Rightarrow> wire"
  v_f64 :: "f64 \<Rightarrow> wire"
  v_bytes :: "u8 list \<Rightarrow> wire"

text \<open>\<^verbatim>\<open>scalar_value\<close> and \<^verbatim>\<open>try_scalar_value\<close>: \<^verbatim>\<open>NULL\<close> for a null cell, else the conversion.\<close>

definition try_scalar_value :: "(cell \<Rightarrow> wire result) \<Rightarrow> cell option \<Rightarrow> wire result" where
  "try_scalar_value f c = (case c of None \<Rightarrow> Inr WNull | Some x \<Rightarrow> f x)"

definition as_int :: "(int \<Rightarrow> wire result) \<Rightarrow> cell \<Rightarrow> wire result" where
  "as_int f c = (case c of CInt i \<Rightarrow> f i | _ \<Rightarrow> Inl panicked)"

definition scalar_binder ::
  "('d, 'dt) chrono \<Rightarrow> client \<Rightarrow> data_type \<Rightarrow> (cell option \<Rightarrow> wire result) option" where
  "scalar_binder cal V dt =
     (let int_binder = Some (try_scalar_value (as_int (\<lambda>i. Inr (v_i64 V i))));
          float_binder = Some (try_scalar_value (\<lambda>c. case c of CFloat x \<Rightarrow> Inr (v_f64 V x) | _ \<Rightarrow> Inl panicked));
          string_binder = Some (try_scalar_value (\<lambda>c. case c of CStr s \<Rightarrow> Inr (WString s) | _ \<Rightarrow> Inl panicked));
          bytes_binder = Some (try_scalar_value (\<lambda>c. case c of CBytes b \<Rightarrow> Inr (v_bytes V b) | _ \<Rightarrow> Inl panicked))
      in case dt of
           Int64 \<Rightarrow> int_binder | Int32 \<Rightarrow> int_binder | Int16 \<Rightarrow> int_binder | Int8 \<Rightarrow> int_binder
         | UInt32 \<Rightarrow> int_binder | UInt16 \<Rightarrow> int_binder | UInt8 \<Rightarrow> int_binder
         | Float64 \<Rightarrow> float_binder | Float32 \<Rightarrow> float_binder | Float16 \<Rightarrow> float_binder
         | Boolean \<Rightarrow>
             Some (try_scalar_value (\<lambda>c. case c of CBool b \<Rightarrow> Inr (WBool b) | _ \<Rightarrow> Inl panicked))
         | Utf8 \<Rightarrow> string_binder | LargeUtf8 \<Rightarrow> string_binder | Utf8View \<Rightarrow> string_binder
         | Binary \<Rightarrow> bytes_binder | LargeBinary \<Rightarrow> bytes_binder | BinaryView \<Rightarrow> bytes_binder
         | FixedSizeBinary _ \<Rightarrow> bytes_binder
         | Date32 \<Rightarrow>
             Some (try_scalar_value (as_int (\<lambda>d. try_bind (date_string cal d) (\<lambda>s. Inr (WString s)))))
         | Date64 \<Rightarrow>
             Some (try_scalar_value (as_int (\<lambda>ms.
               try_bind (date64_days ms) (\<lambda>d. try_bind (date_string cal d) (\<lambda>s. Inr (WString s))))))
         | Timestamp unit _ \<Rightarrow>
             Some (try_scalar_value (as_int (\<lambda>v.
               try_bind (timestamp_string cal unit v) (\<lambda>s. Inr (WString s)))))
         | Decimal128 _ scale \<Rightarrow>
             Some (\<lambda>c. try_bind (numeric_scale scale) (\<lambda>sc.
               try_scalar_value (as_int (\<lambda>u. Inr (WString (numeric_string u sc)))) c))
         | Null \<Rightarrow> Some (\<lambda>_. Inr WNull)
         | _ \<Rightarrow> None)"

definition flat_cell :: "arr \<Rightarrow> nat \<Rightarrow> cell option result" where
  "flat_cell a i =
     (case a of FlatArr _ cs \<Rightarrow> if i < length cs then Inr (cs ! i) else Inl panicked | _ \<Rightarrow> Inl panicked)"

section \<open>Cells\<close>

datatype param_type = TypeJson | TypeArrayJson

text \<open>The elements of a list cell are the rows \<open>lo\<close> up to \<open>hi\<close> of the child array.\<close>

definition list_cell_value ::
  "('d, 'dt) chrono \<Rightarrow> client \<Rightarrow> field \<Rightarrow> (arr \<times> nat \<times> nat) option \<Rightarrow> (wire \<times> param_type option) result" where
  "list_cell_value cal V item elem =
     try_bind (ok_or (invalid_argument (lit ''cannot bind ARRAY parameter: unsupported element type''))
                 (scalar_binder cal V (field_type item))) (\<lambda>binder.
     try_bind (case elem of
                 None \<Rightarrow> Inr WNull
               | Some (child, lo, hi) \<Rightarrow>
                   try_bind (collect_results (map (\<lambda>i. try_bind (flat_cell child i) binder) [lo..<hi]))
                     (\<lambda>vs. Inr (WList vs))) (\<lambda>v.
     Inr (v, if is_json_field item then Some TypeArrayJson else None)))"

definition scalar_cell_value ::
  "('d, 'dt) chrono \<Rightarrow> client \<Rightarrow> field \<Rightarrow> data_type \<Rightarrow> arr \<Rightarrow> nat \<Rightarrow> (wire \<times> param_type option) result" where
  "scalar_cell_value cal V f dt column row =
     try_bind (ok_or (invalid_argument (lit ''cannot bind parameter: unsupported Arrow type''))
                 (scalar_binder cal V dt)) (\<lambda>binder.
     try_bind (try_bind (flat_cell column row) binder) (\<lambda>v.
     Inr (v, if is_json_field f then Some TypeJson else None)))"

definition null_dictionary_value ::
  "('d, 'dt) chrono \<Rightarrow> client \<Rightarrow> field \<Rightarrow> data_type \<Rightarrow> (wire \<times> param_type option) result" where
  "null_dictionary_value cal V f value_type =
     (case value_type of
        List item \<Rightarrow> list_cell_value cal V item None
      | LargeList item \<Rightarrow> list_cell_value cal V item None
      | _ \<Rightarrow>
          try_bind (ok_or (invalid_argument (lit ''cannot bind parameter: unsupported Arrow type''))
                      (scalar_binder cal V value_type))
            (\<lambda>_. Inr (WNull, if is_json_field f then Some TypeJson else None)))"

fun cell_value ::
  "('d, 'dt) chrono \<Rightarrow> client \<Rightarrow> field \<Rightarrow> arr \<Rightarrow> nat \<Rightarrow> (wire \<times> param_type option) result" where
  "cell_value cal V f (ListArr large item offsets validity child) row =
     list_cell_value cal V item
       (if validity ! row then Some (child, offsets ! row, offsets ! Suc row) else None)"
| "cell_value cal V f (DictArr key keys values) row =
     (case keys ! row of
        Some k \<Rightarrow> cell_value cal V f values k
      | None \<Rightarrow> null_dictionary_value cal V f (arr_type values))"
| "cell_value cal V f column row = scalar_cell_value cal V f (arr_type column) column row"

text \<open>
  A bound row as the \<open>cell\<close> argument of \<^const>\<open>bind_params\<close> and \<^const>\<open>insert_mutation\<close>: the columns of its batch
  with their fields, and its index.  \<^verbatim>\<open>bind_one\<close> keeps the explicit type, a mutation drops it.
\<close>

type_synonym arrow_row = "(field \<times> arr) list \<times> nat"

definition bind_one :: "('d, 'dt) chrono \<Rightarrow> client \<Rightarrow> rstring \<Rightarrow> arrow_row \<Rightarrow> nat \<Rightarrow> (wire \<times> param_type option) result" where
  "bind_one cal V name r i =
     (if i < length (fst r) then cell_value cal V (fst (fst r ! i)) (snd (fst r ! i)) (snd r) else Inl panicked)"

section \<open>Tables\<close>

text \<open>The arms of \<^verbatim>\<open>spanner_column_type\<close> that do not recurse.\<close>

definition flat_column_type :: "data_type \<Rightarrow> rstring result" where
  "flat_column_type dt =
     (if dt \<in> {Int8, Int16, Int32, Int64, UInt8, UInt16, UInt32} then Inr (lit ''INT64'')
      else if dt \<in> {Float16, Float32} then Inr (lit ''FLOAT32'')
      else if dt = Float64 then Inr (lit ''FLOAT64'')
      else if dt = Boolean then Inr (lit ''BOOL'')
      else if dt \<in> {Utf8, LargeUtf8, Utf8View} then Inr (lit ''STRING(MAX)'')
      else if dt \<in> {Date32, Date64} then Inr (lit ''DATE'')
      else case dt of
             Binary \<Rightarrow> Inr (lit ''BYTES(MAX)'')
           | LargeBinary \<Rightarrow> Inr (lit ''BYTES(MAX)'')
           | BinaryView \<Rightarrow> Inr (lit ''BYTES(MAX)'')
           | FixedSizeBinary _ \<Rightarrow> Inr (lit ''BYTES(MAX)'')
           | Timestamp _ _ \<Rightarrow> Inr (lit ''TIMESTAMP'')
           | Decimal128 _ _ \<Rightarrow> Inr (lit ''NUMERIC'')
           | _ \<Rightarrow> Inl (invalid_argument (lit ''cannot create a Spanner column for this Arrow type'')))"

fun spanner_column_type :: "data_type \<Rightarrow> rstring result" where
  "spanner_column_type (List (Field n dt nul md)) =
     try_bind (spanner_column_type dt) (\<lambda>t. Inr (lit ''ARRAY<'' @ t @ lit ''>''))"
| "spanner_column_type (LargeList (Field n dt nul md)) =
     try_bind (spanner_column_type dt) (\<lambda>t. Inr (lit ''ARRAY<'' @ t @ lit ''>''))"
| "spanner_column_type (Dictionary key v) = spanner_column_type v"
| "spanner_column_type dt = flat_column_type dt"

lemma size_field: "size f = Suc (size (field_type f))"
  by (cases f) simp

function spanner_field_type :: "field \<Rightarrow> rstring result" where
  "spanner_field_type f =
     (if is_json_field f then Inr (lit ''JSON'')
      else case field_type f of
             List item \<Rightarrow> try_bind (spanner_field_type item) (\<lambda>t. Inr (lit ''ARRAY<'' @ t @ lit ''>''))
           | LargeList item \<Rightarrow> try_bind (spanner_field_type item) (\<lambda>t. Inr (lit ''ARRAY<'' @ t @ lit ''>''))
           | other \<Rightarrow> spanner_column_type other)"
  by pat_completeness auto

termination
  by (relation "measure size") (auto simp: size_field)

declare spanner_field_type.simps [simp del]

definition join :: "rstring \<Rightarrow> rstring list \<Rightarrow> rstring" where
  "join sep xs = concat (case xs of [] \<Rightarrow> [] | y # ys \<Rightarrow> y # map (\<lambda>z. sep @ z) ys)"

definition column_def :: "field \<Rightarrow> rstring result" where
  "column_def f =
     try_bind (map_err (\<lambda>e. annotate e (\<lambda>m. lit ''ingest column '' @ field_name f @ lit '': '' @ m)) (spanner_field_type f))
       (\<lambda>t. try_bind (quote_ident (field_name f)) (\<lambda>n. Inr (n @ lit '' '' @ t)))"

definition create_table_sql :: "rstring \<Rightarrow> rstring option \<Rightarrow> field list \<Rightarrow> bool \<Rightarrow> rstring result" where
  "create_table_sql table db_schema fs if_not_exists =
     try_bind (collect_results (map column_def fs)) (\<lambda>columns.
     try_bind (qualified_table db_schema table) (\<lambda>t.
     Inr (lit ''CREATE TABLE '' @ (if if_not_exists then lit ''IF NOT EXISTS '' else []) @ t @ lit '' (''
          @ join (lit '', '') columns @ lit '')'')))"

end
