(* ===== verification/ScanProps.thy ===== *)
theory ScanProps
  imports Scan
begin

text \<open>
  What the scanners read from the strings the formatters write: exactness over the whole range, no
  wrap-around of the 32-bit fraction, and the fields of a canonical timestamp.
\<close>

section \<open>Bytes of digits\<close>

lemma as_bytes_append [simp]: "as_bytes (a @ b) = as_bytes a @ as_bytes b"
  by (simp add: as_bytes_def)

lemma as_bytes_Cons: "as_bytes (c # s) = utf8_char c @ as_bytes s"
  by (simp add: as_bytes_def)

lemma as_bytes_ascii: "list_all (\<lambda>c. c < 128) s \<Longrightarrow> as_bytes s = map of_nat s"
  by (induction s) (auto simp: as_bytes_def utf8_char_def)

lemma digit_byte:
  assumes "c < 10"
  shows "(of_nat (48 + c) :: u8) - 48 = of_nat c" "(of_nat c :: u8) < 10"
    "unat (of_nat c :: u8) = c" "uint (of_nat c :: u8) = int c" "unat (ucast (of_nat c :: u8) :: u32) = c"
proof -
  show "(of_nat (48 + c) :: u8) - 48 = of_nat c" by simp
  show u: "unat (of_nat c :: u8) = c" using assms by (simp add: unat_of_nat)
  show "(of_nat c :: u8) < 10" using u assms by (simp add: word_less_nat_alt)
  show "uint (of_nat c :: u8) = int c" using u by (metis uint_nat)
  show "unat (ucast (of_nat c :: u8) :: u32) = c"
    using assms u by (simp add: unsigned_ucast_eq take_bit_nat_eq_self_iff)
qed

lemma is_ascii_digitE:
  assumes "is_ascii_digit c"
  obtains d where "c = 48 + d" "d < 10"
proof -
  have "c = 48 + (c - 48)" "c - 48 < 10" using assms by (auto simp: is_ascii_digit_def)
  then show ?thesis using that by blast
qed

lemma digit_of [simp]: "c < 10 \<Longrightarrow> digit (of_nat (48 + c)) = Some c"
  using digit_byte(2,3)[of c] by (simp add: digit_def Let_def)

lemma digits_value_mono: "digits_value acc ds = Some n \<Longrightarrow> acc \<le> n"
  by (induction acc ds rule: digits_value.induct) (auto split: if_splits)

lemma scan_int128_digits:
  assumes "digits_value acc ds = Some n" and "acc < 2 ^ 127"
  shows "scan_int128 (int acc) (map of_nat ds) = (if n < 2 ^ 127 then Some (int n) else None)"
  using assms
proof (induction ds arbitrary: acc)
  case Nil
  then show ?case by simp
next
  case (Cons c ds)
  then have c: "is_ascii_digit c" and rest: "digits_value (10 * acc + (c - 48)) ds = Some n"
    by (auto split: if_splits)
  from c obtain d where d: "c = 48 + d" "d < 10" by (rule is_ascii_digitE)
  have ge: "10 * acc + d \<le> n" using digits_value_mono[OF rest] d by simp
  have v: "int acc * 10 + int d = int (10 * acc + d)" by simp
  show ?case
  proof (cases "10 * acc + d < 2 ^ 127")
    case True
    then have "scan_int128 (int (10 * acc + d)) (map of_nat ds) = (if n < 2 ^ 127 then Some (int n) else None)"
      using Cons.IH[of "10 * acc + d"] rest d by simp
    with True d show ?thesis
      by (simp add: Let_def digit_byte linorder_not_less[symmetric] checked_def v del: of_nat_add)
  next
    case False
    with ge have "\<not> n < 2 ^ 127" by simp
    moreover have "Option.bind (checked 128 (int acc * 10)) (\<lambda>v10. Option.bind (checked 128 (v10 + int d)) f) = None" for f
      using False d by (auto simp: checked_def)
    ultimately show ?thesis using d
      by (simp add: Let_def digit_byte linorder_not_less[symmetric])
  qed
qed

lemma scan_frac128_digits:
  "digits_value acc ds = Some n \<Longrightarrow> scan_frac128 (int acc) (map of_nat ds) = Some (int n)"
proof (induction ds arbitrary: acc)
  case Nil
  then show ?case by simp
next
  case (Cons c ds)
  then have c: "is_ascii_digit c" and rest: "digits_value (10 * acc + (c - 48)) ds = Some n"
    by (auto split: if_splits)
  from c obtain d where d: "c = 48 + d" "d < 10" by (rule is_ascii_digitE)
  have v: "int acc * 10 + int d = int (10 * acc + d)" by simp
  from d rest Cons.IH[of "10 * acc + d"] show ?case
    by (simp add: Let_def digit_byte linorder_not_less[symmetric] v del: of_nat_add)
qed

section \<open>Zero-padded numbers\<close>

lemma length_show_nat: "n < 10 ^ w \<Longrightarrow> w > 0 \<Longrightarrow> length (show_nat n) \<le> w"
proof (induction w arbitrary: n)
  case 0
  then show ?case by simp
next
  case (Suc w)
  show ?case
  proof (cases "n < 10")
    case True
    then show ?thesis by (subst show_nat.simps) simp
  next
    case False
    then have "w > 0" "n div 10 < 10 ^ w" using Suc.prems by (cases w; auto)+
    with Suc.IH[of "n div 10"] False show ?thesis by (subst show_nat.simps) simp
  qed
qed

lemma length_zero_pad: "n < 10 ^ w \<Longrightarrow> w > 0 \<Longrightarrow> length (zero_pad w n) = w"
  using length_show_nat[of n w] by (simp add: zero_pad_def)

lemma digits_value_zeros: "digits_value 0 (replicate k 48 @ ds) = digits_value 0 ds"
  by (induction k) (simp_all add: is_ascii_digit_def)

lemma digits_value_zero_pad: "digits_value 0 (zero_pad w n) = Some n"
  by (simp add: zero_pad_def digits_value_zeros digits_value_show_nat)

lemma zero_pad_digits: "c \<in> set (zero_pad w n) \<Longrightarrow> is_ascii_digit c"
  using show_nat_digits by (auto simp: zero_pad_def is_ascii_digit_def)

lemma digits_as_bytes: "(\<And>c. c \<in> set s \<Longrightarrow> is_ascii_digit c) \<Longrightarrow> as_bytes s = map of_nat s"
  by (rule as_bytes_ascii) (force simp: list_all_iff is_ascii_digit_def)

lemma digits_no_byte:
  assumes "\<And>c. c \<in> set s \<Longrightarrow> is_ascii_digit c" and "x < 48"
  shows "of_nat x \<notin> set (map of_nat s :: u8 list)"
proof
  assume "of_nat x \<in> set (map of_nat s :: u8 list)"
  then obtain c where c: "c \<in> set s" "(of_nat x :: u8) = of_nat c" by auto
  from assms(1)[OF c(1)] have "48 \<le> c" "c < 58" by (auto simp: is_ascii_digit_def)
  moreover have "unat (of_nat x :: u8) = x" "unat (of_nat c :: u8) = c"
    using assms(2) \<open>c < 58\<close> by (simp_all add: unat_of_nat)
  ultimately show False using c(2) assms(2) by simp
qed

section \<open>NUMERIC\<close>

lemma split_point_none: "46 \<notin> set b \<Longrightarrow> split_point b = Some (b, [])"
proof -
  assume "46 \<notin> set b"
  then have tw: "takeWhile (\<lambda>x. x \<noteq> 46) b = b" by (auto simp: takeWhile_eq_all_conv)
  show ?thesis unfolding split_point_def Let_def tw by simp
qed

lemma split_point_some:
  assumes "46 \<notin> set a" and "f \<noteq> []"
  shows "split_point (a @ 46 # f) = Some (a, f)"
proof -
  have "takeWhile (\<lambda>x. x \<noteq> 46) (a @ 46 # f) = a" using assms(1)
    by (subst takeWhile_append2) auto
  with assms(2) show ?thesis by (cases f) (simp_all add: split_point_def Let_def)
qed

lemma numeric_combine:
  fixes i f :: nat
  assumes "f \<le> 10 ^ 9"
  shows "Option.bind (if i < 2 ^ 127 then Some (int i) else None) (\<lambda>iv.
      Option.bind (checked 128 (iv * 1000000000)) (\<lambda>sc. Option.bind (checked 128 (sc + int f)) g)) =
    (if int i * 1000000000 + int f < 2 ^ 127 then g (int i * 1000000000 + int f) else None)"
  by (auto simp: checked_def)

definition numeric_magnitude :: "nat \<Rightarrow> nat \<Rightarrow> rstring" where
  "numeric_magnitude m s = (if s = 0 then show_nat m else show_nat (m div 10 ^ s) @ [46] @ zero_pad s (m mod 10 ^ s))"

lemma numeric_string_magnitude:
  "numeric_string u s = (if u < 0 then [45] else []) @ numeric_magnitude (nat \<bar>u\<bar>) s"
  by (simp add: numeric_string_def numeric_magnitude_def show_int_def Let_def)

lemma numeric_magnitude_bytes:
  assumes "s \<le> 9"
  shows "\<exists>ip fp. split_point (as_bytes (numeric_magnitude m s)) = Some (ip, fp) \<and> ip \<noteq> [] \<and> length fp = s \<and>
    scan_int128 0 ip = (if m div 10 ^ s < 2 ^ 127 then Some (int (m div 10 ^ s)) else None) \<and>
    scan_frac128 0 fp = Some (int (m mod 10 ^ s))"
proof -
  let ?i = "show_nat (m div 10 ^ s)" and ?f = "zero_pad s (m mod 10 ^ s)"
  have ib: "as_bytes ?i = map of_nat ?i" by (rule digits_as_bytes) (rule show_nat_digits)
  have fb: "as_bytes ?f = map of_nat ?f" by (rule digits_as_bytes) (rule zero_pad_digits)
  have no: "46 \<notin> set (map of_nat ?i :: u8 list)"
    using digits_no_byte[of ?i 46, OF show_nat_digits] by simp
  have i: "scan_int128 0 (map of_nat ?i) = (if m div 10 ^ s < 2 ^ 127 then Some (int (m div 10 ^ s)) else None)"
    using scan_int128_digits[OF digits_value_show_nat[of "m div 10 ^ s"]] by simp
  have f: "scan_frac128 0 (map of_nat ?f) = Some (int (m mod 10 ^ s))"
    using scan_frac128_digits[OF digits_value_zero_pad[of s "m mod 10 ^ s"]] by simp
  show ?thesis
  proof (cases "s = 0")
    case True
    then have "as_bytes (numeric_magnitude m s) = map of_nat ?i" by (simp add: numeric_magnitude_def ib[simplified True, simplified])
    with split_point_none[OF no] i True show ?thesis by auto
  next
    case False
    have len: "length ?f = s" using False by (simp add: length_zero_pad)
    then have fne: "map of_nat ?f \<noteq> ([] :: u8 list)" using False by auto
    have "as_bytes (numeric_magnitude m s) = map of_nat ?i @ 46 # map of_nat ?f"
      using False by (simp add: numeric_magnitude_def ib fb as_bytes_Cons utf8_char_def)
    with split_point_some[OF no fne] i f len show ?thesis by auto
  qed
qed

lemma hd_magnitude: "\<exists>c cs. as_bytes (numeric_magnitude m s) = c # cs \<and> c \<noteq> 45"
proof -
  let ?d = "if s = 0 then m else m div 10 ^ s"
  obtain r where m: "numeric_magnitude m s = show_nat ?d @ r" by (cases "s = 0") (simp_all add: numeric_magnitude_def)
  obtain c cs where c: "show_nat ?d = c # cs" by (meson neq_Nil_conv show_nat_ne)
  have "as_bytes (show_nat ?d) = map of_nat (show_nat ?d)" by (rule digits_as_bytes) (rule show_nat_digits)
  moreover have "45 \<notin> set (map of_nat (show_nat ?d) :: u8 list)"
    using digits_no_byte[of "show_nat ?d" 45, OF show_nat_digits] by simp
  ultimately show ?thesis unfolding m as_bytes_append using c by auto
qed

lemma parse_numeric_parts:
  assumes "as_bytes t = (if neg then [45] else []) @ b" and "b = c # cs" and "c \<noteq> 45"
    and "split_point b = Some (ip, fp)" and "ip \<noteq> []" and "length fp \<le> 9"
  shows "parse_numeric_i128 t =
    Option.bind (scan_int128 0 ip) (\<lambda>i. Option.bind (scan_frac128 0 fp) (\<lambda>f.
      Option.bind (checked 128 (i * 1000000000)) (\<lambda>sc.
      Option.bind (checked 128 (sc + f * 10 ^ (9 - length fp))) (\<lambda>x. Some (if neg then - x else x)))))"
  unfolding parse_numeric_i128_def assms(1) Let_def
  using assms(2-) by (cases neg) (simp_all add: NUMERIC_SCALE_def)

lemma numeric_reparse:
  assumes "s \<le> 9"
  shows "parse_numeric_i128 (numeric_string u s) =
    (if \<bar>u\<bar> * 10 ^ (9 - s) < 2 ^ 127 then Some (u * 10 ^ (9 - s)) else None)"
proof -
  let ?m = "nat \<bar>u\<bar>"
  obtain ip fp where parts: "split_point (as_bytes (numeric_magnitude ?m s)) = Some (ip, fp)" "ip \<noteq> []"
      "length fp = s"
      "scan_int128 0 ip = (if ?m div 10 ^ s < 2 ^ 127 then Some (int (?m div 10 ^ s)) else None)"
      "scan_frac128 0 fp = Some (int (?m mod 10 ^ s))"
    using numeric_magnitude_bytes[OF assms] by blast
  obtain c cs where c: "as_bytes (numeric_magnitude ?m s) = c # cs" "c \<noteq> 45" using hd_magnitude by blast
  let ?f = "?m mod 10 ^ s * 10 ^ (9 - s)"
  have f: "int (?m mod 10 ^ s) * 10 ^ (9 - s) = int ?f" by simp
  have p9: "(10::nat) ^ s * 10 ^ (9 - s) = 10 ^ 9" using assms by (metis le_add_diff_inverse power_add)
  have fle: "?f \<le> 10 ^ 9"
    using mult_le_mono1[of "?m mod 10 ^ s" "10 ^ s" "10 ^ (9 - s)"] p9 by (simp add: less_imp_le)
  have tot: "int (?m div 10 ^ s) * 1000000000 + int ?f = \<bar>u\<bar> * 10 ^ (9 - s)"
  proof -
    have "?m div 10 ^ s * 10 ^ 9 + ?f = ?m * 10 ^ (9 - s)"
      unfolding p9[symmetric] by (metis (no_types) add_mult_distrib div_mult_mod_eq mult.assoc)
    then have "int (?m div 10 ^ s * 10 ^ 9 + ?f) = int (?m * 10 ^ (9 - s))" by (rule arg_cong)
    then show ?thesis by simp
  qed
  have "as_bytes (numeric_string u s) = (if u < 0 then [45] else []) @ as_bytes (numeric_magnitude ?m s)"
    by (simp add: numeric_string_magnitude as_bytes_Cons utf8_char_def as_bytes_def)
  then have "parse_numeric_i128 (numeric_string u s) =
      Option.bind (if ?m div 10 ^ s < 2 ^ 127 then Some (int (?m div 10 ^ s)) else None) (\<lambda>iv.
        Option.bind (checked 128 (iv * 1000000000)) (\<lambda>sc.
        Option.bind (checked 128 (sc + int ?f)) (\<lambda>x. Some (if u < 0 then - x else x))))"
    using parse_numeric_parts[OF _ c parts(1,2)] parts(3-) assms by (simp add: f[symmetric])
  also have "\<dots> = (if \<bar>u\<bar> * 10 ^ (9 - s) < 2 ^ 127 then Some (u * 10 ^ (9 - s)) else None)"
    unfolding numeric_combine[OF fle] tot by (simp add: abs_if)
  finally show ?thesis .
qed

text \<open>
  C6: A decimal bound at any scale up to nine is read back as the same number at Spanner's scale nine,
  for the whole 128-bit range; what does not fit there is refused, never wrapped.
\<close>

theorem numeric_round_trip:
  assumes "s \<le> 9"
  shows "parse_numeric_i128 (numeric_string u s) =
    (if \<bar>u\<bar> * 10 ^ (9 - s) < 2 ^ 127 then Some (u * 10 ^ (9 - s)) else None)"
  using assms by (rule numeric_reparse)

theorem numeric_round_trip_witness:
  "parse_numeric_i128 (numeric_string (- 170141183460469231731687303715884105728) 9) = None \<and>
   parse_numeric_i128 (numeric_string (- 1234567) 2) = Some (- 12345670000000)"
  using numeric_round_trip[of 9 "- 170141183460469231731687303715884105728"] numeric_round_trip[of 2 "- 1234567"]
  by simp

section \<open>DATE and TIMESTAMP\<close>

text \<open>The canonical renderings: what \<^verbatim>\<open>%Y-%m-%d\<close> and RFC 3339 with \<open>k\<close> fractional digits print in UTC.\<close>

definition render_ymd :: "nat \<Rightarrow> nat \<Rightarrow> nat \<Rightarrow> rstring" where
  "render_ymd y m d = zero_pad 4 y @ [45] @ zero_pad 2 m @ [45] @ zero_pad 2 d"

definition render_hms :: "nat \<Rightarrow> nat \<Rightarrow> nat \<Rightarrow> rstring" where
  "render_hms h mi s = zero_pad 2 h @ [58] @ zero_pad 2 mi @ [58] @ zero_pad 2 s"

definition render_fraction :: "nat \<Rightarrow> nat \<Rightarrow> rstring" where
  "render_fraction k n = (if k = 0 then [] else [46] @ zero_pad k (n div 10 ^ (9 - k)))"

definition render_rfc3339 :: "nat \<Rightarrow> nat \<Rightarrow> nat \<Rightarrow> nat \<Rightarrow> nat \<Rightarrow> nat \<Rightarrow> nat \<Rightarrow> nat \<Rightarrow> rstring" where
  "render_rfc3339 k y m d h mi s n = render_ymd y m d @ [84] @ render_hms h mi s @ render_fraction k n @ [90]"

lemma zero_pad_Suc:
  assumes "w > 0"
  shows "zero_pad (Suc w) n = zero_pad w (n div 10) @ [48 + n mod 10]"
proof (cases "n < 10")
  case True
  have "replicate w (48::nat) = replicate (w - 1) 48 @ [48]"
    using assms by (metis Suc_diff_1 replicate_Suc replicate_append_same)
  with True assms show ?thesis
    by (simp add: zero_pad_def show_nat.simps[of n] show_nat.simps[of 0])
next
  case False
  then show ?thesis by (simp add: zero_pad_def show_nat.simps[of n])
qed

lemma zero_pad_1: "n < 10 \<Longrightarrow> zero_pad 1 n = [48 + n]"
  by (simp add: zero_pad_def show_nat.simps[of n])

lemma zero_pad_2: "n < 100 \<Longrightarrow> zero_pad 2 n = [48 + n div 10, 48 + n mod 10]"
  using zero_pad_Suc[of 1 n] zero_pad_1[of "n div 10"] by (simp add: numeral_2_eq_2)

lemma zero_pad_4:
  assumes "n < 10000"
  shows "zero_pad 4 n = [48 + n div 1000, 48 + n div 100 mod 10, 48 + n div 10 mod 10, 48 + n mod 10]"
proof -
  have "zero_pad 4 n = zero_pad 2 (n div 10 div 10) @ [48 + n div 10 mod 10, 48 + n mod 10]"
    using zero_pad_Suc[of 3 n] zero_pad_Suc[of 2 "n div 10"] by simp
  moreover have "n div 10 div 10 = n div 100" "n div 100 div 10 = n div 1000"
    by (simp_all add: div_mult2_eq[symmetric])
  ultimately show ?thesis using assms zero_pad_2[of "n div 100"] by simp
qed

lemma two_digits_at:
  "b ! off = of_nat (48 + n div 10) \<Longrightarrow> b ! (off + 1) = of_nat (48 + n mod 10) \<Longrightarrow> n < 100 \<Longrightarrow>
   two_digits b off = Some n"
  using digit_byte(1-3)[of "n div 10"] digit_byte(1-3)[of "n mod 10"]
  by (simp add: two_digits_def Let_def)

lemma as_bytes_ymd:
  assumes "y < 10000" and "m < 100" and "d < 100"
  shows "as_bytes (render_ymd y m d) =
    [of_nat (48 + y div 1000), of_nat (48 + y div 100 mod 10), of_nat (48 + y div 10 mod 10), of_nat (48 + y mod 10),
     45, of_nat (48 + m div 10), of_nat (48 + m mod 10), 45, of_nat (48 + d div 10), of_nat (48 + d mod 10)]"
proof -
  have "list_all (\<lambda>c. c < 128) (render_ymd y m d)" using assms
    by (auto simp: render_ymd_def zero_pad_4 zero_pad_2)
  from as_bytes_ascii[OF this] assms show ?thesis by (simp add: render_ymd_def zero_pad_4 zero_pad_2)
qed

lemma as_bytes_hms:
  assumes "h < 100" and "mi < 100" and "s < 100"
  shows "as_bytes (render_hms h mi s) =
    [of_nat (48 + h div 10), of_nat (48 + h mod 10), 58, of_nat (48 + mi div 10), of_nat (48 + mi mod 10), 58,
     of_nat (48 + s div 10), of_nat (48 + s mod 10)]"
proof -
  have "list_all (\<lambda>c. c < 128) (render_hms h mi s)" using assms
    by (auto simp: render_hms_def zero_pad_2)
  from as_bytes_ascii[OF this] assms show ?thesis by (simp add: render_hms_def zero_pad_2)
qed

lemma ucast_digit: "d < 10 \<Longrightarrow> (ucast (of_nat d :: u8) :: u32) = of_nat d"
  using digit_byte(5)[of d] by (simp add: word_unat_eq_iff unat_of_nat)

lemma scan_fraction_digits:
  "digits_value acc ds = Some n \<Longrightarrow> scan_fraction (of_nat acc) (map of_nat ds) = Some (of_nat n)"
proof (induction ds arbitrary: acc)
  case Nil
  then show ?case by simp
next
  case (Cons c ds)
  then have c: "is_ascii_digit c" and rest: "digits_value (10 * acc + (c - 48)) ds = Some n"
    by (auto split: if_splits)
  from c obtain d where d: "c = 48 + d" "d < 10" by (rule is_ascii_digitE)
  have v: "(of_nat acc * 10 + ucast (of_nat d :: u8) :: u32) = of_nat (10 * acc + d)"
    by (simp add: ucast_digit[OF d(2)])
  from d rest Cons.IH[of "10 * acc + d"] show ?case
    by (simp add: Let_def digit_byte linorder_not_less[symmetric] v del: of_nat_add of_nat_mult)
qed

lemma scan_nanos_fraction:
  assumes "length pre = 19" and "k \<le> 9" and "n < 10 ^ 9"
  shows "\<exists>v. scan_nanos (pre @ as_bytes (render_fraction k n) @ [90]) = Some v \<and>
    unat v = n div 10 ^ (9 - k) * 10 ^ (9 - k)"
proof (cases "k = 0")
  case True
  with assms have "n div 10 ^ 9 = 0" by simp
  with True assms(1) show ?thesis
    by (simp add: render_fraction_def scan_nanos_def nth_append as_bytes_def)
next
  case False
  let ?q = "n div 10 ^ (9 - k)" and ?e = "10 ^ (9 - k) :: nat"
  let ?ds = "zero_pad k ?q"
  have pw: "(10::nat) ^ k * ?e = 10 ^ 9" using assms(2) by (metis le_add_diff_inverse power_add)
  then have q: "?q < 10 ^ k" using assms(3) by (metis less_mult_imp_div_less)
  have fb: "as_bytes ?ds = map of_nat ?ds" by (rule digits_as_bytes) (rule zero_pad_digits)
  have len: "length ?ds = k" using length_zero_pad[OF q] False by simp
  have bytes: "pre @ as_bytes (render_fraction k n) @ [90] = pre @ 46 # map of_nat ?ds @ [90]"
    using False by (simp add: render_fraction_def as_bytes_Cons utf8_char_def fb)
  have sc: "scan_fraction 0 (map of_nat ?ds) = Some (of_nat ?q)"
    using scan_fraction_digits[OF digits_value_zero_pad[of k ?q]] by simp
  have sn: "scan_nanos (pre @ 46 # map of_nat ?ds @ [90]) = Some (of_nat ?q * 10 ^ (9 - k))"
    using assms(1,2) False len sc by (auto simp: scan_nanos_def Let_def nth_append)
  have "?q * ?e \<le> n" by simp
  with assms(3) have "?q * ?e < 10 ^ 9" by (rule le_less_trans[rotated])
  then have lt: "?q * ?e < 2 ^ 32" by (rule less_trans) simp
  have "(of_nat ?q * 10 ^ (9 - k) :: u32) = of_nat (?q * ?e)" by simp
  then have "unat (of_nat ?q * 10 ^ (9 - k) :: u32) = ?q * ?e"
    using lt by (simp add: unat_of_nat del: of_nat_mult)
  with sn bytes show ?thesis by simp
qed

lemma scan_timestamp_fields:
  assumes "y < 10000" and "mo < 100" and "d < 100" and "h < 100" and "mi < 100" and "s < 100"
    and "k \<le> 9" and "n < 10 ^ 9"
  shows "scan_timestamp_utc cal (render_rfc3339 k y mo d h mi s n) =
    Option.bind (from_ymd_opt cal (int y) mo d) (\<lambda>date.
      and_hms_nano_opt cal date h mi s (n div 10 ^ (9 - k) * 10 ^ (9 - k)))"
proof -
  let ?pre = "as_bytes (render_ymd y mo d) @ [84] @ as_bytes (render_hms h mi s)"
  let ?b = "?pre @ as_bytes (render_fraction k n) @ [90]"
  note ymd = as_bytes_ymd[OF assms(1-3)] and hms = as_bytes_hms[OF assms(4-6)]
  have b: "as_bytes (render_rfc3339 k y mo d h mi s n) = ?b"
    by (simp add: render_rfc3339_def as_bytes_Cons utf8_char_def as_bytes_def)
  have "length ?pre = 19" unfolding ymd hms by simp
  from scan_nanos_fraction[OF this assms(7,8)] obtain v where
    v: "scan_nanos ?b = Some v" "unat v = n div 10 ^ (9 - k) * 10 ^ (9 - k)" by auto
  have y: "y div 100 < 100" "y div 100 div 10 = y div 1000" "y mod 100 div 10 = y div 10 mod 10" "y mod 100 mod 10 = y mod 10"
    using assms(1) by (auto simp: div_mult2_eq[symmetric] mod_mult2_eq[of _ 10 10, simplified] mod_mod_cancel)
  have two: "two_digits ?b 0 = Some (y div 100)" "two_digits ?b 2 = Some (y mod 100)"
      "two_digits ?b 5 = Some mo" "two_digits ?b 8 = Some d" "two_digits ?b 11 = Some h"
      "two_digits ?b 14 = Some mi" "two_digits ?b 17 = Some s"
    using assms(1-6) y by (auto intro!: two_digits_at simp: ymd hms)
  have "int (y div 100 * 100 + y mod 100) = int y" by simp
  moreover have "\<not> (length ?b < 20 \<or> ?b ! 4 \<noteq> 45 \<or> ?b ! 7 \<noteq> 45 \<or> ?b ! 10 \<noteq> 84 \<or> ?b ! 13 \<noteq> 58 \<or> ?b ! 16 \<noteq> 58)"
    unfolding ymd hms by simp
  ultimately show ?thesis unfolding scan_timestamp_utc_def b Let_def
    using two v by (simp del: append.simps append_assoc of_nat_add of_nat_mult)
qed

text \<open>
  The fixed-offset scanner reads a canonical timestamp exactly: every field goes to the calendar as it
  was printed, and a fraction of any length up to nine digits denotes its truncation, with no overflow
  of the 32-bit accumulator.
\<close>

theorem scan_timestamp_canonical:
  assumes "y < 10000" and "mo < 100" and "d < 100" and "h < 100" and "mi < 100" and "s < 100"
    and "k \<le> 9" and "n < 10 ^ 9"
  shows "scan_timestamp_utc cal (render_rfc3339 k y mo d h mi s n) =
    Option.bind (from_ymd_opt cal (int y) mo d) (\<lambda>date.
      and_hms_nano_opt cal date h mi s (n div 10 ^ (9 - k) * 10 ^ (9 - k)))"
  using assms by (rule scan_timestamp_fields)

text \<open>A calendar that knows the Unix epoch.\<close>

definition epoch_calendar :: "(unit, unit) chrono" where
  "epoch_calendar =
     \<lparr>from_ymd_opt = \<lambda>y m d. if y = 1970 \<and> m = 1 \<and> d = 1 then Some () else None,
      num_days_from_ce = \<lambda>_. 719163, epoch_plus_days = \<lambda>n. if n = 0 then Some () else None,
      format_ymd = \<lambda>_. lit ''1970-01-01'',
      and_hms_nano_opt = \<lambda>_ h m s n. if h = 0 \<and> m = 0 \<and> s = 0 \<and> n = 0 then Some () else None,
      timestamp = \<lambda>_. 0, timestamp_subsec_micros = \<lambda>_. 0, timestamp_nanos_opt = \<lambda>_. Some 0,
      from_timestamp = \<lambda>v. if v = 0 then Some () else None,
      from_timestamp_millis = \<lambda>v. if v = 0 then Some () else None,
      from_timestamp_micros = \<lambda>v. if v = 0 then Some () else None, from_timestamp_nanos = \<lambda>_. (),
      to_rfc3339_opts = \<lambda>k _. render_rfc3339 k 1970 1 1 0 0 0 0, is_rfc3339 = \<lambda>_. True\<rparr>"

theorem scan_timestamp_canonical_witness:
  "scan_timestamp_utc epoch_calendar (render_rfc3339 3 1970 1 1 0 0 0 0) = Some ()"
  using scan_timestamp_canonical[of 1970 1 1 0 0 0 3 0 epoch_calendar] by (simp add: epoch_calendar_def)

lemma parse_date_fields:
  assumes "y < 10000" and "m < 100" and "d < 100"
  shows "parse_date_days cal (render_ymd y m d) =
    map_option (\<lambda>date. num_days_from_ce cal date - 719163) (from_ymd_opt cal (int y) m d)"
proof -
  have y: "y div 1000 * 1000 + y div 100 mod 10 * 100 + y div 10 mod 10 * 10 + y mod 10 = y"
  proof -
    have "y div 10 div 10 = y div 100" "y div 100 div 10 = y div 1000"
      by (simp_all add: div_mult2_eq[symmetric])
    moreover have "y = y div 10 * 10 + y mod 10" "y div 10 = y div 10 div 10 * 10 + y div 10 mod 10"
      "y div 100 = y div 100 div 10 * 10 + y div 100 mod 10"
      by (rule div_mult_mod_eq[symmetric])+
    ultimately show ?thesis by linarith
  qed
  have dg: "digit (of_nat (48 + y div 1000)) = Some (y div 1000)" "digit (of_nat (48 + m div 10)) = Some (m div 10)"
    "digit (of_nat (48 + d div 10)) = Some (d div 10)"
    using assms by (intro digit_of; simp)+
  show ?thesis unfolding parse_date_days_def as_bytes_ymd[OF assms] Let_def
    using dg y by (simp add: map_option_case split: option.splits del: of_nat_add)
qed

end
