(* ===== verification/ConversionProps.thy ===== *)
theory ConversionProps
  imports Conversion ScanProps
begin

text \<open>
  Every array the driver builds is a well-formed Arrow array of the type its schema advertises, with
  nulls exactly where Spanner sent none.
\<close>

section \<open>Well-formed arrays\<close>

lemma size_field_type [termination_simp]: "f \<in> set fs \<Longrightarrow> size (field_type f) < Suc (size_list size fs)"
proof (induction fs)
  case Nil
  then show ?case by simp
next
  case (Cons g fs)
  have "size (field_type g) < size g" by (cases g) simp
  with Cons show ?case by auto
qed

text \<open>The types the driver reads results into.\<close>

fun readable :: "data_type \<Rightarrow> bool" where
  "readable Boolean = True"
| "readable Int64 = True"
| "readable Float64 = True"
| "readable Float32 = True"
| "readable Binary = True"
| "readable Date32 = True"
| "readable (Timestamp Nanosecond tz) = True"
| "readable (Timestamp Microsecond tz) = True"
| "readable (Decimal128 p s) = True"
| "readable Utf8 = True"
| "readable (List (Field n dt nul md)) = (nul \<and> readable dt)"
| "readable (Struct fs) = list_all (\<lambda>f. nullable f \<and> readable (field_type f)) fs"
| "readable _ = False"

definition i64_range :: "int \<Rightarrow> bool" where
  "i64_range i \<longleftrightarrow> - (2 ^ 63) \<le> i \<and> i < 2 ^ 63"

definition cell_ok :: "data_type \<Rightarrow> cell \<Rightarrow> bool" where
  "cell_ok dt c =
     (case c of
        CBool b \<Rightarrow> dt = Boolean
      | CInt i \<Rightarrow>
          (case dt of
             Int64 \<Rightarrow> i64_range i
           | Int32 \<Rightarrow> - (2 ^ 31) \<le> i \<and> i < 2 ^ 31
           | Int16 \<Rightarrow> - (2 ^ 15) \<le> i \<and> i < 2 ^ 15
           | UInt32 \<Rightarrow> 0 \<le> i \<and> i < 2 ^ 32
           | Date32 \<Rightarrow> True
           | Timestamp u tz \<Rightarrow> True
           | Decimal128 p s \<Rightarrow> \<bar>i\<bar> < 2 ^ 127
           | _ \<Rightarrow> False)
      | CFloat x \<Rightarrow> dt = Float64 \<or> dt = Float32
      | CStr s \<Rightarrow> dt = Utf8
      | CBytes bs \<Rightarrow> dt = Binary)"

definition offsets_ok :: "nat list \<Rightarrow> bool list \<Rightarrow> nat \<Rightarrow> bool" where
  "offsets_ok offsets validity n \<longleftrightarrow>
     length offsets = length validity + 1 \<and> hd offsets = 0 \<and> last offsets = n \<and> sorted offsets \<and>
     list_all (\<lambda>x. x < 2 ^ 31) offsets \<and>
     (\<forall>i < length validity. \<not> validity ! i \<longrightarrow> offsets ! i = offsets ! Suc i)"

fun wf_arr :: "arr \<Rightarrow> bool" where
  "wf_arr (FlatArr dt cs) = list_all (pred_option (cell_ok dt)) cs"
| "wf_arr (ListArr large item offsets validity child) =
     (offsets_ok offsets validity (arr_len child) \<and> wf_arr child \<and> arr_type child = field_type item)"
| "wf_arr (StructArr fs validity children) =
     (list_all wf_arr children \<and> map arr_type children = map field_type fs \<and>
      list_all (\<lambda>c. arr_len c = length validity) children)"
| "wf_arr (DictArr key keys values) =
     (wf_arr values \<and> list_all (pred_option (\<lambda>k. k < arr_len values)) keys)"
| "wf_arr (UnionArr fs type_ids offsets children) =
     (list_all wf_arr children \<and> map arr_type children = map (field_type \<circ> snd) fs \<and> distinct (map fst fs) \<and>
      list_all2 (\<lambda>t off. \<exists>n < length fs. fst (fs ! n) = t \<and> off < arr_len (children ! n)) type_ids offsets)"

text \<open>The columns of a batch against its schema: types, lengths and nulls.\<close>

definition column_ok :: "data_type \<Rightarrow> wire option list \<Rightarrow> arr \<Rightarrow> bool" where
  "column_ok dt vs a \<longleftrightarrow>
     arr_type a = dt \<and> wf_arr a \<and> arr_len a = length vs \<and>
     (\<forall>i < length vs. is_null a i = (present (vs ! i) = None))"

section \<open>The type mapping\<close>

lemma field_type_tagged [simp]: "field_type (tagged_field n c dt nul) = dt" "nullable (tagged_field n c dt nul) = nul"
  by (simp_all add: tagged_field_def)

lemma readable_List: "readable (List f) \<longleftrightarrow> nullable f \<and> readable (field_type f)"
  by (cases f) simp

lemma arrow_type_readable:
  "arrow_type prec ty depth = Inr dt \<Longrightarrow> readable dt"
  "struct_fields prec fs depth = Inr fl \<Longrightarrow>
     list_all (\<lambda>f. nullable f \<and> readable (field_type f)) fl \<and> map field_name fl = map fst fs"
proof (induction prec ty depth and prec fs depth arbitrary: dt and fl rule: arrow_type_struct_fields.induct)
  case (1 prec c elem st depth)
  show ?case
  proof (cases c)
    case CodeStruct
    with 1 show ?thesis
      by (auto simp: arrow_type.simps res_simps split: if_splits option.splits)
  next
    case CodeArray
    with 1 show ?thesis
      by (auto simp: arrow_type.simps res_simps readable_List split: if_splits option.splits)
  next
    case CodeTimestamp
    with 1 show ?thesis
      by (cases prec) (auto simp: arrow_type.simps split: if_splits)
  qed (use 1(3) in \<open>auto simp: arrow_type.simps split: if_splits\<close>)
next
  case (2 prec depth)
  then show ?case by (simp add: arrow_type.simps)
next
  case (3 prec n t fs depth)
  then show ?case
    by (auto simp: arrow_type.simps res_simps tagged_field_def split: option.splits)
qed

section \<open>Flat columns\<close>

lemma build_with_Inr:
  assumes "build_with dec vs = Inr cs" and "\<And>v c. dec v = Inr c \<Longrightarrow> P c"
  shows "length cs = length vs \<and> list_all (pred_option P) cs \<and>
    (\<forall>i < length vs. (cs ! i = None) = (present (vs ! i) = None))"
  using assms(1)
proof (induction vs arbitrary: cs)
  case Nil
  then show ?case by simp
next
  case (Cons v vs)
  from Cons.prems obtain c cs' where cs: "cs = c # cs'" "build_with dec vs = Inr cs'"
      "(c = None) = (present v = None)" "pred_option P c"
    by (auto simp: res_simps dest: assms(2) split: option.splits)
  with Cons.IH[OF cs(2)] show ?case by (auto simp: nth_Cons split: nat.splits)
qed

lemma column_ok_flat:
  assumes "build_with dec vs = Inr cs" and "\<And>v c. dec v = Inr c \<Longrightarrow> cell_ok dt c"
  shows "column_ok dt vs (FlatArr dt cs)"
  using build_with_Inr[OF assms] by (simp add: column_ok_def)

lemma parse_i64_range: "parse_i64 s = Some i \<Longrightarrow> i64_range i"
  by (auto simp: parse_i64_def i64_range_def Let_def split: option.splits if_splits prod.splits)

lemma scan_int128_nonneg: "scan_int128 v bs = Some w \<Longrightarrow> 0 \<le> v \<Longrightarrow> 0 \<le> w"
  by (induction v bs rule: scan_int128.induct)
    (auto simp: Let_def checked_def bind_eq_Some_conv split: if_splits)

lemma scan_frac128_nonneg: "scan_frac128 v bs = Some w \<Longrightarrow> 0 \<le> v \<Longrightarrow> 0 \<le> w"
  by (induction v bs rule: scan_frac128.induct) (auto simp: Let_def split: if_splits)

lemma numeric_abs:
  fixes y f :: int
  assumes "0 \<le> y" and "0 \<le> f" and "y * 1000000000 + f * 10 ^ k < m"
  shows "\<bar>y * 1000000000 + f * 10 ^ k\<bar> < m" "\<bar>- (y * 1000000000) - f * 10 ^ k\<bar> < m"
proof -
  have "0 \<le> y * 1000000000 + f * 10 ^ k" using assms(1,2) by simp
  with assms(3) show "\<bar>y * 1000000000 + f * 10 ^ k\<bar> < m" "\<bar>- (y * 1000000000) - f * 10 ^ k\<bar> < m"
    by linarith+
qed

lemma parse_numeric_range: "parse_numeric_i128 s = Some i \<Longrightarrow> \<bar>i\<bar> < 2 ^ 127"
  by (auto simp: parse_numeric_i128_def Let_def bind_eq_Some_conv checked_def
      dest!: scan_int128_nonneg scan_frac128_nonneg intro!: numeric_abs split: if_splits prod.splits)

lemma column_ok_prim:
  assumes "build_primitive what parse mk vs = Inr cs" and "\<And>v x. parse v = Some x \<Longrightarrow> cell_ok dt (mk x)"
  shows "column_ok dt vs (FlatArr dt cs)"
  using assms(1) unfolding build_primitive_def
  by (rule column_ok_flat) (auto simp: res_simps dest: assms(2))

lemma build_flat_ok:
  assumes "build_flat K dt vs = Inr a" and "readable dt" and "\<And>f. dt \<noteq> List f" and "\<And>fs. dt \<noteq> Struct fs"
  shows "column_ok dt vs a"
  using assms
  by (cases dt rule: readable.cases)
    (auto simp: build_flat_def res_simps decode_nanos_def parse_int64_def cell_ok_def bind_eq_Some_conv
      dest: parse_i64_range parse_numeric_range[simplified] elim!: column_ok_prim column_ok_flat
      split: option.splits if_splits)

section \<open>Nested columns\<close>

lemma present_not_null: "present v = Some x \<Longrightarrow> x \<noteq> WNull"
  by (cases v rule: present.cases) auto

lemma sorted_le_last: "sorted xs \<Longrightarrow> x \<in> set xs \<Longrightarrow> x \<le> last xs"
  by (induction xs) auto

lemma list_loop_ok:
  assumes "list_loop vs children offsets validity = Inr (children', offsets', validity')"
    and "offsets_ok offsets validity (length children)"
  shows "offsets_ok offsets' validity' (length children') \<and>
    validity' = validity @ map (\<lambda>v. present v \<noteq> None) vs"
  using assms
proof (induction vs arbitrary: children offsets validity)
  case Nil
  then show ?case by simp
next
  case (Cons v vs)
  from Cons.prems(1) obtain ch valid where
    rec: "list_loop vs ch (offsets @ [length ch]) (validity @ [valid]) = Inr (children', offsets', validity')"
    and ch: "length ch < 2 ^ 31" "length children \<le> length ch" "valid = (present v \<noteq> None)"
      "\<not> valid \<Longrightarrow> ch = children"
  proof (cases "present v")
    case None
    with Cons.prems(1) that[of children False] show ?thesis by (simp add: res_simps split: if_splits)
  next
    case (Some x)
    with Cons.prems(1) obtain xs where x: "x = WList xs" by (cases x) simp_all
    from Some x Cons.prems(1) that[of "children @ map Some xs" True] show ?thesis
      by (simp add: res_simps split: if_splits)
  qed
  have len: "length offsets = length validity + 1" and ne: "offsets \<noteq> []"
    using Cons.prems(2) by (auto simp: offsets_ok_def)
  have srt: "sorted (offsets @ [length ch])"
    using Cons.prems(2) ch(2) sorted_le_last[of offsets] by (auto simp: offsets_ok_def sorted_append intro: le_trans)
  have "offsets ! i = (offsets @ [length ch]) ! Suc i"
    if "i < length (validity @ [valid])" "\<not> (validity @ [valid]) ! i" for i
  proof (cases "i < length validity")
    case True
    with that Cons.prems(2) len show ?thesis by (simp add: offsets_ok_def nth_append)
  next
    case False
    with that have i: "i = length validity" "\<not> valid" by (auto simp: nth_append)
    with Cons.prems(2) len ne ch(4) show ?thesis by (simp add: offsets_ok_def nth_append last_conv_nth)
  qed
  then have "offsets_ok (offsets @ [length ch]) (validity @ [valid]) (length ch)"
    using Cons.prems(2) srt ch(1) ne len by (simp add: offsets_ok_def nth_append hd_append)
  from Cons.IH[OF rec this] ch(3) show ?case by auto
qed

lemma struct_loop_ok:
  assumes "struct_loop vs children validity = Inr (children', validity')"
    and "\<forall>c \<in> set children. length c = n"
  shows "validity' = validity @ map (\<lambda>v. present v \<noteq> None) vs \<and> length children' = length children \<and>
    (\<forall>c \<in> set children'. length c = n + length vs)"
  using assms
proof (induction vs arbitrary: children validity n)
  case Nil
  then show ?case by simp
next
  case (Cons v vs)
  from Cons.prems obtain ch where
    rec: "struct_loop vs ch (validity @ [present v \<noteq> None]) = Inr (children', validity')"
    and ch: "\<forall>c \<in> set ch. length c = Suc n" "length ch = length children"
  proof (cases "present v")
    case None
    with Cons.prems that[of "map (\<lambda>c. c @ [None]) children"] show ?thesis by auto
  next
    case (Some x)
    with Cons.prems(1) obtain xs where x: "x = WList xs" by (cases x) simp_all
    let ?ch = "map (\<lambda>(i, c). c @ [nth_opt xs i]) (enumerate 0 children)"
    have "\<forall>c \<in> set ?ch. length c = Suc n" using Cons.prems(2)
      by (auto simp: enumerate_eq_zip dest: set_zip_rightD)
    with Some x Cons.prems(1) that[of ?ch] show ?thesis by simp
  qed
  from Cons.IH[OF rec ch(1)] ch(2) show ?case by simp
qed

lemma offsets_ok_start: "offsets_ok [0] [] 0"
  by (simp add: offsets_ok_def)

lemma build_array_ok:
  "readable dt \<Longrightarrow> build_array K dt vs = Inr a \<Longrightarrow> column_ok dt vs a"
  "list_all (\<lambda>f. nullable f \<and> readable (field_type f)) fs \<Longrightarrow> length cs = length fs \<Longrightarrow>
   build_fields K fs cs = Inr as \<Longrightarrow> list_all2 (\<lambda>(f, c) a. column_ok (field_type f) c a) (zip fs cs) as"
proof (induction K dt vs and K fs cs arbitrary: a and as rule: build_array_build_fields.induct)
  case (1 K n dt nul md vs)
  from "1.prems" obtain children offsets validity child where
    l: "list_loop vs [] [0] [] = Inr (children, offsets, validity)"
    and c: "build_array K dt children = Inr child"
    and a: "a = ListArr False (Field n dt nul md) offsets validity child"
    by (auto simp: res_simps split: option.splits prod.splits)
  have ok: "offsets_ok offsets validity (length children) \<and> validity = map (\<lambda>v. present v \<noteq> None) vs"
    using list_loop_ok[OF l] offsets_ok_start by auto
  have "column_ok dt children child" using "1.IH" "1.prems"(1) c by simp
  with ok a show ?case by (auto simp: column_ok_def)
next
  case (2 K fs vs)
  from "2.prems" obtain children validity arrays where
    l: "struct_loop vs (replicate (length fs) []) [] = Inr (children, validity)"
    and c: "build_fields K fs children = Inr arrays"
    and a: "a = StructArr fs validity arrays"
    by (auto simp: res_simps split: option.splits prod.splits)
  have ok: "validity = map (\<lambda>v. present v \<noteq> None) vs" "length children = length fs"
      "\<forall>c \<in> set children. length c = length vs"
    using struct_loop_ok[OF l, of 0] by auto
  have cols: "list_all2 (\<lambda>(f, c) a. column_ok (field_type f) c a) (zip fs children) arrays"
    using "2.IH" "2.prems"(1) ok(2) c by simp
  then have nth: "column_ok (field_type (fs ! i)) (children ! i) (arrays ! i)" if "i < length fs" for i
    using that ok(2) by (auto simp: list_all2_conv_all_nth split: prod.splits)
  have len: "length arrays = length fs" using cols ok(2) by (simp add: list_all2_lengthD[symmetric])
  have "map arr_type arrays = map field_type fs"
    using nth len by (auto simp: list_eq_iff_nth_eq column_ok_def)
  moreover have "list_all wf_arr arrays" "list_all (\<lambda>c. arr_len c = length vs) arrays"
    using nth len ok(2,3) by (auto simp: list_all_length column_ok_def)
  ultimately show ?case using a ok(1) by (simp add: column_ok_def)
qed (auto simp: res_simps list_all2_Cons1 intro: build_flat_ok)

section \<open>Batches\<close>

lemma meta_fields_readable:
  "meta_fields prec ns types = Inr fs \<Longrightarrow> list_all (\<lambda>f. readable (field_type f)) fs \<and> map field_name fs = ns"
  by (induction prec ns types arbitrary: fs rule: meta_fields.induct)
    (auto simp: res_simps arrow_field_def plain_field_def tagged_field_def dest: arrow_type_readable(1)
      split: list.splits)

lemma build_schema_readable:
  "build_schema md r prec = Inr fs \<Longrightarrow> list_all (\<lambda>f. readable (field_type f)) fs"
  by (auto simp: build_schema_def plain_field_def list_all_iff simp del: meta_fields.simps dest!: meta_fields_readable
      split: option.splits list.splits prod.splits)

text \<open>
  C4: A batch agrees with the schema it is delivered under: one column per field, each a well-formed array
  of exactly that field's type with one slot per row, and a slot is null exactly when Spanner sent no
  value or a \<^verbatim>\<open>NULL\<close> there.  In particular a value that cannot be decoded is an error, never a null.
\<close>

theorem batch_matches_schema:
  assumes "rows_to_batch K md rows prec = Inr (schema, arrays)"
  shows "length arrays = length schema \<and>
    (\<forall>i < length schema. column_ok (field_type (schema ! i)) (map (\<lambda>r. nth_opt r i) rows) (arrays ! i))"
proof -
  from assms obtain r where sch: "build_schema md r prec = Inr schema" and b: "build_batch K schema rows = Inr arrays"
    by (auto simp: rows_to_batch_def res_simps)
  from b have cols: "map (\<lambda>(i, f). build_column K f (map (\<lambda>r. nth_opt r i) rows)) (enumerate 0 schema) = map Inr arrays"
    by (auto simp: build_batch_def res_simps split: option.splits)
  then have len: "length arrays = length schema" using map_eq_imp_length_eq by fastforce
  have "column_ok (field_type (schema ! i)) (map (\<lambda>r. nth_opt r i) rows) (arrays ! i)" if i: "i < length schema" for i
  proof -
    from i len cols[THEN arg_cong, of "\<lambda>l. l ! i"]
    have "build_column K (schema ! i) (map (\<lambda>r. nth_opt r i) rows) = Inr (arrays ! i)"
      by (simp add: nth_enumerate_eq)
    moreover have "readable (field_type (schema ! i))"
      using build_schema_readable[OF sch] i by (simp add: list_all_length)
    ultimately show ?thesis by (auto simp: build_column_def res_simps intro: build_array_ok(1))
  qed
  with len show ?thesis by blast
qed

end
