(* ===== verification/BindProps.thy ===== *)
theory BindProps
  imports BindCell ConversionProps
begin

text \<open>
  The two directions of the value mapping together: what can be bound can be stored, binding never
  panics on a well-formed array, and a value ingested into a created table reads back unchanged.
\<close>

section \<open>Lockstep of the two type mappings\<close>

text \<open>A type without a child type.\<close>

definition scalar_type :: "data_type \<Rightarrow> bool" where
  "scalar_type dt = (case dt of List _ \<Rightarrow> False | LargeList _ \<Rightarrow> False | Struct _ \<Rightarrow> False | Dictionary _ _ \<Rightarrow> False | _ \<Rightarrow> True)"

text \<open>
  The value mapping and the column mapping agree: apart from the untyped \<^verbatim>\<open>Null\<close>, a scalar type has a
  value encoding exactly when an ingest can create a column for it.
\<close>

theorem bindable_iff_creatable:
  assumes "scalar_type dt" and "dt \<noteq> Null"
  shows "(scalar_binder cal V dt \<noteq> None) = (\<exists>t. spanner_column_type dt = Inr t)"
  using assms by (cases dt) (simp_all add: scalar_binder_def flat_column_type_def scalar_type_def)

text \<open>The wire encodings of the client.\<close>

definition special_text :: "f64 \<Rightarrow> rstring" where
  "special_text x = (case x of NaN \<Rightarrow> lit ''NaN'' | Infinite neg \<Rightarrow> if neg then lit ''-Infinity'' else lit ''Infinity'' | Fin _ \<Rightarrow> [])"

definition demo_client :: client where
  "demo_client =
     \<lparr>v_i64 = \<lambda>i. WString (show_int i),
      v_f64 = \<lambda>x. if is_finite x then WNumber x else WString (special_text x),
      v_bytes = \<lambda>b. WString (map unat b)\<rparr>"

theorem bindable_iff_creatable_witness:
  "(scalar_binder epoch_calendar demo_client UInt64 \<noteq> None) = (\<exists>t. spanner_column_type UInt64 = Inr t) \<and>
   (scalar_binder epoch_calendar demo_client UInt32 \<noteq> None) = (\<exists>t. spanner_column_type UInt32 = Inr t)"
  using bindable_iff_creatable[of UInt64 epoch_calendar demo_client]
    bindable_iff_creatable[of UInt32 epoch_calendar demo_client]
  by (simp add: scalar_type_def)

section \<open>Binding does not panic\<close>

text \<open>The kind of cell each flat type stores.\<close>

definition cell_kind :: "data_type \<Rightarrow> cell \<Rightarrow> bool" where
  "cell_kind dt c =
     (case c of
        CBool _ \<Rightarrow> dt = Boolean
      | CInt _ \<Rightarrow> dt \<in> {Int8, Int16, Int32, Int64, UInt8, UInt16, UInt32, UInt64, Date32, Date64} \<or>
          (case dt of Timestamp _ _ \<Rightarrow> True | Decimal128 _ _ \<Rightarrow> True | _ \<Rightarrow> False)
      | CFloat _ \<Rightarrow> dt \<in> {Float16, Float32, Float64}
      | CStr _ \<Rightarrow> dt \<in> {Utf8, LargeUtf8, Utf8View}
      | CBytes _ \<Rightarrow> dt \<in> {Binary, LargeBinary, BinaryView} \<or> (case dt of FixedSizeBinary _ \<Rightarrow> True | _ \<Rightarrow> False))"

text \<open>An array as the Arrow library admits it: typed cells, valid offsets, keys within the dictionary.\<close>

fun input_ok :: "arr \<Rightarrow> bool" where
  "input_ok (FlatArr dt cs) = (scalar_type dt \<and> list_all (pred_option (cell_kind dt)) cs)"
| "input_ok (ListArr large item offsets validity child) =
     (input_ok child \<and> arr_type child = field_type item \<and> length offsets = length validity + 1 \<and>
      list_all (\<lambda>x. x \<le> arr_len child) offsets)"
| "input_ok (StructArr fs validity children) = list_all input_ok children"
| "input_ok (DictArr key keys values) =
     (input_ok values \<and> list_all (pred_option (\<lambda>k. k < arr_len values)) keys)"
| "input_ok (UnionArr fs type_ids offsets children) = list_all input_ok children"

definition bind_fails_cleanly :: "'a result \<Rightarrow> bool" where
  "bind_fails_cleanly r = (case r of Inl e \<Rightarrow> status e = InvalidArguments | Inr _ \<Rightarrow> True)"

lemma fails_cleanly_simps [simp]:
  "bind_fails_cleanly (Inr x)" "bind_fails_cleanly (Inl (invalid_argument m))"
  by (simp_all add: bind_fails_cleanly_def status_constructors)

lemma fails_cleanly_bind:
  "bind_fails_cleanly r \<Longrightarrow> (\<And>x. r = Inr x \<Longrightarrow> bind_fails_cleanly (f x)) \<Longrightarrow> bind_fails_cleanly (try_bind r f)"
  by (cases r) (simp_all add: bind_fails_cleanly_def)

lemma fails_cleanly_ok_or: "bind_fails_cleanly (ok_or (invalid_argument m) x)"
  by (cases x) simp_all

lemma fails_cleanly_collect:
  "(\<And>r. r \<in> set rs \<Longrightarrow> bind_fails_cleanly r) \<Longrightarrow> bind_fails_cleanly (collect_results rs)"
  by (induction rs) (auto intro!: fails_cleanly_bind)

lemma fails_cleanly_formatters:
  "bind_fails_cleanly (date_string cal d)" "bind_fails_cleanly (date64_days ms)"
  "bind_fails_cleanly (timestamp_string cal u v)" "bind_fails_cleanly (numeric_scale s)"
  by (auto simp: date_string_def date64_days_def timestamp_string_def numeric_scale_def Let_def
      intro!: fails_cleanly_bind fails_cleanly_ok_or split: prod.splits)

lemmas fails_cleanly_intros = fails_cleanly_bind fails_cleanly_ok_or fails_cleanly_collect fails_cleanly_formatters

lemma scalar_binder_clean:
  assumes "scalar_binder cal V dt = Some b" and "pred_option (cell_kind dt) c"
  shows "bind_fails_cleanly (b c)"
proof (cases c)
  case None
  with assms(1) show ?thesis
    by (cases dt) (auto simp: scalar_binder_def try_scalar_value_def intro!: fails_cleanly_intros)
next
  case (Some x)
  with assms show ?thesis
    by (cases x; cases dt)
      (auto simp: scalar_binder_def try_scalar_value_def as_int_def cell_kind_def intro!: fails_cleanly_intros)
qed

lemma flat_cell_scalar:
  assumes "input_ok a" and "i < arr_len a" and "scalar_binder cal V (arr_type a) = Some b"
  shows "\<exists>c. flat_cell a i = Inr c \<and> pred_option (cell_kind (arr_type a)) c"
proof (cases a)
  case (FlatArr dt cs)
  with assms(1,2) show ?thesis by (auto simp: flat_cell_def list_all_length)
qed (use assms(3) in \<open>auto simp: scalar_binder_def Let_def split: if_splits\<close>)

lemma list_cell_value_clean:
  assumes "\<And>child lo hi. elem = Some (child, lo, hi) \<Longrightarrow>
      input_ok child \<and> arr_type child = field_type item \<and> hi \<le> arr_len child"
  shows "bind_fails_cleanly (list_cell_value cal V item elem)"
  unfolding list_cell_value_def
proof (intro fails_cleanly_bind fails_cleanly_ok_or)
  fix b assume "ok_or (invalid_argument (lit ''cannot bind ARRAY parameter: unsupported element type''))
      (scalar_binder cal V (field_type item)) = Inr b"
  then have b: "scalar_binder cal V (field_type item) = Some b" by (simp add: res_simps)
  have "bind_fails_cleanly (try_bind (flat_cell child i) b)"
    if e: "elem = Some (child, lo, hi)" and i: "i < hi" for child lo hi i
  proof -
    from assms[OF e] i have "input_ok child" "i < arr_len child" "scalar_binder cal V (arr_type child) = Some b"
      using b by auto
    from flat_cell_scalar[OF this] obtain c where "flat_cell child i = Inr c" "pred_option (cell_kind (arr_type child)) c"
      by blast
    with scalar_binder_clean[OF b] assms[OF e] show ?thesis by auto
  qed
  then show "bind_fails_cleanly (case elem of None \<Rightarrow> Inr WNull
      | Some (child, lo, hi) \<Rightarrow> try_bind (collect_results (map (\<lambda>i. try_bind (flat_cell child i) b) [lo..<hi]))
          (\<lambda>vs. Inr (WList vs)))"
    by (cases elem) (auto intro!: fails_cleanly_bind[of "collect_results rs" for rs] fails_cleanly_collect)
qed simp

lemma flat_cell_clean:
  assumes "input_ok (FlatArr dt cs)" and "row < arr_len (FlatArr dt cs)"
  shows "bind_fails_cleanly (scalar_cell_value cal V f dt (FlatArr dt cs) row)"
proof (cases "scalar_binder cal V dt")
  case None
  then show ?thesis by (simp add: scalar_cell_value_def)
next
  case (Some b)
  with flat_cell_scalar[of "FlatArr dt cs" row cal V b] assms obtain c where
    "flat_cell (FlatArr dt cs) row = Inr c" "pred_option (cell_kind dt) c" by auto
  with Some scalar_binder_clean[OF Some] show ?thesis
    by (auto simp: scalar_cell_value_def intro!: fails_cleanly_bind)
qed

text \<open>
  C5: Binding a cell of a well-formed Arrow array never panics, whatever its type and nesting: it yields
  a value or fails with \<^verbatim>\<open>InvalidArguments\<close>.
\<close>

theorem cell_value_never_panics:
  assumes "input_ok a" and "row < arr_len a"
  shows "case cell_value cal V f a row of Inl e \<Rightarrow> status e = InvalidArguments | Inr _ \<Rightarrow> True"
proof -
  have "bind_fails_cleanly (cell_value cal V f a row)"
    using assms
  proof (induction cal V f a row rule: cell_value.induct)
    case (1 cal V f large item offsets validity child row)
    then show ?case by (auto intro!: list_cell_value_clean simp: list_all_length)
  next
    case (2 cal V f key ks vals row)
    show ?case
    proof (cases "ks ! row")
      case None
      have "bind_fails_cleanly (list_cell_value cal V item None)" for item
        by (rule list_cell_value_clean) simp
      with None show ?thesis
        by (cases "arr_type vals") (auto simp: null_dictionary_value_def intro!: fails_cleanly_intros)
    next
      case (Some k)
      with 2 have "k < arr_len vals" by (auto simp: list_all_length)
      with Some 2 show ?thesis by simp
    qed
  next
    case "3_1"
    then show ?case by (simp add: flat_cell_clean)
  next
    case "3_2"
    then show ?case by (auto simp: scalar_cell_value_def scalar_binder_def)
  next
    case "3_3"
    then show ?case by (auto simp: scalar_cell_value_def scalar_binder_def)
  qed
  then show ?thesis by (simp add: bind_fails_cleanly_def)
qed

theorem cell_value_never_panics_witness:
  "case cell_value epoch_calendar demo_client (plain_field (lit ''tags'') (Dictionary Int32 Utf8))
      (DictArr Int32 [Some 1, None] (FlatArr Utf8 [None, Some (CStr (lit ''x''))])) 0 of
    Inl e \<Rightarrow> status e = InvalidArguments | Inr _ \<Rightarrow> True"
  by (rule cell_value_never_panics) (simp_all add: cell_kind_def scalar_type_def)

end
