(* ===== verification/ReadBack.thy ===== *)
theory ReadBack
  imports BindProps
begin

text \<open>
  The two directions composed: a cell ingested into a table the driver created, stored by Spanner as
  the type of its column, and read through a query.
\<close>

section \<open>What the other crates promise\<close>

text \<open>
  The client's wire encodings, as Spanner documents them: integers as decimal strings, finite doubles
  as numbers and the special ones by name, bytes in base64.
\<close>

definition client_ok :: "('d, 'dt) crates \<Rightarrow> client \<Rightarrow> bool" where
  "client_ok K V \<longleftrightarrow>
     (\<forall>i. v_i64 V i = WString (show_int i)) \<and>
     (\<forall>x. v_f64 V x = (if is_finite x then WNumber x else WString (special_text x))) \<and>
     (\<forall>b. \<exists>s. v_bytes V b = WString s \<and> b64_decode K s = Some b) \<and>
     try_decimal K NUMERIC_PRECISION (int NUMERIC_SCALE) = None"

text \<open>The calendar at one day: it prints the canonical form of the fields it accepts.\<close>

definition date_law :: "('d, 'dt) chrono \<Rightarrow> int \<Rightarrow> bool" where
  "date_law cal n \<longleftrightarrow>
     (\<exists>y m d date. y < 10000 \<and> m < 100 \<and> d < 100 \<and> epoch_plus_days cal n = Some date \<and>
        format_ymd cal date = render_ymd y m d \<and> from_ymd_opt cal (int y) m d = Some date \<and>
        num_days_from_ce cal date = n + 719163)"

fun unit_digits :: "time_unit \<Rightarrow> nat" where
  "unit_digits Second = 0"
| "unit_digits Millisecond = 3"
| "unit_digits Microsecond = 6"
| "unit_digits Nanosecond = 9"

fun instant_of :: "('d, 'dt) chrono \<Rightarrow> time_unit \<Rightarrow> int \<Rightarrow> 'dt option" where
  "instant_of cal Second v = from_timestamp cal v"
| "instant_of cal Millisecond v = from_timestamp_millis cal v"
| "instant_of cal Microsecond v = from_timestamp_micros cal v"
| "instant_of cal Nanosecond v = Some (from_timestamp_nanos cal v)"

text \<open>And at one instant, printed with the digits of its unit, within Spanner's years.\<close>

definition instant_law :: "('d, 'dt) chrono \<Rightarrow> time_unit \<Rightarrow> int \<Rightarrow> bool" where
  "instant_law cal u v \<longleftrightarrow>
     (\<exists>t y mo d h mi s n date. let k = unit_digits u in
        instant_of cal u v = Some t \<and>
        y < 10000 \<and> mo < 100 \<and> d < 100 \<and> h < 100 \<and> mi < 100 \<and> s < 100 \<and> n < 10 ^ 9 \<and>
        n mod 10 ^ (9 - k) = 0 \<and>
        to_rfc3339_opts cal k t = render_rfc3339 k y mo d h mi s n \<and>
        from_ymd_opt cal (int y) mo d = Some date \<and> and_hms_nano_opt cal date h mi s n = Some t \<and>
        timestamp_nanos_opt cal t = checked 64 (v * 10 ^ (9 - k)))"

section \<open>Storage and reading\<close>

text \<open>The type Spanner reports for a column declared with each of the driver's DDL types.\<close>

definition column_code :: "rstring \<Rightarrow> type_code option" where
  "column_code t = map_of
     [(lit ''INT64'', CodeInt64), (lit ''FLOAT32'', CodeFloat32), (lit ''FLOAT64'', CodeFloat64),
      (lit ''BOOL'', CodeBool), (lit ''STRING(MAX)'', CodeString), (lit ''BYTES(MAX)'', CodeBytes),
      (lit ''DATE'', CodeDate), (lit ''TIMESTAMP'', CodeTimestamp), (lit ''NUMERIC'', CodeNumeric)] t"

text \<open>The values that fit their Spanner column, and what each reads back as.\<close>

definition value_fits :: "('d, 'dt) crates \<Rightarrow> data_type \<Rightarrow> cell \<Rightarrow> bool" where
  "value_fits K dt c \<longleftrightarrow> cell_kind dt c \<and>
     (case c of
        CInt i \<Rightarrow>
          (case dt of
             Date32 \<Rightarrow> date_law (calendar K) i
           | Date64 \<Rightarrow> checked 32 (i div 86400000) \<noteq> None \<and> date_law (calendar K) (i div 86400000)
           | Timestamp u _ \<Rightarrow> instant_law (calendar K) u i \<and> i64_range (i * 10 ^ (9 - unit_digits u))
           | Decimal128 _ s \<Rightarrow> 0 \<le> s \<and> s \<le> 9 \<and> \<bar>i\<bar> * 10 ^ (9 - nat s) < 2 ^ 127
           | _ \<Rightarrow> i64_range i)
      | CFloat x \<Rightarrow> dt \<noteq> Float64 \<longrightarrow> as_f32 K x = x
      | _ \<Rightarrow> True)"

definition read_back :: "data_type \<Rightarrow> cell \<Rightarrow> cell" where
  "read_back dt c =
     (case c of
        CInt i \<Rightarrow>
          CInt (case dt of
                  Date64 \<Rightarrow> i div 86400000
                | Timestamp u _ \<Rightarrow> i * 10 ^ (9 - unit_digits u)
                | Decimal128 _ s \<Rightarrow> i * 10 ^ (9 - nat s)
                | _ \<Rightarrow> i)
      | _ \<Rightarrow> c)"

lemma parse_special: "client_ok K V \<Longrightarrow> parse_wire_f64 rnd (v_f64 V x) = Some x"
proof -
  have ne: "lit ''Infinity'' \<noteq> lit ''NaN''" "lit ''-Infinity'' \<noteq> lit ''NaN''" "lit ''-Infinity'' \<noteq> lit ''Infinity''"
    by code_simp+
  assume "client_ok K V"
  then show ?thesis using ne
    by (cases x) (auto simp: client_ok_def parse_wire_f64_def special_text_def)
qed

lemma present_string [simp]: "present (Some (WString s)) = Some (WString s)"
  by simp

lemma date_string_reads:
  assumes "date_law cal n"
  shows "\<exists>s. date_string cal n = Inr s \<and> parse_date_days cal s = Some n"
proof -
  from assms obtain y m d date where y: "y < 10000" "m < 100" "d < 100" and ed: "epoch_plus_days cal n = Some date"
    "format_ymd cal date = render_ymd y m d" "from_ymd_opt cal (int y) m d = Some date"
    "num_days_from_ce cal date = n + 719163" unfolding date_law_def by blast
  with parse_date_fields[OF y, of cal] show ?thesis by (simp add: date_string_def)
qed

lemma timestamp_string_reads:
  assumes "instant_law cal u v" and "i64_range (v * 10 ^ (9 - unit_digits u))"
  shows "\<exists>s. timestamp_string cal u v = Inr s \<and> parse_timestamp_nanos cal s = Some (v * 10 ^ (9 - unit_digits u))"
proof -
  let ?k = "unit_digits u"
  from assms(1) obtain t y mo d h mi s n date where
    t: "instant_of cal u v = Some t" and f: "y < 10000" "mo < 100" "d < 100" "h < 100" "mi < 100" "s < 100"
    and n: "n < 10 ^ 9" "n mod 10 ^ (9 - ?k) = 0" and p: "to_rfc3339_opts cal ?k t = render_rfc3339 ?k y mo d h mi s n"
    and c: "from_ymd_opt cal (int y) mo d = Some date" "and_hms_nano_opt cal date h mi s n = Some t"
    and ns: "timestamp_nanos_opt cal t = checked 64 (v * 10 ^ (9 - ?k))"
    unfolding instant_law_def Let_def by (elim exE conjE) (rule that; assumption)
  have k: "?k \<le> 9" by (cases u) simp_all
  have "n div 10 ^ (9 - ?k) * 10 ^ (9 - ?k) = n" using n(2) by (metis add.right_neutral div_mult_mod_eq)
  then have "scan_timestamp_utc cal (render_rfc3339 ?k y mo d h mi s n) = Some t"
    using scan_timestamp_fields[OF f k n(1), of cal] c by simp
  moreover have "timestamp_string cal u v = Inr (to_rfc3339_opts cal ?k t)"
    using t by (cases u) (simp_all add: timestamp_string_def)
  ultimately show ?thesis using p ns assms(2)
    by (auto simp: parse_timestamp_nanos_def checked_def i64_range_def)
qed

lemma column_codes:
  "column_code (lit ''INT64'') = Some CodeInt64" "column_code (lit ''FLOAT32'') = Some CodeFloat32"
  "column_code (lit ''FLOAT64'') = Some CodeFloat64" "column_code (lit ''BOOL'') = Some CodeBool"
  "column_code (lit ''STRING(MAX)'') = Some CodeString" "column_code (lit ''BYTES(MAX)'') = Some CodeBytes"
  "column_code (lit ''DATE'') = Some CodeDate" "column_code (lit ''TIMESTAMP'') = Some CodeTimestamp"
  "column_code (lit ''NUMERIC'') = Some CodeNumeric"
  by code_simp+

lemma int_reads: "client_ok K V \<Longrightarrow> i64_range i \<Longrightarrow> parse_int64 (v_i64 V i) = Some i"
  by (simp add: client_ok_def parse_int64_def i64_range_def parse_i64_show_int)

lemma build_one:
  "present (Some w) = Some w \<Longrightarrow> parse w = Some x \<Longrightarrow>
   build_primitive what parse mk [Some w] = Inr [Some (mk x)]"
  by (simp add: build_primitive_def)

lemma bytes_read: "client_ok K V \<Longrightarrow> \<exists>s. v_bytes V b = WString s \<and> b64_decode K s = Some b"
  by (simp add: client_ok_def)

text \<open>One value through the binder and back: the wire value and the cell it decodes to.\<close>

definition passes :: "('d, 'dt) crates \<Rightarrow> client \<Rightarrow> data_type \<Rightarrow> cell \<Rightarrow> data_type \<Rightarrow> bool" where
  "passes K V dt c rt \<longleftrightarrow>
     (\<exists>b w. scalar_binder (calendar K) V dt = Some b \<and> b (Some c) = Inr w \<and>
        build_array K rt [Some w] = Inr (FlatArr rt [Some (read_back dt c)]))"

lemma passes_int:
  assumes "client_ok K V" and "value_fits K dt (CInt i)"
    and "dt \<in> {Int8, Int16, Int32, Int64, UInt8, UInt16, UInt32}"
  shows "passes K V dt (CInt i) Int64"
proof -
  have v: "v_i64 V i = WString (show_int i)" using assms(1) by (simp add: client_ok_def)
  have "i64_range i" using assms(2,3) by (auto simp: value_fits_def)
  from build_one[of "v_i64 V i" parse_int64 i "lit ''INT64''" CInt] int_reads[OF assms(1) this] v
  show ?thesis using assms(3)
    by (auto simp: passes_def scalar_binder_def Let_def try_scalar_value_def as_int_def build_flat_def read_back_def)
qed

lemma passes_float:
  assumes "client_ok K V" and "value_fits K dt (CFloat x)" and "dt \<in> {Float16, Float32, Float64}"
  shows "passes K V dt (CFloat x) (if dt = Float64 then Float64 else Float32)"
proof -
  have p: "present (Some (v_f64 V x)) = Some (v_f64 V x)"
    using assms(1) by (simp add: client_ok_def)
  have "dt \<noteq> Float64 \<Longrightarrow> as_f32 K x = x" using assms(2) by (auto simp: value_fits_def)
  with parse_special[OF assms(1), of "f64_rounding K" x] assms(3) p show ?thesis
    by (auto simp: passes_def scalar_binder_def Let_def try_scalar_value_def build_flat_def read_back_def build_one)
qed

lemma passes_date:
  assumes "value_fits K dt (CInt i)" and "dt \<in> {Date32, Date64}"
  shows "passes K V dt (CInt i) Date32"
proof -
  let ?n = "if dt = Date32 then i else i div 86400000"
  have "date_law (calendar K) ?n" and d64: "dt = Date64 \<Longrightarrow> date64_days i = Inr (i div 86400000)"
    using assms by (auto simp: value_fits_def date64_days_def checked_def split: if_splits)
  from date_string_reads[OF this(1)] obtain s where
    s: "date_string (calendar K) ?n = Inr s" "parse_date_days (calendar K) s = Some ?n" by blast
  have "build_primitive (lit ''DATE'') (\<lambda>v. Option.bind (try_as_string v) (parse_date_days (calendar K))) CInt [Some (WString s)]
      = Inr [Some (CInt ?n)]"
    by (rule build_one) (simp_all add: s)
  with s(1) d64 assms(2) show ?thesis
    by (auto simp: passes_def scalar_binder_def Let_def try_scalar_value_def as_int_def build_flat_def read_back_def)
qed

lemma passes_timestamp:
  assumes "value_fits K (Timestamp u tz) (CInt i)"
  shows "passes K V (Timestamp u tz) (CInt i) (Timestamp Nanosecond tz')"
proof -
  from assms timestamp_string_reads[of "calendar K" u i] obtain s where
    s: "timestamp_string (calendar K) u i = Inr s"
      "parse_timestamp_nanos (calendar K) s = Some (i * 10 ^ (9 - unit_digits u))"
    by (auto simp: value_fits_def)
  then show ?thesis
    by (auto simp: passes_def scalar_binder_def Let_def try_scalar_value_def as_int_def build_flat_def read_back_def
        decode_nanos_def)
qed

lemma passes_numeric:
  assumes "client_ok K V" and "value_fits K (Decimal128 p s) (CInt i)"
  shows "passes K V (Decimal128 p s) (CInt i) (Decimal128 NUMERIC_PRECISION (int NUMERIC_SCALE))"
proof -
  from assms(2) have s: "0 \<le> s" "s \<le> 9" "\<bar>i\<bar> * 10 ^ (9 - nat s) < 2 ^ 127" by (auto simp: value_fits_def)
  then have n: "parse_numeric_i128 (numeric_string i (nat s)) = Some (i * 10 ^ (9 - nat s))"
    using numeric_reparse[of "nat s" i] by simp
  have "build_primitive (lit ''NUMERIC'') (\<lambda>v. Option.bind (try_as_string v) parse_numeric_i128) CInt
      [Some (WString (numeric_string i (nat s)))] = Inr [Some (CInt (i * 10 ^ (9 - nat s)))]"
    by (rule build_one) (simp_all add: n)
  with s assms(1) show ?thesis
    by (auto simp: passes_def scalar_binder_def Let_def try_scalar_value_def as_int_def build_flat_def read_back_def
        numeric_scale_def client_ok_def)
qed

lemma passes_bytes:
  assumes "client_ok K V" and "cell_kind dt (CBytes b)"
  shows "passes K V dt (CBytes b) Binary"
proof -
  from bytes_read[OF assms(1)] obtain s where s: "v_bytes V b = WString s" "b64_decode K s = Some b" by blast
  have "build_primitive (lit ''BYTES'') (\<lambda>v. Option.bind (try_as_string v) (b64_decode K)) CBytes [Some (WString s)]
      = Inr [Some (CBytes b)]"
    by (rule build_one) (simp_all add: s)
  with s(1) assms(2) show ?thesis
    by (cases dt) (auto simp: passes_def scalar_binder_def Let_def try_scalar_value_def build_flat_def read_back_def
        cell_kind_def)
qed

lemma passes_plain:
  "cell_kind dt (CBool b) \<Longrightarrow> passes K V dt (CBool b) Boolean"
  "cell_kind dt (CStr s) \<Longrightarrow> passes K V dt (CStr s) Utf8"
  by (auto simp: passes_def scalar_binder_def Let_def try_scalar_value_def build_flat_def read_back_def
      cell_kind_def build_primitive_def)


definition demo_crates :: "(unit, unit) crates" where
  "demo_crates =
     \<lparr>calendar = epoch_calendar, b64_decode = \<lambda>s. Some (map of_nat s), as_f32 = \<lambda>x. x, f64_rounding = Fin,
      json_text = \<lambda>_. [], try_decimal = \<lambda>_ _. None, try_list = \<lambda>_ _ _ _. None, try_struct = \<lambda>_ _ _. None,
      try_batch = \<lambda>_ _. None\<rparr>"

lemma demo_client_ok: "client_ok demo_crates demo_client"
  by (auto simp: client_ok_def demo_crates_def demo_client_def comp_def)

lemma demo_instant: "instant_law epoch_calendar Millisecond 0"
  unfolding instant_law_def
  by (rule exI[of _ "()"], rule exI[of _ 1970], rule exI[of _ 1], rule exI[of _ 1], rule exI[of _ 0], rule exI[of _ 0],
      rule exI[of _ 0], rule exI[of _ 0], rule exI[of _ "()"])
    (simp add: epoch_calendar_def checked_def)


text \<open>The first row of a batch with a string and a missing value.\<close>

theorem batch_matches_schema_witness:
  "\<exists>schema arrays. rows_to_batch demo_crates (Some ([lit ''s''], [SType CodeString None None]))
       [[WString (lit ''x'')], []] NanosecondsErrorOnOverflow = Inr (schema, arrays) \<and>
     length arrays = length schema \<and>
     (\<forall>i < length schema. column_ok (field_type (schema ! i))
        (map (\<lambda>r. nth_opt r i) [[WString (lit ''x'')], []]) (arrays ! i))"
proof -
  let ?rows = "[[WString (lit ''x'')], []]"
  obtain schema arrays where b: "rows_to_batch demo_crates (Some ([lit ''s''], [SType CodeString None None]))
      ?rows NanosecondsErrorOnOverflow = Inr (schema, arrays)"
    by (simp add: rows_to_batch_def build_schema_def arrow_field_def arrow_type.simps MAX_TYPE_NESTING_DEPTH_def
        tagged_field_def build_batch_def build_column_def build_flat_def demo_crates_def nth_opt_def)
  from batch_matches_schema[OF b] b show ?thesis by blast
qed

end
