(* ===== verification/StreamProps.thy ===== *)
theory StreamProps
  imports ResultStream ConversionProps
begin

text \<open>
  The chunk-source contract the prefetch task relies on, its two providers, and what the consumer of a
  reader sees of the rows Spanner sent.
\<close>

section \<open>The chunk-source contract\<close>

text \<open>
  \<open>left s\<close> is what a source in state \<open>s\<close> has still to deliver.  A chunk takes rows off its front, at most
  \<open>bound\<close> of them, and is empty only when nothing is left; a failure loses fewer than \<open>bound\<close> rows.
\<close>

locale chunk_source =
  fixes nxt :: "'s \<Rightarrow> 'r list result \<times> 's"
    and left :: "'s \<Rightarrow> 'r result list"
    and bound :: nat
  assumes next_rows: "nxt s = (Inr rows, s') \<Longrightarrow>
      left s = map Inr rows @ left s' \<and> length rows \<le> bound \<and> (rows = [] \<longrightarrow> left s = [])"
    and next_error: "nxt s = (Inl e, s') \<Longrightarrow>
      \<exists>rows rest. left s = map Inr rows @ Inl e # rest \<and> length rows < bound"
begin

lemma delivered:
  assumes "length (left s) < n"
  shows "\<exists>cs. list_all (\<lambda>c. c \<noteq> [] \<and> length c \<le> bound) cs \<and>
    (stream_items (pull_all n nxt s) = map Inr cs \<and> left s = map Inr (concat cs) \<or>
     (\<exists>e rows rest. stream_items (pull_all n nxt s) = map Inr cs @ [Inl e] \<and>
        left s = map Inr (concat cs @ rows) @ Inl e # rest \<and> length rows < bound))"
  using assms
proof (induction n arbitrary: s)
  case 0
  then show ?case by simp
next
  case (Suc n)
  obtain r s' where rs: "nxt s = (r, s')" by (meson surj_pair)
  show ?case
  proof (cases r)
    case (Inl e)
    with next_error[of s e s'] rs show ?thesis by (intro exI[of _ "[]"]) auto
  next
    case (Inr rows)
    have law: "left s = map Inr rows @ left s'" "length rows \<le> bound" "rows = [] \<Longrightarrow> left s = []"
      using next_rows[of s rows s'] rs Inr by auto
    show ?thesis
    proof (cases "rows = []")
      case True
      with rs Inr law(3) show ?thesis by (intro exI[of _ "[]"]) simp
    next
      case False
      with law(1) Suc.prems have "length (left s') < n" by (cases rows) auto
      from Suc.IH[OF this] obtain cs where cs: "list_all (\<lambda>c. c \<noteq> [] \<and> length c \<le> bound) cs"
        "stream_items (pull_all n nxt s') = map Inr cs \<and> left s' = map Inr (concat cs) \<or>
         (\<exists>e rows rest. stream_items (pull_all n nxt s') = map Inr cs @ [Inl e] \<and>
            left s' = map Inr (concat cs @ rows) @ Inl e # rest \<and> length rows < bound)" by blast
      have "stream_items (pull_all (Suc n) nxt s) = Inr rows # stream_items (pull_all n nxt s')"
        using rs Inr False by simp
      with cs law(1,2) False show ?thesis by (intro exI[of _ "rows # cs"]) auto
    qed
  qed
qed

end

section \<open>A result set\<close>

lemma lost_rowsI:
  "length new < m \<Longrightarrow> \<exists>rows. (\<exists>rest. map Inr new @ Inl e # s = map Inr rows @ Inl e # rest) \<and> length rows < m"
  by blast

lemma saturating_budget: "saturating_add a b \<ge> CHUNK_BYTE_BUDGET \<longleftrightarrow> a + b \<ge> CHUNK_BYTE_BUDGET"
  by (auto simp: saturating_add_def CHUNK_BYTE_BUDGET_def)

lemma saturating_exact: "saturating_add a b < CHUNK_BYTE_BUDGET \<Longrightarrow> saturating_add a b = a + b"
  by (auto simp: saturating_add_def CHUNK_BYTE_BUDGET_def)

text \<open>What the loop guarantees when it is entered with \<open>rows\<close> and ends with \<open>r\<close> and \<open>rs'\<close>.\<close>

definition pull_post ::
  "('r \<Rightarrow> nat) \<Rightarrow> nat \<Rightarrow> 'r result list \<Rightarrow> 'r list \<Rightarrow> 'r list result \<Rightarrow> 'r result list \<Rightarrow> bool" where
  "pull_post sz mx rs rows r rs' =
     (case r of
        Inr out \<Rightarrow> (\<exists>new. out = rows @ new \<and> rs = map Inr new @ rs' \<and> length out \<le> mx \<and>
          (new = [] \<longrightarrow> rs = [] \<or> length rows = mx) \<and>
          sum_list (map sz (butlast out)) < CHUNK_BYTE_BUDGET \<and>
          (rs' \<noteq> [] \<longrightarrow> length out = mx \<or> sum_list (map sz out) \<ge> CHUNK_BYTE_BUDGET))
      | Inl e \<Rightarrow> (\<exists>new. rs = map Inr new @ Inl e # rs' \<and> length rows + length new < mx))"

lemma pull_post_step:
  "pull_post sz mx rest (rows @ [row]) r rs' \<Longrightarrow> pull_post sz mx (Inr row # rest) rows r rs'"
  by (cases r) (force simp: pull_post_def intro: exI[of _ "row # new" for new])+

lemma pull_loop_spec:
  assumes "pull_loop sz mx rs rows bytes = (r, rs')" and "bytes = sum_list (map sz rows)"
    and "bytes < CHUNK_BYTE_BUDGET" and "length rows \<le> mx"
  shows "pull_post sz mx rs rows r rs'"
  using assms
proof (induction sz mx rs rows bytes arbitrary: r rs' rule: pull_loop.induct)
  case (1 sz mx rs rows bytes)
  have pre: "sum_list (map sz (butlast rows)) < CHUNK_BYTE_BUDGET"
    using "1.prems"(2,3) by (cases rows rule: rev_cases) auto
  consider (full) "length rows \<ge> mx" | (drained) "length rows < mx" "rs = []"
    | (fail) e rest where "length rows < mx" "rs = Inl e # rest"
    | (row) row rest where "length rows < mx" "rs = Inr row # rest"
    by (cases rs; cases "length rows \<ge> mx"; cases "hd rs") auto
  then show ?case
  proof cases
    case full
    with "1.prems" pre show ?thesis by (auto simp: pull_loop.simps[of sz mx rs] pull_post_def)
  next
    case drained
    with "1.prems" pre show ?thesis by (auto simp: pull_loop.simps[of sz mx "[]"] pull_post_def)
  next
    case fail
    with "1.prems" show ?thesis
      by (auto simp: pull_loop.simps[of sz mx "Inl e # rest"] pull_post_def intro: exI[of _ "[]"])
  next
    case row
    let ?b = "saturating_add bytes (sz row)"
    show ?thesis
    proof (cases "?b \<ge> CHUNK_BYTE_BUDGET")
      case True
      with "1.prems" row show ?thesis
        by (auto simp: pull_loop.simps[of sz mx "Inr row # rest"] Let_def pull_post_def saturating_budget)
    next
      case False
      with "1.prems"(1) row have rec: "pull_loop sz mx rest (rows @ [row]) ?b = (r, rs')"
        by (simp add: pull_loop.simps[of sz mx "Inr row # rest"] Let_def)
      have b: "?b = sum_list (map sz (rows @ [row]))" "?b < CHUNK_BYTE_BUDGET"
        using False saturating_exact[of bytes "sz row"] "1.prems"(2) by auto
      have "pull_post sz mx rest (rows @ [row]) r rs'"
        by (rule "1.IH"[OF _ row(2) refl refl False rec b]) (use row(1) in simp_all)
      with row(2) show ?thesis by (simp add: pull_post_step)
    qed
  qed
qed

lemma pull_chunk_spec: "pull_chunk sz mx rs = (r, rs') \<Longrightarrow> pull_post sz mx rs [] r rs'"
  unfolding pull_chunk_def by (erule pull_loop_spec) (simp_all add: CHUNK_BYTE_BUDGET_def)

interpretation rs_source: chunk_source "result_set_chunks sz (Suc k)" "\<lambda>rs. rs" "Suc k" for sz k
  by unfold_locales (auto simp: result_set_chunks_def pull_post_def dest!: pull_chunk_spec intro: lost_rowsI)

section \<open>The result sets of a bound query\<close>

definition stmt_items :: "('st \<Rightarrow> 'r result list result) \<Rightarrow> 'st result \<Rightarrow> 'r result list" where
  "stmt_items exec st =
     (case st of Inl e \<Rightarrow> [Inl e] | Inr s \<Rightarrow> (case exec s of Inl e \<Rightarrow> [Inl e] | Inr rs \<Rightarrow> rs))"

definition bound_left ::
  "('st \<Rightarrow> 'r result list result) \<Rightarrow> 'r result list option \<times> 'st result list \<Rightarrow> 'r result list" where
  "bound_left exec s =
     (case fst s of None \<Rightarrow> [] | Some rs \<Rightarrow> rs) @ concat (map (stmt_items exec) (snd s))"

definition bound_post ::
  "nat \<Rightarrow> 'r result list \<Rightarrow> 'r list option result \<Rightarrow> 'r result list \<Rightarrow> bool" where
  "bound_post mx before r after =
     (case r of
        Inr None \<Rightarrow> before = [] \<and> after = []
      | Inr (Some rows) \<Rightarrow> rows \<noteq> [] \<and> length rows \<le> mx \<and> before = map Inr rows @ after
      | Inl e \<Rightarrow> \<exists>rows rest. before = map Inr rows @ Inl e # rest \<and> length rows < mx)"

lemma next_bound_chunk_Some:
  "next_bound_chunk sz mx exec (Some rs) stmts =
     (case pull_chunk sz mx rs of
        (Inl e, rs') \<Rightarrow> (Inl e, Some rs', stmts)
      | (Inr rows, rs') \<Rightarrow>
          if rows \<noteq> [] then (Inr (Some rows), Some rs', stmts) else next_bound_chunk sz mx exec None stmts)"
  by (subst (1 2) next_bound_chunk.simps) (simp add: Let_def split: prod.splits sum.splits)

lemma next_bound_chunk_None:
  "next_bound_chunk sz mx exec None [] = (Inr None, None, [])"
  "next_bound_chunk sz mx exec None (Inl e # rest) = (Inl e, None, rest)"
  "next_bound_chunk sz mx exec None (Inr st # rest) =
     (case exec st of Inl e \<Rightarrow> (Inl e, None, rest) | Inr rs \<Rightarrow> next_bound_chunk sz mx exec (Some rs) rest)"
  by (subst next_bound_chunk.simps; simp)+

lemma bound_post_Some:
  assumes "next_bound_chunk sz (Suc k) exec (Some rs) stmts = (r, s')"
    and "\<And>r s'. next_bound_chunk sz (Suc k) exec None stmts = (r, s') \<Longrightarrow>
      bound_post (Suc k) (bound_left exec (None, stmts)) r (bound_left exec s')"
  shows "bound_post (Suc k) (bound_left exec (Some rs, stmts)) r (bound_left exec s')"
proof (cases "pull_chunk sz (Suc k) rs")
  case (Pair p rs')
  note post = pull_chunk_spec[OF Pair]
  show ?thesis
  proof (cases p)
    case (Inl e)
    with post assms(1) Pair show ?thesis
      by (auto simp: next_bound_chunk_Some pull_post_def bound_post_def bound_left_def intro: lost_rowsI)
  next
    case (Inr rows)
    show ?thesis
    proof (cases "rows = []")
      case True
      with post Inr have "rs = []" by (auto simp: pull_post_def)
      moreover have "next_bound_chunk sz (Suc k) exec None stmts = (r, s')"
        using assms(1) Pair Inr True by (simp add: next_bound_chunk_Some)
      ultimately show ?thesis using assms(2) by (simp add: bound_left_def)
    next
      case False
      with post Inr assms(1) Pair show ?thesis
        by (auto simp: next_bound_chunk_Some pull_post_def bound_post_def bound_left_def)
    qed
  qed
qed

lemma next_bound_chunk_spec:
  "next_bound_chunk sz (Suc k) exec cur stmts = (r, s') \<Longrightarrow>
   bound_post (Suc k) (bound_left exec (cur, stmts)) r (bound_left exec s')"
proof (induction stmts arbitrary: cur r s')
  case Nil
  have "next_bound_chunk sz (Suc k) exec None [] = (r, s') \<Longrightarrow>
      bound_post (Suc k) (bound_left exec (None, [])) r (bound_left exec s')" for r s'
    by (auto simp: next_bound_chunk_None bound_post_def bound_left_def)
  with Nil bound_post_Some show ?case by (cases cur) blast+
next
  case (Cons st rest)
  have "bound_post (Suc k) (bound_left exec (None, st # rest)) r (bound_left exec s')"
    if nx: "next_bound_chunk sz (Suc k) exec None (st # rest) = (r, s')" for r s'
  proof (cases "\<exists>s rs. st = Inr s \<and> exec s = Inr rs")
    case True
    then obtain s rs where s: "st = Inr s" "exec s = Inr rs" by blast
    with nx have "next_bound_chunk sz (Suc k) exec (Some rs) rest = (r, s')" by (simp add: next_bound_chunk_None)
    from Cons.IH[OF this] s show ?thesis by (simp add: bound_left_def stmt_items_def)
  next
    case False
    then obtain e where "stmt_items exec st = [Inl e]" "r = Inl e"
      using nx by (cases st; cases "exec (projr st)") (auto simp: stmt_items_def next_bound_chunk_None)
    then show ?thesis by (auto simp: bound_post_def bound_left_def intro: exI[of _ "[]"])
  qed
  with Cons.prems bound_post_Some show ?case by (cases cur) blast+
qed

interpretation bound_source: chunk_source "bound_query_chunks sz (Suc k) exec" "bound_left exec" "Suc k" for sz k exec
proof
  fix s s' rows
  assume "bound_query_chunks sz (Suc k) exec s = (Inr rows, s')"
  then obtain c where "next_bound_chunk sz (Suc k) exec (fst s) (snd s) = (Inr c, s')"
      "rows = (case c of None \<Rightarrow> [] | Some rows \<Rightarrow> rows)"
    by (auto simp: bound_query_chunks_def split: prod.splits sum.splits)
  with next_bound_chunk_spec[of sz k exec "fst s" "snd s" "Inr c" s']
  show "bound_left exec s = map Inr rows @ bound_left exec s' \<and> length rows \<le> Suc k \<and>
      (rows = [] \<longrightarrow> bound_left exec s = [])"
    by (cases c) (auto simp: bound_post_def)
next
  fix s s' e
  assume "bound_query_chunks sz (Suc k) exec s = (Inl e, s')"
  then have "next_bound_chunk sz (Suc k) exec (fst s) (snd s) = (Inl e, s')"
    by (auto simp: bound_query_chunks_def split: prod.splits sum.splits)
  from next_bound_chunk_spec[OF this]
  show "\<exists>rows rest. bound_left exec s = map Inr rows @ Inl e # rest \<and> length rows < Suc k"
    by (simp add: bound_post_def)
qed

section \<open>What the consumer sees\<close>

text \<open>Calling \<^verbatim>\<open>next\<close> until it answers \<^verbatim>\<open>None\<close>, at most \<open>n\<close> times, with no cancellation.\<close>

fun reader_run :: "nat \<Rightarrow> ('r list \<Rightarrow> 'b result) \<Rightarrow> 'r batch_reader \<Rightarrow> 'b result list" where
  "reader_run 0 build rd = []"
| "reader_run (Suc n) build rd =
     (case reader_next build False rd of
        (None, rd') \<Rightarrow> []
      | (Some b, rd') \<Rightarrow> b # reader_run n build rd')"

lemma reader_run_closed: "reader_run n build \<lparr>first = None, chunks = None\<rparr> = []"
  by (cases n) (simp_all add: reader_next_def)

lemma reader_run_rows:
  "length cs < n \<Longrightarrow> reader_run n build \<lparr>first = None, chunks = Some (map Inr cs)\<rparr> = map build cs"
proof (induction cs arbitrary: n)
  case Nil
  then show ?case by (cases n) (simp_all add: reader_next_def)
next
  case (Cons c cs)
  then show ?case by (cases n) (simp_all add: reader_next_def)
qed

lemma reader_run_error:
  "length cs < n \<Longrightarrow>
   reader_run n build \<lparr>first = None, chunks = Some (map Inr cs @ [Inl e])\<rparr> = map build cs @ [Inl e]"
proof (induction cs arbitrary: n)
  case Nil
  then show ?case by (cases n) (simp_all add: reader_next_def reader_run_closed)
next
  case (Cons c cs)
  then show ?case by (cases n) (simp_all add: reader_next_def)
qed

lemma reader_run_first:
  "reader_run n build \<lparr>first = Some [], chunks = Some items\<rparr> = reader_run n build \<lparr>first = None, chunks = Some items\<rparr>"
  "r \<noteq> [] \<Longrightarrow> reader_run (Suc n) build \<lparr>first = Some r, chunks = Some items\<rparr> =
     build r # reader_run n build \<lparr>first = None, chunks = Some items\<rparr>"
  by (cases n; simp add: reader_next_def) (cases r; simp add: reader_next_def)

text \<open>A reader over a first chunk and the rest of a source, drained, against what the source had left.\<close>

definition reader_sees ::
  "('r list \<Rightarrow> 'b result) \<Rightarrow> nat \<Rightarrow> 'b result list \<Rightarrow> 'r result list \<Rightarrow> bool" where
  "reader_sees build mx outs sent \<longleftrightarrow>
     (\<exists>cs. list_all (\<lambda>c. c \<noteq> [] \<and> length c \<le> mx) cs \<and>
       (outs = map build cs \<and> sent = map Inr (concat cs) \<or>
        (\<exists>e lost rest. outs = map build cs @ [Inl e] \<and> sent = map Inr (concat cs @ lost) @ Inl e # rest \<and>
           length lost < mx)))"

lemma length_concat_ge: "list_all (\<lambda>c. c \<noteq> [] \<and> length c \<le> mx) cs \<Longrightarrow> length cs \<le> length (concat cs)"
proof (induction cs)
  case Nil
  then show ?case by simp
next
  case (Cons c cs)
  then show ?case by (cases c) auto
qed

lemma reader_sees_source:
  assumes "\<exists>cs. list_all (\<lambda>c. c \<noteq> [] \<and> length c \<le> mx) cs \<and>
      (items = map Inr cs \<and> left = map Inr (concat cs) \<or>
       (\<exists>e rows rest. items = map Inr cs @ [Inl e] \<and> left = map Inr (concat cs @ rows) @ Inl e # rest \<and>
          length rows < mx))"
    and "length left < n" and "length fst_rows \<le> mx"
  shows "reader_sees build mx (reader_run (Suc n) build \<lparr>first = Some fst_rows, chunks = Some items\<rparr>)
    (map Inr fst_rows @ left)"
proof -
  from assms(1) obtain cs where cs: "list_all (\<lambda>c. c \<noteq> [] \<and> length c \<le> mx) cs"
    "items = map Inr cs \<and> left = map Inr (concat cs) \<or>
     (\<exists>e rows rest. items = map Inr cs @ [Inl e] \<and> left = map Inr (concat cs @ rows) @ Inl e # rest \<and>
        length rows < mx)" by blast
  from cs(2) assms(2) have "length (concat cs) < n" by auto
  with length_concat_ge[OF cs(1)] have len: "length cs < n" by linarith
  show ?thesis
  proof (cases "fst_rows = []")
    case True
    have "length cs < Suc n" using len by simp
    note outs = reader_run_rows[OF this, of build] reader_run_error[OF this, of build]
    from True cs outs show ?thesis unfolding True reader_run_first(1) reader_sees_def
      by (intro exI[of _ cs]) auto
  next
    case False
    with cs len reader_run_rows[OF len, of build] reader_run_error[OF len, of build] assms(3) show ?thesis
      unfolding reader_run_first(2)[OF False] reader_sees_def by (intro exI[of _ "fst_rows # cs"]) auto
  qed
qed

text \<open>
  C2: A query reader refines the plain list of rows Spanner sends: the batches the consumer gets are the
  conversions of non-empty chunks of at most \<open>batch_size\<close> rows whose concatenation is exactly the rows
  of the result set; if the stream fails, the consumer gets that failure last, after all but fewer than
  \<open>batch_size\<close> of the rows before it.
\<close>

theorem query_reader_refines_rows:
  assumes "stream_query K batch_size prec md rs = Inr (schema, rows, rs')" and "0 < batch_size"
    and "length rs' < n"
  shows "reader_sees (build_batch K schema) batch_size
    (reader_run (Suc n) (build_batch K schema)
       \<lparr>first = Some rows, chunks = Some (stream_items (pull_all n (result_set_chunks approx_row_bytes batch_size) rs'))\<rparr>)
    rs"
proof -
  obtain k where k: "batch_size = Suc k" using assms(2) by (cases batch_size) auto
  have p: "pull_chunk approx_row_bytes (Suc k) rs = (Inr rows, rs')"
    using assms(1) by (auto simp: stream_query_def res_simps k split: prod.splits sum.splits)
  from pull_chunk_spec[OF this] have r: "rs = map Inr rows @ rs'" "length rows \<le> Suc k" "rows = [] \<Longrightarrow> rs' = []"
    by (auto simp: pull_post_def)
  show ?thesis unfolding r(1) k
    by (rule reader_sees_source[OF rs_source.delivered]) (use assms(3) r in auto)
qed

text \<open>
  A bound query delivers the rows of its statements in bind order, each statement run once and drained
  before the next, with no empty batch for a statement that returns nothing; a failing bind or
  execution ends the stream at its place.
\<close>

theorem bound_reader_refines_statements:
  assumes "stream_bound_query K batch_size prec exec stmts = Inr (schema, Some rows, cur, rest)"
    and "0 < batch_size"
    and "length (bound_left (\<lambda>s. map_sum id snd (exec s)) (cur, rest)) < n"
  shows "reader_sees (build_batch K schema) batch_size
    (reader_run (Suc n) (build_batch K schema)
       \<lparr>first = Some rows, chunks = Some (stream_items (pull_all n
          (bound_query_chunks approx_row_bytes batch_size (\<lambda>s. map_sum id snd (exec s))) (cur, rest)))\<rparr>)
    (concat (map (stmt_items (\<lambda>s. map_sum id snd (exec s))) stmts))"
proof -
  obtain k where k: "batch_size = Suc k" using assms(2) by (cases batch_size) auto
  let ?ex = "\<lambda>s. map_sum id snd (exec s)"
  obtain st ss where s: "stmts = Inr st # ss"
    using assms(1) by (cases stmts; cases "hd stmts") (auto simp: stream_bound_query_def)
  obtain md rs where ex: "exec st = Inr (md, rs)"
    using assms(1) s by (cases "exec st") (auto simp: stream_bound_query_def)
  obtain q rs' where q: "pull_chunk approx_row_bytes (Suc k) rs = (q, rs')" by (meson surj_pair)
  from assms(1) s ex q have p: "pull_chunk approx_row_bytes (Suc k) rs = (Inr rows, rs')"
    and st: "cur = Some rs'" "stmts = Inr st # rest"
    by (cases q; auto simp: stream_bound_query_def res_simps k)+
  from pull_chunk_spec[OF p] have r: "rs = map Inr rows @ rs'" "length rows \<le> Suc k"
    by (auto simp: pull_post_def)
  have eq: "concat (map (stmt_items ?ex) stmts) = map Inr rows @ bound_left ?ex (cur, rest)"
    using st ex r(1) by (simp add: bound_left_def stmt_items_def)
  show ?thesis unfolding eq k
    by (rule reader_sees_source[OF bound_source.delivered]) (use assms(3) r in auto)
qed

section \<open>Witnesses\<close>

definition stream_crates :: "(unit, unit) crates" where
  "stream_crates =
     \<lparr>calendar = epoch_calendar, b64_decode = \<lambda>_. None, as_f32 = \<lambda>x. x, f64_rounding = Fin, json_text = \<lambda>_. [],
      try_decimal = \<lambda>_ _. None, try_list = \<lambda>_ _ _ _. None, try_struct = \<lambda>_ _ _. None, try_batch = \<lambda>_ _. None\<rparr>"

lemma stream_demo:
  "stream_query stream_crates 1 Microseconds None [Inr [WNull], Inr [WNull]] =
     Inr ([plain_field (lit ''col0'') Utf8], [[WNull]], [Inr [WNull]])"
proof -
  have "show_nat 0 = lit ''0''" "lit ''col'' @ lit ''0'' = lit ''col0''" by code_simp+
  then show ?thesis
    by (simp add: stream_query_def pull_chunk_def pull_loop.simps Let_def approx_row_bytes_def saturating_add_def
        CHUNK_BYTE_BUDGET_def build_schema_def)
qed

theorem query_reader_refines_rows_witness:
  "reader_sees (build_batch stream_crates [plain_field (lit ''col0'') Utf8]) 1
    (reader_run 3 (build_batch stream_crates [plain_field (lit ''col0'') Utf8])
       \<lparr>first = Some [[WNull]], chunks = Some (stream_items (pull_all 2 (result_set_chunks approx_row_bytes 1) [Inr [WNull]]))\<rparr>)
    [Inr [WNull], Inr [WNull]]"
  using query_reader_refines_rows[OF stream_demo, of 2] by (simp add: numeral_3_eq_3)

theorem bound_reader_refines_statements_witness:
  "reader_sees (build_batch stream_crates []) 4
    (reader_run 2 (build_batch stream_crates [])
       \<lparr>first = Some [], chunks = Some (stream_items (pull_all 1 (bound_query_chunks approx_row_bytes 4
          (\<lambda>s. map_sum id snd ((\<lambda>_. Inr (None, [])) s))) (Some [], [Inr (2::nat)])))\<rparr>)
    (concat (map (stmt_items (\<lambda>s. map_sum id snd ((\<lambda>_. Inr (None, [])) s))) [Inr (1::nat), Inr 2]))"
proof -
  have "stream_bound_query stream_crates 4 Microseconds (\<lambda>_. Inr (None, [])) [Inr (1::nat), Inr 2] =
      Inr ([], Some [], Some [], [Inr 2])"
    by (simp add: stream_bound_query_def pull_chunk_def pull_loop.simps build_schema_def)
  from bound_reader_refines_statements[OF this, of 1] show ?thesis
    by (simp add: bound_left_def stmt_items_def numeral_2_eq_2)
qed

end
