(* ===== verification/DatabaseOptions.thy ===== *)
theory DatabaseOptions
  imports OptionConfigs Metadata Scan
begin

text \<open>
  The database object, \<^verbatim>\<open>src/driver.rs\<close> and \<^verbatim>\<open>src/driver/uri.rs\<close>: its options, the connection URI with its
  percent-decoding, and what \<^verbatim>\<open>get_option\<close> and \<^verbatim>\<open>Debug\<close> show of it.

  The cached client stack is the field \<open>connected\<close>; setting any option drops it.
\<close>

section \<open>Keys and state\<close>

definition OPTION_ENDPOINT :: rstring where
  "OPTION_ENDPOINT = lit ''spanner.endpoint''"

definition OPTION_EMULATOR :: rstring where
  "OPTION_EMULATOR = lit ''spanner.emulator''"

definition OPTION_KEYFILE :: rstring where
  "OPTION_KEYFILE = lit ''spanner.auth.keyfile''"

definition OPTION_KEYFILE_JSON :: rstring where
  "OPTION_KEYFILE_JSON = lit ''spanner.auth.keyfile_json''"

definition OPTION_IMPERSONATE_TARGET_PRINCIPAL :: rstring where
  "OPTION_IMPERSONATE_TARGET_PRINCIPAL = lit ''spanner.auth.impersonate.target_principal''"

definition OPTION_IMPERSONATE_DELEGATES :: rstring where
  "OPTION_IMPERSONATE_DELEGATES = lit ''spanner.auth.impersonate.delegates''"

definition OPTION_IMPERSONATE_SCOPES :: rstring where
  "OPTION_IMPERSONATE_SCOPES = lit ''spanner.auth.impersonate.scopes''"

definition OPTION_IMPERSONATE_LIFETIME :: rstring where
  "OPTION_IMPERSONATE_LIFETIME = lit ''spanner.auth.impersonate.lifetime''"

definition OPTION_ACCESS_TOKEN :: rstring where
  "OPTION_ACCESS_TOKEN = lit ''spanner.auth.access_token''"

definition OPTION_QUOTA_PROJECT :: rstring where
  "OPTION_QUOTA_PROJECT = lit ''spanner.auth.quota_project''"

record 'c spanner_database =
  uri :: "rstring option"
  db_path :: "rstring option"
  endpoint :: "rstring option"
  emulator :: bool
  keyfile :: "rstring option"
  keyfile_json :: "rstring option"
  impersonate_target_principal :: "rstring option"
  impersonate_delegates :: "rstring list"
  impersonate_scopes :: "rstring list"
  impersonate_lifetime_secs :: "nat option"
  access_token :: "rstring option"
  quota_project :: "rstring option"
  connected :: "'c option"

definition new_database :: "'c spanner_database" where
  "new_database =
     \<lparr>uri = None, db_path = None, endpoint = None, emulator = False, keyfile = None, keyfile_json = None,
      impersonate_target_principal = None, impersonate_delegates = [], impersonate_scopes = [],
      impersonate_lifetime_secs = None, access_token = None, quota_project = None, connected = None\<rparr>"

datatype option_database = DbUri | OtherDb rstring | UnlistedDb rstring

fun db_key_str :: "option_database \<Rightarrow> rstring" where
  "db_key_str DbUri = lit ''uri''"
| "db_key_str (OtherDb k) = k"
| "db_key_str (UnlistedDb k) = k"

section \<open>Values\<close>

definition string_db_value :: "rstring \<Rightarrow> option_value \<Rightarrow> rstring result" where
  "string_db_value key value = string_option value (lit ''option '' @ key)"

definition bool_db_value :: "rstring \<Rightarrow> option_value \<Rightarrow> bool result" where
  "bool_db_value key value = bool_option value (lit ''option '' @ key)"

definition comma_separated :: "rstring \<Rightarrow> rstring list" where
  "comma_separated value = filter (\<lambda>p. p \<noteq> []) (map trim (split_on (ch CHR '','') value))"

text \<open>\<^verbatim>\<open>str::parse::<u64>\<close>: an optional plus sign, at least one digit, the value in range.\<close>

definition parse_u64 :: "rstring \<Rightarrow> nat option" where
  "parse_u64 s =
     (let ds = (case s of c # cs \<Rightarrow> if c = ch CHR ''+'' then cs else s | [] \<Rightarrow> [])
      in case parse_nat ds of None \<Rightarrow> None | Some n \<Rightarrow> if n < 2 ^ 64 then Some n else None)"

definition u64_seconds_value :: "rstring \<Rightarrow> option_value \<Rightarrow> nat result" where
  "u64_seconds_value key value =
     (let reject = invalid_argument (lit ''option '' @ key @ lit '' expects a non-negative integer number of seconds'')
      in case value of
           OInt i \<Rightarrow> if i \<ge> 0 then Inr (nat i) else Inl reject
         | OString s \<Rightarrow> ok_or reject (parse_u64 (trim s))
         | _ \<Rightarrow> Inl reject)"

text \<open>\<^verbatim>\<open>[String]::join(",")\<close>.\<close>

fun join_comma :: "rstring list \<Rightarrow> rstring" where
  "join_comma [] = []"
| "join_comma [x] = x"
| "join_comma (x # y # zs) = x @ ch CHR '','' # join_comma (y # zs)"

section \<open>Percent-decoding\<close>

definition is_ascii_hexdigit :: "u8 \<Rightarrow> bool" where
  "is_ascii_hexdigit b \<longleftrightarrow> (48 \<le> b \<and> b \<le> 57) \<or> (65 \<le> b \<and> b \<le> 70) \<or> (97 \<le> b \<and> b \<le> 102)"

definition hex_value :: "u8 \<Rightarrow> u8" where
  "hex_value b = (if b \<le> 57 then b - 48 else if b \<le> 70 then b - 55 else b - 87)"

text \<open>The byte loop of \<^verbatim>\<open>percent_decode\<close>; \<open>None\<close> is a malformed escape.\<close>

fun percent_loop :: "u8 list \<Rightarrow> u8 list option" where
  "percent_loop [] = Some []"
| "percent_loop (b # bs) =
     (if b = 37 then
        (case bs of
           h1 # h2 # rest \<Rightarrow>
             if is_ascii_hexdigit h1 \<and> is_ascii_hexdigit h2
             then map_option (Cons (16 * hex_value h1 + hex_value h2)) (percent_loop rest)
             else None
         | _ \<Rightarrow> None)
      else map_option (Cons b) (percent_loop bs))"

text \<open>\<^verbatim>\<open>String::from_utf8\<close>: only shortest forms, no surrogates, nothing past U+10FFFF.\<close>

definition is_cont :: "nat \<Rightarrow> bool" where
  "is_cont b \<longleftrightarrow> 128 \<le> b \<and> b < 192"

fun decode_utf8 :: "nat list \<Rightarrow> rstring option" where
  "decode_utf8 [] = Some []"
| "decode_utf8 (b # bs) =
     (if b < 128 then map_option (Cons b) (decode_utf8 bs)
      else if 192 \<le> b \<and> b < 224 then
        (case bs of
           b1 # rest \<Rightarrow>
             let c = (b - 192) * 64 + (b1 - 128)
             in if is_cont b1 \<and> 128 \<le> c then map_option (Cons c) (decode_utf8 rest) else None
         | _ \<Rightarrow> None)
      else if 224 \<le> b \<and> b < 240 then
        (case bs of
           b1 # b2 # rest \<Rightarrow>
             let c = (b - 224) * 4096 + (b1 - 128) * 64 + (b2 - 128)
             in if is_cont b1 \<and> is_cont b2 \<and> 2048 \<le> c \<and> (c < 55296 \<or> 57343 < c)
                then map_option (Cons c) (decode_utf8 rest) else None
         | _ \<Rightarrow> None)
      else if 240 \<le> b \<and> b < 248 then
        (case bs of
           b1 # b2 # b3 # rest \<Rightarrow>
             let c = (b - 240) * 262144 + (b1 - 128) * 4096 + (b2 - 128) * 64 + (b3 - 128)
             in if is_cont b1 \<and> is_cont b2 \<and> is_cont b3 \<and> 65536 \<le> c \<and> c \<le> 1114111
                then map_option (Cons c) (decode_utf8 rest) else None
         | _ \<Rightarrow> None)
      else None)"

definition from_utf8 :: "u8 list \<Rightarrow> rstring option" where
  "from_utf8 bs = decode_utf8 (map unat bs)"

definition percent_decode :: "rstring \<Rightarrow> rstring result" where
  "percent_decode s =
     (if ch CHR ''%'' \<notin> set s then Inr s
      else try_bind (ok_or (invalid_argument (lit ''malformed percent-encoding in connection URI component''))
                      (percent_loop (as_bytes s))) (\<lambda>out.
           ok_or (invalid_argument (lit ''connection URI component percent-decodes to invalid UTF-8''))
             (from_utf8 out)))"

section \<open>The connection URI\<close>

definition ensure_scheme :: "rstring \<Rightarrow> rstring" where
  "ensure_scheme host =
     (if strip_prefix (lit ''http://'') host \<noteq> None \<or> strip_prefix (lit ''https://'') host \<noteq> None
      then host else lit ''http://'' @ host)"

definition URI_QUERY_OPTIONS :: "rstring list" where
  "URI_QUERY_OPTIONS =
     [OPTION_ENDPOINT, OPTION_EMULATOR, OPTION_KEYFILE, OPTION_IMPERSONATE_TARGET_PRINCIPAL,
      OPTION_IMPERSONATE_DELEGATES, OPTION_IMPERSONATE_SCOPES, OPTION_IMPERSONATE_LIFETIME,
      OPTION_QUOTA_PROJECT]"

definition URI_SECRET_OPTIONS :: "rstring list" where
  "URI_SECRET_OPTIONS = [OPTION_KEYFILE_JSON, OPTION_ACCESS_TOKEN]"

lemma slice_from_code [code]:
  "slice_from s n =
     (if n = 0 then Some s
      else case s of [] \<Rightarrow> None | c # cs \<Rightarrow> if n < len_utf8 c then None else slice_from cs (n - len_utf8 c))"
  by (cases n; cases s) auto

text \<open>\<^verbatim>\<open>value.get(..8)\<close> is the prefix of eight bytes, when that is a char boundary.\<close>

definition connection_uri_remainder :: "rstring \<Rightarrow> rstring option" where
  "connection_uri_remainder value =
     (case slice_from value 8 of
        None \<Rightarrow> None
      | Some rest \<Rightarrow>
          if eq_ignore_ascii_case (take (length value - length rest) value) (lit ''spanner:'')
          then Some rest else None)"

record parsed_uri =
  p_database :: rstring
  p_endpoint :: "rstring option"
  p_params :: "(rstring \<times> rstring) list"

definition is_database_path :: "rstring \<Rightarrow> bool" where
  "is_database_path path =
     (case split_on (ch CHR ''/'') path of
        [a, p, b, i, c, d] \<Rightarrow>
          a = lit ''projects'' \<and> b = lit ''instances'' \<and> c = lit ''databases'' \<and> p \<noteq> [] \<and> i \<noteq> [] \<and> d \<noteq> []
      | _ \<Rightarrow> False)"

text \<open>The loop over the query parameters.\<close>

definition query_pair :: "rstring \<Rightarrow> (rstring \<times> rstring) result" where
  "query_pair pair =
     (let (key, value) = (case split_once (ch CHR ''='') pair of None \<Rightarrow> (pair, []) | Some kv \<Rightarrow> kv)
      in try_bind (percent_decode key) (\<lambda>k.
           if k \<in> set URI_SECRET_OPTIONS
           then Inl (invalid_argument (lit ''connection URI query parameter '' @ k @ lit '' is not supported because its value is a secret''))
           else if k \<notin> set URI_QUERY_OPTIONS
           then Inl (invalid_argument (lit ''unknown connection URI query parameter '' @ k))
           else try_bind (percent_decode value) (\<lambda>v. Inr (k, v))))"

definition parse_connection_uri :: "rstring \<Rightarrow> parsed_uri result" where
  "parse_connection_uri remainder =
     (if split_once (ch CHR ''#'') remainder \<noteq> None
      then Inl (invalid_argument (lit ''connection URI must not carry a #fragment''))
      else
        let (before_query, query) =
              (case split_once (ch CHR ''?'') remainder of
                 Some (path, q) \<Rightarrow> (path, q)
               | None \<Rightarrow> (remainder, []))
        in try_bind (ok_or (invalid_argument (lit ''the uri option value does not use the required spanner:// form''))
              (strip_prefix (lit ''//'') before_query)) (\<lambda>after_authority.
           let (authority, path) =
                 (case split_once (ch CHR ''/'') after_authority of
                    Some ap \<Rightarrow> ap
                  | None \<Rightarrow> (after_authority, []))
           in if \<not> is_database_path path
              then Inl (invalid_argument (lit ''the connection URI path is not a Spanner database path''))
              else try_bind (collect_results (map query_pair
                       (filter (\<lambda>s. s \<noteq> []) (split_on (ch CHR ''&'') query)))) (\<lambda>ps.
                     Inr \<lparr>p_database = path, p_endpoint = (if authority = [] then None else Some authority),
                          p_params = ps\<rparr>)))"

section \<open>Setting and reading options\<close>

text \<open>The arms of \<^verbatim>\<open>set_option\<close> for the keys of the driver.\<close>

definition set_other_option :: "rstring \<Rightarrow> option_value \<Rightarrow> 'c spanner_database \<Rightarrow> 'c spanner_database result" where
  "set_other_option name value d =
     (if name = OPTION_ENDPOINT then
        try_bind (string_db_value name value) (\<lambda>s. Inr (d\<lparr>endpoint := Some s\<rparr>))
      else if name = OPTION_EMULATOR then
        try_bind (bool_db_value name value) (\<lambda>b. Inr (d\<lparr>emulator := b\<rparr>))
      else if name = OPTION_KEYFILE then
        try_bind (string_db_value name value) (\<lambda>s. Inr (d\<lparr>keyfile := Some s\<rparr>))
      else if name = OPTION_KEYFILE_JSON then
        try_bind (string_db_value name value) (\<lambda>s. Inr (d\<lparr>keyfile_json := Some s\<rparr>))
      else if name = OPTION_IMPERSONATE_TARGET_PRINCIPAL then
        try_bind (string_db_value name value) (\<lambda>s. Inr (d\<lparr>impersonate_target_principal := Some s\<rparr>))
      else if name = OPTION_IMPERSONATE_DELEGATES then
        try_bind (string_db_value name value) (\<lambda>s. Inr (d\<lparr>impersonate_delegates := comma_separated s\<rparr>))
      else if name = OPTION_IMPERSONATE_SCOPES then
        try_bind (string_db_value name value) (\<lambda>s. Inr (d\<lparr>impersonate_scopes := comma_separated s\<rparr>))
      else if name = OPTION_IMPERSONATE_LIFETIME then
        try_bind (u64_seconds_value name value) (\<lambda>n. Inr (d\<lparr>impersonate_lifetime_secs := Some n\<rparr>))
      else if name = OPTION_ACCESS_TOKEN then
        try_bind (string_db_value name value) (\<lambda>s. Inr (d\<lparr>access_token := Some s\<rparr>))
      else if name = OPTION_QUOTA_PROJECT then
        try_bind (string_db_value name value) (\<lambda>s. Inr (d\<lparr>quota_project := if s = [] then None else Some s\<rparr>))
      else Inl (unknown_option (lit ''database'') name))"

definition set_driver_option :: "rstring \<Rightarrow> option_value \<Rightarrow> 'c spanner_database \<Rightarrow> unit result \<times> 'c spanner_database" where
  "set_driver_option name value d0 =
     (let d = d0\<lparr>connected := None\<rparr>
      in case set_other_option name value d of Inl e \<Rightarrow> (Inl e, d) | Inr d' \<Rightarrow> (Inr (), d'))"

fun set_params :: "(rstring \<times> rstring) list \<Rightarrow> 'c spanner_database \<Rightarrow> unit result \<times> 'c spanner_database" where
  "set_params [] d = (Inr (), d)"
| "set_params ((k, v) # ps) d =
     (case set_driver_option k (OString v) d of
        (Inl e, d') \<Rightarrow> (Inl e, d')
      | (Inr _, d') \<Rightarrow> set_params ps d')"

definition apply_connection_uri :: "rstring \<Rightarrow> 'c spanner_database \<Rightarrow> unit result \<times> 'c spanner_database" where
  "apply_connection_uri remainder d =
     (case parse_connection_uri remainder of
        Inl e \<Rightarrow> (Inl e, d)
      | Inr p \<Rightarrow>
          (case set_params (p_params p) (new_database :: 'c spanner_database) of
             (Inl e, _) \<Rightarrow> (Inl e, d)
           | (Inr _, _) \<Rightarrow>
               (let d1 = d\<lparr>db_path := Some (p_database p)\<rparr>;
                    d2 = (case p_endpoint p of None \<Rightarrow> d1 | Some e \<Rightarrow> d1\<lparr>endpoint := Some e\<rparr>)
                in set_params (p_params p) d2)))"

definition set_uri_option :: "rstring \<Rightarrow> 'c spanner_database \<Rightarrow> unit result \<times> 'c spanner_database" where
  "set_uri_option value d =
     (case connection_uri_remainder value of
        None \<Rightarrow> (Inl (invalid_argument (lit ''the uri option value is not a spanner:// connection URI'')), d)
      | Some remainder \<Rightarrow>
          (case apply_connection_uri remainder d of
             (Inl e, d') \<Rightarrow> (Inl e, d')
           | (Inr _, d') \<Rightarrow> (Inr (), d'\<lparr>uri := Some value\<rparr>)))"

definition set_database_option ::
  "option_database \<Rightarrow> option_value \<Rightarrow> 'c spanner_database \<Rightarrow> unit result \<times> 'c spanner_database" where
  "set_database_option key value d0 =
     (let d = d0\<lparr>connected := None\<rparr>
      in case key of
           DbUri \<Rightarrow>
             (case string_db_value (db_key_str key) value of
                Inl e \<Rightarrow> (Inl e, d)
              | Inr v \<Rightarrow> set_uri_option v d)
         | OtherDb name \<Rightarrow> set_driver_option name value d
         | UnlistedDb k \<Rightarrow> (Inl (unknown_option (lit ''database'') k), d))"

definition database_option_string :: "option_database \<Rightarrow> 'c spanner_database \<Rightarrow> rstring result" where
  "database_option_string key d =
     (let listed = (\<lambda>xs. if xs = [] then None else Some (join_comma xs))
      in case key of
           DbUri \<Rightarrow> ok_or (option_not_set (db_key_str key)) (uri d)
         | OtherDb name \<Rightarrow>
             if name = OPTION_KEYFILE_JSON \<or> name = OPTION_ACCESS_TOKEN
             then Inl (err (lit ''option '' @ name @ lit '' is write-only (it holds a secret) and cannot be read back'') NotFound)
             else ok_or (option_not_set name)
               (if name = OPTION_ENDPOINT then endpoint d
                else if name = OPTION_EMULATOR then Some (bool_string (emulator d))
                else if name = OPTION_KEYFILE then keyfile d
                else if name = OPTION_IMPERSONATE_TARGET_PRINCIPAL then impersonate_target_principal d
                else if name = OPTION_IMPERSONATE_DELEGATES then listed (impersonate_delegates d)
                else if name = OPTION_IMPERSONATE_SCOPES then listed (impersonate_scopes d)
                else if name = OPTION_IMPERSONATE_LIFETIME then map_option show_nat (impersonate_lifetime_secs d)
                else if name = OPTION_QUOTA_PROJECT then quota_project d
                else None)
         | UnlistedDb k \<Rightarrow> Inl (option_not_set k))"

text \<open>\<^verbatim>\<open>Debug\<close>: the fields in the order they print; \<open>redact\<close> keeps the presence only.\<close>

datatype debug_value = DText "rstring option" | DBool bool | DList "rstring list" | DSeconds "nat option"

definition redact :: "rstring \<Rightarrow> 'a option \<Rightarrow> debug_value" where
  "redact mark v = DText (map_option (\<lambda>_. mark) v)"

definition debug_fields :: "'c spanner_database \<Rightarrow> debug_value list" where
  "debug_fields d =
     [DText (uri d), DText (db_path d), DText (endpoint d), DBool (emulator d),
      redact (lit ''<redacted>'') (keyfile d), redact (lit ''<redacted>'') (keyfile_json d),
      DText (impersonate_target_principal d), DList (impersonate_delegates d), DList (impersonate_scopes d),
      DSeconds (impersonate_lifetime_secs d), redact (lit ''<redacted>'') (access_token d),
      DText (quota_project d), redact (lit ''<client stack>'') (connected d)]"

end
