(* ===== verification/Credentials.thy ===== *)
theory Credentials
  imports DatabaseOptions Connection
begin

text \<open>
  Credentials and connecting, \<^verbatim>\<open>src/driver/credentials.rs\<close> and \<^verbatim>\<open>src/driver.rs\<close>: which of the exclusive
  credential flows a database selects, how it is built, and the client stack that every connection of
  the database shares.

  The auth crate's builders, the JSON and header parsers, the file system and the client are parameters.
\<close>

section \<open>Parameters\<close>

text \<open>The predicates of a build error of the auth crate.\<close>

record build_error =
  is_missing_field :: bool
  is_parsing :: bool
  is_unknown_type :: bool
  is_not_supported :: bool
  is_loading :: bool

datatype json_credential = ServiceAccount | AuthorizedUser | ImpersonatedServiceAccount | ExternalAccount

text \<open>A header of a static token: name, value and the sensitivity mark.\<close>

type_synonym header_map = "(rstring \<times> rstring \<times> bool) list"

record 'cr auth =
  a_anonymous :: 'cr
  a_adc :: "rstring option \<Rightarrow> build_error + 'cr"
  a_json :: "json_credential \<Rightarrow> json \<Rightarrow> rstring option \<Rightarrow> build_error + 'cr"
  a_impersonated :: "'cr \<Rightarrow> rstring \<Rightarrow> nat \<Rightarrow> rstring list option \<Rightarrow> rstring list option \<Rightarrow> rstring option \<Rightarrow> build_error + 'cr"
  a_static :: "header_map \<Rightarrow> 'cr"
  a_parse_json :: "rstring \<Rightarrow> json option"
  a_header_ok :: "rstring \<Rightarrow> bool"
  a_read_file :: "rstring \<Rightarrow> rstring option"

record ('sp, 'cl) stack =
  k_client :: 'cl
  k_spanner :: 'sp
  k_database :: rstring

record ('cr, 'sp, 'cl, 'srv) builders =
  build_spanner :: "rstring option \<Rightarrow> 'cr option \<Rightarrow> ('sp, 'srv) rpc"
  build_database_client :: "'sp \<Rightarrow> rstring \<Rightarrow> ('cl, 'srv) rpc"

section \<open>The credential ladder\<close>

definition QUOTA_PROJECT_HEADER :: rstring where
  "QUOTA_PROJECT_HEADER = lit ''x-goog-user-project''"

definition DEFAULT_IMPERSONATION_LIFETIME_SECS :: nat where
  "DEFAULT_IMPERSONATION_LIFETIME_SECS = 3600"

datatype credential_choice = Anonymous | AccessToken | Impersonate | Keyfile | Adc

definition credentials_json :: "'cr auth \<Rightarrow> 'c spanner_database \<Rightarrow> rstring option result" where
  "credentials_json A d =
     (case keyfile_json d of
        Some json \<Rightarrow> Inr (Some json)
      | None \<Rightarrow>
          (case keyfile d of
             Some path \<Rightarrow>
               try_bind (ok_or (err (lit ''failed to read keyfile '' @ path) InvalidArguments) (a_read_file A path))
                 (\<lambda>j. Inr (Some j))
           | None \<Rightarrow> Inr None))"

definition explicit_credential_option :: "'c spanner_database \<Rightarrow> rstring option" where
  "explicit_credential_option d =
     (if keyfile_json d \<noteq> None then Some OPTION_KEYFILE_JSON
      else if keyfile d \<noteq> None then Some OPTION_KEYFILE
      else if impersonate_target_principal d \<noteq> None then Some OPTION_IMPERSONATE_TARGET_PRINCIPAL
      else if access_token d \<noteq> None then Some OPTION_ACCESS_TOKEN
      else None)"

definition conflicting_credential_with_access_token :: "'c spanner_database \<Rightarrow> rstring option" where
  "conflicting_credential_with_access_token d =
     (case explicit_credential_option d of
        Some n \<Rightarrow> if n \<noteq> OPTION_ACCESS_TOKEN then Some n else None
      | None \<Rightarrow> None)"

definition choose_credential :: "'c spanner_database \<Rightarrow> bool \<Rightarrow> credential_choice" where
  "choose_credential d emu =
     (if emu then Anonymous
      else if access_token d \<noteq> None then AccessToken
      else if impersonate_target_principal d \<noteq> None then Impersonate
      else if keyfile_json d \<noteq> None \<or> keyfile d \<noteq> None then Keyfile
      else Adc)"

section \<open>Building a credential\<close>

definition scrub_credential_error :: "build_error \<Rightarrow> rstring" where
  "scrub_credential_error e =
     (if is_missing_field e then lit ''a required field is missing or has the wrong type''
      else if is_parsing e then lit ''the credential JSON could not be parsed''
      else if is_unknown_type e then lit ''the credential type is unknown or invalid''
      else if is_not_supported e then lit ''the credential type is not supported for this use''
      else if is_loading e then lit ''the credentials could not be loaded''
      else lit ''the credentials could not be built'')"

definition scrubbed :: "rstring \<Rightarrow> build_error + 'cr \<Rightarrow> 'cr result" where
  "scrubbed what = map_err (\<lambda>e. err (what @ lit '': '' @ scrub_credential_error e) InvalidArguments)"

definition credential_flow :: "rstring \<Rightarrow> json_credential option" where
  "credential_flow t =
     (if t = lit ''service_account'' then Some ServiceAccount
      else if t = lit ''authorized_user'' then Some AuthorizedUser
      else if t = lit ''impersonated_service_account'' then Some ImpersonatedServiceAccount
      else if t = lit ''external_account'' then Some ExternalAccount
      else None)"

definition json_str :: "json \<Rightarrow> rstring option" where
  "json_str j = (case j of JString s \<Rightarrow> Some s | _ \<Rightarrow> None)"

definition build_credentials_from_json :: "'cr auth \<Rightarrow> rstring \<Rightarrow> rstring option \<Rightarrow> 'cr result" where
  "build_credentials_from_json A json quota =
     try_bind (ok_or (err (lit ''invalid credential JSON key'') InvalidArguments) (a_parse_json A json)) (\<lambda>v.
     try_bind (ok_or (invalid_argument (lit ''credential JSON is missing a string type field''))
       (Option.bind (json_get v (lit ''type'')) json_str)) (\<lambda>t.
     try_bind (ok_or (invalid_argument (lit ''unsupported credential type '' @ t)) (credential_flow t)) (\<lambda>flow.
     scrubbed (lit ''failed to build '' @ t @ lit '' credentials'') (a_json A flow v quota))))"

definition build_impersonated_credentials ::
  "'cr auth \<Rightarrow> 'cr \<Rightarrow> rstring \<Rightarrow> rstring list \<Rightarrow> rstring list \<Rightarrow> nat \<Rightarrow> rstring option \<Rightarrow> 'cr result" where
  "build_impersonated_credentials A src_cred target delegates scopes lifetime quota =
     scrubbed (lit ''failed to build impersonated credentials for '' @ target)
       (a_impersonated A src_cred target lifetime
          (if delegates = [] then None else Some delegates) (if scopes = [] then None else Some scopes) quota)"

definition build_static_token_credentials :: "'cr auth \<Rightarrow> rstring \<Rightarrow> rstring option \<Rightarrow> 'cr result" where
  "build_static_token_credentials A token quota =
     (let bearer = lit ''Bearer '' @ token
      in if \<not> a_header_ok A bearer
         then Inl (invalid_argument (lit ''the access token option contains characters that are not valid in an HTTP Authorization header value''))
         else
           (case quota of
              None \<Rightarrow> Inr (a_static A [(lit ''authorization'', bearer, True)])
            | Some project \<Rightarrow>
                if \<not> a_header_ok A project
                then Inl (invalid_argument (lit ''the quota project option contains characters that are not valid in an HTTP header value''))
                else Inr (a_static A [(lit ''authorization'', bearer, True), (QUOTA_PROJECT_HEADER, project, False)])))"

text \<open>The headers of a static token: unchanged for a caller that holds its entity tag.\<close>

datatype 'a cacheable = NotModified | NewResource 'a nat

definition static_token_headers :: "header_map \<Rightarrow> nat \<Rightarrow> nat option \<Rightarrow> header_map cacheable" where
  "static_token_headers headers entity_tag held =
     (if held = Some entity_tag then NotModified else NewResource headers entity_tag)"

definition opt_transpose :: "'a result option \<Rightarrow> 'a option result" where
  "opt_transpose r = (case r of None \<Rightarrow> Inr None | Some x \<Rightarrow> try_bind x (\<lambda>y. Inr (Some y)))"

definition build_credentials ::
  "'cr auth \<Rightarrow> 'c spanner_database \<Rightarrow> bool \<Rightarrow> rstring option \<Rightarrow> 'cr option result" where
  "build_credentials A d emu json =
     (let quota = quota_project d
      in case choose_credential d emu of
           Anonymous \<Rightarrow> Inr (Some (a_anonymous A))
         | AccessToken \<Rightarrow>
             opt_transpose (map_option (\<lambda>t. build_static_token_credentials A t quota) (access_token d))
         | Impersonate \<Rightarrow>
             opt_transpose (map_option (\<lambda>target.
               try_bind (case json of
                   Some j \<Rightarrow> build_credentials_from_json A j None
                 | None \<Rightarrow> scrubbed (lit ''failed to build Application Default Credentials to impersonate '' @ target)
                     (a_adc A None)) (\<lambda>src_cred.
               build_impersonated_credentials A src_cred target (impersonate_delegates d) (impersonate_scopes d)
                 (case impersonate_lifetime_secs d of None \<Rightarrow> DEFAULT_IMPERSONATION_LIFETIME_SECS | Some n \<Rightarrow> n)
                 quota)) (impersonate_target_principal d))
         | Keyfile \<Rightarrow> opt_transpose (map_option (\<lambda>j. build_credentials_from_json A j quota) json)
         | Adc \<Rightarrow>
             opt_transpose (map_option (\<lambda>project.
               scrubbed (lit ''failed to build Application Default Credentials with quota project '' @ project)
                 (a_adc A (Some project))) quota))"

section \<open>Connecting\<close>

text \<open>\<open>host\<close> is the environment variable \<^verbatim>\<open>SPANNER_EMULATOR_HOST\<close>, when it is set and valid Unicode.\<close>

definition emulator_host :: "rstring option \<Rightarrow> rstring option" where
  "emulator_host host = (case host of Some h \<Rightarrow> if h = [] then None else Some h | None \<Rightarrow> None)"

definition resolved_endpoint :: "rstring option \<Rightarrow> 'c spanner_database \<Rightarrow> rstring option" where
  "resolved_endpoint host d =
     (case emulator_host host of
        Some h \<Rightarrow> if endpoint d = None then Some (ensure_scheme h) else endpoint d
      | None \<Rightarrow> endpoint d)"

definition resolved_emulator :: "rstring option \<Rightarrow> 'c spanner_database \<Rightarrow> bool" where
  "resolved_emulator host d \<longleftrightarrow> emulator d \<or> emulator_host host \<noteq> None"

definition check_emulator_credentials :: "bool \<Rightarrow> 'c spanner_database \<Rightarrow> unit result" where
  "check_emulator_credentials emu d =
     (if \<not> emu then Inr ()
      else case explicit_credential_option d of
             Some n \<Rightarrow> Inl (invalid_state (lit ''emulator mode would silently ignore the configured '' @ n @ lit '' option''))
           | None \<Rightarrow>
               if quota_project d \<noteq> None
               then Inl (invalid_state (lit ''emulator mode would silently ignore the configured '' @ OPTION_QUOTA_PROJECT @ lit '' option''))
               else Inr ())"

definition check_access_token_alone :: "'c spanner_database \<Rightarrow> unit result" where
  "check_access_token_alone d =
     (if access_token d = None then Inr ()
      else case conflicting_credential_with_access_token d of
             Some n \<Rightarrow> Inl (invalid_state (lit ''the access token option cannot be combined with the '' @ n @ lit '' option''))
           | None \<Rightarrow> Inr ())"

definition connect ::
  "'cr auth \<Rightarrow> ('cr, 'sp, 'cl, 'srv) builders \<Rightarrow> rstring option \<Rightarrow> 'c spanner_database \<Rightarrow> (('sp, 'cl) stack, 'srv) rpc" where
  "connect A B host d =
     seqr (pure (ok_or (invalid_state (lit ''Spanner database path is not set; provide the uri option'')) (db_path d))) (\<lambda>path.
     seqr (pure (check_emulator_credentials (resolved_emulator host d) d)) (\<lambda>_.
     seqr (pure (check_access_token_alone d)) (\<lambda>_.
     seqr (pure (credentials_json A d)) (\<lambda>json.
     seqr (pure (build_credentials A d (resolved_emulator host d) json)) (\<lambda>cred.
     seqr (build_spanner B (resolved_endpoint host d) cred) (\<lambda>sp.
     seqr (build_database_client B sp path) (\<lambda>cl.
     pure (Inr \<lparr>k_client = cl, k_spanner = sp, k_database = path\<rparr>))))))))"

definition connect_shared ::
  "'cr auth \<Rightarrow> ('cr, 'sp, 'cl, 'srv) builders \<Rightarrow> rstring option \<Rightarrow> ('sp, 'cl) stack spanner_database \<Rightarrow> 'srv \<Rightarrow>
   ('sp, 'cl) stack result \<times> ('sp, 'cl) stack spanner_database \<times> 'srv" where
  "connect_shared A B host d srv =
     (case connected d of
        Some c \<Rightarrow> (Inr c, d, srv)
      | None \<Rightarrow>
          (case connect A B host d srv of
             (Inl e, srv') \<Rightarrow> (Inl e, d, srv')
           | (Inr c, srv') \<Rightarrow> (Inr c, d\<lparr>connected := Some c\<rparr>, srv')))"

text \<open>\<^verbatim>\<open>new_connection\<close>, and the option loops of the \<^verbatim>\<open>_with_opts\<close> constructors.\<close>

definition database_new_connection ::
  "'cr auth \<Rightarrow> ('cr, 'sp, 'cl, 'srv) builders \<Rightarrow> rstring option \<Rightarrow> ('sp, 'cl) stack spanner_database \<Rightarrow>
   arc_store \<Rightarrow> cancel_store \<Rightarrow> 'srv \<Rightarrow>
   ('sn, 'v, 'ts, 'srv) world result \<times> ('sp, 'cl) stack spanner_database \<times> 'srv" where
  "database_new_connection A B host d st cs srv =
     (case connect_shared A B host d srv of
        (Inl e, d', srv') \<Rightarrow> (Inl e, d', srv')
      | (Inr c, d', srv') \<Rightarrow> (Inr (new_connection (k_database c) st cs srv'), d', srv'))"

fun set_connection_options ::
  "('sn, 'v, 'r, 'ty, 'ts, 'b, 'raw, 'bat, 'rd, 't, 'd, 'srv) env \<Rightarrow> rounding \<Rightarrow> (rstring \<Rightarrow> 'ts option) \<Rightarrow>
   (option_connection \<times> option_value) list \<Rightarrow> (unit, 'sn, 'v, 'ts, 'srv) conn_action" where
  "set_connection_options E rnd rfc [] w = (Inr (), w)"
| "set_connection_options E rnd rfc ((k, v) # kvs) w =
     seqr (set_connection_option E rnd rfc k v) (\<lambda>_. set_connection_options E rnd rfc kvs) w"

fun set_database_options ::
  "(option_database \<times> option_value) list \<Rightarrow> 'c spanner_database \<Rightarrow> 'c spanner_database result" where
  "set_database_options [] d = Inr d"
| "set_database_options ((k, v) # kvs) d =
     (case set_database_option k v d of
        (Inl e, _) \<Rightarrow> Inl e
      | (Inr _, d') \<Rightarrow> set_database_options kvs d')"

definition new_database_with_opts :: "(option_database \<times> option_value) list \<Rightarrow> 'c spanner_database result" where
  "new_database_with_opts opts = set_database_options opts new_database"

end
