(* ===== verification/DatabaseProps.thy ===== *)
theory DatabaseProps
  imports Credentials ScanProps
begin

text \<open>
  Properties of the database object: a URI is applied whole or not at all, secrets cannot travel through
  it, credentials are never dropped, and the shared client stack matches the configuration.
\<close>

section \<open>Options do not depend on the state\<close>

lemma try_bind_pure_Inl: "try_bind r (\<lambda>x. Inr (f x)) = Inl e \<longleftrightarrow> r = Inl e"
  by (cases r) auto

lemma set_other_option_indep:
  "set_other_option n v d = Inl e \<longleftrightarrow> set_other_option n v d2 = Inl e"
  by (simp add: set_other_option_def if_distrib[of "\<lambda>r. r = Inl e"] try_bind_pure_Inl split del: if_split cong: if_cong)

lemma set_other_option_total:
  "(\<exists>d'. set_other_option n v d = Inr d') \<longleftrightarrow> (\<exists>d'. set_other_option n v d2 = Inr d')"
  by (metis set_other_option_indep sum.exhaust sum.simps(4))

lemma set_driver_option_fst:
  "fst (set_driver_option n v d) = fst (set_driver_option n v d2)"
proof (cases "set_other_option n v (d\<lparr>connected := None\<rparr>)")
  case (Inl e)
  with set_other_option_indep[of n v "d\<lparr>connected := None\<rparr>" e "d2\<lparr>connected := None\<rparr>"] show ?thesis
    by (simp add: set_driver_option_def)
next
  case (Inr d')
  with set_other_option_total[of n v "d\<lparr>connected := None\<rparr>" "d2\<lparr>connected := None\<rparr>"] show ?thesis
    by (auto simp: set_driver_option_def)
qed

lemma set_params_fst: "fst (set_params ps d) = fst (set_params ps d2)"
proof (induction ps arbitrary: d d2)
  case (Cons kv ps)
  obtain k v where kv: "kv = (k, v)" by fastforce
  obtain r d' d2' where 1: "set_driver_option k (OString v) d = (r, d')" "set_driver_option k (OString v) d2 = (r, d2')"
    by (metis prod.collapse set_driver_option_fst)
  then show ?case using Cons.IH[of d' d2'] by (simp add: kv split: sum.splits)
qed simp

text \<open>What a query parameter of a URI cannot touch.\<close>

definition guarded :: "'c spanner_database \<Rightarrow> rstring option \<times> rstring option \<times> rstring option \<times> rstring option" where
  "guarded d = (keyfile_json d, access_token d, db_path d, uri d)"

lemma query_not_secret: "n \<in> set URI_QUERY_OPTIONS \<Longrightarrow> n \<noteq> OPTION_KEYFILE_JSON \<and> n \<noteq> OPTION_ACCESS_TOKEN"
proof -
  have "list_all (\<lambda>n. n \<noteq> OPTION_KEYFILE_JSON \<and> n \<noteq> OPTION_ACCESS_TOKEN) URI_QUERY_OPTIONS" by code_simp
  then show "n \<in> set URI_QUERY_OPTIONS \<Longrightarrow> ?thesis" by (simp add: list_all_iff)
qed

lemma set_other_option_guarded:
  assumes "n \<in> set URI_QUERY_OPTIONS" and "set_other_option n v d = Inr d'"
  shows "guarded d' = guarded d \<and> connected d' = connected d"
  using assms(2) query_not_secret[OF assms(1)]
  by (auto simp: set_other_option_def guarded_def res_simps split: if_splits)

lemma set_driver_option_guarded:
  assumes "n \<in> set URI_QUERY_OPTIONS" and "set_driver_option n v d = (r, d')"
  shows "guarded d' = guarded d \<and> connected d' = None"
proof -
  have "guarded (d\<lparr>connected := None\<rparr>) = guarded d" by (simp add: guarded_def)
  then show ?thesis
    using assms(2) set_other_option_guarded[OF assms(1), of v "d\<lparr>connected := None\<rparr>"]
    by (auto simp: set_driver_option_def Let_def split: sum.splits)
qed

lemma set_params_guarded:
  "list_all (\<lambda>(k, _). k \<in> set URI_QUERY_OPTIONS) ps \<Longrightarrow> set_params ps d = (r, d') \<Longrightarrow> connected d = None \<Longrightarrow>
   guarded d' = guarded d \<and> connected d' = None"
proof (induction ps arbitrary: d)
  case (Cons kv ps)
  obtain k v where kv: "kv = (k, v)" by fastforce
  obtain r1 d1 where 1: "set_driver_option k (OString v) d = (r1, d1)" by fastforce
  with set_driver_option_guarded[of k "OString v" d r1 d1] Cons.prems
  have "guarded d1 = guarded d \<and> connected d1 = None" by (simp add: kv)
  then show ?case using Cons.IH[of d1] Cons.prems 1 by (auto simp: kv split: sum.splits)
qed simp

text \<open>Every failure is an \<open>InvalidArguments\<close>.\<close>

definition rejects :: "'a result \<Rightarrow> bool" where
  "rejects r = (case r of Inl e \<Rightarrow> status e = InvalidArguments | Inr _ \<Rightarrow> True)"

lemma rejects_simps [simp]: "rejects (Inl e) = (status e = InvalidArguments)" "rejects (Inr x)"
  by (simp_all add: rejects_def)

lemma rejects_bind: "rejects r \<Longrightarrow> (\<And>x. r = Inr x \<Longrightarrow> rejects (f x)) \<Longrightarrow> rejects (try_bind r f)"
  by (cases r) auto

lemma rejects_ok_or: "status e = InvalidArguments \<Longrightarrow> rejects (ok_or e x)"
  by (cases x) auto

lemma rejects_collect: "(\<And>r. r \<in> set rs \<Longrightarrow> rejects r) \<Longrightarrow> rejects (collect_results rs)"
  by (induction rs) (auto intro!: rejects_bind)

lemmas rejects_intros = rejects_bind rejects_ok_or rejects_collect

lemma rejects_percent_decode: "rejects (percent_decode s)"
  by (auto simp: percent_decode_def intro!: rejects_intros)

lemma rejects_query_pair: "rejects (query_pair p)"
  by (auto simp: query_pair_def Let_def intro!: rejects_intros rejects_percent_decode split: prod.splits option.splits)

lemma rejects_parse_uri: "rejects (parse_connection_uri r)"
  by (auto simp: parse_connection_uri_def Let_def intro!: rejects_intros rejects_query_pair split: prod.splits)

definition yields :: "('a \<Rightarrow> bool) \<Rightarrow> 'a result \<Rightarrow> bool" where
  "yields P r = (case r of Inl _ \<Rightarrow> True | Inr x \<Rightarrow> P x)"

lemma yields_simps [simp]: "yields P (Inl e)" "yields P (Inr x) = P x"
  by (simp_all add: yields_def)

lemma yieldsD: "yields P r \<Longrightarrow> r = Inr x \<Longrightarrow> P x"
  by simp

lemma yields_bind: "(\<And>x. r = Inr x \<Longrightarrow> yields P (f x)) \<Longrightarrow> yields P (try_bind r f)"
  by (cases r) auto

lemma yields_collect: "(\<And>r. r \<in> set rs \<Longrightarrow> yields P r) \<Longrightarrow> yields (list_all P) (collect_results rs)"
proof (induction rs)
  case (Cons r rs)
  then have "yields P r" "yields (list_all P) (collect_results rs)" by simp_all
  then show ?case by (auto intro!: yields_bind dest: yieldsD)
qed simp

lemma query_pair_key: "yields (\<lambda>(k, _). k \<in> set URI_QUERY_OPTIONS) (query_pair s)"
  by (auto simp: query_pair_def Let_def intro!: yields_bind split: prod.splits)

lemma parse_uri_params:
  "yields (\<lambda>p. list_all (\<lambda>(k, _). k \<in> set URI_QUERY_OPTIONS) (p_params p) \<and> is_database_path (p_database p))
     (parse_connection_uri r)"
proof -
  have pairs: "list_all (\<lambda>(k, _). k \<in> set URI_QUERY_OPTIONS) ps" if "collect_results (map query_pair ss) = Inr ps" for ss ps
    using yieldsD[OF yields_collect[of "map query_pair ss" "\<lambda>(k, _). k \<in> set URI_QUERY_OPTIONS"] that] query_pair_key
    by auto
  show ?thesis
    unfolding parse_connection_uri_def Let_def
    by (auto intro!: yields_bind split: prod.split) (erule pairs)+
qed

lemma rejects_bind_Inr [simp]: "rejects r \<Longrightarrow> rejects (try_bind r (\<lambda>x. Inr (f x)))"
  by (auto intro: rejects_bind)

lemma rejects_values [simp]:
  "rejects (string_db_value k v)" "rejects (bool_db_value k v)" "rejects (u64_seconds_value k v)"
  by (auto simp: string_db_value_def string_option_def bool_db_value_def bool_option_def u64_seconds_value_def Let_def
      intro!: rejects_intros split: option_value.splits)

lemma rejects_set_other: "n \<in> set URI_QUERY_OPTIONS \<Longrightarrow> rejects (set_other_option n v d)"
  by (simp add: URI_QUERY_OPTIONS_def set_other_option_def) auto

lemma rejects_set_params:
  "list_all (\<lambda>(k, _). k \<in> set URI_QUERY_OPTIONS) ps \<Longrightarrow> rejects (fst (set_params ps d))"
proof (induction ps arbitrary: d)
  case (Cons kv ps)
  obtain k v where kv: "kv = (k, v)" by fastforce
  with Cons.prems rejects_set_other[of k "OString v" "d\<lparr>connected := None\<rparr>"] Cons.IH show ?case
    by (auto simp: set_driver_option_def Let_def split: sum.splits)
qed simp

section \<open>A URI is applied whole or not at all\<close>

lemma apply_connection_uri_cases:
  fixes d :: "'c spanner_database"
  assumes "connected d = None"
  shows "case apply_connection_uri r d of
     (Inl e, d') \<Rightarrow> status e = InvalidArguments \<and> d' = d
   | (Inr _, d') \<Rightarrow> keyfile_json d' = keyfile_json d \<and> access_token d' = access_token d \<and> connected d' = None \<and>
       (\<exists>p. db_path d' = Some p \<and> is_database_path p)"
proof (cases "parse_connection_uri r")
  case (Inl e)
  with rejects_parse_uri[of r] show ?thesis by (simp add: apply_connection_uri_def)
next
  case (Inr p)
  let ?d1 = "d\<lparr>db_path := Some (p_database p)\<rparr>"
  let ?d2 = "case p_endpoint p of None \<Rightarrow> ?d1 | Some e \<Rightarrow> ?d1\<lparr>endpoint := Some e\<rparr>"
  have p: "list_all (\<lambda>(k, _). k \<in> set URI_QUERY_OPTIONS) (p_params p)" "is_database_path (p_database p)"
    using yieldsD[OF parse_uri_params Inr] by simp_all
  obtain ra da where a: "set_params (p_params p) (new_database :: 'c spanner_database) = (ra, da)" by fastforce
  obtain rb db where b: "set_params (p_params p) ?d2 = (rb, db)" by fastforce
  have same: "ra = rb" using set_params_fst[of "p_params p" "new_database :: 'c spanner_database" ?d2] a b by simp
  have d2: "guarded ?d2 = (keyfile_json d, access_token d, Some (p_database p), uri d)" "connected ?d2 = None"
    using assms by (simp_all add: guarded_def split: option.split)
  from set_params_guarded[OF p(1) b d2(2)] d2(1) have g:
    "keyfile_json db = keyfile_json d" "access_token db = access_token d" "db_path db = Some (p_database p)"
    "connected db = None" by (simp_all add: guarded_def)
  show ?thesis
  proof (cases ra)
    case (Inl e)
    with rejects_set_params[OF p(1), of "new_database :: 'c spanner_database"] a Inr show ?thesis
      by (simp add: apply_connection_uri_def \<open>parse_connection_uri r = Inr p\<close>)
  next
    case (Inr u)
    then show ?thesis using a b same g p(2) \<open>parse_connection_uri r = Inr p\<close> by (simp add: apply_connection_uri_def Let_def)
  qed
qed


section \<open>Credentials\<close>

lemma rpc_seq_Inr:
  "seqr a f s = (Inr y, s') \<longleftrightarrow> (\<exists>x s1. a s = (Inr x, s1) \<and> f x s1 = (Inr y, s'))"
  by (auto simp: seqr_def split: prod.splits sum.splits)

lemma pure_Inr: "pure r s = (Inr x, s') \<longleftrightarrow> r = Inr x \<and> s' = s"
  by (auto simp: pure_def)

lemma explicit_none:
  "explicit_credential_option d = None \<longleftrightarrow>
   keyfile_json d = None \<and> keyfile d = None \<and> impersonate_target_principal d = None \<and> access_token d = None"
  by (simp add: explicit_credential_option_def)

lemma conflict_none:
  assumes "access_token d = Some t"
  shows "conflicting_credential_with_access_token d = None \<longleftrightarrow>
    keyfile_json d = None \<and> keyfile d = None \<and> impersonate_target_principal d = None"
proof -
  have "OPTION_KEYFILE_JSON \<noteq> OPTION_ACCESS_TOKEN" "OPTION_KEYFILE \<noteq> OPTION_ACCESS_TOKEN"
    "OPTION_IMPERSONATE_TARGET_PRINCIPAL \<noteq> OPTION_ACCESS_TOKEN" by code_simp+
  with assms show ?thesis by (auto simp: conflicting_credential_with_access_token_def explicit_credential_option_def)
qed

lemma connect_Inr:
  "connect A B host d srv = (Inr k, srv') \<longleftrightarrow>
   (\<exists>json cred srv1. db_path d = Some (k_database k) \<and>
      check_emulator_credentials (resolved_emulator host d) d = Inr () \<and> check_access_token_alone d = Inr () \<and>
      credentials_json A d = Inr json \<and> build_credentials A d (resolved_emulator host d) json = Inr cred \<and>
      build_spanner B (resolved_endpoint host d) cred srv = (Inr (k_spanner k), srv1) \<and>
      build_database_client B (k_spanner k) (k_database k) srv1 = (Inr (k_client k), srv'))"
proof -
  have k: "\<lparr>k_client = cl, k_spanner = sp, k_database = p\<rparr> = k \<longleftrightarrow> cl = k_client k \<and> sp = k_spanner k \<and> p = k_database k"
    for cl sp p by (cases k) auto
  show ?thesis
    unfolding connect_def rpc_seq_Inr pure_Inr by (auto simp: k ok_or_Inr)
qed

text \<open>The credential a database must present outside emulator mode.\<close>

definition presents :: "'cr auth \<Rightarrow> 'c spanner_database \<Rightarrow> 'cr option \<Rightarrow> bool" where
  "presents A d cred =
     (case access_token d of
        Some t \<Rightarrow>
          keyfile_json d = None \<and> keyfile d = None \<and> impersonate_target_principal d = None \<and>
          cred = Some (a_static A ((lit ''authorization'', lit ''Bearer '' @ t, True) #
            (case quota_project d of None \<Rightarrow> [] | Some q \<Rightarrow> [(QUOTA_PROJECT_HEADER, q, False)])))
      | None \<Rightarrow>
          (case impersonate_target_principal d of
             Some target \<Rightarrow> (\<exists>base c. cred = Some c \<and>
               a_impersonated A base target (case impersonate_lifetime_secs d of None \<Rightarrow> 3600 | Some n \<Rightarrow> n)
                 (if impersonate_delegates d = [] then None else Some (impersonate_delegates d))
                 (if impersonate_scopes d = [] then None else Some (impersonate_scopes d)) (quota_project d) = Inr c \<and>
               (if keyfile_json d = None \<and> keyfile d = None then a_adc A None = Inr base
                else \<exists>j. credentials_json A d = Inr (Some j) \<and> build_credentials_from_json A j None = Inr base))
           | None \<Rightarrow>
               if keyfile_json d = None \<and> keyfile d = None
               then (case quota_project d of
                       None \<Rightarrow> cred = None
                     | Some q \<Rightarrow> \<exists>c. a_adc A (Some q) = Inr c \<and> cred = Some c)
               else \<exists>j c. credentials_json A d = Inr (Some j) \<and>
                      build_credentials_from_json A j (quota_project d) = Inr c \<and> cred = Some c))"

lemma scrubbed_Inr: "scrubbed what r = Inr c \<longleftrightarrow> r = Inr c"
  by (cases r) (auto simp: scrubbed_def)

lemma opt_transpose_Inr:
  "opt_transpose None = Inr y \<longleftrightarrow> y = None"
  "opt_transpose (Some r) = Inr y \<longleftrightarrow> (\<exists>c. r = Inr c \<and> y = Some c)"
  by (auto simp: opt_transpose_def res_simps)

lemma credentials_json_none:
  "credentials_json A d = Inr json \<Longrightarrow> json = None \<longleftrightarrow> keyfile_json d = None \<and> keyfile d = None"
  by (auto simp: credentials_json_def res_simps split: option.splits)

lemma static_token_Inr:
  "build_static_token_credentials A t q = Inr c \<Longrightarrow>
   c = a_static A ((lit ''authorization'', lit ''Bearer '' @ t, True) #
     (case q of None \<Rightarrow> [] | Some q \<Rightarrow> [(QUOTA_PROJECT_HEADER, q, False)]))"
  by (auto simp: build_static_token_credentials_def Let_def split: if_splits option.splits)

lemma build_credentials_presents:
  assumes "check_access_token_alone d = Inr ()" and "credentials_json A d = Inr json"
    and "build_credentials A d False json = Inr cred"
  shows "presents A d cred"
proof (cases "access_token d")
  case (Some t)
  with assms(1) conflict_none[OF Some] have "keyfile_json d = None" "keyfile d = None" "impersonate_target_principal d = None"
    by (auto simp: check_access_token_alone_def split: option.splits)
  with Some assms(3) show ?thesis
    by (auto simp: presents_def build_credentials_def Let_def choose_credential_def opt_transpose_Inr dest!: static_token_Inr)
next
  case None
  note json = credentials_json_none[OF assms(2)]
  show ?thesis
  proof (cases "impersonate_target_principal d")
    case (Some target)
    with None assms(2,3) json show ?thesis
      by (auto simp: presents_def build_credentials_def Let_def choose_credential_def opt_transpose_Inr try_bind_Inr
          scrubbed_Inr build_impersonated_credentials_def DEFAULT_IMPERSONATION_LIFETIME_SECS_def split: option.splits)
  next
    case no: None
    show ?thesis
    proof (cases json)
      case no_json: None
      with None no json assms(3) show ?thesis
        by (auto simp: presents_def build_credentials_def Let_def choose_credential_def opt_transpose_Inr scrubbed_Inr
            split: option.splits)
    next
      case (Some j)
      with None no json assms(2,3) show ?thesis
        by (auto simp: presents_def build_credentials_def Let_def choose_credential_def opt_transpose_Inr)
    qed
  qed
qed


text \<open>A database with an access token and a quota project, on a client that builds whatever it is asked to.\<close>

definition demo_auth :: "(rstring + header_map) auth" where
  "demo_auth =
     \<lparr>a_anonymous = Inl (lit ''anonymous''), a_adc = \<lambda>_. Inr (Inl (lit ''adc'')), a_json = \<lambda>_ _ _. Inr (Inl (lit ''json'')),
      a_impersonated = \<lambda>_ _ _ _ _ _. Inr (Inl (lit ''impersonated'')), a_static = Inr, a_parse_json = \<lambda>_. None,
      a_header_ok = list_all (\<lambda>c. 32 \<le> c \<and> c < 127), a_read_file = \<lambda>_. None\<rparr>"

definition demo_builders :: "(rstring + header_map, (rstring + header_map) option, unit, nat) builders" where
  "demo_builders = \<lparr>build_spanner = \<lambda>_ cred n. (Inr cred, n + 1), build_database_client = \<lambda>_ _ n. (Inr (), n + 1)\<rparr>"

definition demo_database :: "((rstring + header_map) option, unit) stack spanner_database" where
  "demo_database = new_database\<lparr>db_path := Some (lit ''projects/p/instances/i/databases/d''), access_token := Some (lit ''ya29''),
     quota_project := Some (lit ''bill'')\<rparr>"


section \<open>The shared client stack\<close>

datatype db_call = SetDbOption option_database option_value | NewConnection "rstring option"

fun run_db_calls ::
  "'cr auth \<Rightarrow> ('cr, 'sp, 'cl, 'srv) builders \<Rightarrow> db_call list \<Rightarrow> ('sp, 'cl) stack spanner_database \<times> 'srv \<Rightarrow>
   ('sp, 'cl) stack spanner_database \<times> 'srv" where
  "run_db_calls A B [] s = s"
| "run_db_calls A B (SetDbOption k v # cs) (d, srv) = run_db_calls A B cs (snd (set_database_option k v d), srv)"
| "run_db_calls A B (NewConnection host # cs) (d, srv) = run_db_calls A B cs (snd (connect_shared A B host d srv))"

definition stack_current ::
  "'cr auth \<Rightarrow> ('cr, 'sp, 'cl, 'srv) builders \<Rightarrow> ('sp, 'cl) stack spanner_database \<Rightarrow> bool" where
  "stack_current A B d =
     (\<forall>c. connected d = Some c \<longrightarrow> (\<exists>host srv srv'. connect A B host d srv = (Inr c, srv')))"

lemma cache_sel:
  "db_path (d\<lparr>connected := c\<rparr>) = db_path d" "endpoint (d\<lparr>connected := c\<rparr>) = endpoint d"
  "emulator (d\<lparr>connected := c\<rparr>) = emulator d" "keyfile (d\<lparr>connected := c\<rparr>) = keyfile d"
  "keyfile_json (d\<lparr>connected := c\<rparr>) = keyfile_json d" "access_token (d\<lparr>connected := c\<rparr>) = access_token d"
  "impersonate_target_principal (d\<lparr>connected := c\<rparr>) = impersonate_target_principal d"
  "impersonate_delegates (d\<lparr>connected := c\<rparr>) = impersonate_delegates d"
  "impersonate_scopes (d\<lparr>connected := c\<rparr>) = impersonate_scopes d"
  "impersonate_lifetime_secs (d\<lparr>connected := c\<rparr>) = impersonate_lifetime_secs d"
  "quota_project (d\<lparr>connected := c\<rparr>) = quota_project d"
  by simp_all

lemma connect_ignores_cache: "connect A B host (d\<lparr>connected := c\<rparr>) = connect A B host d"
  unfolding connect_def check_emulator_credentials_def resolved_emulator_def check_access_token_alone_def
    credentials_json_def build_credentials_def resolved_endpoint_def explicit_credential_option_def
    conflicting_credential_with_access_token_def choose_credential_def cache_sel ..

lemma set_other_option_drops: "set_other_option n v d = Inr d' \<Longrightarrow> connected d' = connected d"
  by (auto simp: set_other_option_def res_simps split: if_splits)

lemma set_database_option_drops: "connected (snd (set_database_option k v d)) = None"
proof -
  have drv: "connected (snd (set_driver_option n v d)) = None" for n v and d :: "'a spanner_database"
    by (auto simp: set_driver_option_def Let_def dest: set_other_option_drops split: sum.splits)
  have uri: "connected (snd (set_uri_option u (d\<lparr>connected := None\<rparr>))) = None" for u
    using apply_connection_uri_cases[of "d\<lparr>connected := None\<rparr>"]
    by (fastforce simp: set_uri_option_def split: option.splits prod.splits sum.splits)
  show ?thesis
    by (cases k) (auto simp: set_database_option_def Let_def drv uri split: sum.splits)
qed

lemma connect_shared_current:
  assumes "stack_current A B d" and "connect_shared A B host d srv = (r, d', srv')"
  shows "stack_current A B d'"
  using assms by (auto simp: connect_shared_def stack_current_def connect_ignores_cache split: option.splits prod.splits sum.splits) blast+

lemma run_db_calls_current:
  "stack_current A B (fst s) \<Longrightarrow> stack_current A B (fst (run_db_calls A B cs s))"
proof (induction A B cs s rule: run_db_calls.induct)
  case (2 A B k v cs d srv)
  then show ?case by (simp add: stack_current_def set_database_option_drops)
next
  case (3 A B host cs d srv)
  obtain r d' srv' where c: "connect_shared A B host d srv = (r, d', srv')" by (cases "connect_shared A B host d srv") auto
  with connect_shared_current[OF _ c] 3 show ?case by simp
qed simp

text \<open>
  C35: Every connection runs on a client stack built from the configuration as it stands.  After any
  sequence of option calls, failed ones included, and connections, a new connection gets a stack that
  \<^verbatim>\<open>connect\<close> built from exactly the present options, which the next connection shares without calling the
  server; a failed build caches nothing.
\<close>

theorem shared_stack_matches_configuration:
  "case run_db_calls A B cs (new_database, srv0) of
     (d, srv) \<Rightarrow>
       (case connect_shared A B host d srv of
          (Inr c, d', srv') \<Rightarrow>
            (\<exists>h s s'. connect A B h d s = (Inr c, s')) \<and> connect_shared A B host2 d' srv' = (Inr c, d', srv')
        | (Inl e, d', srv') \<Rightarrow> d' = d \<and> connected d = None)"
proof -
  obtain d srv where r: "run_db_calls A B cs (new_database, srv0) = (d, srv)" by fastforce
  have cur: "stack_current A B d"
    using run_db_calls_current[of A B "(new_database, srv0)" cs] r by (simp add: stack_current_def new_database_def)
  show ?thesis
  proof (cases "connected d")
    case (Some c)
    with cur show ?thesis unfolding r by (auto simp: connect_shared_def stack_current_def)
  next
    case None
    then show ?thesis unfolding r by (auto simp: connect_shared_def split: prod.splits sum.splits)
  qed
qed

section \<open>What a database shows\<close>

text \<open>
  No secret is readable: what \<^verbatim>\<open>get_option\<close> reports for any key does not depend on the inline key or
  the access token, and \<^verbatim>\<open>Debug\<close> shows no more of the three credential fields than whether they are set.
\<close>

theorem secrets_unobservable:
  "database_option_string key (d\<lparr>keyfile_json := j, access_token := t\<rparr>) = database_option_string key d \<and>
   debug_fields (d\<lparr>keyfile_json := map_option f (keyfile_json d), access_token := map_option g (access_token d),
     keyfile := map_option h (keyfile d)\<rparr>) = debug_fields d"
  by (cases key) (simp_all add: database_option_string_def debug_fields_def redact_def option.map_comp comp_def)

definition dump_keys :: "option_database list" where
  "dump_keys = DbUri # map OtherDb (URI_QUERY_OPTIONS @ URI_SECRET_OPTIONS)"

definition dump :: "'c spanner_database \<Rightarrow> (option_database \<times> option_value) list" where
  "dump d = concat (map (\<lambda>k. case database_option_string k d of Inl _ \<Rightarrow> [] | Inr v \<Rightarrow> [(k, OString v)]) dump_keys)"

text \<open>
  Setting again what \<^verbatim>\<open>get_option\<close> reports does not restore a configuration: after a URI that carries a quota
  project and a call that unsets it, the reported options are the URI and the emulator flag, and a fresh
  database given those bills the project that had been unset.
\<close>

theorem dump_replay_differs:
  "let opts = [(DbUri, OString (lit ''spanner:///projects/p/instances/i/databases/d?spanner.auth.quota_project=q'')),
                (OtherDb OPTION_QUOTA_PROJECT, OString [])];
       quota = (\<lambda>r. case r of Inl _ \<Rightarrow> None | Inr (d :: unit spanner_database) \<Rightarrow> Some (quota_project d));
       dumped = (case new_database_with_opts opts of Inl _ \<Rightarrow> [] | Inr (d :: unit spanner_database) \<Rightarrow> dump d)
   in quota (new_database_with_opts opts) = Some None \<and>
      quota (new_database_with_opts dumped) = Some (Some (lit ''q''))"
  by code_simp

end
