(* ===== verification/UriProps.thy ===== *)
theory UriProps
  imports DatabaseOptions ScanProps
begin

text \<open>
  Percent-decoding inverts percent-encoding, over UTF-8, and a printed connection URI parses back to its
  parts.
\<close>

section \<open>UTF-8\<close>

definition is_scalar :: "rchar \<Rightarrow> bool" where
  "is_scalar c \<longleftrightarrow> c < 55296 \<or> (57343 < c \<and> c \<le> 1114111)"

lemma unat_byte: "n < 256 \<Longrightarrow> unat (of_nat n :: u8) = n"
  by (simp add: unat_of_nat)

text \<open>The bytes of a char as numbers.\<close>

definition utf8_nats :: "rchar \<Rightarrow> nat list" where
  "utf8_nats c =
     (if c < 128 then [c]
      else if c < 2048 then [192 + c div 64, 128 + c mod 64]
      else if c < 65536 then [224 + c div 4096, 128 + c div 64 mod 64, 128 + c mod 64]
      else [240 + c div 262144, 128 + c div 4096 mod 64, 128 + c div 64 mod 64, 128 + c mod 64])"

lemma map_unat_utf8: "c \<le> 1114111 \<Longrightarrow> map unat (utf8_char c) = utf8_nats c"
proof -
  assume c: "c \<le> 1114111"
  have m: "128 + n mod 64 < 256" for n :: nat using mod_less_divisor[of 64 n] by linarith
  have "c < 2048 \<Longrightarrow> 192 + c div 64 < 256" "c < 65536 \<Longrightarrow> 224 + c div 4096 < 256" "240 + c div 262144 < 256"
    using c by auto
  note u = this[THEN unat_byte] m[THEN unat_byte]
  have "map unat (utf8_char c) =
      (if c < 128 then map unat [of_nat c :: u8]
       else if c < 2048 then map unat [of_nat (192 + c div 64) :: u8, of_nat (128 + c mod 64)]
       else if c < 65536 then map unat [of_nat (224 + c div 4096) :: u8, of_nat (128 + c div 64 mod 64), of_nat (128 + c mod 64)]
       else map unat [of_nat (240 + c div 262144) :: u8, of_nat (128 + c div 4096 mod 64), of_nat (128 + c div 64 mod 64),
              of_nat (128 + c mod 64)])"
    by (simp only: utf8_char_def if_distrib[of "map unat"])
  also have "\<dots> = utf8_nats c"
    unfolding utf8_nats_def by (intro if_cong refl) (simp_all only: list.map u unat_byte not_less)
  finally show ?thesis .
qed

lemma base64_digits:
  fixes c :: nat
  shows "c div 64 * 64 + c mod 64 = c" "c div 4096 * 4096 + c div 64 mod 64 * 64 + c mod 64 = c"
    "c div 262144 * 262144 + c div 4096 mod 64 * 4096 + c div 64 mod 64 * 64 + c mod 64 = c"
proof -
  have 1: "n div 64 * 64 + n mod 64 = n" for n :: nat by (rule div_mult_mod_eq)
  have d: "c div 4096 = c div 64 div 64" "c div 262144 = c div 4096 div 64" by (simp_all add: div_mult2_eq[symmetric])
  show "c div 64 * 64 + c mod 64 = c" by (rule 1)
  show 2: "c div 4096 * 4096 + c div 64 mod 64 * 64 + c mod 64 = c"
    using 1[of c] 1[of "c div 64"] unfolding d(1) by linarith
  show "c div 262144 * 262144 + c div 4096 mod 64 * 4096 + c div 64 mod 64 * 64 + c mod 64 = c"
    using 2 1[of "c div 4096"] unfolding d(2) by linarith
qed

lemma decode_utf8_char:
  assumes "is_scalar c"
  shows "decode_utf8 (map unat (utf8_char c) @ rest) = map_option (Cons c) (decode_utf8 rest)"
proof -
  have c: "c \<le> 1114111" "\<not> (55296 \<le> c \<and> c \<le> 57343)" using assms by (auto simp: is_scalar_def)
  then have d: "c < 2048 \<Longrightarrow> c div 64 < 32" "c < 65536 \<Longrightarrow> c div 4096 < 16" "c div 262144 < 8" by auto
  consider "c < 128" | "128 \<le> c" "c < 2048" | "2048 \<le> c" "c < 65536" | "65536 \<le> c" by linarith
  then show ?thesis unfolding map_unat_utf8[OF c(1)]
  proof cases
    case 3
    with d(2) c(2) show "decode_utf8 (utf8_nats c @ rest) = map_option (Cons c) (decode_utf8 rest)"
      by (auto simp: utf8_nats_def is_cont_def Let_def base64_digits)
  qed (use c d in \<open>simp_all add: utf8_nats_def is_cont_def Let_def base64_digits\<close>)
qed

lemma from_utf8_as_bytes: "list_all is_scalar s \<Longrightarrow> from_utf8 (as_bytes s) = Some s"
  by (induction s) (simp_all add: from_utf8_def as_bytes_def decode_utf8_char)

section \<open>Percent-encoding\<close>

definition hex_digit :: "nat \<Rightarrow> rchar" where
  "hex_digit n = (if n < 10 then 48 + n else 55 + n)"

definition percent_byte :: "u8 \<Rightarrow> rstring" where
  "percent_byte b = [ch CHR ''%'', hex_digit (unat b div 16), hex_digit (unat b mod 16)]"

text \<open>RFC 3986: the chars \<open>esc\<close> selects go out as the escapes of their UTF-8 bytes.\<close>

definition percent_encode :: "(rchar \<Rightarrow> bool) \<Rightarrow> rstring \<Rightarrow> rstring" where
  "percent_encode esc s = concat (map (\<lambda>c. if esc c then concat (map percent_byte (utf8_char c)) else [c]) s)"

lemma hex_digit_byte:
  assumes "n < 16"
  shows "is_ascii_hexdigit (of_nat (hex_digit n)) \<and> hex_value (of_nat (hex_digit n)) = of_nat n \<and> hex_digit n < 128"
proof -
  have "list_all (\<lambda>n. is_ascii_hexdigit (of_nat (hex_digit n)) \<and> hex_value (of_nat (hex_digit n)) = of_nat n \<and>
    hex_digit n < 128) [0..<16]" by code_simp
  with assms show ?thesis by (auto simp: list_all_iff)
qed

lemma percent_loop_byte:
  "percent_loop (as_bytes (percent_byte b) @ rest) = map_option (Cons b) (percent_loop rest)"
proof -
  have b: "unat b div 16 < 16" "unat b mod 16 < 16" using unsigned_less[of b, where ?'a = nat] by auto
  have "16 * of_nat (unat b div 16) + of_nat (unat b mod 16) = (of_nat (16 * (unat b div 16) + unat b mod 16) :: u8)"
    by (simp only: of_nat_add of_nat_mult of_nat_numeral)
  also have "\<dots> = b" by simp
  finally show ?thesis
    using hex_digit_byte[OF b(1)] hex_digit_byte[OF b(2)]
    by (simp add: percent_byte_def as_bytes_Cons utf8_char_def as_bytes_def)
qed

lemma percent_loop_plain:
  "37 \<notin> set bs \<Longrightarrow> percent_loop (bs @ rest) = map_option ((@) bs) (percent_loop rest)"
  by (induction bs) (cases "percent_loop rest"; simp)+

lemma utf8_char_no_percent:
  assumes "c \<noteq> 37" and "is_scalar c"
  shows "(37 :: u8) \<notin> set (utf8_char c)"
proof
  assume "(37 :: u8) \<in> set (utf8_char c)"
  then have "unat (37 :: u8) \<in> unat ` set (utf8_char c)" by (rule imageI)
  then have "unat (37 :: u8) \<in> set (map unat (utf8_char c))" by (simp only: set_map)
  moreover have "c \<le> 1114111" using assms(2) by (auto simp: is_scalar_def)
  ultimately have "37 \<in> set (utf8_nats c)" by (simp add: map_unat_utf8)
  then show False using assms(1) by (auto simp: utf8_nats_def split: if_splits)
qed

lemma percent_loop_encode:
  assumes "esc 37"
  shows "list_all is_scalar s \<Longrightarrow> percent_loop (as_bytes (percent_encode esc s)) = Some (as_bytes s)"
proof (induction s)
  case Nil
  then show ?case by (simp add: percent_encode_def as_bytes_def)
next
  case (Cons c s)
  have esc: "percent_loop (as_bytes (concat (map percent_byte bs)) @ rest) = map_option ((@) bs) (percent_loop rest)" for bs rest
  proof (induction bs)
    case Nil
    show ?case by (cases "percent_loop rest") (simp_all add: as_bytes_def)
  next
    case (Cons b bs)
    then show ?case by (cases "percent_loop rest") (simp_all add: as_bytes_append percent_loop_byte)
  qed
  have IH: "percent_loop (as_bytes (percent_encode esc s)) = Some (as_bytes s)" and c: "is_scalar c"
    using Cons by simp_all
  have e: "percent_encode esc (c # s) =
      (if esc c then concat (map percent_byte (utf8_char c)) else [c]) @ percent_encode esc s"
    by (simp add: percent_encode_def)
  show ?case
  proof (cases "esc c")
    case True
    with IH show ?thesis by (simp add: e as_bytes_append as_bytes_Cons esc)
  next
    case False
    with assms have "c \<noteq> 37" by auto
    with False IH show ?thesis
      by (simp add: e as_bytes_Cons percent_loop_plain[OF utf8_char_no_percent[OF _ c]])
  qed
qed

lemma percent_encode_plain: "37 \<notin> set (percent_encode esc s) \<Longrightarrow> percent_encode esc s = s"
proof (induction s)
  case (Cons c s)
  have "utf8_char c \<noteq> []" by (simp add: utf8_char_def)
  then have "37 \<in> set (concat (map percent_byte (utf8_char c)))"
    by (cases "utf8_char c") (simp_all add: percent_byte_def)
  with Cons show ?case by (auto simp: percent_encode_def split: if_splits)
qed (simp add: percent_encode_def)

lemma percent_decode_encode:
  assumes "esc 37" and "list_all is_scalar s"
  shows "percent_decode (percent_encode esc s) = Inr s"
  using assms percent_encode_plain[of esc s] percent_loop_encode[of esc s] from_utf8_as_bytes[OF assms(2)]
  by (cases "37 \<in> set (percent_encode esc s)") (auto simp: percent_decode_def)

section \<open>Connection URIs\<close>

fun join_amp :: "rstring list \<Rightarrow> rstring" where
  "join_amp [] = []"
| "join_amp [x] = x"
| "join_amp (x # y # zs) = x @ ch CHR ''&'' # join_amp (y # zs)"

lemma split_on_plain: "d \<notin> set x \<Longrightarrow> split_on d x = [x]"
  by (induction x) auto

lemma split_on_append: "d \<notin> set x \<Longrightarrow> split_on d (x @ d # r) = x # split_on d r"
  by (induction x) auto

lemma split_on_join: "xs \<noteq> [] \<Longrightarrow> \<forall>x \<in> set xs. ch CHR ''&'' \<notin> set x \<Longrightarrow> split_on (ch CHR ''&'') (join_amp xs) = xs"
  by (induction xs rule: join_amp.induct) (auto simp: split_on_plain split_on_append)

definition print_param :: "(rchar \<Rightarrow> bool) \<Rightarrow> rstring \<times> rstring \<Rightarrow> rstring" where
  "print_param esc kv = fst kv @ ch CHR ''='' # percent_encode esc (snd kv)"

text \<open>The text of a connection URI after its scheme.\<close>

definition print_uri :: "(rchar \<Rightarrow> bool) \<Rightarrow> parsed_uri \<Rightarrow> rstring" where
  "print_uri esc p =
     lit ''//'' @ (case p_endpoint p of None \<Rightarrow> [] | Some e \<Rightarrow> e) @ ch CHR ''/'' # p_database p @
     (if p_params p = [] then [] else ch CHR ''?'' # join_amp (map (print_param esc) (p_params p)))"

text \<open>The parts a URI can carry: a database path and an authority free of delimiters, known keys.\<close>

definition printable_uri :: "parsed_uri \<Rightarrow> bool" where
  "printable_uri p \<longleftrightarrow>
     is_database_path (p_database p) \<and> set (p_database p) \<inter> {ch CHR ''#'', ch CHR ''?''} = {} \<and>
     (\<forall>e. p_endpoint p = Some e \<longrightarrow> e \<noteq> [] \<and> set e \<inter> {ch CHR ''#'', ch CHR ''?'', ch CHR ''/''} = {}) \<and>
     list_all (\<lambda>(k, v). k \<in> set URI_QUERY_OPTIONS \<and> list_all is_scalar v) (p_params p)"

lemma set_percent_encode: "set (percent_encode esc s) \<subseteq> {c. \<not> esc c} \<union> {c. c = 37 \<or> is_ascii_alphanumeric c}"
proof -
  have hex: "is_ascii_alphanumeric (hex_digit n)" if "n < 16" for n
    using that by (auto simp: hex_digit_def char_simps)
  have "unat b div 16 < 16" "unat b mod 16 < 16" for b :: u8 using unsigned_less[of b, where ?'a = nat] by auto
  then show ?thesis by (auto simp: percent_encode_def percent_byte_def hex)
qed

lemma query_key_plain: "k \<in> set URI_QUERY_OPTIONS \<Longrightarrow> k \<noteq> [] \<and> set k \<inter> {35, 37, 38, 61, 63} = {} \<and> k \<notin> set URI_SECRET_OPTIONS"
proof -
  have "list_all (\<lambda>k. k \<noteq> [] \<and> list_all (\<lambda>c. c \<notin> set [35, 37, 38, 61, 63]) k \<and> k \<notin> set URI_SECRET_OPTIONS) URI_QUERY_OPTIONS"
    by code_simp
  then show "k \<in> set URI_QUERY_OPTIONS \<Longrightarrow> ?thesis" by (auto simp: list_all_iff)
qed

lemma query_pair_print:
  assumes "esc 37" and "k \<in> set URI_QUERY_OPTIONS" and "list_all is_scalar v"
  shows "query_pair (print_param esc (k, v)) = Inr (k, v)"
proof -
  note k = query_key_plain[OF assms(2)]
  then have "split_once 61 (print_param esc (k, v)) = Some (k, percent_encode esc v)"
    by (auto simp: print_param_def split_once_Some)
  moreover have "percent_decode k = Inr k" using k by (auto simp: percent_decode_def)
  ultimately show ?thesis
    using k assms(2) percent_decode_encode[of esc v] assms(1,3) by (simp add: query_pair_def)
qed

lemma print_param_chars:
  assumes "esc 35" and "esc 38" and "k \<in> set URI_QUERY_OPTIONS"
  shows "35 \<notin> set (print_param esc (k, v))" "38 \<notin> set (print_param esc (k, v))"
  using query_key_plain[OF assms(3)] set_percent_encode[of esc v] assms(1,2)
  by (auto simp: print_param_def char_simps)

lemma collect_query_pairs:
  assumes "esc 37" and "list_all (\<lambda>(k, v). k \<in> set URI_QUERY_OPTIONS \<and> list_all is_scalar v) ps"
  shows "collect_results (map query_pair (map (print_param esc) ps)) = Inr ps"
  using assms(2) by (induction ps) (auto simp: query_pair_print[where esc = esc, OF assms(1)])

lemma query_pieces:
  assumes "esc 38" and "esc 35" and "list_all (\<lambda>(k, v). k \<in> set URI_QUERY_OPTIONS \<and> list_all is_scalar v) ps" and "ps \<noteq> []"
  shows "filter (\<lambda>s. s \<noteq> []) (split_on 38 (join_amp (map (print_param esc) ps))) = map (print_param esc) ps"
    "35 \<notin> set (join_amp (map (print_param esc) ps))"
proof -
  have no: "\<forall>x \<in> set (map (print_param esc) ps). 35 \<notin> set x \<and> 38 \<notin> set x"
    using assms(3) print_param_chars[where esc = esc, OF assms(2,1)] by (fastforce simp: list_all_iff)
  have ne: "\<forall>x \<in> set (map (print_param esc) ps). x \<noteq> []" by (auto simp: print_param_def)
  have "split_on (ch CHR ''&'') (join_amp (map (print_param esc) ps)) = map (print_param esc) ps"
    by (rule split_on_join) (use no assms(4) in auto)
  with ne show "filter (\<lambda>s. s \<noteq> []) (split_on 38 (join_amp (map (print_param esc) ps))) = map (print_param esc) ps"
    by (simp add: filter_True)
  have "35 \<notin> set (join_amp xs)" if "\<forall>x \<in> set xs. 35 \<notin> set x" for xs
    using that by (induction xs rule: join_amp.induct) auto
  with no show "35 \<notin> set (join_amp (map (print_param esc) ps))" by blast
qed

text \<open>
  C36: A connection URI printed from its parts parses back to exactly those parts: the database path, the
  optional endpoint, and every query parameter in order with its value percent-encoded, whatever chars
  beyond the three that must be escaped the printer chose to escape.
\<close>

theorem connection_uri_round_trip:
  assumes "printable_uri p" and "esc (ch CHR ''%'')" and "esc (ch CHR ''#'')" and "esc (ch CHR ''&'')"
  shows "parse_connection_uri (print_uri esc p) = Inr p"
proof -
  let ?ep = "case p_endpoint p of None \<Rightarrow> [] | Some e \<Rightarrow> e"
  let ?q = "if p_params p = [] then [] else join_amp (map (print_param esc) (p_params p))"
  have esc: "esc 37" "esc 35" "esc 38" using assms(2-4) by simp_all
  have ps: "list_all (\<lambda>(k, v). k \<in> set URI_QUERY_OPTIONS \<and> list_all is_scalar v) (p_params p)"
    and db: "is_database_path (p_database p)" "35 \<notin> set (p_database p)" "63 \<notin> set (p_database p)"
    using assms(1) by (auto simp: printable_uri_def)
  have ep: "35 \<notin> set ?ep" "63 \<notin> set ?ep" "47 \<notin> set ?ep" "(if ?ep = [] then None else Some ?ep) = p_endpoint p"
    using assms(1) by (auto simp: printable_uri_def split: option.splits)
  have slashes: "35 \<notin> set (lit ''//'')" "63 \<notin> set (lit ''//'')" by code_simp+
  have frag: "split_once 35 (print_uri esc p) = None"
    using ep(1) db(2) slashes query_pieces(2)[where esc = esc, OF esc(3,2) ps]
    by (auto simp: split_once_None print_uri_def)
  have query: "(case split_once 63 (print_uri esc p) of Some (path, q) \<Rightarrow> (path, q) | None \<Rightarrow> (print_uri esc p, [])) =
      (lit ''//'' @ ?ep @ 47 # p_database p, ?q)"
  proof (cases "p_params p = []")
    case True
    with ep(2) db(3) slashes have "split_once 63 (print_uri esc p) = None"
      by (simp add: split_once_None print_uri_def)
    with True show ?thesis by (simp add: print_uri_def)
  next
    case False
    then have "split_once 63 (print_uri esc p) = Some (lit ''//'' @ ?ep @ 47 # p_database p, ?q)"
      using ep(2) db(3) slashes unfolding split_once_Some by (simp add: print_uri_def)
    then show ?thesis by simp
  qed
  have prefix: "strip_prefix (lit ''//'') (lit ''//'' @ ?ep @ 47 # p_database p) = Some (?ep @ 47 # p_database p)"
    by (simp add: strip_prefix_Some)
  have auth: "split_once 47 (?ep @ 47 # p_database p) = Some (?ep, p_database p)"
    using ep(3) by (simp add: split_once_Some)
  have pairs: "collect_results (map query_pair (filter (\<lambda>s. s \<noteq> []) (split_on 38 ?q))) = Inr (p_params p)"
    using query_pieces(1)[where esc = esc, OF esc(3,2) ps] collect_query_pairs[where esc = esc, OF esc(1) ps] by simp
  have "parse_connection_uri (print_uri esc p) =
      Inr \<lparr>p_database = p_database p, p_endpoint = (if ?ep = [] then None else Some ?ep), p_params = p_params p\<rparr>"
    unfolding parse_connection_uri_def using frag query prefix auth pairs db(1) by simp
  then show ?thesis unfolding ep(4) by simp
qed

definition demo_uri :: parsed_uri where
  "demo_uri = \<lparr>p_database = lit ''projects/p/instances/i/databases/d'', p_endpoint = Some (lit ''localhost:9010''),
     p_params = [(OPTION_KEYFILE, lit ''/keys/a&b#1.json''), (OPTION_EMULATOR, lit ''false'')]\<rparr>"

theorem connection_uri_round_trip_witness:
  "parse_connection_uri (lit ''//localhost:9010/projects/p/instances/i/databases/d?spanner.auth.keyfile=/keys/a%26b%231.json&spanner.emulator=false'')
   = Inr demo_uri"
proof -
  let ?esc = "\<lambda>c. c \<in> set [37, 35, 38 :: nat]"
  have "print_uri ?esc demo_uri = lit ''//localhost:9010/projects/p/instances/i/databases/d?spanner.auth.keyfile=/keys/a%26b%231.json&spanner.emulator=false''"
    by code_simp
  moreover have "printable_uri demo_uri"
  proof -
    have "is_database_path (p_database demo_uri)" "set (p_database demo_uri) \<inter> {ch CHR ''#'', ch CHR ''?''} = {}"
      "list_all (\<lambda>(k, v). k \<in> set URI_QUERY_OPTIONS \<and> list_all is_scalar v) (p_params demo_uri)"
      "lit ''localhost:9010'' \<noteq> []" "set (lit ''localhost:9010'') \<inter> {ch CHR ''#'', ch CHR ''?'', ch CHR ''/''} = {}"
      by code_simp+
    then show ?thesis by (simp add: printable_uri_def demo_uri_def)
  qed
  ultimately show ?thesis using connection_uri_round_trip[of demo_uri ?esc] by simp
qed

end
