(* ===== verification/Nested.thy ===== *)
theory Nested
  imports Connection
begin

text \<open>
  Assembling nested result batches, \<^verbatim>\<open>src/nested.rs\<close>, and the column accessor of \<^verbatim>\<open>src/metadata.rs\<close>: looking
  up fields of a result schema, grouping a flat child array into lists by their lengths, and dense unions.

  The constructors of the Arrow library are parameters: the checked ones as in \<^typ>\<open>('d, 'dt) crates\<close>, the arrays of
  nulls and the empty arrays as functions of a type.  \<open>arr_values\<close> is how a consumer reads an array: the
  lemmas state what is read back from the arrays built here.
\<close>

section \<open>Columns of a metadata batch\<close>

text \<open>\<^verbatim>\<open>StringArray::value\<close> and \<^verbatim>\<open>Int64Array::value\<close>: the slot of a null cell holds the default.\<close>

definition utf8_value :: "cell option \<Rightarrow> rstring" where
  "utf8_value c = (case c of Some (CStr s) \<Rightarrow> s | _ \<Rightarrow> [])"

definition int_value :: "cell option \<Rightarrow> int" where
  "int_value c = (case c of Some (CInt i) \<Rightarrow> i | _ \<Rightarrow> 0)"

definition str_col :: "arr list \<Rightarrow> nat \<Rightarrow> cell option list result" where
  "str_col batch index =
     (if length batch \<le> index
      then Inl (err (lit ''INFORMATION_SCHEMA batch: column is out of range'') Internal)
      else case batch ! index of
             FlatArr Utf8 cs \<Rightarrow> Inr cs
           | _ \<Rightarrow> Inl (err (lit ''INFORMATION_SCHEMA column is not a string'') Internal))"

text \<open>\<^verbatim>\<open>RecordBatch::num_rows\<close>, and \<^verbatim>\<open>RecordBatch::column(i).downcast_ref::<Int64Array>()\<close>.\<close>

definition batch_rows :: "arr list \<Rightarrow> nat" where
  "batch_rows batch = (case batch of [] \<Rightarrow> 0 | a # _ \<Rightarrow> arr_len a)"

definition int64_column :: "arr list \<Rightarrow> nat \<Rightarrow> error \<Rightarrow> cell option list result" where
  "int64_column batch index e =
     (if length batch \<le> index then Inl panicked
      else case batch ! index of FlatArr Int64 cs \<Rightarrow> Inr cs | _ \<Rightarrow> Inl e)"

section \<open>Schema lookups\<close>

text \<open>
  \<^verbatim>\<open>arrow_err\<close> and \<^verbatim>\<open>shape_err\<close>; the lookups \<^verbatim>\<open>field\<close>, \<^verbatim>\<open>list_item\<close> and \<^verbatim>\<open>struct_fields\<close>.
\<close>

definition nested_arrow_err :: "rstring \<Rightarrow> error" where
  "nested_arrow_err msg = err (lit ''failed to build metadata result batch: '' @ msg) Internal"

definition shape_err :: "rstring \<Rightarrow> error" where
  "shape_err expected = err (lit ''unexpected ADBC result schema shape: expected '' @ expected) Internal"

definition find_field :: "field list \<Rightarrow> rstring \<Rightarrow> field result" where
  "find_field fs name = ok_or (shape_err (lit ''field '' @ name)) (find (\<lambda>f. field_name f = name) fs)"

definition list_item :: "field \<Rightarrow> field result" where
  "list_item f = (case field_type f of List item \<Rightarrow> Inr item | _ \<Rightarrow> Inl (shape_err (field_name f @ lit '' to be a list'')))"

definition struct_fields_of :: "field \<Rightarrow> field list result" where
  "struct_fields_of f = (case field_type f of Struct fs \<Rightarrow> Inr fs | _ \<Rightarrow> Inl (shape_err (field_name f @ lit '' to be a struct'')))"

section \<open>Lists and unions\<close>

record ('d, 'dt) meta_crates = "('d, 'dt) crates" +
  try_union :: "(int \<times> field) list \<Rightarrow> int list \<Rightarrow> nat list \<Rightarrow> arr list \<Rightarrow> rstring option"
  new_null_array :: "data_type \<Rightarrow> nat \<Rightarrow> arr"
  new_empty_array :: "data_type \<Rightarrow> arr"

text \<open>The offsets loop: each length must fit \<^verbatim>\<open>i32\<close>, and so must the running sum.\<close>

fun offsets_loop :: "nat list \<Rightarrow> nat \<Rightarrow> nat list \<Rightarrow> nat list result" where
  "offsets_loop [] acc offsets = Inr offsets"
| "offsets_loop (len # lengths) acc offsets =
     (if len < 2 ^ 31 \<and> acc + len < 2 ^ 31 then offsets_loop lengths (acc + len) (offsets @ [acc + len])
      else Inl (err (lit ''metadata result list exceeds the i32 offset range'') Internal))"

definition list_of_nullable ::
  "('d, 'dt) meta_crates \<Rightarrow> field \<Rightarrow> nat list \<Rightarrow> arr \<Rightarrow> bool list option \<Rightarrow> arr result" where
  "list_of_nullable K item lengths child nulls =
     try_bind (offsets_loop lengths 0 [0]) (\<lambda>offsets.
       let validity = (case nulls of Some v \<Rightarrow> v | None \<Rightarrow> replicate (length lengths) True)
       in case try_list K item offsets validity child of
            None \<Rightarrow> Inr (ListArr False item offsets validity child)
          | Some msg \<Rightarrow> Inl (nested_arrow_err msg))"

definition list_of :: "('d, 'dt) meta_crates \<Rightarrow> field \<Rightarrow> nat list \<Rightarrow> arr \<Rightarrow> arr result" where
  "list_of K item lengths child = list_of_nullable K item lengths child None"

text \<open>\<^verbatim>\<open>StructArray::try_new(fields, arrays, None)\<close>: its length is that of its first child.\<close>

definition struct_of :: "('d, 'dt) meta_crates \<Rightarrow> field list \<Rightarrow> arr list \<Rightarrow> arr result" where
  "struct_of K fs arrays =
     (let validity = replicate (batch_rows arrays) True
      in case try_struct K fs validity arrays of
           None \<Rightarrow> Inr (StructArr fs validity arrays)
         | Some msg \<Rightarrow> Inl (nested_arrow_err msg))"

definition batch_of :: "('d, 'dt) meta_crates \<Rightarrow> field list \<Rightarrow> arr list \<Rightarrow> arr list result" where
  "batch_of K fs arrays =
     (case try_batch K fs arrays of
        None \<Rightarrow> Inr arrays
      | Some msg \<Rightarrow> Inl (nested_arrow_err msg))"

definition dense_union ::
  "('d, 'dt) meta_crates \<Rightarrow> (int \<times> field) list \<Rightarrow> (int \<times> arr) list \<Rightarrow> int list \<Rightarrow> nat list \<Rightarrow> arr result" where
  "dense_union K ufs populated type_ids offsets =
     (let children = map (\<lambda>(i, f). case find (\<lambda>(pid, _). pid = i) populated of
                                       None \<Rightarrow> new_empty_array K (field_type f)
                                     | Some (_, arr) \<Rightarrow> arr) ufs
      in case try_union K ufs type_ids offsets children of
           None \<Rightarrow> Inr (UnionArr ufs type_ids offsets children)
         | Some msg \<Rightarrow> Inl (nested_arrow_err msg))"

text \<open>\<^verbatim>\<open>StringArray::from_iter_values\<close> and \<^verbatim>\<open>from_iter\<close>.\<close>

definition string_array :: "rstring list \<Rightarrow> arr" where
  "string_array ss = FlatArr Utf8 (map (\<lambda>s. Some (CStr s)) ss)"

definition string_opt_array :: "rstring option list \<Rightarrow> arr" where
  "string_opt_array ss = FlatArr Utf8 (map (map_option CStr) ss)"

section \<open>Reading arrays\<close>

datatype aval = VNull | VCell cell | VList "aval list" | VStruct "(rstring \<times> aval) list" | VUnion int aval

definition cell_aval :: "cell option \<Rightarrow> aval" where
  "cell_aval c = (case c of None \<Rightarrow> VNull | Some x \<Rightarrow> VCell x)"

definition branch_index :: "(int \<times> field) list \<Rightarrow> int \<Rightarrow> nat" where
  "branch_index fs t = length (takeWhile (\<lambda>(i, _). i \<noteq> t) fs)"

fun arr_values :: "arr \<Rightarrow> aval list" where
  "arr_values (FlatArr dt cs) = map cell_aval cs"
| "arr_values (ListArr large item offsets validity child) =
     (let vs = arr_values child
      in map (\<lambda>i. if validity ! i then VList (take (offsets ! Suc i - offsets ! i) (drop (offsets ! i) vs)) else VNull)
           [0..<length validity])"
| "arr_values (StructArr fs validity children) =
     (let cols = map arr_values children
      in map (\<lambda>i. if validity ! i then VStruct (map (\<lambda>(f, c). (field_name f, c ! i)) (zip fs cols)) else VNull)
           [0..<length validity])"
| "arr_values (DictArr key keys values) =
     (let vs = arr_values values in map (\<lambda>k. case k of None \<Rightarrow> VNull | Some j \<Rightarrow> vs ! j) keys)"
| "arr_values (UnionArr fs type_ids offsets children) =
     (let cols = map arr_values children
      in map (\<lambda>(t, off). VUnion t (cols ! branch_index fs t ! off)) (zip type_ids offsets))"

text \<open>The rows of a record batch, by field name.\<close>

definition batch_values :: "field list \<Rightarrow> arr list \<Rightarrow> (rstring \<times> aval) list list" where
  "batch_values fs arrays =
     map (\<lambda>i. map (\<lambda>(f, a). (field_name f, arr_values a ! i)) (zip fs arrays)) [0..<batch_rows arrays]"

fun vget :: "rstring \<Rightarrow> aval \<Rightarrow> aval" where
  "vget n (VStruct fs) = (case map_of fs n of None \<Rightarrow> VNull | Some v \<Rightarrow> v)"
| "vget n _ = VNull"

section \<open>What is read back\<close>

fun running :: "nat \<Rightarrow> nat list \<Rightarrow> nat list" where
  "running acc [] = []"
| "running acc (len # lengths) = (acc + len) # running (acc + len) lengths"

lemma length_running [simp]: "length (running acc ls) = length ls"
  by (induction ls arbitrary: acc) auto

lemma offsets_loop_running:
  "acc + sum_list ls < 2 ^ 31 \<Longrightarrow> offsets_loop ls acc offs = Inr (offs @ running acc ls)"
  by (induction ls arbitrary: acc offs) (auto simp: add.assoc)

lemma offsets_loop_overflow:
  "acc < 2 ^ 31 \<Longrightarrow> \<not> acc + sum_list ls < 2 ^ 31 \<Longrightarrow>
   offsets_loop ls acc offs = Inl (err (lit ''metadata result list exceeds the i32 offset range'') Internal)"
  by (induction ls arbitrary: acc offs) (auto simp: add.assoc)

lemma running_nth: "i \<le> length ls \<Longrightarrow> (acc # running acc ls) ! i = acc + sum_list (take i ls)"
proof (induction ls arbitrary: acc i)
  case (Cons l ls)
  show ?case
  proof (cases i)
    case (Suc j)
    with Cons.prems Cons.IH[of j "acc + l"] show ?thesis by (cases j) auto
  qed simp
qed simp

lemma last_running: "last (acc # running acc ls) = acc + sum_list ls"
  by (induction ls arbitrary: acc) auto

text \<open>Lists cut by the running offsets are the groups that were flattened.\<close>

lemma cut_concat:
  assumes "i < length xss"
  shows "take (length (xss ! i)) (drop (sum_list (map length (take i xss))) (concat xss)) = xss ! i"
proof -
  have "concat xss = concat (take i xss) @ xss ! i @ concat (drop (Suc i) xss)"
    using assms by (metis append.assoc concat.simps(2) concat_append id_take_nth_drop)
  then show ?thesis by (simp add: length_concat)
qed

end
