(* ===== verification/Objects.thy ===== *)
theory Objects
  imports Nested
begin

text \<open>
  The catalog listing of \<^verbatim>\<open>get_objects\<close>, \<^verbatim>\<open>src/objects.rs\<close>: the \<^verbatim>\<open>INFORMATION_SCHEMA\<close> queries with their pushed-down
  patterns, the grouping of the fetched batches into hash maps, the assembly of schemas, tables, columns and
  constraints with the authoritative filters, and the nested result batch.

  A \<^verbatim>\<open>HashMap\<close> is a map; a group keeps batch order.  The client and the futures library are parameters: opening a
  multi-use read-only transaction and running statements on it under a deadline.
\<close>

section \<open>Data\<close>

record obj_column =
  col_name :: rstring
  ordinal :: "32 word"
  col_nullable :: bool
  type_name :: rstring

record usage =
  u_db_schema :: rstring
  u_table :: rstring
  u_column :: rstring

record constraint =
  cons_name :: "rstring option"
  constraint_type :: rstring
  cons_columns :: "rstring list"
  usages :: "usage list"

record obj_table =
  tbl_name :: rstring
  table_type :: rstring
  tbl_columns :: "obj_column list"
  constraints :: "constraint list"

record db_schema =
  sch_name :: rstring
  tables :: "obj_table list"

record object_filters =
  f_db_schema :: "rstring option"
  f_table_name :: "rstring option"
  f_table_type :: "rstring list option"
  f_column_name :: "rstring option"

record object_batches =
  b_schemata :: "arr list"
  b_tables :: "arr list option"
  b_columns :: "arr list option"
  b_constraints :: "arr list option"
  b_key_columns :: "arr list option"
  b_referential :: "arr list option"

datatype object_depth = AllDepth | Catalogs | Schemas | Tables | Columns

section \<open>Queries\<close>

definition HIDE_HIDDEN_COLUMNS :: rstring where
  "HIDE_HIDDEN_COLUMNS = lit ''NOT CAST(IS_HIDDEN AS BOOL)''"

definition HIDE_HIDDEN_COLUMN_CONSTRAINTS :: rstring where
  "HIDE_HIDDEN_COLUMN_CONSTRAINTS =
     lit ''NOT EXISTS ( SELECT 1 FROM INFORMATION_SCHEMA.CONSTRAINT_COLUMN_USAGE AS u '' @
     lit ''JOIN INFORMATION_SCHEMA.COLUMNS AS c '' @
     lit ''ON c.TABLE_SCHEMA = u.TABLE_SCHEMA AND c.TABLE_NAME = u.TABLE_NAME '' @
     lit ''AND c.COLUMN_NAME = u.COLUMN_NAME '' @
     lit ''WHERE u.CONSTRAINT_SCHEMA = tc.CONSTRAINT_SCHEMA '' @
     lit ''AND u.CONSTRAINT_NAME = tc.CONSTRAINT_NAME '' @
     lit ''AND CAST(c.IS_HIDDEN AS BOOL))''"

definition sql_like_pattern :: "rstring \<Rightarrow> rstring" where
  "sql_like_pattern p = concat (map (\<lambda>c. if c = 92 then [92, 92] else [c]) p)"

text \<open>The loop of \<^verbatim>\<open>filtered_sql\<close>: the text, the predicates written and the parameters so far.\<close>

fun filter_loop ::
  "(rstring \<times> rstring option) list \<Rightarrow> rstring \<Rightarrow> nat \<Rightarrow> (rstring \<times> rstring) list \<Rightarrow>
   rstring \<times> (rstring \<times> rstring) list" where
  "filter_loop [] q predicates ps = (q, ps)"
| "filter_loop ((col, None) # fs) q predicates ps = filter_loop fs q predicates ps"
| "filter_loop ((col, Some pat) # fs) q predicates ps =
     (let name = ch CHR ''p'' # show_nat (length ps);
          keyword = (if predicates = 0 then lit ''WHERE'' else lit ''AND'')
      in filter_loop fs (q @ lit '' '' @ keyword @ lit '' '' @ col @ lit '' LIKE @'' @ name) (predicates + 1)
           (ps @ [(name, sql_like_pattern pat)]))"

definition filtered_sql ::
  "rstring \<Rightarrow> rstring option \<Rightarrow> (rstring \<times> rstring option) list \<Rightarrow> rstring option \<Rightarrow>
   rstring \<times> (rstring \<times> rstring) list" where
  "filtered_sql base base_predicate filters order_by =
     (let (q0, n) = (case base_predicate of None \<Rightarrow> (base, 0) | Some p \<Rightarrow> (base @ lit '' WHERE '' @ p, 1));
          (q, ps) = filter_loop filters q0 n []
      in (case order_by of None \<Rightarrow> q | Some o' \<Rightarrow> q @ lit '' ORDER BY '' @ o', ps))"

definition filtered_query ::
  "(rstring \<Rightarrow> 'v) \<Rightarrow> 'ts shared_config \<Rightarrow> rstring \<Rightarrow> rstring option \<Rightarrow> (rstring \<times> rstring option) list \<Rightarrow>
   rstring option \<Rightarrow> 'v spanner_sql result" where
  "filtered_query tv c base base_predicate filters order_by =
     (let (q, ps) = filtered_sql base base_predicate filters order_by
      in try_bind (ok_or panicked (metadata_sql_builder c)) (\<lambda>b.
           Inr \<lparr>sql_text = q, calls = b, params = map (\<lambda>(n, v). (n, tv v)) ps\<rparr>))"

section \<open>Groups\<close>

text \<open>\<^verbatim>\<open>map.entry(k).or_default().push(v)\<close>, a loop of it over the rows, and \<^verbatim>\<open>get(k).into_iter().flatten()\<close>.\<close>

definition push_group :: "'k \<Rightarrow> 'a \<Rightarrow> ('k \<rightharpoonup> 'a list) \<Rightarrow> ('k \<rightharpoonup> 'a list)" where
  "push_group k v m = m(k \<mapsto> (case m k of None \<Rightarrow> [] | Some vs \<Rightarrow> vs) @ [v])"

definition group_by_key :: "nat \<Rightarrow> (nat \<Rightarrow> 'k) \<Rightarrow> (nat \<Rightarrow> 'a) \<Rightarrow> ('k \<rightharpoonup> 'a list)" where
  "group_by_key n key val = fold (\<lambda>r. push_group (key r) (val r)) [0..<n] Map.empty"

definition bucket :: "('k \<rightharpoonup> 'a list) \<Rightarrow> 'k \<Rightarrow> 'a list" where
  "bucket m k = (case m k of None \<Rightarrow> [] | Some vs \<Rightarrow> vs)"

record key_column_row =
  k_column :: rstring
  k_table_schema :: rstring
  k_table :: rstring
  k_ordinal :: rstring
  k_position :: "rstring option"

definition group_opt :: "arr list option \<Rightarrow> (arr list \<Rightarrow> ('k \<rightharpoonup> 'a) result) \<Rightarrow> ('k \<rightharpoonup> 'a) result" where
  "group_opt batch grp = (case batch of None \<Rightarrow> Inr Map.empty | Some b \<Rightarrow> grp b)"

definition group_tables :: "arr list \<Rightarrow> (rstring \<rightharpoonup> (rstring \<times> rstring) list) result" where
  "group_tables batch =
     try_bind (str_col batch 0) (\<lambda>ts.
     try_bind (str_col batch 1) (\<lambda>tn.
     try_bind (str_col batch 2) (\<lambda>tt.
       Inr (group_by_key (batch_rows batch) (\<lambda>r. utf8_value (ts ! r))
         (\<lambda>r. (utf8_value (tn ! r), utf8_value (tt ! r)))))))"

definition group_columns :: "arr list \<Rightarrow> (rstring \<times> rstring \<rightharpoonup> obj_column list) result" where
  "group_columns batch =
     try_bind (str_col batch 0) (\<lambda>ts.
     try_bind (str_col batch 1) (\<lambda>tn.
     try_bind (str_col batch 2) (\<lambda>cn.
     try_bind (str_col batch 4) (\<lambda>nul.
     try_bind (str_col batch 5) (\<lambda>typ.
     try_bind (int64_column batch 3 (err (lit ''ORDINAL_POSITION is not an integer'') Internal)) (\<lambda>ord.
       Inr (group_by_key (batch_rows batch) (\<lambda>r. (utf8_value (ts ! r), utf8_value (tn ! r)))
         (\<lambda>r. \<lparr>col_name = utf8_value (cn ! r), ordinal = word_of_int (int_value (ord ! r)),
               col_nullable = eq_ignore_ascii_case (utf8_value (nul ! r)) (lit ''YES''),
               type_name = utf8_value (typ ! r)\<rparr>))))))))"

definition group_constraints :: "arr list \<Rightarrow> (rstring \<times> rstring \<rightharpoonup> (rstring \<times> rstring) list) result" where
  "group_constraints batch =
     try_bind (str_col batch 0) (\<lambda>ts.
     try_bind (str_col batch 1) (\<lambda>tn.
     try_bind (str_col batch 2) (\<lambda>cn.
     try_bind (str_col batch 3) (\<lambda>ct.
       Inr (group_by_key (batch_rows batch) (\<lambda>r. (utf8_value (ts ! r), utf8_value (tn ! r)))
         (\<lambda>r. (utf8_value (cn ! r), utf8_value (ct ! r))))))))"

definition group_key_columns :: "arr list \<Rightarrow> (rstring \<times> rstring \<rightharpoonup> key_column_row list) result" where
  "group_key_columns batch =
     try_bind (str_col batch 0) (\<lambda>kcs.
     try_bind (str_col batch 1) (\<lambda>kcn.
     try_bind (str_col batch 2) (\<lambda>kts.
     try_bind (str_col batch 3) (\<lambda>ktn.
     try_bind (str_col batch 4) (\<lambda>kcol.
     try_bind (str_col batch 5) (\<lambda>kord.
     try_bind (str_col batch 6) (\<lambda>kpos.
       Inr (group_by_key (batch_rows batch) (\<lambda>r. (utf8_value (kcs ! r), utf8_value (kcn ! r)))
         (\<lambda>r. \<lparr>k_column = utf8_value (kcol ! r), k_table_schema = utf8_value (kts ! r),
               k_table = utf8_value (ktn ! r), k_ordinal = utf8_value (kord ! r),
               k_position = (if kpos ! r = None then None else Some (utf8_value (kpos ! r)))\<rparr>)))))))))"

text \<open>\<^verbatim>\<open>entry(k).or_insert_with(v)\<close>: the first row of a key stays.\<close>

definition group_referential :: "arr list \<Rightarrow> (rstring \<times> rstring \<rightharpoonup> rstring \<times> rstring) result" where
  "group_referential batch =
     try_bind (str_col batch 0) (\<lambda>rcs.
     try_bind (str_col batch 1) (\<lambda>rcn.
     try_bind (str_col batch 2) (\<lambda>rus.
     try_bind (str_col batch 3) (\<lambda>run.
       Inr (fold (\<lambda>r m. let k = (utf8_value (rcs ! r), utf8_value (rcn ! r))
                         in if m k = None then m(k \<mapsto> (utf8_value (rus ! r), utf8_value (run ! r))) else m)
              [0..<batch_rows batch] Map.empty)))))"

section \<open>Assembly\<close>

text \<open>\<^verbatim>\<open>matcher.is_some_and(|m| !m.matches(value))\<close>\<close>

definition rejected_by :: "rstring option \<Rightarrow> rstring \<Rightarrow> bool" where
  "rejected_by pattern v =
     (case pattern of None \<Rightarrow> False | Some p \<Rightarrow> like_match p v \<noteq> Some (Returned True))"

definition collect_columns ::
  "(rstring \<times> rstring \<rightharpoonup> obj_column list) \<Rightarrow> rstring \<Rightarrow> rstring \<Rightarrow> rstring option \<Rightarrow> obj_column list" where
  "collect_columns columns_by_table schema table pattern =
     filter (\<lambda>col. \<not> rejected_by pattern (col_name col)) (bucket columns_by_table (schema, table))"

definition foreign_key_usages ::
  "(rstring \<times> rstring \<rightharpoonup> key_column_row list) \<Rightarrow> (rstring \<times> rstring \<rightharpoonup> rstring \<times> rstring) \<Rightarrow>
   rstring \<Rightarrow> rstring \<Rightarrow> usage list" where
  "foreign_key_usages key_columns referential schema fk_name =
     (case referential (schema, fk_name) of
        None \<Rightarrow> []
      | Some unique \<Rightarrow>
          (let referenced = map_of (rev (List.map_filter (\<lambda>k. map_option (\<lambda>o'. (o', k)) (parse_i64 (k_ordinal k)))
                              (bucket key_columns unique)));
               fk_columns = List.map_filter (\<lambda>k.
                   case parse_i64 (k_ordinal k) of
                     None \<Rightarrow> None
                   | Some o' \<Rightarrow> (case k_position k of
                       None \<Rightarrow> None
                     | Some p \<Rightarrow> map_option (\<lambda>q. (o', q)) (parse_i64 p)))
                 (bucket key_columns (schema, fk_name))
           in List.map_filter (\<lambda>(_, position).
                map_option (\<lambda>k. \<lparr>u_db_schema = k_table_schema k, u_table = k_table k, u_column = k_column k\<rparr>)
                  (referenced position))
              (sort_key fst fk_columns)))"

definition collect_constraints ::
  "(rstring \<times> rstring \<rightharpoonup> (rstring \<times> rstring) list) \<Rightarrow> (rstring \<times> rstring \<rightharpoonup> key_column_row list) \<Rightarrow>
   (rstring \<times> rstring \<rightharpoonup> rstring \<times> rstring) \<Rightarrow> rstring \<Rightarrow> rstring \<Rightarrow> constraint list" where
  "collect_constraints constraints_by_table key_columns referential schema table =
     map (\<lambda>(name, ctype).
       \<lparr>cons_name = Some name, constraint_type = ctype,
        cons_columns = map k_column (bucket key_columns (schema, name)),
        usages = (if ctype = lit ''FOREIGN KEY'' then foreign_key_usages key_columns referential schema name else [])\<rparr>)
       (bucket constraints_by_table (schema, table))"

definition assemble_objects :: "object_batches \<Rightarrow> object_filters \<Rightarrow> db_schema list result" where
  "assemble_objects b filters =
     try_bind (str_col (b_schemata b) 0) (\<lambda>schema_names.
     try_bind (group_opt (b_tables b) group_tables) (\<lambda>tables_by_schema.
     try_bind (group_opt (b_columns b) group_columns) (\<lambda>columns_by_table.
     try_bind (group_opt (b_constraints b) group_constraints) (\<lambda>constraints_by_table.
     try_bind (group_opt (b_key_columns b) group_key_columns) (\<lambda>key_columns.
     try_bind (group_opt (b_referential b) group_referential) (\<lambda>referential.
       Inr (concat (map (\<lambda>i.
         let schema_name = utf8_value (schema_names ! i)
         in if rejected_by (f_db_schema filters) schema_name then []
            else [\<lparr>sch_name = schema_name,
                   tables = concat (map (\<lambda>(name, ttype).
                     if rejected_by (f_table_name filters) name then []
                     else if (case f_table_type filters of None \<Rightarrow> False | Some types \<Rightarrow> ttype \<notin> set types) then []
                     else [\<lparr>tbl_name = name, table_type = ttype,
                            tbl_columns = collect_columns columns_by_table schema_name name (f_column_name filters),
                            constraints = collect_constraints constraints_by_table key_columns referential schema_name name\<rparr>])
                     (bucket tables_by_schema schema_name))\<rparr>])
         [0..<batch_rows (b_schemata b)]))))))))"

section \<open>Fetching\<close>

text \<open>
  How the statements of a metadata read are driven: one after the other, all at once with the first failure
  winning (\<^verbatim>\<open>try_join!\<close>), or a bounded number at once yielding in order (\<^verbatim>\<open>buffered\<close>).
\<close>

datatype schedule = InTurn | Joined | Buffered nat

text \<open>
  The code outside the crate the metadata reads call: the Arrow constructors, the client's conversion of a text
  parameter and of a timestamp bound, the transaction, the futures driving \<^verbatim>\<open>query_txn\<close> (here given as the decoding
  of a result set) under a deadline, and the result schemas of \<^verbatim>\<open>adbc_core\<close>.
\<close>

record ('v, 'ts, 'b, 'txn, 'd, 'dt, 'srv) meta_client =
  mc_crates :: "('d, 'dt) meta_crates"
  mc_text :: "rstring \<Rightarrow> 'v"
  mc_to_bound :: "'ts read_bound \<Rightarrow> 'b result"
  mc_multi_use :: "'b option \<Rightarrow> nat option \<Rightarrow> ('txn, 'srv) rpc"
  mc_run :: "schedule \<Rightarrow> 'txn \<Rightarrow>
    ((rstring list \<times> spanner_type list) option \<times> wire list result list \<Rightarrow> arr list result) \<Rightarrow> nat option \<Rightarrow>
    'v spanner_sql list \<Rightarrow> (arr list list, 'srv) rpc"
  get_objects_schema :: "field list"
  get_statistics_schema :: "field list"
  get_statistic_names_schema :: "field list"
  get_info_schema :: "field list"

definition query_txn ::
  "('d, 'dt) meta_crates \<Rightarrow> (rstring list \<times> spanner_type list) option \<times> wire list result list \<Rightarrow> arr list result" where
  "query_txn K rs =
     try_bind (result_set_to_batch (crates.truncate K) (fst rs) (snd rs) NanosecondsErrorOnOverflow) (\<lambda>(_, b). Inr b)"

text \<open>
  \<^verbatim>\<open>table_exists\<close>, the probe behind \<open>e_table_exists\<close>: \<open>single\<close> runs a statement in a single-use transaction under a
  deadline.
\<close>

definition table_exists ::
  "('d, 'dt) meta_crates \<Rightarrow> (rstring \<Rightarrow> 'v) \<Rightarrow>
   ('v spanner_sql \<Rightarrow> nat option \<Rightarrow> ((rstring list \<times> spanner_type list) option \<times> wire list result list, 'srv) rpc) \<Rightarrow>
   rstring \<Rightarrow> rstring \<Rightarrow> nat option \<Rightarrow> (bool, 'srv) rpc" where
  "table_exists K tv single schema table deadline =
     seqr (single
         \<lparr>sql_text = lit ''SELECT TABLE_NAME FROM INFORMATION_SCHEMA.TABLES '' @
            lit ''WHERE TABLE_SCHEMA = @schema AND TABLE_NAME = @table'',
          calls = [], params = [(lit ''schema'', tv schema), (lit ''table'', tv table)]\<rparr> deadline)
       (\<lambda>rs. pure (try_bind (query_txn K rs) (\<lambda>batch. Inr (batch_rows batch > 0))))"

definition populates_tables :: "object_depth \<Rightarrow> bool" where
  "populates_tables depth = (case depth of AllDepth \<Rightarrow> True | Tables \<Rightarrow> True | Columns \<Rightarrow> True | _ \<Rightarrow> False)"

definition populates_columns :: "object_depth \<Rightarrow> bool" where
  "populates_columns depth = (case depth of AllDepth \<Rightarrow> True | Columns \<Rightarrow> True | _ \<Rightarrow> False)"

text \<open>The statements of a depth, in the order they are joined.\<close>

definition object_statements ::
  "(rstring \<Rightarrow> 'v) \<Rightarrow> 'ts shared_config \<Rightarrow> object_depth \<Rightarrow> object_filters \<Rightarrow> 'v spanner_sql result list" where
  "object_statements tv c depth filters =
     (let plain = (\<lambda>q. try_bind (ok_or panicked (metadata_sql_builder c)) (\<lambda>b. Inr (plain_sql b q)))
      in [filtered_query tv c (lit ''SELECT SCHEMA_NAME FROM INFORMATION_SCHEMA.SCHEMATA'') None
            [(lit ''SCHEMA_NAME'', f_db_schema filters)] None] @
         (if populates_tables depth then
            [filtered_query tv c (lit ''SELECT TABLE_SCHEMA, TABLE_NAME, TABLE_TYPE FROM INFORMATION_SCHEMA.TABLES'') None
              [(lit ''TABLE_SCHEMA'', f_db_schema filters), (lit ''TABLE_NAME'', f_table_name filters)] None]
          else []) @
         (if populates_columns depth then
            [filtered_query tv c
               (lit ''SELECT TABLE_SCHEMA, TABLE_NAME, COLUMN_NAME, ORDINAL_POSITION, '' @
                lit ''IS_NULLABLE, SPANNER_TYPE FROM INFORMATION_SCHEMA.COLUMNS'')
               (Some HIDE_HIDDEN_COLUMNS)
               [(lit ''TABLE_SCHEMA'', f_db_schema filters), (lit ''TABLE_NAME'', f_table_name filters),
                (lit ''COLUMN_NAME'', f_column_name filters)]
               (Some (lit ''TABLE_SCHEMA, TABLE_NAME, ORDINAL_POSITION'')),
             filtered_query tv c
               (lit ''SELECT TABLE_SCHEMA, TABLE_NAME, CONSTRAINT_NAME, CONSTRAINT_TYPE '' @
                lit ''FROM INFORMATION_SCHEMA.TABLE_CONSTRAINTS AS tc'')
               (Some HIDE_HIDDEN_COLUMN_CONSTRAINTS)
               [(lit ''TABLE_SCHEMA'', f_db_schema filters), (lit ''TABLE_NAME'', f_table_name filters)] None,
             plain (lit ''SELECT CONSTRAINT_SCHEMA, CONSTRAINT_NAME, TABLE_SCHEMA, TABLE_NAME, '' @
                lit ''COLUMN_NAME, CAST(ORDINAL_POSITION AS STRING), '' @
                lit ''CAST(POSITION_IN_UNIQUE_CONSTRAINT AS STRING) '' @
                lit ''FROM INFORMATION_SCHEMA.KEY_COLUMN_USAGE '' @
                lit ''ORDER BY CONSTRAINT_SCHEMA, CONSTRAINT_NAME, ORDINAL_POSITION''),
             plain (lit ''SELECT CONSTRAINT_SCHEMA, CONSTRAINT_NAME, UNIQUE_CONSTRAINT_SCHEMA, '' @
                lit ''UNIQUE_CONSTRAINT_NAME FROM INFORMATION_SCHEMA.REFERENTIAL_CONSTRAINTS'')]
          else []))"

text \<open>The joined batches as \<^verbatim>\<open>ObjectBatches\<close>; a join always answers every statement.\<close>

definition object_batches_of :: "object_depth \<Rightarrow> arr list list \<Rightarrow> object_batches result" where
  "object_batches_of depth bs =
     (case (populates_tables depth, populates_columns depth, bs) of
        (False, False, [s]) \<Rightarrow> Inr \<lparr>b_schemata = s, b_tables = None, b_columns = None, b_constraints = None,
          b_key_columns = None, b_referential = None\<rparr>
      | (True, False, [s, t]) \<Rightarrow> Inr \<lparr>b_schemata = s, b_tables = Some t, b_columns = None, b_constraints = None,
          b_key_columns = None, b_referential = None\<rparr>
      | (True, True, [s, t, c, cs, k, r]) \<Rightarrow> Inr \<lparr>b_schemata = s, b_tables = Some t, b_columns = Some c,
          b_constraints = Some cs, b_key_columns = Some k, b_referential = Some r\<rparr>
      | _ \<Rightarrow> Inl panicked)"

definition collect_objects ::
  "('v, 'ts, 'b, 'txn, 'd, 'dt, 'srv) meta_client \<Rightarrow> 'ts shared_config \<Rightarrow> object_depth \<Rightarrow> object_filters \<Rightarrow>
   (db_schema list, 'srv) rpc" where
  "collect_objects M c depth filters =
     (if depth = Catalogs then pure (Inr [])
      else
        let deadline = query_timeout (timeouts c)
        in seqr (pure (collect_results (object_statements (mc_text M) c depth filters))) (\<lambda>stmts.
           seqr (pure (multi_use_timestamp_bound (mc_to_bound M) (read_staleness c))) (\<lambda>bd.
           seqr (mc_multi_use M bd deadline) (\<lambda>txn.
           seqr (mc_run M Joined txn (query_txn (mc_crates M)) deadline stmts) (\<lambda>bs.
           pure (try_bind (object_batches_of depth bs) (\<lambda>b. assemble_objects b filters)))))))"

section \<open>The result batch\<close>

text \<open>The struct builders map over the fields of the schema: a field they do not know is all null.\<close>

definition build_column_struct ::
  "('d, 'dt) meta_crates \<Rightarrow> field list \<Rightarrow> obj_column list \<Rightarrow> arr result" where
  "build_column_struct K column_fields cols =
     struct_of K column_fields (map (\<lambda>f.
       if field_name f = lit ''column_name'' then string_array (map col_name cols)
       else if field_name f = lit ''ordinal_position'' then
         FlatArr Int32 (map (\<lambda>c. Some (CInt (sint (ordinal c)))) cols)
       else if field_name f = lit ''xdbc_type_name'' then string_array (map type_name cols)
       else if field_name f = lit ''xdbc_is_nullable'' then
         string_array (map (\<lambda>c. if col_nullable c then lit ''YES'' else lit ''NO'') cols)
       else new_null_array K (field_type f) (length cols)) column_fields)"

definition build_usage_struct ::
  "('d, 'dt) meta_crates \<Rightarrow> field list \<Rightarrow> rstring \<Rightarrow> usage list \<Rightarrow> arr result" where
  "build_usage_struct K usage_fields cat us =
     struct_of K usage_fields (map (\<lambda>f.
       if field_name f = lit ''fk_catalog'' then string_array (map (\<lambda>_. cat) us)
       else if field_name f = lit ''fk_db_schema'' then string_array (map u_db_schema us)
       else if field_name f = lit ''fk_table'' then string_array (map u_table us)
       else if field_name f = lit ''fk_column_name'' then string_array (map u_column us)
       else new_null_array K (field_type f) (length us)) usage_fields)"

definition build_constraint_struct ::
  "('d, 'dt) meta_crates \<Rightarrow> field list \<Rightarrow> rstring \<Rightarrow> constraint list \<Rightarrow> arr result" where
  "build_constraint_struct K constraint_fields cat cs =
     try_bind (find_field constraint_fields (lit ''constraint_column_names'')) (\<lambda>names_field.
     try_bind (list_item names_field) (\<lambda>name_item.
     try_bind (list_of K name_item (map (length \<circ> cons_columns) cs)
       (string_opt_array (map Some (concat (map cons_columns cs))))) (\<lambda>constraint_column_names.
     try_bind (find_field constraint_fields (lit ''constraint_column_usage'')) (\<lambda>usage_field.
     try_bind (list_item usage_field) (\<lambda>usage_item.
     try_bind (struct_fields_of usage_item) (\<lambda>usage_fields.
     try_bind (build_usage_struct K usage_fields cat (concat (map usages cs))) (\<lambda>usage_struct.
     try_bind (list_of_nullable K usage_item (map (length \<circ> usages) cs) usage_struct
       (Some (map (\<lambda>c. constraint_type c = lit ''FOREIGN KEY'') cs))) (\<lambda>constraint_column_usage.
     struct_of K constraint_fields (map (\<lambda>f.
       if field_name f = lit ''constraint_name'' then string_opt_array (map cons_name cs)
       else if field_name f = lit ''constraint_type'' then string_array (map constraint_type cs)
       else if field_name f = lit ''constraint_column_names'' then constraint_column_names
       else if field_name f = lit ''constraint_column_usage'' then constraint_column_usage
       else new_null_array K (field_type f) (length cs)) constraint_fields)))))))))"

text \<open>The three nested blocks of \<^verbatim>\<open>build\<close>: the lists of a table, the tables of the schemas, the schemas.\<close>

definition build_table_lists ::
  "('d, 'dt) meta_crates \<Rightarrow> object_depth \<Rightarrow> rstring \<Rightarrow> field list \<Rightarrow> obj_table list \<Rightarrow> (arr \<times> arr) result" where
  "build_table_lists K depth cat table_fields ts =
     try_bind (find_field table_fields (lit ''table_columns'')) (\<lambda>cols_field.
     try_bind
       (if \<not> populates_columns depth then Inr (new_null_array K (field_type cols_field) (length ts))
        else
          try_bind (list_item cols_field) (\<lambda>col_item.
          try_bind (struct_fields_of col_item) (\<lambda>column_fields.
          try_bind (build_column_struct K column_fields (concat (map tbl_columns ts))) (\<lambda>column_struct.
          list_of K col_item (map (length \<circ> tbl_columns) ts) column_struct)))) (\<lambda>table_columns.
     try_bind (find_field table_fields (lit ''table_constraints'')) (\<lambda>cons_field.
     try_bind
       (if \<not> populates_columns depth then Inr (new_null_array K (field_type cons_field) (length ts))
        else
          try_bind (list_item cons_field) (\<lambda>cons_item.
          try_bind (struct_fields_of cons_item) (\<lambda>constraint_fields.
          try_bind (build_constraint_struct K constraint_fields cat (concat (map constraints ts))) (\<lambda>constraint_struct.
          list_of K cons_item (map (length \<circ> constraints) ts) constraint_struct)))) (\<lambda>table_constraints.
     Inr (table_columns, table_constraints)))))"

definition build_schema_tables ::
  "('d, 'dt) meta_crates \<Rightarrow> object_depth \<Rightarrow> rstring \<Rightarrow> field \<Rightarrow> db_schema list \<Rightarrow> arr result" where
  "build_schema_tables K depth cat tables_field schemas =
     (if \<not> populates_tables depth then Inr (new_null_array K (field_type tables_field) (length schemas))
      else
        let ts = concat (map tables schemas)
        in try_bind (list_item tables_field) (\<lambda>table_item.
           try_bind (struct_fields_of table_item) (\<lambda>table_fields.
           try_bind (build_table_lists K depth cat table_fields ts) (\<lambda>(table_columns, table_constraints).
           try_bind (struct_of K table_fields
             [string_array (map tbl_name ts), string_array (map table_type ts), table_columns, table_constraints])
             (\<lambda>table_struct.
           list_of K table_item (map (length \<circ> tables) schemas) table_struct)))))"

definition build_objects ::
  "('d, 'dt) meta_crates \<Rightarrow> field list \<Rightarrow> object_depth \<Rightarrow> rstring \<Rightarrow> db_schema list \<Rightarrow> arr list result" where
  "build_objects K out_schema depth cat schemas =
     try_bind (find_field out_schema (lit ''catalog_db_schemas'')) (\<lambda>db_schemas_field.
     try_bind (list_item db_schemas_field) (\<lambda>db_schema_item.
     try_bind (struct_fields_of db_schema_item) (\<lambda>db_schema_fields.
     try_bind
       (if depth = Catalogs then Inr (new_null_array K (field_type db_schemas_field) 1)
        else
          try_bind (find_field db_schema_fields (lit ''db_schema_tables'')) (\<lambda>tables_field.
          try_bind (build_schema_tables K depth cat tables_field schemas) (\<lambda>db_schema_tables.
          try_bind (struct_of K db_schema_fields [string_array (map sch_name schemas), db_schema_tables])
            (\<lambda>db_schema_struct.
          list_of K db_schema_item [length schemas] db_schema_struct)))) (\<lambda>catalog_db_schemas.
     batch_of K out_schema [string_array [cat], catalog_db_schemas]))))"

section \<open>The connection method\<close>

definition get_objects ::
  "('v, 'ts, 'b, 'txn, 'd, 'dt, 'srv) meta_client \<Rightarrow> object_depth \<Rightarrow> rstring option \<Rightarrow> object_filters \<Rightarrow>
   (arr list list, 'sn, 'v, 'ts, 'srv) conn_action" where
  "get_objects M depth cat filters w0 =
     (let w = conn_begin_op w0; c = c_config (con w); name = connection_catalog (con w)
      in if rejected_by cat name then (Inr [], w)
         else
           (case collect_objects M c depth filters (w_server w) of
              (r, srv) \<Rightarrow>
                (try_bind r (\<lambda>schemas.
                   try_bind (build_objects (mc_crates M) (get_objects_schema M) depth name schemas) (\<lambda>b. Inr [b])),
                 w\<lparr>w_server := srv\<rparr>)))"

end
