(* ===== verification/NestedProps.thy ===== *)
theory NestedProps
  imports Nested ConversionProps
begin

text \<open>
  What is read back from the arrays \<^verbatim>\<open>src/nested.rs\<close> assembles.  \<open>reads_as a dt vs\<close> says that an array is
  well-formed, has the type \<open>dt\<close> and reads as the values \<open>vs\<close>; one lemma per constructor, so that a result batch
  is verified level by level.
\<close>

section \<open>Arrays and their values\<close>

definition reads_as :: "arr \<Rightarrow> data_type \<Rightarrow> aval list \<Rightarrow> bool" where
  "reads_as a dt vs \<longleftrightarrow>
     arr_type a = dt \<and> arr_len a = length vs \<and> arr_values a = vs \<and> wf_arr a \<and>
     (\<forall>i < length vs. is_null a i = (vs ! i = VNull))"

text \<open>
  What the Arrow library documents of its constructors: the checked ones accept what is well-formed and has
  no null in a non-nullable field; an array of nulls and an empty array are that.
\<close>

definition nulls_allowed :: "field \<Rightarrow> arr \<Rightarrow> bool" where
  "nulls_allowed f a \<longleftrightarrow> nullable f \<or> (\<forall>i < arr_len a. \<not> is_null a i)"

definition arrow_contract :: "('d, 'dt) meta_crates \<Rightarrow> bool" where
  "arrow_contract K \<longleftrightarrow>
     (\<forall>item offsets validity child. wf_arr (ListArr False item offsets validity child) \<longrightarrow> nulls_allowed item child \<longrightarrow>
        try_list K item offsets validity child = None) \<and>
     (\<forall>fs validity arrays. wf_arr (StructArr fs validity arrays) \<longrightarrow> list_all2 nulls_allowed fs arrays \<longrightarrow>
        try_struct K fs validity arrays = None) \<and>
     (\<forall>fs arrays. map arr_type arrays = map field_type fs \<longrightarrow> list_all2 nulls_allowed fs arrays \<longrightarrow>
        (\<exists>n. list_all (\<lambda>a. arr_len a = n) arrays) \<longrightarrow> arrays \<noteq> [] \<longrightarrow> try_batch K fs arrays = None) \<and>
     (\<forall>fs ts os arrays. wf_arr (UnionArr fs ts os arrays) \<longrightarrow> try_union K fs ts os arrays = None) \<and>
     (\<forall>dt n. reads_as (new_null_array K dt n) dt (replicate n VNull)) \<and>
     (\<forall>dt. reads_as (new_empty_array K dt) dt [])"

lemma contract_list:
  "arrow_contract K \<Longrightarrow> wf_arr (ListArr False item offsets validity child) \<Longrightarrow> nulls_allowed item child \<Longrightarrow>
   try_list K item offsets validity child = None"
  by (simp only: arrow_contract_def)

lemma contract_struct:
  "arrow_contract K \<Longrightarrow> wf_arr (StructArr fs validity arrays) \<Longrightarrow> list_all2 nulls_allowed fs arrays \<Longrightarrow>
   try_struct K fs validity arrays = None"
  by (simp only: arrow_contract_def)

lemma contract_batch:
  "arrow_contract K \<Longrightarrow> map arr_type arrays = map field_type fs \<Longrightarrow> list_all2 nulls_allowed fs arrays \<Longrightarrow>
   list_all (\<lambda>a. arr_len a = n) arrays \<Longrightarrow> arrays \<noteq> [] \<Longrightarrow> try_batch K fs arrays = None"
  by (simp only: arrow_contract_def) blast

lemma contract_union:
  "arrow_contract K \<Longrightarrow> wf_arr (UnionArr fs ts os arrays) \<Longrightarrow> try_union K fs ts os arrays = None"
  by (simp only: arrow_contract_def)

lemma reads_null_array:
  "arrow_contract K \<Longrightarrow> reads_as (new_null_array K dt n) dt (replicate n VNull)"
  by (simp only: arrow_contract_def)

lemma reads_empty_array: "arrow_contract K \<Longrightarrow> reads_as (new_empty_array K dt) dt []"
  by (simp only: arrow_contract_def)

lemma reads_asD:
  "reads_as a dt vs \<Longrightarrow> arr_type a = dt" "reads_as a dt vs \<Longrightarrow> arr_len a = length vs"
  "reads_as a dt vs \<Longrightarrow> arr_values a = vs" "reads_as a dt vs \<Longrightarrow> wf_arr a"
  "reads_as a dt vs \<Longrightarrow> i < length vs \<Longrightarrow> is_null a i \<longleftrightarrow> vs ! i = VNull"
  by (auto simp: reads_as_def)

lemma reads_nulls_allowed:
  "reads_as a dt vs \<Longrightarrow> nullable f \<or> VNull \<notin> set vs \<Longrightarrow> nulls_allowed f a"
  by (auto simp: nulls_allowed_def reads_as_def dest: nth_mem)

section \<open>Flat arrays\<close>

lemma reads_flat:
  "list_all (pred_option (cell_ok dt)) cs \<Longrightarrow> reads_as (FlatArr dt cs) dt (map cell_aval cs)"
  by (auto simp: reads_as_def cell_aval_def split: option.splits)

lemma reads_strings: "reads_as (string_array ss) Utf8 (map (\<lambda>s. VCell (CStr s)) ss)"
  using reads_flat[of Utf8 "map (\<lambda>s. Some (CStr s)) ss"]
  by (simp add: string_array_def list_all_length cell_ok_def comp_def cell_aval_def)

definition opt_string_value :: "rstring option \<Rightarrow> aval" where
  "opt_string_value s = (case s of None \<Rightarrow> VNull | Some x \<Rightarrow> VCell (CStr x))"

lemma reads_opt_strings: "reads_as (string_opt_array ss) Utf8 (map opt_string_value ss)"
proof -
  have "cell_aval (map_option CStr s) = opt_string_value s" for s
    by (cases s) (simp_all add: cell_aval_def opt_string_value_def)
  moreover have "list_all (pred_option (cell_ok Utf8)) (map (map_option CStr) ss)"
    by (auto simp: list_all_length cell_ok_def pred_option_def)
  ultimately show ?thesis
    using reads_flat[of Utf8 "map (map_option CStr) ss"] by (simp add: string_opt_array_def comp_def)
qed

section \<open>Lists\<close>

lemma running_ok:
  assumes "sum_list ls < 2 ^ 31" and "length validity = length ls"
    and "\<And>i. i < length ls \<Longrightarrow> \<not> validity ! i \<Longrightarrow> ls ! i = 0"
  shows "offsets_ok (0 # running 0 ls) validity (sum_list ls)"
proof -
  have nth: "(0 # running 0 ls) ! i = sum_list (take i ls)" if "i \<le> length ls" for i
    using running_nth[OF that, of 0] by simp
  have mono: "sum_list (take i ls) \<le> sum_list (take j ls)" if "i \<le> j" for i j
    using that by (metis (no_types) le_add1 le_add_diff_inverse sum_list_append take_add)
  have "(0 # running 0 ls) ! i < 2 ^ 31" if "i < length (0 # running 0 ls)" for i
    using nth[of i] mono[of i "length ls"] that assms(1) by simp
  moreover have "sorted (0 # running 0 ls)"
    unfolding sorted_iff_nth_mono using nth mono by simp
  moreover have "last (0 # running 0 ls) = sum_list ls"
    using last_running[of 0 ls] by simp
  moreover have "(0 # running 0 ls) ! i = (0 # running 0 ls) ! Suc i" if "i < length ls" "\<not> validity ! i" for i
    using nth[of i] nth[of "Suc i"] that assms(3)[OF that] by (simp add: take_Suc_conv_app_nth)
  ultimately show ?thesis
    using assms(2) unfolding offsets_ok_def list_all_length by simp
qed

lemma reads_list_of_nullable:
  assumes K: "arrow_contract K" and child: "reads_as child (field_type item) (concat vss)"
    and ls: "ls = map length vss" and fits: "sum_list ls < 2 ^ 31"
    and item: "nullable item \<or> VNull \<notin> set (concat vss)"
    and v: "validity = (case nulls of Some v \<Rightarrow> v | None \<Rightarrow> replicate (length vss) True)"
    and len: "length validity = length vss"
    and empty: "\<And>i. i < length vss \<Longrightarrow> \<not> validity ! i \<Longrightarrow> vss ! i = []"
  shows "\<exists>a. list_of_nullable K item ls child nulls = Inr a \<and>
    reads_as a (List item) (map (\<lambda>(b, vs). if b then VList vs else VNull) (zip validity vss))"
proof -
  let ?o = "0 # running 0 ls" and ?r = "map (\<lambda>(b, vs). if b then VList vs else VNull) (zip validity vss)"
  let ?a = "ListArr False item ?o validity child"
  have o: "offsets_loop ls 0 [0] = Inr ?o"
    using offsets_loop_running[of 0 ls "[0]"] fits by simp
  have nth: "?o ! i = sum_list (map length (take i vss))" if "i \<le> length vss" for i
    using running_nth[of i ls 0] that ls by (simp add: take_map)
  have "arr_len child = sum_list ls"
    using child by (simp add: reads_as_def ls length_concat)
  moreover have "offsets_ok ?o validity (sum_list ls)"
    using running_ok[of ls validity] fits len ls empty by simp
  ultimately have wf: "wf_arr ?a" using child by (simp add: reads_as_def)
  have vals: "arr_values ?a = ?r"
  proof (rule nth_equalityI)
    show "length (arr_values ?a) = length ?r" using len by simp
  next
    fix i assume "i < length (arr_values ?a)"
    then have i: "i < length vss" using len by simp
    have "?o ! Suc i - ?o ! i = length (vss ! i)"
      using nth[of i] nth[of "Suc i"] i by (simp add: take_Suc_conv_app_nth)
    moreover have "take (length (vss ! i)) (drop (?o ! i) (concat vss)) = vss ! i"
      using cut_concat[OF i] nth[of i] i by simp
    ultimately show "arr_values ?a ! i = ?r ! i"
      using i len reads_asD(3)[OF child] by (simp add: Let_def del: running.simps)
  qed
  have "(case nulls of Some v \<Rightarrow> v | None \<Rightarrow> replicate (length ls) True) = validity"
    by (simp add: v ls split: option.split)
  moreover have "try_list K item ?o validity child = None"
    by (rule contract_list[OF K wf reads_nulls_allowed[OF child item]])
  ultimately have "list_of_nullable K item ls child nulls = Inr ?a"
    by (simp add: list_of_nullable_def o Let_def)
  moreover have "reads_as ?a (List item) ?r"
    using wf vals len by (simp add: reads_as_def)
  ultimately show ?thesis by blast
qed

lemma reads_list_of:
  assumes "arrow_contract K" and "reads_as child (field_type item) (concat vss)"
    and "ls = map length vss" and "sum_list ls < 2 ^ 31" and "nullable item \<or> VNull \<notin> set (concat vss)"
  shows "\<exists>a. list_of K item ls child = Inr a \<and> reads_as a (List item) (map VList vss)"
proof -
  have "map (\<lambda>(b, vs). if b then VList vs else VNull) (zip (replicate (length vss) True) vss) = map VList vss"
    by (rule nth_equalityI) auto
  with reads_list_of_nullable[OF assms, of "replicate (length vss) True" None] show ?thesis
    by (simp add: list_of_def)
qed

lemma list_of_overflow:
  "\<not> sum_list ls < 2 ^ 31 \<Longrightarrow> \<exists>e. list_of_nullable K item ls child nulls = Inl e \<and> status e = Internal"
  by (simp add: list_of_nullable_def offsets_loop_overflow status_constructors)

section \<open>Structs and batches\<close>

text \<open>The children of a struct against its fields: child \<open>k\<close> holds \<open>gs ! k x\<close> for every element \<open>x\<close>.\<close>

fun reads_cols :: "field list \<Rightarrow> arr list \<Rightarrow> ('x \<Rightarrow> aval) list \<Rightarrow> 'x list \<Rightarrow> bool" where
  "reads_cols [] [] [] xs = True"
| "reads_cols (f # fs) (a # as) (g # gs) xs =
     (reads_as a (field_type f) (map g xs) \<and> (nullable f \<or> (\<forall>x \<in> set xs. g x \<noteq> VNull)) \<and> reads_cols fs as gs xs)"
| "reads_cols fs as gs xs = False"

definition struct_value :: "field list \<Rightarrow> ('x \<Rightarrow> aval) list \<Rightarrow> 'x \<Rightarrow> (rstring \<times> aval) list" where
  "struct_value fs gs x = zip (map field_name fs) (map (\<lambda>g. g x) gs)"

lemma reads_colsD:
  assumes "reads_cols fs as gs xs"
  shows "length as = length fs" "length gs = length fs" "map arr_type as = map field_type fs"
    "list_all wf_arr as" "list_all (\<lambda>a. arr_len a = length xs) as" "list_all2 nulls_allowed fs as"
    "map arr_values as = map (\<lambda>g. map g xs) gs"
  using assms
  by (induction fs as gs xs rule: reads_cols.induct)
     (auto simp: reads_as_def nulls_allowed_def)

lemma reads_cols_map:
  "(\<And>f. f \<in> set fs \<Longrightarrow> reads_as (A f) (field_type f) (map (g f) xs) \<and> (nullable f \<or> (\<forall>x \<in> set xs. g f x \<noteq> VNull))) \<Longrightarrow>
   reads_cols fs (map A fs) (map g fs) xs"
  by (induction fs) auto

lemma zip_rows:
  assumes "map vals as = map (\<lambda>g. map g xs) gs" and "i < length xs"
  shows "map (\<lambda>(f, a). (field_name f, vals a ! i)) (zip fs as) = struct_value fs gs (xs ! i)"
proof -
  have "map (\<lambda>a. vals a ! i) as = map (\<lambda>g. g (xs ! i)) gs"
    using arg_cong[OF assms(1), of "map (\<lambda>c. c ! i)"] assms(2) by (simp add: comp_def)
  then have "zip (map field_name fs) (map (\<lambda>a. vals a ! i) as) = struct_value fs gs (xs ! i)"
    by (simp only: struct_value_def)
  then show ?thesis by (simp add: zip_map_map split_def)
qed

lemma reads_struct_of:
  assumes "arrow_contract K" and "reads_cols fs as gs xs" and "fs \<noteq> []"
  shows "\<exists>a. struct_of K fs as = Inr a \<and> reads_as a (Struct fs) (map (\<lambda>x. VStruct (struct_value fs gs x)) xs)"
proof -
  note D = reads_colsD[OF assms(2)]
  let ?v = "replicate (length xs) True"
  from D(1,5) assms(3) have n: "batch_rows as = length xs"
    by (cases as) (auto simp: batch_rows_def)
  have wf: "wf_arr (StructArr fs ?v as)" using D by simp
  have "arr_values (StructArr fs ?v as) = map (\<lambda>x. VStruct (struct_value fs gs x)) xs"
    using zip_rows[OF D(7)] by (auto simp: Let_def zip_map2 split_def comp_def intro!: nth_equalityI)
  with wf D(6) n contract_struct[OF assms(1) wf D(6)] show ?thesis
    by (simp add: struct_of_def Let_def reads_as_def)
qed

lemma batch_of_ok:
  assumes "arrow_contract K" and "reads_cols fs as gs xs" and "fs \<noteq> []"
  shows "batch_of K fs as = Inr as \<and> batch_values fs as = map (struct_value fs gs) xs"
proof -
  note D = reads_colsD[OF assms(2)]
  from D(1,5) assms(3) have n: "batch_rows as = length xs" and ne: "as \<noteq> []"
    by (cases as; auto simp: batch_rows_def)+
  have "batch_values fs as = map (struct_value fs gs) xs"
    unfolding batch_values_def n using zip_rows[OF D(7)] by (auto intro!: nth_equalityI)
  with contract_batch[OF assms(1) D(3,6,5) ne] show ?thesis by (simp add: batch_of_def)
qed

section \<open>Unions\<close>

lemma branch_index_nth:
  assumes "distinct (map fst fs)" and "n < length fs"
  shows "branch_index fs (fst (fs ! n)) = n"
  using assms
proof (induction fs arbitrary: n)
  case (Cons f fs)
  show ?case
  proof (cases n)
    case (Suc m)
    with Cons.prems have "fst f \<noteq> fst (fs ! m)" by (metis distinct.simps(2) length_Cons length_map list.simps(9) nth_map nth_mem Suc_less_eq)
    with Suc Cons show ?thesis by (simp add: branch_index_def split_def)
  qed (simp add: branch_index_def split_def)
qed simp

lemma reads_dense_union:
  assumes K: "arrow_contract K" and d: "distinct (map fst ufs)"
    and children: "\<And>i f. (i, f) \<in> set ufs \<Longrightarrow>
      (case find (\<lambda>(pid, _). pid = i) populated of
         None \<Rightarrow> vals i = [] | Some (_, a) \<Rightarrow> reads_as a (field_type f) (vals i))"
    and slots: "list_all2 (\<lambda>t off. t \<in> fst ` set ufs \<and> off < length (vals t)) ts os"
  shows "\<exists>a. dense_union K ufs populated ts os = Inr a \<and>
    reads_as a (Union ufs) (map (\<lambda>(t, off). VUnion t (vals t ! off)) (zip ts os))"
proof -
  define child where "child = (\<lambda>(i, f). case find (\<lambda>(pid, _). pid = i) populated of
      None \<Rightarrow> new_empty_array K (field_type f) | Some (_, arr) \<Rightarrow> arr)"
  let ?a = "UnionArr ufs ts os (map child ufs)"
  have c: "reads_as (child (i, f)) (field_type f) (vals i)" if "(i, f) \<in> set ufs" for i f
    using children[OF that] reads_empty_array[OF K] by (auto simp: child_def split: option.splits)
  have at: "\<exists>n < length ufs. fst (ufs ! n) = t \<and> branch_index ufs t = n \<and> reads_as (child (ufs ! n)) (field_type (snd (ufs ! n))) (vals t)"
    if "t \<in> fst ` set ufs" for t
  proof -
    from that obtain n where "n < length ufs" "fst (ufs ! n) = t" by (metis (no_types, lifting) imageE in_set_conv_nth)
    with branch_index_nth[OF d] c[of "fst (ufs ! n)" "snd (ufs ! n)"] show ?thesis by (metis nth_mem prod.collapse)
  qed
  have wf: "wf_arr ?a"
  proof -
    have "list_all wf_arr (map child ufs)" using c by (auto simp: list_all_iff reads_as_def)
    moreover have "map arr_type (map child ufs) = map (field_type \<circ> snd) ufs" using c by (auto simp: reads_as_def)
    moreover have "list_all2 (\<lambda>t off. \<exists>n < length ufs. fst (ufs ! n) = t \<and> off < arr_len (map child ufs ! n)) ts os"
      using slots by (rule list_all2_mono) (use at reads_asD(2) in fastforce)
    ultimately show ?thesis using d by simp
  qed
  have vals: "arr_values ?a = map (\<lambda>(t, off). VUnion t (vals t ! off)) (zip ts os)"
  proof -
    have "map arr_values (map child ufs) ! branch_index ufs t ! off = vals t ! off" if "t \<in> fst ` set ufs" for t off
      using at[OF that] by (auto simp: reads_as_def)
    with slots show ?thesis by (fastforce simp: Let_def list_all2_iff)
  qed
  have "dense_union K ufs populated ts os = Inr ?a"
    using contract_union[OF K wf] by (simp add: dense_union_def Let_def child_def)
  moreover have "reads_as ?a (Union ufs) (map (\<lambda>(t, off). VUnion t (vals t ! off)) (zip ts os))"
    using wf vals list_all2_lengthD[OF slots] by (simp add: reads_as_def split_def)
  ultimately show ?thesis by blast
qed

end
