(* ===== verification/ObjectsProps.thy ===== *)
theory ObjectsProps
  imports Objects NestedProps
begin

text \<open>
  What \<^verbatim>\<open>get_objects\<close> returns: the hash-grouped assembly is the direct selection from the rows of
  \<^verbatim>\<open>INFORMATION_SCHEMA\<close>, the pushed-down patterns change neither the listing nor reach the SQL text, and the nested
  batch reads back as the listing cut at the requested depth.
\<close>

section \<open>Rows\<close>

text \<open>The rows of the six queries, and the batches that carry them.\<close>

type_synonym table_row = "rstring \<times> rstring \<times> rstring"
type_synonym column_row = "rstring \<times> rstring \<times> rstring \<times> int \<times> rstring \<times> rstring"
type_synonym constraint_row = "rstring \<times> rstring \<times> rstring \<times> rstring"
type_synonym key_row = "rstring \<times> rstring \<times> key_column_row"
type_synonym referential_row = "(rstring \<times> rstring) \<times> rstring \<times> rstring"

record info_rows =
  r_schemata :: "rstring list"
  r_tables :: "table_row list option"
  r_columns :: "column_row list option"
  r_constraints :: "constraint_row list option"
  r_keys :: "key_row list option"
  r_referential :: "referential_row list option"

definition row_batches :: "info_rows \<Rightarrow> object_batches" where
  "row_batches R =
     \<lparr>b_schemata = [string_array (r_schemata R)],
      b_tables = map_option (\<lambda>T. [string_array (map (\<lambda>(s, t, y). s) T), string_array (map (\<lambda>(s, t, y). t) T),
        string_array (map (\<lambda>(s, t, y). y) T)]) (r_tables R),
      b_columns = map_option (\<lambda>C. [string_array (map (\<lambda>(s, t, n, i, u, y). s) C), string_array (map (\<lambda>(s, t, n, i, u, y). t) C),
        string_array (map (\<lambda>(s, t, n, i, u, y). n) C), FlatArr Int64 (map (\<lambda>(s, t, n, i, u, y). Some (CInt i)) C),
        string_array (map (\<lambda>(s, t, n, i, u, y). u) C), string_array (map (\<lambda>(s, t, n, i, u, y). y) C)]) (r_columns R),
      b_constraints = map_option (\<lambda>C. [string_array (map (\<lambda>(s, t, n, y). s) C), string_array (map (\<lambda>(s, t, n, y). t) C),
        string_array (map (\<lambda>(s, t, n, y). n) C), string_array (map (\<lambda>(s, t, n, y). y) C)]) (r_constraints R),
      b_key_columns = map_option (\<lambda>C. [string_array (map (\<lambda>(s, n, k). s) C), string_array (map (\<lambda>(s, n, k). n) C),
        string_array (map (\<lambda>(s, n, k). k_table_schema k) C), string_array (map (\<lambda>(s, n, k). k_table k) C),
        string_array (map (\<lambda>(s, n, k). k_column k) C), string_array (map (\<lambda>(s, n, k). k_ordinal k) C),
        string_opt_array (map (\<lambda>(s, n, k). k_position k) C)]) (r_keys R),
      b_referential = map_option (\<lambda>C. [string_array (map (fst \<circ> fst) C), string_array (map (snd \<circ> fst) C),
        string_array (map (fst \<circ> snd) C), string_array (map (snd \<circ> snd) C)]) (r_referential R)\<rparr>"

section \<open>The listing, by direct selection\<close>

definition rows_of :: "'a list option \<Rightarrow> 'a list" where
  "rows_of r = (case r of None \<Rightarrow> [] | Some xs \<Rightarrow> xs)"

definition accepts :: "rstring option \<Rightarrow> rstring \<Rightarrow> bool" where
  "accepts pat v \<longleftrightarrow> (case pat of None \<Rightarrow> True | Some p \<Rightarrow> like_spec p v)"

definition key_rows :: "info_rows \<Rightarrow> rstring \<times> rstring \<Rightarrow> key_column_row list" where
  "key_rows R c = [k. (s, n, k) \<leftarrow> rows_of (r_keys R), (s, n) = c]"

definition fk_usages :: "info_rows \<Rightarrow> rstring \<Rightarrow> rstring \<Rightarrow> usage list" where
  "fk_usages R s n =
     (case map_of (rows_of (r_referential R)) (s, n) of
        None \<Rightarrow> []
      | Some unique \<Rightarrow>
          List.map_filter (\<lambda>(_, p).
              map_option (\<lambda>k. \<lparr>u_db_schema = k_table_schema k, u_table = k_table k, u_column = k_column k\<rparr>)
                (find (\<lambda>k. parse_i64 (k_ordinal k) = Some p) (rev (key_rows R unique))))
            (sort_key fst (List.map_filter (\<lambda>k.
                Option.bind (parse_i64 (k_ordinal k)) (\<lambda>o'.
                Option.bind (k_position k) (\<lambda>t. map_option (Pair o') (parse_i64 t)))) (key_rows R (s, n)))))"

definition list_columns :: "info_rows \<Rightarrow> object_filters \<Rightarrow> rstring \<Rightarrow> rstring \<Rightarrow> obj_column list" where
  "list_columns R F s t =
     [\<lparr>col_name = n, ordinal = word_of_int i, col_nullable = eq_ignore_ascii_case u (lit ''YES''), type_name = ct\<rparr>.
        (s', t', n, i, u, ct) \<leftarrow> rows_of (r_columns R), (s', t') = (s, t) \<and> accepts (f_column_name F) n]"

definition list_constraints :: "info_rows \<Rightarrow> rstring \<Rightarrow> rstring \<Rightarrow> constraint list" where
  "list_constraints R s t =
     [\<lparr>cons_name = Some n, constraint_type = ct, cons_columns = map k_column (key_rows R (s, n)),
       usages = (if ct = lit ''FOREIGN KEY'' then fk_usages R s n else [])\<rparr>.
        (s', t', n, ct) \<leftarrow> rows_of (r_constraints R), (s', t') = (s, t)]"

definition list_tables :: "info_rows \<Rightarrow> object_filters \<Rightarrow> rstring \<Rightarrow> obj_table list" where
  "list_tables R F s =
     [\<lparr>tbl_name = t, table_type = y, tbl_columns = list_columns R F s t, constraints = list_constraints R s t\<rparr>.
        (s', t, y) \<leftarrow> rows_of (r_tables R),
        s' = s \<and> accepts (f_table_name F) t \<and> (case f_table_type F of None \<Rightarrow> True | Some ys \<Rightarrow> y \<in> set ys)]"

definition listing :: "info_rows \<Rightarrow> object_filters \<Rightarrow> db_schema list" where
  "listing R F = [\<lparr>sch_name = s, tables = list_tables R F s\<rparr>. s \<leftarrow> r_schemata R, accepts (f_db_schema F) s]"

section \<open>Groups\<close>

lemma bucket_push: "bucket (push_group k v m) k' = (if k' = k then bucket m k @ [v] else bucket m k')"
  by (simp add: bucket_def push_group_def)

lemma bucket_fold_push:
  "bucket (fold (\<lambda>r. push_group (key r) (val r)) rs m) k = bucket m k @ map val (filter (\<lambda>r. key r = k) rs)"
  by (induction rs arbitrary: m) (auto simp: bucket_push)

lemma bucket_group_by_key: "bucket (group_by_key n key val) k = map val (filter (\<lambda>r. key r = k) [0..<n])"
  unfolding group_by_key_def by (simp add: bucket_fold_push bucket_def[of Map.empty])

lemma select_nth:
  "map (\<lambda>r. f (xs ! r)) (filter (\<lambda>r. P (xs ! r)) [0..<length xs]) = map f (filter P xs)"
proof -
  have "filter P xs = map (\<lambda>r. xs ! r) (filter (\<lambda>r. P (xs ! r)) [0..<length xs])"
    by (metis (no_types, lifting) comp_apply filter_cong filter_map map_nth)
  then show ?thesis by (simp add: comp_def)
qed

lemma bucket_group_list:
  assumes "\<And>r. r < length xs \<Longrightarrow> key r = kf (xs ! r)" and "\<And>r. r < length xs \<Longrightarrow> val r = vf (xs ! r)"
  shows "bucket (group_by_key (length xs) key val) k = map vf (filter (\<lambda>x. kf x = k) xs)"
proof -
  have "filter (\<lambda>r. key r = k) [0..<length xs] = filter (\<lambda>r. kf (xs ! r) = k) [0..<length xs]"
    using assms(1) by (intro filter_cong) auto
  then have "map val (filter (\<lambda>r. key r = k) [0..<length xs]) = map (\<lambda>r. vf (xs ! r)) (filter (\<lambda>r. kf (xs ! r) = k) [0..<length xs])"
    using assms(2) by (intro map_cong) auto
  then show ?thesis by (simp add: bucket_group_by_key select_nth[of vf xs "\<lambda>x. kf x = k"])
qed

lemma utf8_value_simps [simp]: "utf8_value (Some (CStr s)) = s" "utf8_value None = []"
  by (simp_all add: utf8_value_def)

lemma int_value_simps [simp]: "int_value (Some (CInt i)) = i"
  by (simp add: int_value_def)

lemma str_col_string_array [simp]:
  "n < length b \<Longrightarrow> b ! n = string_array ss \<Longrightarrow> str_col b n = Inr (map (\<lambda>s. Some (CStr s)) ss)"
  "n < length b \<Longrightarrow> b ! n = string_opt_array os \<Longrightarrow> str_col b n = Inr (map (map_option CStr) os)"
  by (simp_all add: str_col_def string_array_def string_opt_array_def)

lemma arr_len_strings [simp]: "arr_len (string_array ss) = length ss" "arr_len (string_opt_array os) = length os"
  by (simp_all add: string_array_def string_opt_array_def)

text \<open>The groups of each batch are the selections from its rows.\<close>

lemma group_tables_rows:
  "\<exists>m. group_tables [string_array (map (\<lambda>(s, t, y). s) T), string_array (map (\<lambda>(s, t, y). t) T),
        string_array (map (\<lambda>(s, t, y). y) T)] = Inr m \<and>
     (\<forall>s. bucket m s = [(t, y). (s', t, y) \<leftarrow> T, s' = s])"
proof -
  have sel: "[(t, y). (s', t, y) \<leftarrow> T, s' = s] = map snd (filter (\<lambda>x. fst x = s) T)" for s
    by (induction T) auto
  show ?thesis
    unfolding sel group_tables_def
    by (simp add: batch_rows_def numeral_2_eq_2)
      (intro allI bucket_group_list, auto simp: split_def)
qed

lemma group_columns_rows:
  "\<exists>m. group_columns [string_array (map (\<lambda>(s, t, n, i, u, y). s) C), string_array (map (\<lambda>(s, t, n, i, u, y). t) C),
        string_array (map (\<lambda>(s, t, n, i, u, y). n) C), FlatArr Int64 (map (\<lambda>(s, t, n, i, u, y). Some (CInt i)) C),
        string_array (map (\<lambda>(s, t, n, i, u, y). u) C), string_array (map (\<lambda>(s, t, n, i, u, y). y) C)] = Inr m \<and>
     (\<forall>k. bucket m k =
        [\<lparr>col_name = n, ordinal = word_of_int i, col_nullable = eq_ignore_ascii_case u (lit ''YES''), type_name = ct\<rparr>.
           (s', t', n, i, u, ct) \<leftarrow> C, (s', t') = k])"
proof -
  let ?v = "\<lambda>(s, t, n, i, u, ct). \<lparr>col_name = n, ordinal = word_of_int i,
      col_nullable = eq_ignore_ascii_case u (lit ''YES''), type_name = ct\<rparr>"
  have sel: "[?v (s', t', n, i, u, ct). (s', t', n, i, u, ct) \<leftarrow> C, (s', t') = k] =
      map ?v (filter (\<lambda>x. (fst x, fst (snd x)) = k) C)" for k
    by (induction C) auto
  show ?thesis
    unfolding sel[unfolded split_conv] group_columns_def int64_column_def
    by (simp add: batch_rows_def eval_nat_numeral del: split_paired_All)
      (intro allI bucket_group_list, auto simp: split_def)
qed

lemma group_constraints_rows:
  "\<exists>m. group_constraints [string_array (map (\<lambda>(s, t, n, y). s) C), string_array (map (\<lambda>(s, t, n, y). t) C),
        string_array (map (\<lambda>(s, t, n, y). n) C), string_array (map (\<lambda>(s, t, n, y). y) C)] = Inr m \<and>
     (\<forall>k. bucket m k = [(n, ct). (s', t', n, ct) \<leftarrow> C, (s', t') = k])"
proof -
  have sel: "[(n, ct). (s', t', n, ct) \<leftarrow> C, (s', t') = k] =
      map (\<lambda>x. snd (snd x)) (filter (\<lambda>x. (fst x, fst (snd x)) = k) C)" for k
    by (induction C) auto
  show ?thesis
    unfolding sel group_constraints_def
    by (simp add: batch_rows_def eval_nat_numeral del: split_paired_All)
      (intro allI bucket_group_list, auto simp: split_def)
qed

lemma group_key_columns_rows:
  "\<exists>m. group_key_columns [string_array (map (\<lambda>(s, n, k). s) C), string_array (map (\<lambda>(s, n, k). n) C),
        string_array (map (\<lambda>(s, n, k). k_table_schema k) C), string_array (map (\<lambda>(s, n, k). k_table k) C),
        string_array (map (\<lambda>(s, n, k). k_column k) C), string_array (map (\<lambda>(s, n, k). k_ordinal k) C),
        string_opt_array (map (\<lambda>(s, n, k). k_position k) C)] = Inr m \<and>
     (\<forall>c. bucket m c = [k. (s, n, k) \<leftarrow> C, (s, n) = c])"
proof -
  have sel: "[k. (s, n, k) \<leftarrow> C, (s, n) = c] = map (\<lambda>x. snd (snd x)) (filter (\<lambda>x. (fst x, fst (snd x)) = c) C)" for c
    by (induction C) auto
  have pos: "(if map_option CStr p = None then None else Some (utf8_value (map_option CStr p))) = p" for p
    by (cases p) auto
  show ?thesis
    unfolding sel group_key_columns_def
    by (simp add: batch_rows_def eval_nat_numeral del: split_paired_All)
      (intro allI bucket_group_list, auto simp: split_def pos simp del: map_option_is_None)
qed

lemma fold_first_wins:
  "fold (\<lambda>r m. let k = key r in if m k = None then m(k \<mapsto> val r) else m) rs m k =
     (case m k of Some v \<Rightarrow> Some v | None \<Rightarrow> map_of (map (\<lambda>r. (key r, val r)) rs) k)"
  by (induction rs arbitrary: m) (auto simp: Let_def split: option.splits)

lemma group_referential_rows:
  "group_referential [string_array (map (fst \<circ> fst) C), string_array (map (snd \<circ> fst) C),
     string_array (map (fst \<circ> snd) C), string_array (map (snd \<circ> snd) C)] = Inr (map_of C)"
proof -
  have "map (\<lambda>r. ((utf8_value (map (\<lambda>s. Some (CStr s)) (map (fst \<circ> fst) C) ! r),
                  utf8_value (map (\<lambda>s. Some (CStr s)) (map (snd \<circ> fst) C) ! r)),
                 utf8_value (map (\<lambda>s. Some (CStr s)) (map (fst \<circ> snd) C) ! r),
                 utf8_value (map (\<lambda>s. Some (CStr s)) (map (snd \<circ> snd) C) ! r))) [0..<length C] = C"
    by (rule nth_equalityI) auto
  then show ?thesis
    unfolding group_referential_def
    by (simp add: batch_rows_def eval_nat_numeral fold_first_wins fun_eq_iff del: map_map split_paired_All)
qed

section \<open>The grouped assembly is the direct selection\<close>

lemma rejected_by_accepts [simp]: "rejected_by pat v \<longleftrightarrow> \<not> accepts pat v"
  by (simp add: rejected_by_def accepts_def like_match_spec split: option.split)

lemma map_filter_rev: "List.map_filter f (rev xs) = rev (List.map_filter f xs)"
  by (simp add: List.map_filter_def rev_map rev_filter)

lemma map_of_map_filter:
  "map_of (List.map_filter (\<lambda>k. map_option (\<lambda>o'. (o', k)) (g k)) xs) p = find (\<lambda>k. g k = Some p) xs"
  by (induction xs) (auto simp: map_filter_simps split: option.splits)

lemma foreign_key_usages_rows:
  assumes "\<And>c. bucket kc c = key_rows R c" and "ref = map_of (rows_of (r_referential R))"
  shows "foreign_key_usages kc ref s n = fk_usages R s n"
proof -
  have pos: "(\<lambda>k. case parse_i64 (k_ordinal k) of None \<Rightarrow> None
      | Some o' \<Rightarrow> (case k_position k of None \<Rightarrow> None | Some p \<Rightarrow> map_option (\<lambda>q. (o', q)) (parse_i64 p))) =
    (\<lambda>k. Option.bind (parse_i64 (k_ordinal k)) (\<lambda>o'.
            Option.bind (k_position k) (\<lambda>t. map_option (Pair o') (parse_i64 t))))"
    by (rule ext) (auto split: option.split)
  show ?thesis
    unfolding foreign_key_usages_def fk_usages_def assms pos Let_def map_filter_rev[symmetric] map_of_map_filter ..
qed

lemma grouped_tables:
  "\<exists>m. group_opt (b_tables (row_batches R)) group_tables = Inr m \<and>
     (\<forall>s. bucket m s = [(t, y). (s', t, y) \<leftarrow> rows_of (r_tables R), s' = s])"
  using group_tables_rows
  by (cases "r_tables R") (simp_all add: row_batches_def group_opt_def rows_of_def bucket_def[of Map.empty])

lemma grouped_columns:
  "\<exists>m. group_opt (b_columns (row_batches R)) group_columns = Inr m \<and>
     (\<forall>k. bucket m k =
        [\<lparr>col_name = n, ordinal = word_of_int i, col_nullable = eq_ignore_ascii_case u (lit ''YES''), type_name = ct\<rparr>.
           (s', t', n, i, u, ct) \<leftarrow> rows_of (r_columns R), (s', t') = k])"
  using group_columns_rows
  by (cases "r_columns R") (simp_all add: row_batches_def group_opt_def rows_of_def bucket_def[of Map.empty] del: split_paired_All)

lemma grouped_constraints:
  "\<exists>m. group_opt (b_constraints (row_batches R)) group_constraints = Inr m \<and>
     (\<forall>k. bucket m k = [(n, ct). (s', t', n, ct) \<leftarrow> rows_of (r_constraints R), (s', t') = k])"
  using group_constraints_rows
  by (cases "r_constraints R")
    (simp_all add: row_batches_def group_opt_def rows_of_def bucket_def[of Map.empty] del: split_paired_All)

lemma grouped_keys:
  "\<exists>m. group_opt (b_key_columns (row_batches R)) group_key_columns = Inr m \<and> (\<forall>c. bucket m c = key_rows R c)"
  using group_key_columns_rows
  by (cases "r_keys R")
    (simp_all add: row_batches_def group_opt_def rows_of_def key_rows_def bucket_def[of Map.empty] del: split_paired_All)

lemma grouped_referential:
  "group_opt (b_referential (row_batches R)) group_referential = Inr (map_of (rows_of (r_referential R)))"
  using group_referential_rows
  by (cases "r_referential R") (simp_all add: row_batches_def group_opt_def rows_of_def)

lemma collect_columns_rows:
  assumes "\<And>k. bucket m k =
        [\<lparr>col_name = n, ordinal = word_of_int i, col_nullable = eq_ignore_ascii_case u (lit ''YES''), type_name = ct\<rparr>.
           (s', t', n, i, u, ct) \<leftarrow> rows_of (r_columns R), (s', t') = k]"
  shows "collect_columns m s t (f_column_name F) = list_columns R F s t"
proof -
  have "filter (\<lambda>c. accepts pat (col_name c))
        [\<lparr>col_name = n, ordinal = word_of_int i, col_nullable = eq_ignore_ascii_case u (lit ''YES''), type_name = ct\<rparr>.
           (s', t', n, i, u, ct) \<leftarrow> C, (s', t') = k] =
        [\<lparr>col_name = n, ordinal = word_of_int i, col_nullable = eq_ignore_ascii_case u (lit ''YES''), type_name = ct\<rparr>.
           (s', t', n, i, u, ct) \<leftarrow> C, (s', t') = k \<and> accepts pat n]" for pat C k
    by (induction C) auto
  then show ?thesis
    unfolding collect_columns_def assms list_columns_def rejected_by_accepts not_not .
qed

lemma collect_constraints_rows:
  assumes "\<And>k. bucket m k = [(n, ct). (s', t', n, ct) \<leftarrow> rows_of (r_constraints R), (s', t') = k]"
    and "\<And>c. bucket kc c = key_rows R c" and "ref = map_of (rows_of (r_referential R))"
  shows "collect_constraints m kc ref s t = list_constraints R s t"
proof -
  have "map (\<lambda>(n, ct). f n ct) [(n, ct). (s', t', n, ct) \<leftarrow> C, (s', t') = k] = [f n ct. (s', t', n, ct) \<leftarrow> C, (s', t') = k]"
    for C k and f :: "rstring \<Rightarrow> rstring \<Rightarrow> constraint"
    by (induction C) auto
  then show ?thesis
    unfolding collect_constraints_def assms(1) foreign_key_usages_rows[OF assms(2,3)] assms(2) list_constraints_def .
qed

lemma select_tables:
  "concat (map (\<lambda>(n, y). if \<not> A n then [] else if B y then [] else [f n y]) [(t, y). (s', t, y) \<leftarrow> T, s' = s]) =
     [f t y. (s', t, y) \<leftarrow> T, s' = s \<and> A t \<and> \<not> B y]"
  by (induction T) auto

lemma assembled_listing: "assemble_objects (row_batches R) F = Inr (listing R F)"
proof -
  obtain mt where mt: "group_opt (b_tables (row_batches R)) group_tables = Inr mt"
    "\<And>s. bucket mt s = [(t, y). (s', t, y) \<leftarrow> rows_of (r_tables R), s' = s]" using grouped_tables by metis
  obtain mc where mc: "group_opt (b_columns (row_batches R)) group_columns = Inr mc"
    "\<And>k. bucket mc k =
        [\<lparr>col_name = n, ordinal = word_of_int i, col_nullable = eq_ignore_ascii_case u (lit ''YES''), type_name = ct\<rparr>.
           (s', t', n, i, u, ct) \<leftarrow> rows_of (r_columns R), (s', t') = k]" using grouped_columns by metis
  obtain ms where ms: "group_opt (b_constraints (row_batches R)) group_constraints = Inr ms"
    "\<And>k. bucket ms k = [(n, ct). (s', t', n, ct) \<leftarrow> rows_of (r_constraints R), (s', t') = k]"
    using grouped_constraints by metis
  obtain mk where mk: "group_opt (b_key_columns (row_batches R)) group_key_columns = Inr mk"
    "\<And>c. bucket mk c = key_rows R c" using grouped_keys by metis
  have names: "str_col (b_schemata (row_batches R)) 0 = Inr (map (\<lambda>s. Some (CStr s)) (r_schemata R))"
    "batch_rows (b_schemata (row_batches R)) = length (r_schemata R)"
    by (simp_all add: row_batches_def batch_rows_def)
  have types: "\<not> (case f_table_type F of None \<Rightarrow> False | Some types \<Rightarrow> y \<notin> set types) \<longleftrightarrow>
      (case f_table_type F of None \<Rightarrow> True | Some types \<Rightarrow> y \<in> set types)" for y
    by (cases "f_table_type F") auto
  show ?thesis
    unfolding assemble_objects_def names mt(1) mc(1) ms(1) mk(1) grouped_referential try_bind_simps
      collect_columns_rows[OF mc(2)] collect_constraints_rows[OF ms(2) mk(2) refl] mt(2) Let_def rejected_by_accepts
      select_tables types listing_def list_tables_def
    by (rule arg_cong[of _ _ Inr], rule arg_cong[of _ _ concat], rule nth_equalityI) (simp_all cong: if_cong)
qed

text \<open>
  The single-pass, hash-grouped assembly of \<^verbatim>\<open>get_objects\<close> is the direct selection from the rows of the six
  \<^verbatim>\<open>INFORMATION_SCHEMA\<close> queries: every schema row that matches the schema pattern, in order; in it every table row of
  that schema that matches the table pattern and the type list; in that its matching columns and all its
  constraints, each with its key columns and, for a foreign key, the referenced columns.
\<close>

theorem assembly_is_selection: "assemble_objects (row_batches R) F = Inr (listing R F)"
  by (rule assembled_listing)

section \<open>Pushed-down patterns\<close>

text \<open>GoogleSQL documents \<^verbatim>\<open>LIKE\<close> with the two wildcards and the backslash as escape.\<close>

definition google_like :: "(rstring \<Rightarrow> rstring \<Rightarrow> bool) \<Rightarrow> bool" where
  "google_like slike \<longleftrightarrow>
     (\<forall>v. slike [] v \<longleftrightarrow> v = []) \<and>
     (\<forall>p v. slike (37 # p) v \<longleftrightarrow> (\<exists>k \<le> length v. slike p (drop k v))) \<and>
     (\<forall>p v. slike (95 # p) v \<longleftrightarrow> v \<noteq> [] \<and> slike p (tl v)) \<and>
     (\<forall>c p v. slike (92 # c # p) v \<longleftrightarrow> v \<noteq> [] \<and> hd v = c \<and> slike p (tl v)) \<and>
     (\<forall>c p v. c \<notin> {37, 95, 92} \<longrightarrow> (slike (c # p) v \<longleftrightarrow> v \<noteq> [] \<and> hd v = c \<and> slike p (tl v)))"

lemma sql_like_pattern_simps [simp]:
  "sql_like_pattern [] = []"
  "sql_like_pattern (c # p) = (if c = 92 then 92 # 92 # sql_like_pattern p else c # sql_like_pattern p)"
  by (simp_all add: sql_like_pattern_def)

lemma like_spec_Cons:
  "c \<noteq> 37 \<Longrightarrow> like_spec (c # p) v \<longleftrightarrow> v \<noteq> [] \<and> (c = 95 \<or> hd v = c) \<and> like_spec p (tl v)"
  by (cases v) auto

lemma escaped_pattern_exact:
  assumes "google_like slike"
  shows "slike (sql_like_pattern p) v \<longleftrightarrow> like_spec p v"
proof (induction p arbitrary: v)
  case Nil
  then show ?case using assms by (simp add: google_like_def)
next
  case (Cons c p)
  consider "c = 37" | "c = 95" | "c = 92" | "c \<notin> {37, 95, 92}" by blast
  then show ?case
  proof cases
    case 1
    then show ?thesis using assms Cons.IH by (simp add: google_like_def like_spec_percent)
  qed (use assms Cons.IH in \<open>auto simp: google_like_def like_spec_Cons\<close>)
qed

definition keeps :: "(rstring \<Rightarrow> rstring \<Rightarrow> bool) \<Rightarrow> rstring option \<Rightarrow> rstring \<Rightarrow> bool" where
  "keeps slike pat v = (case pat of None \<Rightarrow> True | Some p \<Rightarrow> slike (sql_like_pattern p) v)"

text \<open>The rows the server returns when the patterns are pushed into the queries.\<close>

definition pushed :: "(rstring \<Rightarrow> rstring \<Rightarrow> bool) \<Rightarrow> object_filters \<Rightarrow> info_rows \<Rightarrow> info_rows" where
  "pushed slike F R =
     R\<lparr>r_schemata := filter (keeps slike (f_db_schema F)) (r_schemata R),
       r_tables := map_option (filter (\<lambda>(s, t, y). keeps slike (f_db_schema F) s \<and> keeps slike (f_table_name F) t)) (r_tables R),
       r_columns := map_option (filter (\<lambda>(s, t, n, i, u, y). keeps slike (f_db_schema F) s \<and> keeps slike (f_table_name F) t \<and>
         keeps slike (f_column_name F) n)) (r_columns R),
       r_constraints := map_option (filter (\<lambda>(s, t, n, y). keeps slike (f_db_schema F) s \<and> keeps slike (f_table_name F) t))
         (r_constraints R)\<rparr>"

lemma keeps_accepts: "google_like slike \<Longrightarrow> keeps slike pat v = accepts pat v"
  by (simp add: keeps_def accepts_def escaped_pattern_exact split: option.split)

lemma concat_filter_guard:
  assumes "\<And>x. x \<in> set xs \<Longrightarrow> \<not> P x \<Longrightarrow> f x = []"
  shows "concat (map f (filter P xs)) = concat (map f xs)"
  using assms by (induction xs) auto

lemma rows_of_filter: "rows_of (map_option (filter P) r) = filter P (rows_of r)"
  by (simp add: rows_of_def split: option.split)

lemma pushed_keys [simp]: "key_rows (pushed slike F R) = key_rows R" "fk_usages (pushed slike F R) = fk_usages R"
proof -
  show k: "key_rows (pushed slike F R) = key_rows R" by (rule ext) (simp add: key_rows_def pushed_def)
  have "r_referential (pushed slike F R) = r_referential R" by (simp add: pushed_def)
  then show "fk_usages (pushed slike F R) = fk_usages R" by (intro ext) (simp only: fk_usages_def k)
qed

lemma pushed_columns:
  assumes "google_like slike" and "accepts (f_db_schema F) s" and "accepts (f_table_name F) t"
  shows "list_columns (pushed slike F R) F s t = list_columns R F s t"
proof -
  have "rows_of (r_columns (pushed slike F R)) =
      filter (\<lambda>(s, t, n, i, u, y). accepts (f_db_schema F) s \<and> accepts (f_table_name F) t \<and> accepts (f_column_name F) n)
        (rows_of (r_columns R))"
    by (simp add: pushed_def rows_of_filter keeps_accepts[OF assms(1)])
  then show ?thesis unfolding list_columns_def
    using assms(2,3) by (simp only:) (rule concat_filter_guard, auto split: if_splits)
qed

lemma pushed_constraints:
  assumes "google_like slike" and "accepts (f_db_schema F) s" and "accepts (f_table_name F) t"
  shows "list_constraints (pushed slike F R) s t = list_constraints R s t"
proof -
  have "rows_of (r_constraints (pushed slike F R)) =
      filter (\<lambda>(s, t, n, y). accepts (f_db_schema F) s \<and> accepts (f_table_name F) t) (rows_of (r_constraints R))"
    by (simp add: pushed_def rows_of_filter keeps_accepts[OF assms(1)])
  then show ?thesis unfolding list_constraints_def pushed_keys
    using assms(2,3) by (simp only:) (rule concat_filter_guard, auto split: if_splits)
qed

lemma pushed_tables:
  assumes "google_like slike" and "accepts (f_db_schema F) s"
  shows "list_tables (pushed slike F R) F s = list_tables R F s"
proof -
  have "rows_of (r_tables (pushed slike F R)) =
      filter (\<lambda>(s, t, y). accepts (f_db_schema F) s \<and> accepts (f_table_name F) t) (rows_of (r_tables R))"
    by (simp add: pushed_def rows_of_filter keeps_accepts[OF assms(1)])
  then have "list_tables (pushed slike F R) F s =
      [\<lparr>tbl_name = t, table_type = y, tbl_columns = list_columns (pushed slike F R) F s t,
         constraints = list_constraints (pushed slike F R) s t\<rparr>.
        (s', t, y) \<leftarrow> rows_of (r_tables R),
        s' = s \<and> accepts (f_table_name F) t \<and> (case f_table_type F of None \<Rightarrow> True | Some ys \<Rightarrow> y \<in> set ys)]"
    unfolding list_tables_def using assms(2) by (simp only:) (rule concat_filter_guard, auto split: if_splits)
  also have "\<dots> = list_tables R F s"
    unfolding list_tables_def
    by (rule arg_cong[of _ _ concat], rule map_cong[OF refl])
       (auto simp: pushed_columns[OF assms] pushed_constraints[OF assms])
  finally show ?thesis .
qed


text \<open>A matcher with the documented rules, and a listing by a schema pattern with a backslash and a wildcard.\<close>

fun documented_like :: "rstring \<Rightarrow> rstring \<Rightarrow> bool" where
  "documented_like [] v = (v = [])"
| "documented_like (c # p) v =
     (if c = 37 then list_ex (\<lambda>k. documented_like p (drop k v)) [0..<Suc (length v)]
      else if c = 95 then v \<noteq> [] \<and> documented_like p (tl v)
      else if c = 92 then (case p of [] \<Rightarrow> False | d # q \<Rightarrow> v \<noteq> [] \<and> hd v = d \<and> documented_like q (tl v))
      else v \<noteq> [] \<and> hd v = c \<and> documented_like p (tl v))"

lemma list_ex_upto: "list_ex P [0..<Suc n] \<longleftrightarrow> (\<exists>k \<le> n. P k)"
  by (auto simp: list_ex_iff less_Suc_eq_le simp del: upt_Suc)

lemma documented_like_ok: "google_like documented_like"
  by (auto simp: google_like_def list_ex_upto simp del: upt_Suc)


section \<open>No pattern in the text of a statement\<close>

definition blank :: "rstring option \<Rightarrow> rstring option" where
  "blank = map_option (\<lambda>_. [])"

definition blank_patterns :: "object_filters \<Rightarrow> object_filters" where
  "blank_patterns F =
     F\<lparr>f_db_schema := blank (f_db_schema F), f_table_name := blank (f_table_name F), f_column_name := blank (f_column_name F)\<rparr>"

definition statement_shape :: "'v spanner_sql \<Rightarrow> rstring \<times> builder \<times> rstring list" where
  "statement_shape s = (sql_text s, calls s, map fst (params s))"

lemma filter_loop_shape:
  assumes "map fst ps = map fst ps'"
  shows "fst (filter_loop (map (\<lambda>(c, p). (c, blank p)) fs) q n ps') = fst (filter_loop fs q n ps) \<and>
    map fst (snd (filter_loop (map (\<lambda>(c, p). (c, blank p)) fs) q n ps')) = map fst (snd (filter_loop fs q n ps))"
  using assms
proof (induction fs q n ps arbitrary: ps' rule: filter_loop.induct)
  case (3 col pat fs q n ps)
  have "length ps' = length ps" using 3(2) by (metis length_map)
  with 3 show ?case by (simp add: blank_def Let_def)
qed (simp_all add: blank_def)

lemma filter_loop_values:
  "set (map snd (snd (filter_loop fs q n ps))) = set (map snd ps) \<union> {sql_like_pattern p |p c. (c, Some p) \<in> set fs}"
  by (induction fs q n ps rule: filter_loop.induct) (auto simp: Let_def)

lemma filtered_query_shape:
  "map_sum id statement_shape (filtered_query tv c base bp (map (\<lambda>(c, p). (c, blank p)) fs) ob) =
   map_sum id statement_shape (filtered_query tv c base bp fs ob)"
  using filter_loop_shape[of "[]" "[]" fs]
  by (cases "metadata_sql_builder c"; cases bp)
     (simp_all add: filtered_query_def filtered_sql_def statement_shape_def ok_or_def split_def comp_def Let_def split: option.split)

lemma filtered_query_values:
  assumes "filtered_query tv c base bp fs ob = Inr q"
  shows "set (map snd (params q)) = {tv (sql_like_pattern p) |p n. (n, Some p) \<in> set fs}"
proof -
  obtain q0 n where "params q = map (\<lambda>(n, v). (n, tv v)) (snd (filter_loop fs q0 n []))"
    using assms by (cases bp) (auto simp: filtered_query_def filtered_sql_def res_simps split_def Let_def)
  then have "set (map snd (params q)) = tv ` set (map snd (snd (filter_loop fs q0 n [])))"
    by (force simp: split_def)
  then show ?thesis unfolding filter_loop_values by auto
qed

text \<open>
  A user's patterns are data, never SQL: the text, the request options and the parameter names of every
  statement of a listing are the same when each pattern is replaced by an empty one, and its parameter values
  are exactly the escaped patterns.
\<close>

theorem patterns_never_reach_sql:
  "map (map_sum id statement_shape) (object_statements tv c depth (blank_patterns F)) =
     map (map_sum id statement_shape) (object_statements tv c depth F) \<and>
   set (concat (map (case_sum (\<lambda>_. []) (map snd \<circ> params)) (object_statements tv c depth F)))
     \<subseteq> {tv (sql_like_pattern p) |p. Some p \<in> {f_db_schema F, f_table_name F, f_column_name F}}"
proof
  let ?D = "f_db_schema F" and ?T = "f_table_name F" and ?C = "f_column_name F"
  note shapes = filtered_query_shape[of tv c _ _ "[(a, ?D)]" for a] filtered_query_shape[of tv c _ _ "[(a, ?D), (b, ?T)]" for a b]
    filtered_query_shape[of tv c _ _ "[(a, ?D), (b, ?T), (d, ?C)]" for a b d]
  show "map (map_sum id statement_shape) (object_statements tv c depth (blank_patterns F)) =
      map (map_sum id statement_shape) (object_statements tv c depth F)"
    using shapes by (simp add: object_statements_def blank_patterns_def Let_def)
  have plain: "Inr q = try_bind (ok_or panicked (metadata_sql_builder c)) (\<lambda>b. Inr (plain_sql b t)) \<Longrightarrow> params q = []" for t q
    by (cases "metadata_sql_builder c") (auto simp: plain_sql_def ok_or_def)
  have val: "Inr q = filtered_query tv c base bp fs ob \<Longrightarrow> (a, v) \<in> set (params q) \<Longrightarrow>
      \<exists>p n. (n, Some p) \<in> set fs \<and> v = tv (sql_like_pattern p)" for q base bp fs ob a v
    using filtered_query_values[of tv c base bp fs ob q] by (auto simp: set_eq_iff image_iff) (metis snd_conv)
  have "\<forall>s \<in> set (object_statements tv c depth F). \<forall>q. s = Inr q \<longrightarrow>
      set (map snd (params q)) \<subseteq> {tv (sql_like_pattern p) |p. Some p \<in> {?D, ?T, ?C}}"
    unfolding object_statements_def Let_def
    by (auto dest!: plain split: if_splits) (fastforce dest: val val[OF sym])+
  then show "set (concat (map (case_sum (\<lambda>_. []) (map snd \<circ> params)) (object_statements tv c depth F)))
      \<subseteq> {tv (sql_like_pattern p) |p. Some p \<in> {?D, ?T, ?C}}"
    by (fastforce split: sum.splits)
qed

section \<open>Foreign keys\<close>

text \<open>A key column as the driver reads it: its ordinal, and for a foreign key the ordinal it refers to.\<close>

definition key_ordinal :: "key_column_row \<Rightarrow> int option" where
  "key_ordinal k = parse_i64 (k_ordinal k)"

definition key_target :: "key_column_row \<Rightarrow> int option" where
  "key_target k = Option.bind (k_position k) parse_i64"

lemma map_filter_total: "(\<And>x. x \<in> set xs \<Longrightarrow> f x = Some (g x)) \<Longrightarrow> List.map_filter f xs = map g xs"
  by (induction xs) (auto simp: map_filter_simps)

lemma find_Some_set: "find P xs = Some x \<Longrightarrow> x \<in> set xs \<and> P x"
  by (induction xs) (auto split: if_splits)

lemma map_filter_total_all2:
  "list_all2 (\<lambda>x y. f x = Some y) xs ys \<Longrightarrow> List.map_filter f xs = ys"
  by (induction xs ys rule: list_all2_induct) (auto simp: map_filter_simps)

text \<open>
  The referenced columns of a foreign key line up with its own key columns.  When the key columns come in
  ordinal order and each names a position of the referenced key, there is one usage per key column, in the same
  order, and it is the column of the referenced key at that position.
\<close>

theorem foreign_key_columns_aligned:
  assumes "referential (schema, fk) = Some unique"
    and "\<And>k. k \<in> set (bucket kc (schema, fk)) \<Longrightarrow> key_ordinal k \<noteq> None"
    and "\<And>k. k \<in> set (bucket kc (schema, fk)) \<Longrightarrow> key_target k \<in> key_ordinal ` set (bucket kc unique) - {None}"
    and "sorted (map (\<lambda>k. the (key_ordinal k)) (bucket kc (schema, fk)))"
  shows "list_all2 (\<lambda>k u. \<exists>r \<in> set (bucket kc unique). key_ordinal r = key_target k \<and>
      u = \<lparr>u_db_schema = k_table_schema r, u_table = k_table r, u_column = k_column r\<rparr>)
    (bucket kc (schema, fk)) (foreign_key_usages kc referential schema fk)"
proof -
  let ?ks = "bucket kc (schema, fk)" and ?us = "bucket kc unique"
  let ?u = "\<lambda>r. \<lparr>u_db_schema = k_table_schema r, u_table = k_table r, u_column = k_column r\<rparr>"
  let ?find = "\<lambda>p. find (\<lambda>k. parse_i64 (k_ordinal k) = Some p) (rev ?us)"
  let ?col = "\<lambda>k. (the (key_ordinal k), the (key_target k))"
  have cols: "List.map_filter (\<lambda>k. case parse_i64 (k_ordinal k) of None \<Rightarrow> None
      | Some o' \<Rightarrow> (case k_position k of None \<Rightarrow> None | Some p \<Rightarrow> map_option (\<lambda>q. (o', q)) (parse_i64 p))) ?ks = map ?col ?ks"
    using assms(2,3) by (intro map_filter_total) (fastforce simp: key_ordinal_def key_target_def split: option.splits bind_splits)
  have sorted: "sort_key fst (map ?col ?ks) = map ?col ?ks"
    by (rule sort_key_id_if_sorted) (use assms(4) in \<open>simp add: comp_def\<close>)
  have usages: "foreign_key_usages kc referential schema fk =
      List.map_filter (\<lambda>(_, p). map_option ?u (?find p)) (map ?col ?ks)"
    unfolding foreign_key_usages_def assms(1) option.case Let_def map_filter_rev[symmetric] map_of_map_filter cols sorted ..
  have "\<exists>r \<in> set ?us. key_ordinal r = key_target k \<and> ?find (the (key_target k)) = Some r" if k: "k \<in> set ?ks" for k
  proof -
    from assms(3)[OF k] obtain r0 where r0: "r0 \<in> set ?us" "key_ordinal r0 = key_target k" "key_target k \<noteq> None" by force
    then have "?find (the (key_target k)) \<noteq> None"
      by (auto simp: find_None_iff key_ordinal_def)
    then obtain r where r: "?find (the (key_target k)) = Some r" by blast
    from find_Some_set[OF this] r0(3) have "r \<in> set ?us" "key_ordinal r = key_target k"
      by (auto simp: key_ordinal_def)
    with r show ?thesis by blast
  qed
  then obtain R where R: "\<And>k. k \<in> set ?ks \<Longrightarrow> R k \<in> set ?us \<and> key_ordinal (R k) = key_target k \<and> ?find (the (key_target k)) = Some (R k)"
    by metis
  then have "foreign_key_usages kc referential schema fk = map (\<lambda>k. ?u (R k)) ?ks"
    unfolding usages by (intro map_filter_total_all2) (auto simp: list_all2_conv_all_nth)
  with R show ?thesis by (auto simp: list_all2_conv_all_nth intro!: bexI[of _ "R k" for k])
qed

text \<open>A two-column key whose columns refer to the referenced key in the other order.\<close>

theorem foreign_key_columns_aligned_witness:
  "let row = (\<lambda>c o' p. \<lparr>k_column = lit c, k_table_schema = [], k_table = lit ''t'', k_ordinal = lit o', k_position = p\<rparr>);
       fk = [row ''x'' ''1'' (Some (lit ''2'')), row ''y'' ''2'' (Some (lit ''1''))];
       pk = [row ''a'' ''1'' None, row ''b'' ''2'' None];
       kc = [([], lit ''F'') \<mapsto> fk, ([], lit ''P'') \<mapsto> pk];
       referential = [([], lit ''F'') \<mapsto> ([], lit ''P'')]
   in map u_column (foreign_key_usages kc referential [] (lit ''F'')) = [lit ''b'', lit ''a''] \<and>
      list_all2 (\<lambda>k u. \<exists>r \<in> set pk. key_ordinal r = key_target k \<and>
          u = \<lparr>u_db_schema = k_table_schema r, u_table = k_table r, u_column = k_column r\<rparr>)
        fk (foreign_key_usages kc referential [] (lit ''F''))"
proof -
  let ?row = "\<lambda>c o' p. \<lparr>k_column = lit c, k_table_schema = [], k_table = lit ''t'', k_ordinal = lit o', k_position = p\<rparr>"
  let ?fk = "[?row ''x'' ''1'' (Some (lit ''2'')), ?row ''y'' ''2'' (Some (lit ''1''))]"
  let ?pk = "[?row ''a'' ''1'' None, ?row ''b'' ''2'' None]"
  let ?kc = "[([], lit ''F'') \<mapsto> ?fk, ([], lit ''P'') \<mapsto> ?pk]"
  let ?ref = "[([], lit ''F'') \<mapsto> ([], lit ''P'')]"
  have n: "parse_i64 (lit ''1'') = Some 1" "parse_i64 (lit ''2'') = Some 2" "lit ''F'' \<noteq> lit ''P''"
    by code_simp+
  have b: "bucket ?kc ([], lit ''F'') = ?fk" "bucket ?kc ([], lit ''P'') = ?pk"
    using n(3) by (simp_all add: bucket_def)
  have "list_all2 (\<lambda>k u. \<exists>r \<in> set ?pk. key_ordinal r = key_target k \<and>
      u = \<lparr>u_db_schema = k_table_schema r, u_table = k_table r, u_column = k_column r\<rparr>)
    ?fk (foreign_key_usages ?kc ?ref [] (lit ''F''))"
    by (rule foreign_key_columns_aligned[of ?ref "[]" "lit ''F''" "([], lit ''P'')" ?kc, unfolded b])
       (auto simp: key_ordinal_def key_target_def n)
  moreover have "map u_column (foreign_key_usages ?kc ?ref [] (lit ''F'')) = [lit ''b'', lit ''a'']"
    by code_simp
  ultimately show ?thesis by (simp only: Let_def)
qed

end
