(* ===== verification/ObjectsBatch.thy ===== *)
theory ObjectsBatch
  imports ObjectsProps
begin

text \<open>
  The nested batch of \<^verbatim>\<open>get_objects\<close> reads back as the listing it was built from, cut at the requested depth.  The
  result schema of \<^verbatim>\<open>adbc_core\<close> is a parameter of the model; here it is the one \<^verbatim>\<open>adbc.h\<close> documents.
\<close>

section \<open>The documented result schema\<close>

abbreviation fld :: "string \<Rightarrow> data_type \<Rightarrow> bool \<Rightarrow> field" where
  "fld n dt nul \<equiv> Field (lit n) dt nul []"

definition usage_fields :: "field list" where
  "usage_fields = [fld ''fk_catalog'' Utf8 True, fld ''fk_db_schema'' Utf8 True, fld ''fk_table'' Utf8 False,
     fld ''fk_column_name'' Utf8 False]"

definition constraint_fields :: "field list" where
  "constraint_fields = [fld ''constraint_name'' Utf8 True, fld ''constraint_type'' Utf8 False,
     fld ''constraint_column_names'' (List (fld ''item'' Utf8 True)) False,
     fld ''constraint_column_usage'' (List (fld ''item'' (Struct usage_fields) True)) True]"

definition column_fields :: "field list" where
  "column_fields = [fld ''column_name'' Utf8 False, fld ''ordinal_position'' Int32 True, fld ''remarks'' Utf8 True,
     fld ''xdbc_data_type'' Int16 True, fld ''xdbc_type_name'' Utf8 True, fld ''xdbc_column_size'' Int32 True,
     fld ''xdbc_decimal_digits'' Int16 True, fld ''xdbc_num_prec_radix'' Int16 True, fld ''xdbc_nullable'' Int16 True,
     fld ''xdbc_column_def'' Utf8 True, fld ''xdbc_sql_data_type'' Int16 True, fld ''xdbc_datetime_sub'' Int16 True,
     fld ''xdbc_char_octet_length'' Int32 True, fld ''xdbc_is_nullable'' Utf8 True, fld ''xdbc_scope_catalog'' Utf8 True,
     fld ''xdbc_scope_schema'' Utf8 True, fld ''xdbc_scope_table'' Utf8 True, fld ''xdbc_is_autoincrement'' Boolean True,
     fld ''xdbc_is_generatedcolumn'' Boolean True]"

definition table_fields :: "field list" where
  "table_fields = [fld ''table_name'' Utf8 False, fld ''table_type'' Utf8 False,
     fld ''table_columns'' (List (fld ''item'' (Struct column_fields) True)) True,
     fld ''table_constraints'' (List (fld ''item'' (Struct constraint_fields) True)) True]"

definition db_schema_fields :: "field list" where
  "db_schema_fields = [fld ''db_schema_name'' Utf8 True,
     fld ''db_schema_tables'' (List (fld ''item'' (Struct table_fields) True)) True]"

definition documented_objects_schema :: "field list" where
  "documented_objects_schema = [fld ''catalog_name'' Utf8 True,
     fld ''catalog_db_schemas'' (List (fld ''item'' (Struct db_schema_fields) True)) True]"

section \<open>How a consumer reads the batch\<close>

definition vstr :: "aval \<Rightarrow> rstring option" where
  "vstr v = (case v of VCell (CStr s) \<Rightarrow> Some s | _ \<Rightarrow> None)"

definition vint :: "aval \<Rightarrow> int option" where
  "vint v = (case v of VCell (CInt i) \<Rightarrow> Some i | _ \<Rightarrow> None)"

definition velems :: "(aval \<Rightarrow> 'a) \<Rightarrow> aval \<Rightarrow> 'a list option" where
  "velems f v = (case v of VList vs \<Rightarrow> Some (map f vs) | _ \<Rightarrow> None)"

definition read_column where
  "read_column v = (vstr (vget (lit ''column_name'') v), vint (vget (lit ''ordinal_position'') v),
     vstr (vget (lit ''xdbc_type_name'') v), vstr (vget (lit ''xdbc_is_nullable'') v))"

definition read_usage where
  "read_usage v = (vstr (vget (lit ''fk_catalog'') v), vstr (vget (lit ''fk_db_schema'') v), vstr (vget (lit ''fk_table'') v),
     vstr (vget (lit ''fk_column_name'') v))"

definition read_constraint where
  "read_constraint v = (vstr (vget (lit ''constraint_name'') v), vstr (vget (lit ''constraint_type'') v),
     velems vstr (vget (lit ''constraint_column_names'') v), velems read_usage (vget (lit ''constraint_column_usage'') v))"

definition read_table where
  "read_table v = (vstr (vget (lit ''table_name'') v), vstr (vget (lit ''table_type'') v),
     velems read_column (vget (lit ''table_columns'') v), velems read_constraint (vget (lit ''table_constraints'') v))"

definition read_schema where
  "read_schema v = (vstr (vget (lit ''db_schema_name'') v), velems read_table (vget (lit ''db_schema_tables'') v))"

definition read_objects where
  "read_objects row = (vstr (vget (lit ''catalog_name'') (VStruct row)),
     velems read_schema (vget (lit ''catalog_db_schemas'') (VStruct row)))"

section \<open>What it must see\<close>

definition seen_column where
  "seen_column c = (Some (col_name c), Some (sint (ordinal c)), Some (type_name c),
     Some (if col_nullable c then lit ''YES'' else lit ''NO''))"

definition seen_usage where
  "seen_usage cat u = (Some cat, Some (u_db_schema u), Some (u_table u), Some (u_column u))"

definition seen_constraint where
  "seen_constraint cat c = (cons_name c, Some (constraint_type c), Some (map Some (cons_columns c)),
     if constraint_type c = lit ''FOREIGN KEY'' then Some (map (seen_usage cat) (usages c)) else None)"

definition seen_table where
  "seen_table depth cat t = (Some (tbl_name t), Some (table_type t),
     if populates_columns depth then Some (map seen_column (tbl_columns t)) else None,
     if populates_columns depth then Some (map (seen_constraint cat) (constraints t)) else None)"

definition seen_schema where
  "seen_schema depth cat s = (Some (sch_name s),
     if populates_tables depth then Some (map (seen_table depth cat) (tables s)) else None)"

definition seen_objects where
  "seen_objects depth cat schemas =
     (Some cat, if depth = Catalogs then None else Some (map (seen_schema depth cat) schemas))"

section \<open>Columns\<close>

lemma lit_eq_iff: "lit a = lit b \<longleftrightarrow> a = b"
  by (simp add: lit_def map_map inj_map_eq_map inj_def)

definition column_cell :: "field \<Rightarrow> obj_column \<Rightarrow> aval" where
  "column_cell f c =
     (if field_name f = lit ''column_name'' then VCell (CStr (col_name c))
      else if field_name f = lit ''ordinal_position'' then VCell (CInt (sint (ordinal c)))
      else if field_name f = lit ''xdbc_type_name'' then VCell (CStr (type_name c))
      else if field_name f = lit ''xdbc_is_nullable'' then VCell (CStr (if col_nullable c then lit ''YES'' else lit ''NO''))
      else VNull)"

definition named_values :: "field list \<Rightarrow> (field \<Rightarrow> 'x \<Rightarrow> aval) \<Rightarrow> 'x \<Rightarrow> aval" where
  "named_values fs g x = VStruct (map (\<lambda>f. (field_name f, g f x)) fs)"

lemma vget_named:
  "vget n (named_values fs g x) = (case find (\<lambda>f. field_name f = n) fs of None \<Rightarrow> VNull | Some f \<Rightarrow> g f x)"
  by (induction fs) (auto simp: named_values_def)

lemma struct_value_map: "VStruct (struct_value fs (map g fs) x) = named_values fs g x"
  by (simp add: struct_value_def named_values_def zip_map_map comp_def) (simp add: zip_same_conv_map)

lemma reads_struct_map:
  assumes "arrow_contract K" and "fs \<noteq> []"
    and "list_all (\<lambda>f. reads_as (A f) (field_type f) (map (g f) xs) \<and> (nullable f \<or> (\<forall>x \<in> set xs. g f x \<noteq> VNull))) fs"
  shows "\<exists>a. struct_of K fs (map A fs) = Inr a \<and> reads_as a (Struct fs) (map (named_values fs g) xs)"
proof -
  have "reads_cols fs (map A fs) (map g fs) xs"
    using assms(3) by (intro reads_cols_map) (auto simp: list_all_iff)
  from reads_struct_of[OF assms(1) this assms(2)] show ?thesis by (simp add: struct_value_map)
qed

lemma map_const_replicate: "map (\<lambda>_. x) ys = replicate (length ys) x"
  by (simp add: map_replicate_const)

lemma reads_ordinals: "reads_as (FlatArr Int32 (map (\<lambda>c. Some (CInt (sint (ordinal c)))) cs)) Int32
    (map (\<lambda>c. VCell (CInt (sint (ordinal c)))) cs)"
proof -
  have "- (2 ^ 31) \<le> sint (w :: 32 word) \<and> sint w < 2 ^ 31" for w
    using sint_range_size[of w] by (simp add: word_size)
  then have "list_all (pred_option (cell_ok Int32)) (map (\<lambda>c. Some (CInt (sint (ordinal c)))) cs)"
    by (simp add: list_all_length cell_ok_def)
  from reads_flat[OF this] show ?thesis by (simp add: comp_def cell_aval_def)
qed

lemma reads_string_map: "reads_as (string_array (map f cs)) Utf8 (map (\<lambda>c. VCell (CStr (f c))) cs)"
  using reads_strings[of "map f cs"] by (simp add: comp_def)

lemma column_struct_ok:
  assumes "arrow_contract K"
  shows "\<exists>a. build_column_struct K column_fields cols = Inr a \<and>
    reads_as a (Struct column_fields) (map (named_values column_fields column_cell) cols)"
  unfolding build_column_struct_def
  by (rule reads_struct_map[OF assms])
     (simp_all add: column_fields_def column_cell_def[abs_def] lit_eq_iff reads_string_map reads_ordinals map_const_replicate
        reads_null_array[OF assms])

section \<open>Constraints\<close>

definition usage_cell :: "rstring \<Rightarrow> field \<Rightarrow> usage \<Rightarrow> aval" where
  "usage_cell cat f u =
     (if field_name f = lit ''fk_catalog'' then VCell (CStr cat)
      else if field_name f = lit ''fk_db_schema'' then VCell (CStr (u_db_schema u))
      else if field_name f = lit ''fk_table'' then VCell (CStr (u_table u))
      else if field_name f = lit ''fk_column_name'' then VCell (CStr (u_column u))
      else VNull)"

lemma usage_struct_ok:
  assumes "arrow_contract K"
  shows "\<exists>a. build_usage_struct K usage_fields cat us = Inr a \<and>
    reads_as a (Struct usage_fields) (map (named_values usage_fields (usage_cell cat)) us)"
  unfolding build_usage_struct_def
  by (rule reads_struct_map[OF assms])
     (simp_all add: usage_fields_def usage_cell_def[abs_def] lit_eq_iff reads_string_map)

definition is_fk :: "constraint \<Rightarrow> bool" where
  "is_fk c \<longleftrightarrow> constraint_type c = lit ''FOREIGN KEY''"

definition constraint_cell :: "rstring \<Rightarrow> field \<Rightarrow> constraint \<Rightarrow> aval" where
  "constraint_cell cat f c =
     (if field_name f = lit ''constraint_name'' then opt_string_value (cons_name c)
      else if field_name f = lit ''constraint_type'' then VCell (CStr (constraint_type c))
      else if field_name f = lit ''constraint_column_names'' then VList (map (\<lambda>s. VCell (CStr s)) (cons_columns c))
      else if field_name f = lit ''constraint_column_usage'' then
        if is_fk c then VList (map (named_values usage_fields (usage_cell cat)) (usages c)) else VNull
      else VNull)"

definition usages_ok :: "constraint \<Rightarrow> bool" where
  "usages_ok c \<longleftrightarrow> is_fk c \<or> usages c = []"

abbreviation column_names_item :: field where
  "column_names_item \<equiv> fld ''item'' Utf8 True"

abbreviation usage_item :: field where
  "usage_item \<equiv> fld ''item'' (Struct usage_fields) True"

lemma column_names_ok:
  assumes "arrow_contract K" and "sum_list (map (length \<circ> cons_columns) cs) < 2 ^ 31"
  shows "\<exists>a. list_of K column_names_item (map (length \<circ> cons_columns) cs) (string_opt_array (map Some (concat (map cons_columns cs)))) = Inr a \<and>
    reads_as a (List column_names_item) (map (\<lambda>c. VList (map (\<lambda>s. VCell (CStr s)) (cons_columns c))) cs)"
proof -
  have "reads_as (string_opt_array (map Some (concat (map cons_columns cs)))) Utf8
      (concat (map (\<lambda>c. map (\<lambda>s. VCell (CStr s)) (cons_columns c)) cs))"
    using reads_opt_strings[of "map Some (concat (map cons_columns cs))"]
    by (simp add: opt_string_value_def map_concat comp_def)
  from reads_list_of[OF assms(1), of _ column_names_item, simplified, OF this] assms(2) show ?thesis
    by (simp add: comp_def)
qed

lemma usage_lists_ok:
  assumes K: "arrow_contract K" and fits: "sum_list (map (length \<circ> usages) cs) < 2 ^ 31" and ok: "list_all usages_ok cs"
    and u: "reads_as us (Struct usage_fields) (map (named_values usage_fields (usage_cell cat)) (concat (map usages cs)))"
  shows "\<exists>a. list_of_nullable K usage_item (map (length \<circ> usages) cs) us (Some (map is_fk cs)) = Inr a \<and>
    reads_as a (List usage_item) (map (constraint_cell cat (fld ''constraint_column_usage'' dt nul)) cs)"
proof -
  let ?vss = "map (\<lambda>c. map (named_values usage_fields (usage_cell cat)) (usages c)) cs"
  have "reads_as us (field_type usage_item) (concat ?vss)" using u by (simp add: map_concat comp_def)
  moreover have "?vss ! i = []" if "i < length ?vss" "\<not> map is_fk cs ! i" for i
    using that ok by (auto simp: list_all_length usages_ok_def)
  moreover have "map (\<lambda>(b, vs). if b then VList vs else VNull) (zip (map is_fk cs) ?vss) =
      map (constraint_cell cat (fld ''constraint_column_usage'' dt nul)) cs"
    by (rule nth_equalityI) (auto simp: constraint_cell_def lit_eq_iff)
  ultimately show ?thesis
    using reads_list_of_nullable[OF K, of us usage_item ?vss "map (length \<circ> usages) cs" "map is_fk cs" "Some (map is_fk cs)"] fits
    by (simp add: comp_def)
qed

lemma constraint_struct_ok:
  assumes K: "arrow_contract K" and "sum_list (map (length \<circ> cons_columns) cs) < 2 ^ 31"
    and "sum_list (map (length \<circ> usages) cs) < 2 ^ 31" and ok: "list_all usages_ok cs"
  shows "\<exists>a. build_constraint_struct K constraint_fields cat cs = Inr a \<and>
    reads_as a (Struct constraint_fields) (map (named_values constraint_fields (constraint_cell cat)) cs)"
proof -
  obtain us where us: "build_usage_struct K usage_fields cat (concat (map usages cs)) = Inr us"
    "reads_as us (Struct usage_fields) (map (named_values usage_fields (usage_cell cat)) (concat (map usages cs)))"
    using usage_struct_ok[OF K] by blast
  obtain an where an: "list_of K column_names_item (map (length \<circ> cons_columns) cs)
      (string_opt_array (map Some (concat (map cons_columns cs)))) = Inr an"
    "reads_as an (List column_names_item) (map (\<lambda>c. VList (map (\<lambda>s. VCell (CStr s)) (cons_columns c))) cs)"
    using column_names_ok[OF assms(1,2)] by blast
  obtain au where au: "list_of_nullable K usage_item (map (length \<circ> usages) cs) us (Some (map is_fk cs)) = Inr au"
    "reads_as au (List usage_item) (map (constraint_cell cat (fld ''constraint_column_usage'' (List usage_item) True)) cs)"
    using usage_lists_ok[OF K assms(3) ok us(2)] by blast
  have f: "find_field constraint_fields (lit ''constraint_column_names'') = Inr (fld ''constraint_column_names'' (List column_names_item) False)"
    "find_field constraint_fields (lit ''constraint_column_usage'') = Inr (fld ''constraint_column_usage'' (List usage_item) True)"
    by (simp_all add: find_field_def constraint_fields_def lit_eq_iff ok_or_def)
  have names: "reads_as (string_opt_array (map cons_name cs)) Utf8 (map (\<lambda>c. opt_string_value (cons_name c)) cs)"
    using reads_opt_strings[of "map cons_name cs"] by (simp add: comp_def)
  show ?thesis
    unfolding build_constraint_struct_def f try_bind_simps list_item_def struct_fields_of_def field.sel data_type.case
      an(1) us(1) is_fk_def[symmetric] au(1)
    by (rule reads_struct_map[OF K])
       (use an(2) au(2) names in \<open>simp_all add: constraint_fields_def constraint_cell_def[abs_def] lit_eq_iff reads_string_map\<close>)
qed

section \<open>Tables and schemas\<close>

definition table_cell :: "object_depth \<Rightarrow> rstring \<Rightarrow> field \<Rightarrow> obj_table \<Rightarrow> aval" where
  "table_cell depth cat f t =
     (if field_name f = lit ''table_name'' then VCell (CStr (tbl_name t))
      else if field_name f = lit ''table_type'' then VCell (CStr (table_type t))
      else if \<not> populates_columns depth then VNull
      else if field_name f = lit ''table_columns'' then VList (map (named_values column_fields column_cell) (tbl_columns t))
      else VList (map (named_values constraint_fields (constraint_cell cat)) (constraints t)))"

definition schema_cell :: "object_depth \<Rightarrow> rstring \<Rightarrow> field \<Rightarrow> db_schema \<Rightarrow> aval" where
  "schema_cell depth cat f s =
     (if field_name f = lit ''db_schema_name'' then VCell (CStr (sch_name s))
      else if \<not> populates_tables depth then VNull
      else VList (map (named_values table_fields (table_cell depth cat)) (tables s)))"

abbreviation column_item :: field where
  "column_item \<equiv> fld ''item'' (Struct column_fields) True"

abbreviation constraint_item :: field where
  "constraint_item \<equiv> fld ''item'' (Struct constraint_fields) True"

abbreviation table_item :: field where
  "table_item \<equiv> fld ''item'' (Struct table_fields) True"

abbreviation db_schema_item :: field where
  "db_schema_item \<equiv> fld ''item'' (Struct db_schema_fields) True"

lemma fields_nonempty: "table_fields \<noteq> []" "db_schema_fields \<noteq> []"
  by (simp_all add: table_fields_def db_schema_fields_def)

text \<open>Every list the batch holds fits 32-bit offsets.\<close>

definition table_lists_fit :: "obj_table list \<Rightarrow> bool" where
  "table_lists_fit ts \<longleftrightarrow>
     sum_list (map (length \<circ> tbl_columns) ts) < 2 ^ 31 \<and> sum_list (map (length \<circ> constraints) ts) < 2 ^ 31 \<and>
     sum_list (map (length \<circ> cons_columns) (concat (map constraints ts))) < 2 ^ 31 \<and>
     sum_list (map (length \<circ> usages) (concat (map constraints ts))) < 2 ^ 31"

definition lists_fit :: "db_schema list \<Rightarrow> bool" where
  "lists_fit schemas \<longleftrightarrow>
     length schemas < 2 ^ 31 \<and> sum_list (map (length \<circ> tables) schemas) < 2 ^ 31 \<and>
     table_lists_fit (concat (map tables schemas))"

text \<open>Grouping struct values that were flattened across their parents.\<close>

lemma reads_flattened:
  assumes "arrow_contract K" and "reads_as child (Struct fs) (map v (concat (map sel xs)))"
    and "sum_list (map (length \<circ> sel) xs) < 2 ^ 31"
  shows "\<exists>a. list_of K (fld ''item'' (Struct fs) True) (map (length \<circ> sel) xs) child = Inr a \<and>
    reads_as a (List (fld ''item'' (Struct fs) True)) (map (\<lambda>x. VList (map v (sel x))) xs)"
  using reads_list_of[of K child "fld ''item'' (Struct fs) True" "map (\<lambda>x. map v (sel x)) xs" "map (length \<circ> sel) xs"] assms
  by (simp add: map_concat comp_def)

lemma table_lists_ok:
  assumes K: "arrow_contract K" and fit: "table_lists_fit ts" and ok: "list_all usages_ok (concat (map constraints ts))"
  shows "\<exists>a b. build_table_lists K depth cat table_fields ts = Inr (a, b) \<and>
    reads_as a (List column_item) (map (table_cell depth cat (fld ''table_columns'' (List column_item) True)) ts) \<and>
    reads_as b (List constraint_item) (map (table_cell depth cat (fld ''table_constraints'' (List constraint_item) True)) ts)"
proof -
  have f: "find_field table_fields (lit ''table_columns'') = Inr (fld ''table_columns'' (List column_item) True)"
    "find_field table_fields (lit ''table_constraints'') = Inr (fld ''table_constraints'' (List constraint_item) True)"
    by (simp_all add: find_field_def table_fields_def lit_eq_iff ok_or_def)
  show ?thesis
  proof (cases "populates_columns depth")
    case False
    then show ?thesis
      by (simp add: build_table_lists_def f table_cell_def[abs_def] lit_eq_iff map_const_replicate reads_null_array[OF K])
  next
    case True
    obtain cs where cs: "build_column_struct K column_fields (concat (map tbl_columns ts)) = Inr cs"
      "reads_as cs (Struct column_fields) (map (named_values column_fields column_cell) (concat (map tbl_columns ts)))"
      using column_struct_ok[OF K] by blast
    obtain ks where ks: "build_constraint_struct K constraint_fields cat (concat (map constraints ts)) = Inr ks"
      "reads_as ks (Struct constraint_fields) (map (named_values constraint_fields (constraint_cell cat)) (concat (map constraints ts)))"
      using constraint_struct_ok[OF K _ _ ok] fit by (auto simp: table_lists_fit_def)
    from reads_flattened[OF K cs(2)] reads_flattened[OF K ks(2)] fit True show ?thesis
      by (auto simp: build_table_lists_def f list_item_def struct_fields_of_def cs(1) ks(1) table_lists_fit_def
          table_cell_def[abs_def] lit_eq_iff)
  qed
qed

lemma schema_tables_ok:
  assumes K: "arrow_contract K" and fit: "lists_fit schemas"
    and ok: "list_all usages_ok (concat (map constraints (concat (map tables schemas))))"
  shows "\<exists>a. build_schema_tables K depth cat (fld ''db_schema_tables'' (List table_item) True) schemas = Inr a \<and>
    reads_as a (List table_item) (map (schema_cell depth cat (fld ''db_schema_tables'' (List table_item) True)) schemas)"
proof (cases "populates_tables depth")
  case False
  then show ?thesis
    by (simp add: build_schema_tables_def schema_cell_def[abs_def] lit_eq_iff map_const_replicate reads_null_array[OF K])
next
  case True
  let ?ts = "concat (map tables schemas)"
  obtain a b where ab: "build_table_lists K depth cat table_fields ?ts = Inr (a, b)"
    "reads_as a (List column_item) (map (table_cell depth cat (fld ''table_columns'' (List column_item) True)) ?ts)"
    "reads_as b (List constraint_item) (map (table_cell depth cat (fld ''table_constraints'' (List constraint_item) True)) ?ts)"
    using table_lists_ok[OF K fit[unfolded lists_fit_def, THEN conjunct2, THEN conjunct2] ok, of depth cat] by blast
  have "reads_cols table_fields [string_array (map tbl_name ?ts), string_array (map table_type ?ts), a, b]
      (map (table_cell depth cat) table_fields) ?ts"
    using ab(2,3) reads_string_map[of tbl_name ?ts] reads_string_map[of table_type ?ts]
    by (simp add: table_fields_def table_cell_def[abs_def] lit_eq_iff)
  from reads_struct_of[OF K this] obtain st where
    st: "struct_of K table_fields [string_array (map tbl_name ?ts), string_array (map table_type ?ts), a, b] = Inr st"
    "reads_as st (Struct table_fields) (map (named_values table_fields (table_cell depth cat)) ?ts)"
    by (auto simp: struct_value_map fields_nonempty)
  from reads_flattened[OF K st(2)] fit True st(1) ab(1) show ?thesis
    by (auto simp: build_schema_tables_def list_item_def struct_fields_of_def Let_def lists_fit_def
        schema_cell_def[abs_def] lit_eq_iff)
qed

section \<open>The whole batch\<close>

definition object_cell :: "object_depth \<Rightarrow> db_schema list \<Rightarrow> field \<Rightarrow> rstring \<Rightarrow> aval" where
  "object_cell depth schemas f cat =
     (if field_name f = lit ''catalog_name'' then VCell (CStr cat)
      else if depth = Catalogs then VNull
      else VList (map (named_values db_schema_fields (schema_cell depth cat)) schemas))"

lemma catalog_list_ok:
  assumes K: "arrow_contract K" and fit: "lists_fit schemas"
    and ok: "list_all usages_ok (concat (map constraints (concat (map tables schemas))))"
  shows "\<exists>b. build_objects K documented_objects_schema depth cat schemas = Inr b \<and>
    batch_values documented_objects_schema b = [map (\<lambda>f. (field_name f, object_cell depth schemas f cat)) documented_objects_schema]"
proof -
  let ?f = "fld ''catalog_db_schemas'' (List db_schema_item) True"
  have f: "find_field documented_objects_schema (lit ''catalog_db_schemas'') = Inr ?f"
    "find_field db_schema_fields (lit ''db_schema_tables'') = Inr (fld ''db_schema_tables'' (List table_item) True)"
    by (simp_all add: find_field_def documented_objects_schema_def db_schema_fields_def lit_eq_iff ok_or_def)
  have finish: "\<exists>b. batch_of K documented_objects_schema [string_array [cat], a] = Inr b \<and>
      batch_values documented_objects_schema b = [map (\<lambda>f. (field_name f, object_cell depth schemas f cat)) documented_objects_schema]"
    if a: "reads_as a (List db_schema_item) [object_cell depth schemas ?f cat]" for a
  proof -
    have "reads_cols documented_objects_schema [string_array [cat], a] (map (object_cell depth schemas) documented_objects_schema) [cat]"
      using a reads_strings[of "[cat]"] by (simp add: documented_objects_schema_def object_cell_def lit_eq_iff)
    from batch_of_ok[OF K this] show ?thesis
      by (simp add: documented_objects_schema_def struct_value_def)
  qed
  show ?thesis
  proof (cases "depth = Catalogs")
    case True
    have "reads_as (new_null_array K (List db_schema_item) 1) (List db_schema_item) [object_cell depth schemas ?f cat]"
      using reads_null_array[OF K, of "List db_schema_item" 1] True by (simp add: object_cell_def lit_eq_iff)
    from finish[OF this] True f(1) show ?thesis
      by (simp add: build_objects_def list_item_def struct_fields_of_def)
  next
    case False
    obtain t where t: "build_schema_tables K depth cat (fld ''db_schema_tables'' (List table_item) True) schemas = Inr t"
      "reads_as t (List table_item) (map (schema_cell depth cat (fld ''db_schema_tables'' (List table_item) True)) schemas)"
      using schema_tables_ok[OF K fit ok] by blast
    have "reads_cols db_schema_fields [string_array (map sch_name schemas), t] (map (schema_cell depth cat) db_schema_fields) schemas"
      using t(2) reads_string_map[of sch_name schemas] by (simp add: db_schema_fields_def schema_cell_def[abs_def] lit_eq_iff)
    from reads_struct_of[OF K this] obtain st where
      st: "struct_of K db_schema_fields [string_array (map sch_name schemas), t] = Inr st"
      "reads_as st (Struct db_schema_fields) (map (named_values db_schema_fields (schema_cell depth cat)) schemas)"
      by (auto simp: struct_value_map fields_nonempty)
    from reads_list_of[OF K, of st db_schema_item "[map (named_values db_schema_fields (schema_cell depth cat)) schemas]" "[length schemas]"] st(2) fit
    obtain a where a: "list_of K db_schema_item [length schemas] st = Inr a"
      "reads_as a (List db_schema_item) [VList (map (named_values db_schema_fields (schema_cell depth cat)) schemas)]"
      by (auto simp: lists_fit_def)
    have "reads_as a (List db_schema_item) [object_cell depth schemas ?f cat]"
      using a(2) False by (simp add: object_cell_def lit_eq_iff)
    from finish[OF this] False f t(1) st(1) a(1) show ?thesis
      by (simp add: build_objects_def list_item_def struct_fields_of_def)
  qed
qed

text \<open>What the consumer reads of each value.\<close>

lemma read_column_ok: "read_column (named_values column_fields column_cell c) = seen_column c"
  by (simp add: read_column_def seen_column_def vget_named column_fields_def column_cell_def lit_eq_iff vstr_def vint_def)

lemma read_usage_ok: "read_usage (named_values usage_fields (usage_cell cat) u) = seen_usage cat u"
  by (simp add: read_usage_def seen_usage_def vget_named usage_fields_def usage_cell_def lit_eq_iff vstr_def)

lemma vstr_opt: "vstr (opt_string_value s) = s"
  by (cases s) (simp_all add: vstr_def opt_string_value_def)

lemma read_constraint_ok:
  "read_constraint (named_values constraint_fields (constraint_cell cat) c) = seen_constraint cat c"
  by (simp add: read_constraint_def seen_constraint_def vget_named constraint_fields_def constraint_cell_def lit_eq_iff
      velems_def vstr_opt read_usage_ok is_fk_def comp_def) (simp add: vstr_def)

lemma read_table_ok: "read_table (named_values table_fields (table_cell depth cat) t) = seen_table depth cat t"
  by (simp add: read_table_def seen_table_def vget_named table_fields_def table_cell_def lit_eq_iff
      velems_def vstr_def read_column_ok read_constraint_ok)

lemma read_schema_ok: "read_schema (named_values db_schema_fields (schema_cell depth cat) s) = seen_schema depth cat s"
  by (simp add: read_schema_def seen_schema_def vget_named db_schema_fields_def schema_cell_def
      lit_eq_iff velems_def vstr_def read_table_ok)

lemma read_object_cells:
  "read_objects (map (\<lambda>f. (field_name f, object_cell depth schemas f cat)) documented_objects_schema) = seen_objects depth cat schemas"
  by (simp add: read_objects_def seen_objects_def documented_objects_schema_def object_cell_def lit_eq_iff
      velems_def vstr_def read_schema_ok)

text \<open>
  The nested batch of \<^verbatim>\<open>get_objects\<close> says exactly what was collected.  With the documented result schema, and as
  long as every list fits 32-bit offsets, building it succeeds for every depth and yields one row: the catalog,
  and below it, read by field name, every schema, table, column and constraint in order, a list being null
  exactly below the requested depth (and the usages exactly for constraints that are no foreign key), never
  instead of an empty list.
\<close>

theorem objects_batch_reads_back:
  assumes "arrow_contract K" and "lists_fit schemas"
    and "list_all usages_ok (concat (map constraints (concat (map tables schemas))))"
  shows "\<exists>b. build_objects K documented_objects_schema depth cat schemas = Inr b \<and>
    map read_objects (batch_values documented_objects_schema b) = [seen_objects depth cat schemas]"
  using catalog_list_ok[OF assms, of depth cat] read_object_cells by auto

section \<open>A listing\<close>

definition plain_crates :: "(unit, unit) meta_crates" where
  "plain_crates =
     \<lparr>calendar = epoch_calendar, b64_decode = \<lambda>_. None, as_f32 = \<lambda>x. x, f64_rounding = Fin, json_text = \<lambda>_. [],
      try_decimal = \<lambda>_ _. None, try_list = \<lambda>_ _ _ _. None, try_struct = \<lambda>_ _ _. None, try_batch = \<lambda>_ _. None,
      try_union = \<lambda>_ _ _ _. None, new_null_array = \<lambda>dt n. FlatArr dt (replicate n None),
      new_empty_array = \<lambda>dt. FlatArr dt []\<rparr>"

lemma plain_crates_contract: "arrow_contract plain_crates"
  using reads_flat[of dt "replicate n None" for dt n] reads_flat[of dt "[]" for dt]
  by (simp add: arrow_contract_def plain_crates_def list_all_length cell_aval_def)

definition sample_schemas :: "db_schema list" where
  "sample_schemas =
     [\<lparr>sch_name = [], tables =
         [\<lparr>tbl_name = lit ''child'', table_type = lit ''BASE TABLE'',
           tbl_columns = [\<lparr>col_name = lit ''id'', ordinal = 1, col_nullable = False, type_name = lit ''INT64''\<rparr>],
           constraints =
             [\<lparr>cons_name = Some (lit ''PK''), constraint_type = lit ''PRIMARY KEY'', cons_columns = [lit ''id''], usages = []\<rparr>,
              \<lparr>cons_name = Some (lit ''FK''), constraint_type = lit ''FOREIGN KEY'', cons_columns = [lit ''id''],
               usages = [\<lparr>u_db_schema = [], u_table = lit ''parent'', u_column = lit ''id''\<rparr>]\<rparr>]\<rparr>]\<rparr>,
      \<lparr>sch_name = lit ''empty'', tables = []\<rparr>]"

theorem objects_batch_reads_back_witness:
  "\<exists>b. build_objects plain_crates documented_objects_schema AllDepth (lit ''db'') sample_schemas = Inr b \<and>
     map read_objects (batch_values documented_objects_schema b) =
       [(Some (lit ''db''), Some [seen_schema AllDepth (lit ''db'') (sample_schemas ! 0), (Some (lit ''empty''), Some [])])]"
proof -
  have "lists_fit sample_schemas" "list_all usages_ok (concat (map constraints (concat (map tables sample_schemas))))"
    by (simp_all add: sample_schemas_def lists_fit_def table_lists_fit_def usages_ok_def is_fk_def)
  from objects_batch_reads_back[OF plain_crates_contract this, of AllDepth "lit ''db''"] show ?thesis
    by (simp add: seen_objects_def sample_schemas_def) (simp add: seen_schema_def populates_tables_def)
qed

section \<open>From the rows to the consumer\<close>

lemma list_all_concat: "list_all P (concat xss) \<longleftrightarrow> (\<forall>xs \<in> set xss. list_all P xs)"
  by (induction xss) auto

lemma listing_usages_ok: "list_all usages_ok (concat (map constraints (concat (map tables (listing R F)))))"
proof -
  have "usages_ok c" if "c \<in> set (list_constraints R s t)" for c s t
    using that by (auto simp: list_constraints_def usages_ok_def is_fk_def split: if_splits)
  then show ?thesis
    by (fastforce simp: list_all_iff listing_def list_tables_def split: if_splits)
qed

lemma conn_begin_op_simps [simp]: "con (conn_begin_op w) = con w" "w_server (conn_begin_op w) = w_server w"
  by (simp_all add: conn_begin_op_def)

text \<open>
  C37: \<^verbatim>\<open>get_objects\<close>, end to end.  When the metadata transaction opens and the joined queries return the rows \<open>R\<close>, the
  consumer of the one returned batch reads, under the connection's catalog, exactly the schemas, tables, columns
  and constraints of \<open>R\<close> that the filters select, cut at the requested depth; the connection changes in its cancel
  slot and the server only.
\<close>

theorem get_objects_lists:
  assumes "arrow_contract (mc_crates M)" and "get_objects_schema M = documented_objects_schema"
    and "accepts cat (connection_catalog (con w))" and "depth \<noteq> Catalogs"
    and "collect_results (object_statements (mc_text M) (c_config (con w)) depth F) = Inr sts"
    and "multi_use_timestamp_bound (mc_to_bound M) (read_staleness (c_config (con w))) = Inr bd"
    and "mc_multi_use M bd (query_timeout (timeouts (c_config (con w)))) (w_server w) = (Inr tx, srv1)"
    and "mc_run M Joined tx (query_txn (mc_crates M)) (query_timeout (timeouts (c_config (con w)))) sts srv1 = (Inr bs, srv2)"
    and "object_batches_of depth bs = Inr (row_batches R)" and "lists_fit (listing R F)"
  shows "\<exists>b. get_objects M depth cat F w = (Inr [b], (conn_begin_op w)\<lparr>w_server := srv2\<rparr>) \<and>
    map read_objects (batch_values documented_objects_schema b) = [seen_objects depth (connection_catalog (con w)) (listing R F)]"
proof -
  let ?cat = "connection_catalog (con w)"
  obtain b where b: "build_objects (mc_crates M) documented_objects_schema depth ?cat (listing R F) = Inr b"
    "batch_values documented_objects_schema b = [map (\<lambda>f. (field_name f, object_cell depth (listing R F) f ?cat)) documented_objects_schema]"
    using catalog_list_ok[OF assms(1,10) listing_usages_ok] by blast
  have "collect_objects M (c_config (con w)) depth F (w_server w) = (Inr (listing R F), srv2)"
    using assms(4-9) by (simp add: collect_objects_def seqr_def pure_def Let_def assembled_listing)
  then have "get_objects M depth cat F w = (Inr [b], (conn_begin_op w)\<lparr>w_server := srv2\<rparr>)"
    using assms(2,3) b(1) by (simp add: get_objects_def Let_def)
  moreover have "read_objects (map (\<lambda>f. (field_name f, object_cell depth (listing R F) f ?cat)) documented_objects_schema) =
      seen_objects depth ?cat (listing R F)"
    by (rule read_object_cells)
  ultimately show ?thesis using b(2) by auto
qed

definition sample_rows :: info_rows where
  "sample_rows = \<lparr>r_schemata = [[], lit ''INFORMATION_SCHEMA''], r_tables = Some [([], lit ''t'', lit ''BASE TABLE''), ([], lit ''v'', lit ''VIEW'')],
     r_columns = None, r_constraints = None, r_keys = None, r_referential = None\<rparr>"

definition sample_filters :: object_filters where
  "sample_filters = \<lparr>f_db_schema = Some [], f_table_name = None, f_table_type = Some [lit ''VIEW''], f_column_name = None\<rparr>"

definition listing_client :: "(unit, unit, unit, unit, unit, unit, unit) meta_client" where
  "listing_client =
     \<lparr>mc_crates = plain_crates, mc_text = \<lambda>_. (), mc_to_bound = \<lambda>_. Inr (), mc_multi_use = \<lambda>_ _ srv. (Inr (), srv),
      mc_run = \<lambda>_ _ _ _ _ srv. (Inr [b_schemata (row_batches sample_rows), the (b_tables (row_batches sample_rows))], srv),
      get_objects_schema = documented_objects_schema, get_statistics_schema = [], get_statistic_names_schema = [],
      get_info_schema = []\<rparr>"

definition listing_world :: "(unit, unit, unit, unit) world" where
  "listing_world =
     new_connection (lit ''projects/p/instances/i/databases/db'') \<lparr>flags = \<lambda>_. False, counts = \<lambda>_. None, next_addr = 0\<rparr>
       \<lparr>latches = [], slots = []\<rparr> ()"

theorem get_objects_lists_witness:
  "\<exists>b. fst (get_objects listing_client Tables (Some (lit ''d%'')) sample_filters listing_world) = Inr [b] \<and>
     map read_objects (batch_values documented_objects_schema b) =
       [(Some (lit ''db''), Some [(Some [], Some [(Some (lit ''v''), Some (lit ''VIEW''), None, None)])])]"
proof -
  let ?c = "c_config (con listing_world)" and ?F = sample_filters
  have cat: "connection_catalog (con listing_world) = lit ''db''" by code_simp
  have "accepts (Some (lit ''d%'')) (lit ''db'')" by code_simp
  moreover obtain sts :: "unit spanner_sql list" where
    "collect_results (object_statements (\<lambda>_. ()) ?c Tables ?F) = Inr sts"
  proof -
    have "\<not> isl (collect_results (object_statements (\<lambda>_. ()) ?c Tables ?F))" by code_simp
    then show ?thesis using that by (metis isl_def sum.exhaust)
  qed
  moreover have "multi_use_timestamp_bound (\<lambda>_. Inr ()) (read_staleness ?c) = Inr None"
    by (simp add: listing_world_def new_connection_def default_config_def new_slot_def Let_def raw_default_def multi_use_timestamp_bound_def
        split: prod.split)
  moreover have "object_batches_of Tables [b_schemata (row_batches sample_rows), the (b_tables (row_batches sample_rows))] =
      Inr (row_batches sample_rows)"
    by (simp add: object_batches_of_def populates_tables_def populates_columns_def row_batches_def sample_rows_def)
  moreover have l: "listing sample_rows ?F = [\<lparr>sch_name = [], tables = [\<lparr>tbl_name = lit ''v'', table_type = lit ''VIEW'', tbl_columns = [], constraints = []\<rparr>]\<rparr>]"
    by code_simp
  moreover have "lists_fit (listing sample_rows ?F)" unfolding l by (simp add: lists_fit_def table_lists_fit_def)
  ultimately obtain b where
    b: "get_objects listing_client Tables (Some (lit ''d%'')) ?F listing_world = (Inr [b], (conn_begin_op listing_world)\<lparr>w_server := ()\<rparr>)"
    "map read_objects (batch_values documented_objects_schema b) = [seen_objects Tables (lit ''db'') (listing sample_rows ?F)]"
    using get_objects_lists[of listing_client "Some (lit ''d%'')" listing_world Tables ?F sts None "()" "()"
        "[b_schemata (row_batches sample_rows), the (b_tables (row_batches sample_rows))]" "()" sample_rows] plain_crates_contract
    by (auto simp: listing_client_def cat)
  from b(1) show ?thesis
    by (intro exI[of _ b])
       (simp add: b(2) l seen_objects_def seen_schema_def seen_table_def populates_tables_def populates_columns_def)
qed

end
