(* ===== verification/Statistics.thy ===== *)
theory Statistics
  imports Objects
begin

text \<open>
  Table statistics, \<^verbatim>\<open>src/statistics.rs\<close>: discovery of the base tables and their columns, one aggregate query per
  table, the reading of its single row, the regrouping by schema, and the nested result batch.

  The statistic keys are constants of \<^verbatim>\<open>adbc_core\<close> and so parameters.
\<close>

section \<open>Data\<close>

record stat_keys =
  row_count_key :: int
  null_count_key :: int
  distinct_count_key :: int

record statistic =
  stat_table :: rstring
  stat_column :: "rstring option"
  stat_key :: int
  stat_value :: int

record schema_statistics =
  st_db_schema :: rstring
  statistics :: "statistic list"

record prepared_table =
  p_schema :: rstring
  p_table :: rstring
  p_sql :: rstring
  p_plan :: "(rstring \<times> int) list"

definition INT64_BRANCH :: int where
  "INT64_BRANCH = 0"

definition STATISTICS_SCAN_CONCURRENCY :: nat where
  "STATISTICS_SCAN_CONCURRENCY = 8"

section \<open>One table\<close>

definition starts_with :: "rstring \<Rightarrow> string \<Rightarrow> bool" where
  "starts_with s p \<longleftrightarrow> strip_prefix (lit p) s \<noteq> None"

definition is_groupable :: "rstring \<Rightarrow> bool" where
  "is_groupable spanner_type =
     (let t = trim_start spanner_type
      in \<not> (starts_with t ''ARRAY'' \<or> starts_with t ''STRUCT'' \<or> starts_with t ''PROTO'' \<or>
            t = lit ''JSON'' \<or> t = lit ''TOKENLIST'' \<or> t = lit ''INTERVAL''))"

fun join_with :: "rstring \<Rightarrow> rstring list \<Rightarrow> rstring" where
  "join_with sep [] = []"
| "join_with sep [s] = s"
| "join_with sep (s # ss) = s @ sep @ join_with sep ss"

text \<open>The loop of \<^verbatim>\<open>build_table_query\<close> over the columns: the expressions and the plan so far.\<close>

fun aggregate_loop ::
  "stat_keys \<Rightarrow> (rstring \<times> bool) list \<Rightarrow> rstring list \<Rightarrow> (rstring \<times> int) list \<Rightarrow>
   (rstring list \<times> (rstring \<times> int) list) result" where
  "aggregate_loop A [] exprs plan = Inr (exprs, plan)"
| "aggregate_loop A ((name, groupable) # cols) exprs plan =
     try_bind (quote_ident name) (\<lambda>quoted.
       let exprs' = exprs @ [lit ''COUNTIF('' @ quoted @ lit '' IS NULL)''];
           plan' = plan @ [(name, null_count_key A)]
       in if groupable
          then aggregate_loop A cols (exprs' @ [lit ''COUNT(DISTINCT '' @ quoted @ lit '')''])
                 (plan' @ [(name, distinct_count_key A)])
          else aggregate_loop A cols exprs' plan')"

definition build_table_query ::
  "stat_keys \<Rightarrow> rstring \<Rightarrow> rstring \<Rightarrow> (rstring \<times> bool) list \<Rightarrow> (rstring \<times> (rstring \<times> int) list) result" where
  "build_table_query A schema table cols =
     try_bind (aggregate_loop A cols [lit ''COUNT(*)''] []) (\<lambda>(exprs, plan).
     try_bind (qualified_table (Some schema) table) (\<lambda>q.
       Inr (lit ''SELECT '' @ join_with (lit '', '') exprs @ lit '' FROM '' @ q, plan)))"

definition aggregate_value :: "arr list \<Rightarrow> nat \<Rightarrow> int result" where
  "aggregate_value batch index =
     (let bad = err (lit ''statistic aggregate is not a single integer'') Internal
      in try_bind (int64_column batch index bad) (\<lambda>cs.
           if length cs = 1 then Inr (int_value (cs ! 0)) else Inl bad))"

fun parse_plan :: "arr list \<Rightarrow> rstring \<Rightarrow> nat \<Rightarrow> (rstring \<times> int) list \<Rightarrow> statistic list \<Rightarrow> statistic list result" where
  "parse_plan batch table index [] out = Inr out"
| "parse_plan batch table index ((column, key) # plan) out =
     try_bind (aggregate_value batch (index + 1)) (\<lambda>v.
       parse_plan batch table (index + 1) plan
         (out @ [\<lparr>stat_table = table, stat_column = Some column, stat_key = key, stat_value = v\<rparr>]))"

definition parse_table_statistics ::
  "stat_keys \<Rightarrow> arr list \<Rightarrow> rstring \<Rightarrow> (rstring \<times> int) list \<Rightarrow> statistic list result" where
  "parse_table_statistics A batch table plan =
     try_bind (aggregate_value batch 0) (\<lambda>v.
       parse_plan batch table 0 plan
         [\<lparr>stat_table = table, stat_column = None, stat_key = row_count_key A, stat_value = v\<rparr>])"

section \<open>Preparing and regrouping\<close>

text \<open>The loop over the discovered tables: a table takes its columns out of the map.\<close>

fun prepare_loop ::
  "stat_keys \<Rightarrow> rstring option \<Rightarrow> rstring option \<Rightarrow> (rstring \<times> rstring) list \<Rightarrow>
   (rstring \<times> rstring \<rightharpoonup> (rstring \<times> bool) list) \<Rightarrow> prepared_table list \<Rightarrow> prepared_table list result" where
  "prepare_loop A spat tpat [] m prepared = Inr prepared"
| "prepare_loop A spat tpat ((schema, table) # rs) m prepared =
     (if rejected_by spat schema \<or> rejected_by tpat table then prepare_loop A spat tpat rs m prepared
      else
        try_bind (build_table_query A schema table (bucket m (schema, table))) (\<lambda>(q, plan).
          prepare_loop A spat tpat rs (m((schema, table) := None))
            (prepared @ [\<lparr>p_schema = schema, p_table = table, p_sql = q, p_plan = plan\<rparr>])))"

text \<open>The regrouping loop: the slots in first-seen order and the index of each schema's slot.\<close>

fun regroup_loop ::
  "stat_keys \<Rightarrow> (prepared_table \<times> arr list) list \<Rightarrow> schema_statistics list \<Rightarrow> (rstring \<rightharpoonup> nat) \<Rightarrow>
   schema_statistics list result" where
  "regroup_loop A [] schemas index = Inr schemas"
| "regroup_loop A ((p, batch) # rest) schemas index =
     try_bind (parse_table_statistics A batch (p_table p) (p_plan p)) (\<lambda>stats.
       case index (p_schema p) of
         Some i \<Rightarrow>
           regroup_loop A rest
             (schemas[i := (schemas ! i)\<lparr>statistics := statistics (schemas ! i) @ stats\<rparr>]) index
       | None \<Rightarrow>
           regroup_loop A rest (schemas @ [\<lparr>st_db_schema = p_schema p, statistics = stats\<rparr>])
             (index(p_schema p \<mapsto> length schemas)))"

definition discovered_tables :: "arr list \<Rightarrow> (rstring \<times> rstring) list result" where
  "discovered_tables batch =
     try_bind (str_col batch 0) (\<lambda>ts.
     try_bind (str_col batch 1) (\<lambda>tn.
       Inr (map (\<lambda>r. (utf8_value (ts ! r), utf8_value (tn ! r))) [0..<batch_rows batch])))"

definition discovered_columns :: "arr list \<Rightarrow> (rstring \<times> rstring \<rightharpoonup> (rstring \<times> bool) list) result" where
  "discovered_columns batch =
     try_bind (str_col batch 0) (\<lambda>cts.
     try_bind (str_col batch 1) (\<lambda>ctn.
     try_bind (str_col batch 2) (\<lambda>ccn.
     try_bind (str_col batch 3) (\<lambda>ctype.
       Inr (group_by_key (batch_rows batch) (\<lambda>r. (utf8_value (cts ! r), utf8_value (ctn ! r)))
         (\<lambda>r. (utf8_value (ccn ! r), is_groupable (utf8_value (ctype ! r)))))))))"

definition discovery_sql :: "rstring list" where
  "discovery_sql =
     [lit ''SELECT TABLE_SCHEMA, TABLE_NAME FROM INFORMATION_SCHEMA.TABLES '' @
      lit ''WHERE TABLE_TYPE = '' @ [39] @ lit ''BASE TABLE'' @ [39],
      lit ''SELECT TABLE_SCHEMA, TABLE_NAME, COLUMN_NAME, SPANNER_TYPE '' @
      lit ''FROM INFORMATION_SCHEMA.COLUMNS WHERE NOT CAST(IS_HIDDEN AS BOOL) '' @
      lit ''ORDER BY TABLE_SCHEMA, TABLE_NAME, ORDINAL_POSITION'']"

definition metadata_statements :: "'ts shared_config \<Rightarrow> rstring list \<Rightarrow> 'v spanner_sql list result" where
  "metadata_statements c qs =
     collect_results (map (\<lambda>q. try_bind (ok_or panicked (metadata_sql_builder c)) (\<lambda>b. Inr (plain_sql b q))) qs)"

definition collect_statistics ::
  "('v, 'ts, 'b, 'txn, 'd, 'dt, 'srv) meta_client \<Rightarrow> stat_keys \<Rightarrow> 'ts shared_config \<Rightarrow> rstring option \<Rightarrow> rstring option \<Rightarrow>
   (schema_statistics list, 'srv) rpc" where
  "collect_statistics M A c db_schema_pattern table_pattern =
     (let deadline = query_timeout (timeouts c); decode = query_txn (mc_crates M)
      in seqr (pure (multi_use_timestamp_bound (mc_to_bound M) (read_staleness c))) (\<lambda>bd.
         seqr (mc_multi_use M bd None) (\<lambda>txn.
         seqr (pure (metadata_statements c discovery_sql)) (\<lambda>discovery.
         seqr (mc_run M InTurn txn decode deadline discovery) (\<lambda>found.
           case found of
             [table_batch, column_batch] \<Rightarrow>
               seqr (pure (
                 try_bind (discovered_tables table_batch) (\<lambda>rs.
                 try_bind (discovered_columns column_batch) (\<lambda>m.
                   prepare_loop A db_schema_pattern table_pattern rs m [])))) (\<lambda>prepared.
               seqr (pure (metadata_statements c (map p_sql prepared))) (\<lambda>scans.
               seqr (mc_run M (Buffered STATISTICS_SCAN_CONCURRENCY) txn decode deadline scans) (\<lambda>batches.
               pure (regroup_loop A (zip prepared batches) [] Map.empty))))
           | _ \<Rightarrow> pure (Inl panicked))))))"

section \<open>The result batch\<close>

definition build_statistic_struct :: "('d, 'dt) meta_crates \<Rightarrow> field list \<Rightarrow> statistic list \<Rightarrow> arr result" where
  "build_statistic_struct K stat_fields stats =
     (let n = length stats
      in try_bind (find_field stat_fields (lit ''statistic_value'')) (\<lambda>value_field.
         try_bind (case field_type value_field of
             Union ufs \<Rightarrow> Inr ufs
           | _ \<Rightarrow> Inl (shape_err (lit ''statistic_value to be a union''))) (\<lambda>union_fields.
         try_bind (dense_union K union_fields
             [(INT64_BRANCH, FlatArr Int64 (map (\<lambda>s. Some (CInt (stat_value s))) stats))]
             (replicate n INT64_BRANCH) [0..<nat (sint (word_of_nat n :: 32 word))]) (\<lambda>statistic_value.
         struct_of K stat_fields (map (\<lambda>f.
           if field_name f = lit ''table_name'' then string_array (map stat_table stats)
           else if field_name f = lit ''column_name'' then string_opt_array (map stat_column stats)
           else if field_name f = lit ''statistic_key'' then FlatArr Int16 (map (\<lambda>s. Some (CInt (stat_key s))) stats)
           else if field_name f = lit ''statistic_value'' then statistic_value
           else if field_name f = lit ''statistic_is_approximate'' then
             FlatArr Boolean (replicate n (Some (CBool False)))
           else new_null_array K (field_type f) n) stat_fields)))))"

definition build_statistics ::
  "('d, 'dt) meta_crates \<Rightarrow> rstring \<Rightarrow> schema_statistics list \<Rightarrow> field list \<Rightarrow> arr list result" where
  "build_statistics K cat schemas out_schema =
     try_bind (find_field out_schema (lit ''catalog_db_schemas'')) (\<lambda>db_schemas_field.
     try_bind (list_item db_schemas_field) (\<lambda>db_schema_item.
     try_bind (struct_fields_of db_schema_item) (\<lambda>db_schema_fields.
     try_bind (find_field db_schema_fields (lit ''db_schema_statistics'')) (\<lambda>stats_field.
     try_bind (list_item stats_field) (\<lambda>stat_item.
     try_bind (struct_fields_of stat_item) (\<lambda>stat_fields.
     try_bind (build_statistic_struct K stat_fields (concat (map statistics schemas))) (\<lambda>stat_struct.
     try_bind (list_of K stat_item (map (length \<circ> statistics) schemas) stat_struct) (\<lambda>db_schema_statistics.
     try_bind (struct_of K db_schema_fields [string_array (map st_db_schema schemas), db_schema_statistics])
       (\<lambda>db_schema_struct.
     try_bind (list_of K db_schema_item [length schemas] db_schema_struct) (\<lambda>catalog_db_schemas.
     batch_of K out_schema [string_array [cat], catalog_db_schemas]))))))))))"

section \<open>The connection methods\<close>

definition get_statistics ::
  "('v, 'ts, 'b, 'txn, 'd, 'dt, 'srv) meta_client \<Rightarrow> stat_keys \<Rightarrow> rstring option \<Rightarrow> rstring option \<Rightarrow> rstring option \<Rightarrow>
   bool \<Rightarrow> (arr list list, 'sn, 'v, 'ts, 'srv) conn_action" where
  "get_statistics M A cat db_schema_pattern table_pattern approximate w0 =
     (let w = conn_begin_op w0; c = c_config (con w); name = connection_catalog (con w)
      in if rejected_by cat name then (Inr [], w)
         else
           (case collect_statistics M A c db_schema_pattern table_pattern (w_server w) of
              (r, srv) \<Rightarrow>
                (try_bind r (\<lambda>schemas.
                   try_bind (build_statistics (mc_crates M) name schemas (get_statistics_schema M)) (\<lambda>b. Inr [b])),
                 w\<lparr>w_server := srv\<rparr>)))"

text \<open>No statistic names of its own: an empty reader on the documented schema.\<close>

definition get_statistic_names ::
  "('v, 'ts, 'b, 'txn, 'd, 'dt, 'srv) meta_client \<Rightarrow> (field list \<times> arr list list) result" where
  "get_statistic_names M = Inr (get_statistic_names_schema M, [])"

end
