(* ===== verification/StatisticsProps.thy ===== *)
theory StatisticsProps
  imports Statistics ObjectsBatch
begin

text \<open>
  Statistics are the counts of the tables they name: the plan of a table's aggregate query is aligned with its
  expressions, the tables are scanned in discovery order and regrouped by schema in first-seen order, and the
  nested batch reads back as the statistics.
\<close>

section \<open>One table\<close>

definition quoted :: "rstring \<Rightarrow> rstring" where
  "quoted n = c_backtick # n @ [c_backtick]"

definition null_count_expr :: "rstring \<Rightarrow> rstring" where
  "null_count_expr n = lit ''COUNTIF('' @ quoted n @ lit '' IS NULL)''"

definition distinct_count_expr :: "rstring \<Rightarrow> rstring" where
  "distinct_count_expr n = lit ''COUNT(DISTINCT '' @ quoted n @ lit '')''"

definition row_count_expr :: rstring where
  "row_count_expr = lit ''COUNT(*)''"

text \<open>The aggregate expressions of a table, and its statistics when \<open>count\<close> gives each its value.\<close>

definition table_exprs :: "(rstring \<times> bool) list \<Rightarrow> rstring list" where
  "table_exprs cols =
     row_count_expr # concat (map (\<lambda>(n, g). null_count_expr n # (if g then [distinct_count_expr n] else [])) cols)"

definition count_statistics ::
  "stat_keys \<Rightarrow> (rstring \<Rightarrow> int) \<Rightarrow> rstring \<Rightarrow> (rstring \<times> bool) list \<Rightarrow> statistic list" where
  "count_statistics A count t cols =
     \<lparr>stat_table = t, stat_column = None, stat_key = row_count_key A, stat_value = count row_count_expr\<rparr> #
     concat (map (\<lambda>(n, g).
       \<lparr>stat_table = t, stat_column = Some n, stat_key = null_count_key A, stat_value = count (null_count_expr n)\<rparr> #
       (if g then [\<lparr>stat_table = t, stat_column = Some n, stat_key = distinct_count_key A,
                    stat_value = count (distinct_count_expr n)\<rparr>] else [])) cols)"

definition count_batch :: "(rstring \<Rightarrow> int) \<Rightarrow> rstring list \<Rightarrow> arr list" where
  "count_batch count exprs = map (\<lambda>e. FlatArr Int64 [Some (CInt (count e))]) exprs"

definition table_plan :: "stat_keys \<Rightarrow> (rstring \<times> bool) list \<Rightarrow> (rstring \<times> int) list" where
  "table_plan A cols =
     concat (map (\<lambda>(n, g). (n, null_count_key A) # (if g then [(n, distinct_count_key A)] else [])) cols)"

lemma quote_ident_quoted: "quote_ident n = Inr q \<Longrightarrow> q = quoted n"
  by (auto simp: quote_ident_def quoted_def split: if_splits option.splits)

lemma aggregate_loop_spec:
  "aggregate_loop A cols ex pl = Inr (ex', pl') \<Longrightarrow> ex' = ex @ tl (table_exprs cols) \<and> pl' = pl @ table_plan A cols"
proof (induction cols arbitrary: ex pl)
  case (Cons ng cols)
  obtain n g where ng: "ng = (n, g)" by (cases ng)
  obtain q where q: "quote_ident n = Inr q" using Cons.prems ng by (cases "quote_ident n") auto
  with quote_ident_quoted[OF q] Cons.prems Cons.IH ng show ?case
    by (cases g) (force simp: table_exprs_def table_plan_def null_count_expr_def distinct_count_expr_def)+
qed (simp add: table_exprs_def table_plan_def)

lemma build_table_query_spec:
  assumes "build_table_query A s t cols = Inr (q, plan)"
  shows "plan = table_plan A cols \<and>
    (\<exists>full. qualified_table (Some s) t = Inr full \<and>
       q = lit ''SELECT '' @ join_with (lit '', '') (table_exprs cols) @ lit '' FROM '' @ full)"
proof -
  from assms obtain ex pl full where "aggregate_loop A cols [lit ''COUNT(*)''] [] = Inr (ex, pl)"
    "qualified_table (Some s) t = Inr full" "q = lit ''SELECT '' @ join_with (lit '', '') ex @ lit '' FROM '' @ full" "plan = pl"
    by (auto simp: build_table_query_def res_simps)
  with aggregate_loop_spec[of A cols "[lit ''COUNT(*)'']" "[]" ex pl] show ?thesis
    by (auto simp: table_exprs_def row_count_expr_def)
qed

lemma aggregate_value_count:
  "i < length exprs \<Longrightarrow> aggregate_value (count_batch count exprs) i = Inr (count (exprs ! i))"
  by (simp add: aggregate_value_def int64_column_def count_batch_def)

lemma parse_plan_counts:
  assumes "length exprs = i + 1 + length plan"
  shows "parse_plan (count_batch count exprs) t i plan out =
    Inr (out @ map (\<lambda>((c, k), e). \<lparr>stat_table = t, stat_column = Some c, stat_key = k, stat_value = count e\<rparr>)
      (zip plan (drop (i + 1) exprs)))"
  using assms
proof (induction plan arbitrary: i out)
  case (Cons ck plan)
  obtain c k where ck: "ck = (c, k)" by (cases ck)
  have "drop (i + 1) exprs = exprs ! (i + 1) # drop (i + 2) exprs"
    using Cons.prems by (simp add: Cons_nth_drop_Suc[symmetric])
  with Cons ck show ?case by (simp add: aggregate_value_count)
qed simp

lemma length_table_exprs: "length (table_exprs cols) = Suc (length (table_plan A cols))"
proof -
  have "length (tl (table_exprs cols)) = length (table_plan A cols)"
    by (induction cols) (auto simp: table_exprs_def table_plan_def)
  then show ?thesis by (simp add: table_exprs_def)
qed

lemma parse_counts:
  "parse_table_statistics A (count_batch count (table_exprs cols)) t (table_plan A cols) = Inr (count_statistics A count t cols)"
proof -
  have "map (\<lambda>((c, k), e). \<lparr>stat_table = t, stat_column = Some c, stat_key = k, stat_value = count e\<rparr>)
      (zip (table_plan A cols) (tl (table_exprs cols))) = tl (count_statistics A count t cols)"
    by (induction cols) (auto simp: table_plan_def table_exprs_def count_statistics_def)
  moreover have "aggregate_value (count_batch count (table_exprs cols)) 0 = Inr (count row_count_expr)"
    using aggregate_value_count[of 0 "table_exprs cols"] by (simp add: table_exprs_def)
  ultimately show ?thesis
    using parse_plan_counts[of "table_exprs cols" 0 "table_plan A cols"] length_table_exprs[of cols A]
    by (simp add: parse_table_statistics_def drop_Suc) (simp add: count_statistics_def)
qed

section \<open>Preparing and regrouping\<close>

type_synonym stat_column_row = "rstring \<times> rstring \<times> rstring \<times> rstring"

definition columns_of :: "stat_column_row list \<Rightarrow> rstring \<times> rstring \<Rightarrow> (rstring \<times> bool) list" where
  "columns_of C k = [(n, is_groupable y). (s, t, n, y) \<leftarrow> C, (s, t) = k]"

definition matching :: "rstring option \<Rightarrow> rstring option \<Rightarrow> (rstring \<times> rstring) list \<Rightarrow> (rstring \<times> rstring) list" where
  "matching spat tpat T = filter (\<lambda>(s, t). accepts spat s \<and> accepts tpat t) T"

definition prepared_of ::
  "stat_keys \<Rightarrow> stat_column_row list \<Rightarrow> rstring \<times> rstring \<Rightarrow> prepared_table result" where
  "prepared_of A C k =
     try_bind (build_table_query A (fst k) (snd k) (columns_of C k)) (\<lambda>(q, plan).
       Inr \<lparr>p_schema = fst k, p_table = snd k, p_sql = q, p_plan = plan\<rparr>)"

lemma prepare_loop_spec:
  assumes "distinct T" and "\<And>k. k \<in> set T \<Longrightarrow> bucket m k = columns_of C k"
  shows "prepare_loop A spat tpat T m ps =
    try_bind (collect_results (map (prepared_of A C) (matching spat tpat T))) (\<lambda>xs. Inr (ps @ xs))"
  using assms
proof (induction T arbitrary: m ps)
  case (Cons k T)
  obtain s t where k: "k = (s, t)" by (cases k)
  show ?case
  proof (cases "accepts spat s \<and> accepts tpat t")
    case False
    with Cons k show ?thesis by (auto simp: matching_def)
  next
    case True
    have rest: "bucket (m((s, t) := None)) k' = columns_of C k'" if "k' \<in> set T" for k'
      using Cons.prems that k by (auto simp: bucket_def)
    show ?thesis
    proof (cases "build_table_query A s t (columns_of C (s, t))")
      case (Inl e)
      with True k Cons.prems(2)[of k] show ?thesis by (simp add: matching_def prepared_of_def)
    next
      case (Inr x)
      then obtain q plan where "build_table_query A s t (columns_of C (s, t)) = Inr (q, plan)" by (cases x) auto
      then have "prepared_of A C k = Inr \<lparr>p_schema = s, p_table = t, p_sql = q, p_plan = plan\<rparr>"
        and "prepare_loop A spat tpat (k # T) m ps = prepare_loop A spat tpat T (m((s, t) := None))
          (ps @ [\<lparr>p_schema = s, p_table = t, p_sql = q, p_plan = plan\<rparr>])"
        using True k Cons.prems(2)[of k] by (simp_all add: prepared_of_def)
      moreover have "matching spat tpat (k # T) = k # matching spat tpat T" using True k by (simp add: matching_def)
      moreover have "prepare_loop A spat tpat T (m((s, t) := None)) (ps @ [\<lparr>p_schema = s, p_table = t, p_sql = q, p_plan = plan\<rparr>]) =
          try_bind (collect_results (map (prepared_of A C) (matching spat tpat T)))
            (\<lambda>xs. Inr ((ps @ [\<lparr>p_schema = s, p_table = t, p_sql = q, p_plan = plan\<rparr>]) @ xs))"
        by (rule Cons.IH) (use Cons.prems(1) rest in \<open>auto simp: fun_upd_def\<close>)
      ultimately show ?thesis
        by (cases "collect_results (map (prepared_of A C) (matching spat tpat T))") simp_all
    qed
  qed
qed (simp add: matching_def)

text \<open>The schemas of a list, each at its first occurrence.\<close>

definition first_seen :: "'a list \<Rightarrow> 'a list" where
  "first_seen xs = rev (remdups (rev xs))"

lemma first_seen_simps [simp]:
  "first_seen [] = []" "set (first_seen xs) = set xs" "distinct (first_seen xs)"
  "first_seen (xs @ [x]) = (if x \<in> set xs then first_seen xs else first_seen xs @ [x])"
  by (auto simp: first_seen_def)

definition regrouped :: "(rstring \<times> statistic list) list \<Rightarrow> schema_statistics list" where
  "regrouped xs =
     map (\<lambda>s. \<lparr>st_db_schema = s, statistics = concat (map snd (filter (\<lambda>x. fst x = s) xs))\<rparr>) (first_seen (map fst xs))"

definition slot_index :: "schema_statistics list \<Rightarrow> (rstring \<rightharpoonup> nat) \<Rightarrow> bool" where
  "slot_index schemas index \<longleftrightarrow>
     (\<forall>s i. index s = Some i \<longleftrightarrow> i < length schemas \<and> st_db_schema (schemas ! i) = s)"

lemma regroup_step:
  assumes "slot_index (regrouped xs) index"
  shows "case index s of
      Some i \<Rightarrow> (regrouped xs)[i := (regrouped xs ! i)\<lparr>statistics := statistics (regrouped xs ! i) @ st\<rparr>] = regrouped (xs @ [(s, st)]) \<and>
        slot_index (regrouped (xs @ [(s, st)])) index
    | None \<Rightarrow> regrouped xs @ [\<lparr>st_db_schema = s, statistics = st\<rparr>] = regrouped (xs @ [(s, st)]) \<and>
        slot_index (regrouped (xs @ [(s, st)])) (index(s \<mapsto> length (regrouped xs)))"
proof -
  let ?names = "first_seen (map fst xs)"
  have len: "length (regrouped xs) = length ?names" by (simp add: regrouped_def)
  have at: "regrouped xs ! i = \<lparr>st_db_schema = ?names ! i, statistics = concat (map snd (filter (\<lambda>x. fst x = ?names ! i) xs))\<rparr>"
    if "i < length ?names" for i using that by (simp add: regrouped_def)
  show ?thesis
  proof (cases "s \<in> fst ` set xs")
    case True
    then have "s \<in> set ?names" by simp
    then obtain i where i: "i < length ?names" "?names ! i = s" by (metis in_set_conv_nth)
    then have idx: "index s = Some i" using assms len at by (simp add: slot_index_def)
    have new: "regrouped (xs @ [(s, st)]) =
        map (\<lambda>n. \<lparr>st_db_schema = n, statistics = concat (map snd (filter (\<lambda>x. fst x = n) xs)) @ (if n = s then st else [])\<rparr>) ?names"
      using True by (simp add: regrouped_def)
    have "(regrouped xs)[i := (regrouped xs ! i)\<lparr>statistics := statistics (regrouped xs ! i) @ st\<rparr>] = regrouped (xs @ [(s, st)])"
    proof (rule nth_equalityI)
      fix j assume "j < length ((regrouped xs)[i := (regrouped xs ! i)\<lparr>statistics := statistics (regrouped xs ! i) @ st\<rparr>])"
      then have j: "j < length ?names" using len by simp
      have "?names ! j = s \<longleftrightarrow> j = i" using i j nth_eq_iff_index_eq[of ?names j i] by auto
      with i j at len show "(regrouped xs)[i := (regrouped xs ! i)\<lparr>statistics := statistics (regrouped xs ! i) @ st\<rparr>] ! j =
          regrouped (xs @ [(s, st)]) ! j"
        by (cases "j = i") (simp_all add: new)
    qed (simp add: new len)
    moreover have "slot_index (regrouped (xs @ [(s, st)])) index"
      using assms len at by (auto simp: slot_index_def new)
    ultimately show ?thesis by (simp add: idx)
  next
    case False
    then have "\<not> (\<exists>i < length ?names. ?names ! i = s)" by (metis first_seen_simps(2) image_set nth_mem)
    then have idx: "index s = None" using assms len at by (cases "index s") (auto simp: slot_index_def)
    have "filter (\<lambda>x. fst x = s) xs = []" using False by (auto simp: filter_empty_conv)
    moreover have "(\<lambda>n. \<lparr>st_db_schema = n, statistics = concat (map snd (filter (\<lambda>x. fst x = n) xs)) @ (if n = s then st else [])\<rparr>) n =
        \<lparr>st_db_schema = n, statistics = concat (map snd (filter (\<lambda>x. fst x = n) xs))\<rparr>" if "n \<in> set ?names" for n
      using that False by auto
    ultimately have new: "regrouped (xs @ [(s, st)]) = regrouped xs @ [\<lparr>st_db_schema = s, statistics = st\<rparr>]"
      using False by (auto simp: regrouped_def intro!: map_cong)
    have "slot_index (regrouped (xs @ [(s, st)])) (index(s \<mapsto> length (regrouped xs)))"
      using assms idx unfolding slot_index_def new
      by (auto simp: nth_append less_Suc_eq split: if_splits) (metis option.distinct(1))
    with idx new show ?thesis by simp
  qed
qed

lemma regroup_loop_spec:
  assumes "list_all2 (\<lambda>(p, b) st. parse_table_statistics A b (p_table p) (p_plan p) = Inr st) pbs sts"
    and "slot_index (regrouped xs) index"
  shows "regroup_loop A pbs (regrouped xs) index = Inr (regrouped (xs @ zip (map (p_schema \<circ> fst) pbs) sts))"
  using assms
proof (induction pbs sts arbitrary: xs index rule: list_all2_induct)
  case (Cons pb pbs st sts)
  obtain p b where pb: "pb = (p, b)" by (cases pb)
  have step: "case index (p_schema p) of
      Some i \<Rightarrow> (regrouped xs)[i := (regrouped xs ! i)\<lparr>statistics := statistics (regrouped xs ! i) @ st\<rparr>] = regrouped (xs @ [(p_schema p, st)]) \<and>
        slot_index (regrouped (xs @ [(p_schema p, st)])) index
    | None \<Rightarrow> regrouped xs @ [\<lparr>st_db_schema = p_schema p, statistics = st\<rparr>] = regrouped (xs @ [(p_schema p, st)]) \<and>
        slot_index (regrouped (xs @ [(p_schema p, st)])) (index(p_schema p \<mapsto> length (regrouped xs)))"
    by (rule regroup_step[OF Cons.prems])
  show ?case
  proof (cases "index (p_schema p)")
    case None
    with step have new: "regrouped xs @ [\<lparr>st_db_schema = p_schema p, statistics = st\<rparr>] = regrouped (xs @ [(p_schema p, st)])"
      and idx: "slot_index (regrouped (xs @ [(p_schema p, st)])) (index(p_schema p \<mapsto> length (regrouped xs)))" by simp_all
    show ?thesis using None Cons.IH[OF idx] Cons.hyps(1) pb by (simp add: new comp_def fun_upd_def)
  next
    case (Some i)
    with step have new: "(regrouped xs)[i := (regrouped xs ! i)\<lparr>statistics := statistics (regrouped xs ! i) @ st\<rparr>] = regrouped (xs @ [(p_schema p, st)])"
      and idx: "slot_index (regrouped (xs @ [(p_schema p, st)])) index" by simp_all
    show ?thesis using Some Cons.IH[OF idx] Cons.hyps(1) pb by (simp add: new comp_def)
  qed
qed simp

section \<open>Statistics are the counts\<close>

definition tables_batch :: "(rstring \<times> rstring) list \<Rightarrow> arr list" where
  "tables_batch T = [string_array (map fst T), string_array (map snd T)]"

definition columns_batch :: "stat_column_row list \<Rightarrow> arr list" where
  "columns_batch C = [string_array (map (\<lambda>(s, t, n, y). s) C), string_array (map (\<lambda>(s, t, n, y). t) C),
     string_array (map (\<lambda>(s, t, n, y). n) C), string_array (map (\<lambda>(s, t, n, y). y) C)]"

lemma discovered_tables_rows: "discovered_tables (tables_batch T) = Inr T"
proof -
  have "map (\<lambda>r. (utf8_value (map (\<lambda>s. Some (CStr s)) (map fst T) ! r), utf8_value (map (\<lambda>s. Some (CStr s)) (map snd T) ! r)))
      [0..<length T] = T"
    by (rule nth_equalityI) auto
  then show ?thesis by (simp add: discovered_tables_def tables_batch_def batch_rows_def del: map_map)
qed

lemma discovered_columns_rows:
  "\<exists>m. discovered_columns (columns_batch C) = Inr m \<and> (\<forall>k. bucket m k = columns_of C k)"
proof -
  have sel: "columns_of C k = map (\<lambda>x. (fst (snd (snd x)), is_groupable (snd (snd (snd x))))) (filter (\<lambda>x. (fst x, fst (snd x)) = k) C)" for k
    unfolding columns_of_def by (induction C) auto
  show ?thesis
    unfolding sel discovered_columns_def columns_batch_def
    by (simp add: batch_rows_def eval_nat_numeral del: split_paired_All)
      (intro allI bucket_group_list, auto simp: split_def)
qed

definition table_sql :: "stat_keys \<Rightarrow> stat_column_row list \<Rightarrow> rstring \<times> rstring \<Rightarrow> rstring" where
  "table_sql A C k = (case build_table_query A (fst k) (snd k) (columns_of C k) of Inr (q, _) \<Rightarrow> q | Inl _ \<Rightarrow> [])"

lemma collect_prepared:
  assumes "\<And>k. k \<in> set ks \<Longrightarrow> \<exists>x. build_table_query A (fst k) (snd k) (columns_of C k) = Inr x"
  shows "collect_results (map (prepared_of A C) ks) =
    Inr (map (\<lambda>k. \<lparr>p_schema = fst k, p_table = snd k, p_sql = table_sql A C k, p_plan = table_plan A (columns_of C k)\<rparr>) ks)"
  using assms
proof (induction ks)
  case (Cons k ks)
  then obtain q plan where q: "build_table_query A (fst k) (snd k) (columns_of C k) = Inr (q, plan)" by fastforce
  with build_table_query_spec[OF q] Cons show ?case by (simp add: prepared_of_def table_sql_def)
qed simp

lemma metadata_statements_ok:
  "metadata_sql_builder c = Some b \<Longrightarrow> metadata_statements c qs = Inr (map (plain_sql b) qs)"
  unfolding metadata_statements_def by (induction qs) (simp_all add: ok_or_def)

lemma regroup_counts:
  "regroup_loop A (zip (map (\<lambda>k. \<lparr>p_schema = fst k, p_table = snd k, p_sql = sq k, p_plan = table_plan A (cols k)\<rparr>) ks)
       (map (\<lambda>k. count_batch (count k) (table_exprs (cols k))) ks)) [] Map.empty =
     Inr (regrouped (map (\<lambda>k. (fst k, count_statistics A (count k) (snd k) (cols k))) ks))"
proof -
  let ?pbs = "zip (map (\<lambda>k. \<lparr>p_schema = fst k, p_table = snd k, p_sql = sq k, p_plan = table_plan A (cols k)\<rparr>) ks)
       (map (\<lambda>k. count_batch (count k) (table_exprs (cols k))) ks)"
  let ?sts = "map (\<lambda>k. count_statistics A (count k) (snd k) (cols k)) ks"
  have "list_all2 (\<lambda>(p, b) st. parse_table_statistics A b (p_table p) (p_plan p) = Inr st) ?pbs ?sts"
    by (simp add: list_all2_conv_all_nth parse_counts)
  moreover have "slot_index (regrouped []) Map.empty" by (simp add: slot_index_def regrouped_def)
  moreover have "regrouped [] = []" by (simp add: regrouped_def)
  moreover have "zip (map (p_schema \<circ> fst) ?pbs) ?sts = map (\<lambda>k. (fst k, count_statistics A (count k) (snd k) (cols k))) ks"
    by (rule nth_equalityI) auto
  ultimately show ?thesis using regroup_loop_spec[of A ?pbs ?sts "[]" Map.empty] by simp
qed


section \<open>The batch\<close>

text \<open>The documented result schema; its value union has four branches.\<close>

definition value_branches :: "(int \<times> field) list" where
  "value_branches = [(0, fld ''int64'' Int64 True), (1, fld ''uint64'' UInt64 True), (2, fld ''float64'' Float64 True),
     (3, fld ''binary'' Binary True)]"

definition stat_fields :: "field list" where
  "stat_fields = [fld ''table_name'' Utf8 False, fld ''column_name'' Utf8 True, fld ''statistic_key'' Int16 False,
     fld ''statistic_value'' (Union value_branches) False, fld ''statistic_is_approximate'' Boolean False]"

definition stat_schema_fields :: "field list" where
  "stat_schema_fields = [fld ''db_schema_name'' Utf8 True,
     fld ''db_schema_statistics'' (List (fld ''item'' (Struct stat_fields) True)) False]"

definition documented_statistics_schema :: "field list" where
  "documented_statistics_schema = [fld ''catalog_name'' Utf8 True,
     fld ''catalog_db_schemas'' (List (fld ''item'' (Struct stat_schema_fields) True)) False]"

definition stat_ok :: "statistic \<Rightarrow> bool" where
  "stat_ok s \<longleftrightarrow> i64_range (stat_value s) \<and> - (2 ^ 15) \<le> stat_key s \<and> stat_key s < 2 ^ 15"

definition stat_cell :: "field \<Rightarrow> statistic \<Rightarrow> aval" where
  "stat_cell f s =
     (if field_name f = lit ''table_name'' then VCell (CStr (stat_table s))
      else if field_name f = lit ''column_name'' then opt_string_value (stat_column s)
      else if field_name f = lit ''statistic_key'' then VCell (CInt (stat_key s))
      else if field_name f = lit ''statistic_value'' then VUnion 0 (VCell (CInt (stat_value s)))
      else VCell (CBool False))"

lemma nat_sint_small: "n < 2 ^ 31 \<Longrightarrow> nat (sint (word_of_nat n :: 32 word)) = n"
  by (simp add: signed_of_nat signed_take_bit_int_eq_self)

lemma stat_values_ok:
  assumes K: "arrow_contract K" and "length stats < 2 ^ 31" and ok: "list_all stat_ok stats"
  shows "\<exists>a. dense_union K value_branches [(INT64_BRANCH, FlatArr Int64 (map (\<lambda>s. Some (CInt (stat_value s))) stats))]
      (replicate (length stats) INT64_BRANCH) [0..<nat (sint (word_of_nat (length stats) :: 32 word))] = Inr a \<and>
    reads_as a (Union value_branches) (map (\<lambda>s. VUnion 0 (VCell (CInt (stat_value s)))) stats)"
proof -
  let ?vals = "\<lambda>i. if i = INT64_BRANCH then map (\<lambda>s. VCell (CInt (stat_value s))) stats else []"
  let ?child = "FlatArr Int64 (map (\<lambda>s. Some (CInt (stat_value s))) stats)"
  have child: "reads_as ?child Int64 (?vals 0)"
    using reads_flat[of Int64 "map (\<lambda>s. Some (CInt (stat_value s))) stats"] ok
    by (simp add: list_all_length cell_ok_def stat_ok_def comp_def cell_aval_def INT64_BRANCH_def)
  have "distinct (map fst value_branches)" by (simp add: value_branches_def)
  moreover have "case find (\<lambda>(pid, _). pid = i) [(INT64_BRANCH, ?child)] of None \<Rightarrow> ?vals i = []
      | Some (_, a) \<Rightarrow> reads_as a (field_type f) (?vals i)" if "(i, f) \<in> set value_branches" for i f
    using that child by (auto simp: value_branches_def INT64_BRANCH_def)
  moreover have "list_all2 (\<lambda>t off. t \<in> fst ` set value_branches \<and> off < length (?vals t))
      (replicate (length stats) INT64_BRANCH) [0..<nat (sint (word_of_nat (length stats) :: 32 word))]"
    by (simp add: nat_sint_small[OF assms(2)] list_all2_conv_all_nth value_branches_def INT64_BRANCH_def)
  ultimately have "\<exists>a. dense_union K value_branches [(INT64_BRANCH, ?child)] (replicate (length stats) INT64_BRANCH)
      [0..<nat (sint (word_of_nat (length stats) :: 32 word))] = Inr a \<and>
    reads_as a (Union value_branches) (map (\<lambda>(t, off). VUnion t (?vals t ! off)) (zip (replicate (length stats) INT64_BRANCH)
      [0..<nat (sint (word_of_nat (length stats) :: 32 word))]))"
    by (rule reads_dense_union[OF K])
  moreover have "map (\<lambda>(t, off). VUnion t (?vals t ! off)) (zip (replicate (length stats) INT64_BRANCH)
      [0..<nat (sint (word_of_nat (length stats) :: 32 word))]) = map (\<lambda>s. VUnion 0 (VCell (CInt (stat_value s)))) stats"
    by (rule nth_equalityI) (simp_all add: nat_sint_small[OF assms(2)] INT64_BRANCH_def)
  ultimately show ?thesis by simp
qed

lemma stat_struct_ok:
  assumes K: "arrow_contract K" and "length stats < 2 ^ 31" and ok: "list_all stat_ok stats"
  shows "\<exists>a. build_statistic_struct K stat_fields stats = Inr a \<and>
    reads_as a (Struct stat_fields) (map (named_values stat_fields stat_cell) stats)"
proof -
  obtain u where u: "dense_union K value_branches [(INT64_BRANCH, FlatArr Int64 (map (\<lambda>s. Some (CInt (stat_value s))) stats))]
      (replicate (length stats) INT64_BRANCH) [0..<nat (sint (word_of_nat (length stats) :: 32 word))] = Inr u"
    "reads_as u (Union value_branches) (map (\<lambda>s. VUnion 0 (VCell (CInt (stat_value s)))) stats)"
    using stat_values_ok[OF assms] by blast
  have f: "find_field stat_fields (lit ''statistic_value'') = Inr (fld ''statistic_value'' (Union value_branches) False)"
    by (simp add: find_field_def stat_fields_def lit_eq_iff ok_or_def)
  have "reads_as (FlatArr Int16 (map (\<lambda>s. Some (CInt (stat_key s))) stats)) Int16 (map (\<lambda>s. VCell (CInt (stat_key s))) stats)"
    using reads_flat[of Int16 "map (\<lambda>s. Some (CInt (stat_key s))) stats"] ok
    by (simp add: list_all_length cell_ok_def stat_ok_def comp_def cell_aval_def)
  moreover have "reads_as (FlatArr Boolean (replicate (length stats) (Some (CBool False)))) Boolean (map (\<lambda>_. VCell (CBool False)) stats)"
    using reads_flat[of Boolean "replicate (length stats) (Some (CBool False))"]
    by (simp add: list_all_length cell_ok_def cell_aval_def map_const_replicate)
  moreover have "reads_as (string_opt_array (map stat_column stats)) Utf8 (map (\<lambda>s. opt_string_value (stat_column s)) stats)"
    using reads_opt_strings[of "map stat_column stats"] by (simp add: comp_def)
  ultimately show ?thesis
    unfolding build_statistic_struct_def Let_def f try_bind_simps field.sel data_type.case u(1)
    by (intro reads_struct_map[OF K])
       (use u(2) in \<open>simp_all add: stat_fields_def stat_cell_def[abs_def] lit_eq_iff reads_string_map\<close>)
qed

definition stat_schema_cell :: "field \<Rightarrow> schema_statistics \<Rightarrow> aval" where
  "stat_schema_cell f s =
     (if field_name f = lit ''db_schema_name'' then VCell (CStr (st_db_schema s))
      else VList (map (named_values stat_fields stat_cell) (statistics s)))"

definition read_statistic where
  "read_statistic v = (vstr (vget (lit ''table_name'') v), vstr (vget (lit ''column_name'') v), vint (vget (lit ''statistic_key'') v),
     vget (lit ''statistic_value'') v, vget (lit ''statistic_is_approximate'') v)"

definition read_statistics where
  "read_statistics row = (vstr (vget (lit ''catalog_name'') (VStruct row)),
     velems (\<lambda>v. (vstr (vget (lit ''db_schema_name'') v), velems read_statistic (vget (lit ''db_schema_statistics'') v)))
       (vget (lit ''catalog_db_schemas'') (VStruct row)))"

definition seen_statistic where
  "seen_statistic s = (Some (stat_table s), stat_column s, Some (stat_key s), VUnion 0 (VCell (CInt (stat_value s))), VCell (CBool False))"

definition seen_statistics where
  "seen_statistics cat schemas =
     (Some cat, Some (map (\<lambda>s. (Some (st_db_schema s), Some (map seen_statistic (statistics s)))) schemas))"

lemma read_statistic_ok: "read_statistic (named_values stat_fields stat_cell s) = seen_statistic s"
  by (simp add: read_statistic_def seen_statistic_def vget_named stat_fields_def stat_cell_def lit_eq_iff vstr_opt)
     (simp add: vstr_def vint_def)

lemma read_stat_schema_ok:
  "(vstr (vget (lit ''db_schema_name'') (named_values stat_schema_fields stat_schema_cell s)),
    velems read_statistic (vget (lit ''db_schema_statistics'') (named_values stat_schema_fields stat_schema_cell s))) =
   (Some (st_db_schema s), Some (map seen_statistic (statistics s)))"
  by (simp add: vget_named stat_schema_fields_def stat_schema_cell_def lit_eq_iff velems_def vstr_def read_statistic_ok)

text \<open>
  The statistics batch reads back as the statistics: one catalog row, the schemas in order, and for each its
  statistics in order, a table-level one with a null column, every value in the 64-bit branch of the value union
  and marked exact.
\<close>

theorem statistics_batch_reads_back:
  assumes K: "arrow_contract K" and fit: "length schemas < 2 ^ 31" "sum_list (map (length \<circ> statistics) schemas) < 2 ^ 31"
    and ok: "list_all stat_ok (concat (map statistics schemas))"
  shows "\<exists>b. build_statistics K cat schemas documented_statistics_schema = Inr b \<and>
    map read_statistics (batch_values documented_statistics_schema b) = [seen_statistics cat schemas]"
proof -
  let ?si = "fld ''item'' (Struct stat_fields) True" and ?di = "fld ''item'' (Struct stat_schema_fields) True"
  have f: "find_field documented_statistics_schema (lit ''catalog_db_schemas'') = Inr (fld ''catalog_db_schemas'' (List ?di) False)"
    "find_field stat_schema_fields (lit ''db_schema_statistics'') = Inr (fld ''db_schema_statistics'' (List ?si) False)"
    by (simp_all add: find_field_def documented_statistics_schema_def stat_schema_fields_def lit_eq_iff ok_or_def)
  have "length (concat (map statistics schemas)) < 2 ^ 31" using fit(2) by (simp add: length_concat comp_def)
  from stat_struct_ok[OF K this ok] obtain st where
    st: "build_statistic_struct K stat_fields (concat (map statistics schemas)) = Inr st"
    "reads_as st (Struct stat_fields) (map (named_values stat_fields stat_cell) (concat (map statistics schemas)))" by blast
  from reads_flattened[OF K st(2) fit(2)] obtain l where
    l: "list_of K ?si (map (length \<circ> statistics) schemas) st = Inr l"
    "reads_as l (List ?si) (map (\<lambda>s. VList (map (named_values stat_fields stat_cell) (statistics s))) schemas)" by blast
  have "reads_cols stat_schema_fields [string_array (map st_db_schema schemas), l] (map stat_schema_cell stat_schema_fields) schemas"
    using l(2) reads_string_map[of st_db_schema schemas] by (simp add: stat_schema_fields_def stat_schema_cell_def[abs_def] lit_eq_iff)
  moreover have "stat_schema_fields \<noteq> []" by (simp add: stat_schema_fields_def)
  ultimately obtain ss where
    ss: "struct_of K stat_schema_fields [string_array (map st_db_schema schemas), l] = Inr ss"
    "reads_as ss (Struct stat_schema_fields) (map (named_values stat_schema_fields stat_schema_cell) schemas)"
    using reads_struct_of[OF K] by (metis (no_types, lifting) map_cong struct_value_map)
  from reads_list_of[OF K, of ss ?di "[map (named_values stat_schema_fields stat_schema_cell) schemas]" "[length schemas]"] ss(2) fit(1)
  obtain a where a: "list_of K ?di [length schemas] ss = Inr a"
    "reads_as a (List ?di) [VList (map (named_values stat_schema_fields stat_schema_cell) schemas)]" by auto
  let ?g = "[\<lambda>c. VCell (CStr c), \<lambda>_ :: rstring. VList (map (named_values stat_schema_fields stat_schema_cell) schemas)]"
  have "reads_cols documented_statistics_schema [string_array [cat], a] ?g [cat]"
    using a(2) reads_strings[of "[cat]"] by (simp add: documented_statistics_schema_def)
  from batch_of_ok[OF K this] have b: "batch_of K documented_statistics_schema [string_array [cat], a] = Inr [string_array [cat], a]"
    "batch_values documented_statistics_schema [string_array [cat], a] = [struct_value documented_statistics_schema ?g cat]"
    by (simp_all add: documented_statistics_schema_def)
  have "read_statistics (struct_value documented_statistics_schema ?g cat) = seen_statistics cat schemas"
    by (simp add: read_statistics_def seen_statistics_def struct_value_def documented_statistics_schema_def lit_eq_iff
        velems_def[of "\<lambda>v. (x v, y v)" for x y] read_stat_schema_ok) (simp add: vstr_def)
  with b f st(1) l(1) ss(1) a(1) show ?thesis
    by (simp add: build_statistics_def list_item_def struct_fields_of_def)
qed

text \<open>A database of one table, an \<^verbatim>\<open>INT64\<close> and a \<^verbatim>\<open>JSON\<close> column, and five rows.\<close>

definition sample_keys :: stat_keys where
  "sample_keys = \<lparr>row_count_key = 6, null_count_key = 5, distinct_count_key = 1\<rparr>"

definition sample_columns :: "stat_column_row list" where
  "sample_columns = [([], lit ''t'', lit ''id'', lit ''INT64''), ([], lit ''t'', lit ''j'', lit ''JSON'')]"

definition sample_count :: "rstring \<times> rstring \<Rightarrow> rstring \<Rightarrow> int" where
  "sample_count k e = (if e = null_count_expr (lit ''j'') then 2 else if e = null_count_expr (lit ''id'') then 0 else 5)"

definition sample_client :: "(unit, unit, unit, unit, unit, unit, unit) meta_client" where
  "sample_client =
     \<lparr>mc_crates = plain_crates, mc_text = \<lambda>_. (), mc_to_bound = \<lambda>_. Inr (), mc_multi_use = \<lambda>_ _ srv. (Inr (), srv),
      mc_run = \<lambda>sched _ _ _ _ srv.
        (Inr (if sched = InTurn then [tables_batch [([], lit ''t'')], columns_batch sample_columns]
              else [count_batch (sample_count ([], lit ''t'')) (table_exprs (columns_of sample_columns ([], lit ''t'')))]), srv),
      get_objects_schema = documented_objects_schema, get_statistics_schema = documented_statistics_schema,
      get_statistic_names_schema = [], get_info_schema = []\<rparr>"

definition sample_config :: "unit shared_config" where
  "sample_config = fst (default_config \<lparr>flags = \<lambda>_. False, counts = \<lambda>_. None, next_addr = 0\<rparr>)"

lemma sample_config_builds:
  "\<exists>b. metadata_sql_builder sample_config = Some b"
  "multi_use_timestamp_bound f (read_staleness sample_config) = Inr None"
proof -
  have "\<not> Option.is_none (metadata_sql_builder sample_config)" by code_simp
  then show "\<exists>b. metadata_sql_builder sample_config = Some b" by (simp add: Option.is_none_def)
  show "multi_use_timestamp_bound f (read_staleness sample_config) = Inr None"
    by (simp add: sample_config_def default_config_def Let_def raw_default_def multi_use_timestamp_bound_def)
qed


theorem statistics_batch_reads_back_witness:
  "let s = \<lparr>st_db_schema = lit ''s'', statistics = [\<lparr>stat_table = lit ''t'', stat_column = None, stat_key = 6, stat_value = 5\<rparr>]\<rparr>
   in \<exists>b. build_statistics plain_crates (lit ''db'') [s] documented_statistics_schema = Inr b \<and>
        map read_statistics (batch_values documented_statistics_schema b) = [seen_statistics (lit ''db'') [s]]"
  unfolding Let_def
  by (rule statistics_batch_reads_back[OF plain_crates_contract]) (simp_all add: stat_ok_def i64_range_def)

end
