(* ===== verification/Info.thy ===== *)
theory Info
  imports Objects
begin

text \<open>
  Driver and vendor metadata, \<^verbatim>\<open>src/info.rs\<close>: the reported codes, the value of each, and the two-column batch whose
  value column is a dense union with one child per branch.

  The numbers of the codes belong to \<^verbatim>\<open>adbc_core\<close> and the versions to the build: both are parameters.  A
  requested \<^verbatim>\<open>HashSet\<close> is a list in whatever order it iterates.
\<close>

datatype info_code =
    VendorName | VendorVersion | VendorArrowVersion | VendorSql | VendorSubstrait | VendorSubstraitMinVersion
  | VendorSubstraitMaxVersion | DriverName | DriverVersion | DriverArrowVersion | DriverAdbcVersion | OtherInfo nat

datatype info_value = InfoStr rstring | InfoBool bool | InfoInt int | InfoNull

record build_info =
  code_number :: "info_code \<Rightarrow> nat"
  driver_version :: rstring
  arrow_version :: rstring

definition STRING_VALUE :: int where "STRING_VALUE = 0"

definition BOOL_VALUE :: int where "BOOL_VALUE = 1"

definition INT64_VALUE :: int where "INT64_VALUE = 2"

definition ADBC_VERSION_1_1_0 :: int where "ADBC_VERSION_1_1_0 = 1001000"

definition VENDOR_NAME :: rstring where "VENDOR_NAME = lit ''Google Cloud Spanner''"

definition DRIVER_NAME :: rstring where "DRIVER_NAME = lit ''spanner-adbc''"

definition REPORTED :: "info_code list" where
  "REPORTED = [VendorName, VendorVersion, VendorArrowVersion, VendorSql, VendorSubstrait, VendorSubstraitMinVersion,
     VendorSubstraitMaxVersion, DriverName, DriverVersion, DriverArrowVersion, DriverAdbcVersion]"

fun value_for :: "build_info \<Rightarrow> info_code \<Rightarrow> info_value" where
  "value_for B VendorName = InfoStr VENDOR_NAME"
| "value_for B VendorSql = InfoBool True"
| "value_for B VendorSubstrait = InfoBool False"
| "value_for B DriverName = InfoStr DRIVER_NAME"
| "value_for B DriverVersion = InfoStr (driver_version B)"
| "value_for B DriverArrowVersion = InfoStr (ch CHR ''v'' # arrow_version B)"
| "value_for B DriverAdbcVersion = InfoInt ADBC_VERSION_1_1_0"
| "value_for B _ = InfoNull"

section \<open>The loop over the codes\<close>

record info_columns =
  i_names :: "nat list"
  i_type_ids :: "int list"
  i_offsets :: "nat list"
  i_strings :: "rstring option list"
  i_bools :: "bool option list"
  i_ints :: "int option list"

definition push_row :: "nat \<Rightarrow> int \<Rightarrow> nat \<Rightarrow> info_columns \<Rightarrow> info_columns" where
  "push_row n t off s = s\<lparr>i_names := i_names s @ [n], i_type_ids := i_type_ids s @ [t], i_offsets := i_offsets s @ [off]\<rparr>"

definition push_info :: "build_info \<Rightarrow> info_code \<Rightarrow> info_columns \<Rightarrow> info_columns" where
  "push_info B c s =
     (case value_for B c of
        InfoStr x \<Rightarrow> push_row (code_number B c) STRING_VALUE (length (i_strings s)) (s\<lparr>i_strings := i_strings s @ [Some x]\<rparr>)
      | InfoNull \<Rightarrow> push_row (code_number B c) STRING_VALUE (length (i_strings s)) (s\<lparr>i_strings := i_strings s @ [None]\<rparr>)
      | InfoBool b \<Rightarrow> push_row (code_number B c) BOOL_VALUE (length (i_bools s)) (s\<lparr>i_bools := i_bools s @ [Some b]\<rparr>)
      | InfoInt i \<Rightarrow> push_row (code_number B c) INT64_VALUE (length (i_ints s)) (s\<lparr>i_ints := i_ints s @ [Some i]\<rparr>))"

definition no_columns :: info_columns where
  "no_columns = \<lparr>i_names = [], i_type_ids = [], i_offsets = [], i_strings = [], i_bools = [], i_ints = []\<rparr>"

definition answered_codes :: "build_info \<Rightarrow> info_code list option \<Rightarrow> info_code list" where
  "answered_codes B codes =
     (case codes of
        Some cs \<Rightarrow> sort_key (code_number B) (filter (\<lambda>c. c \<in> set REPORTED) cs)
      | None \<Rightarrow> REPORTED)"

definition build_info_batch ::
  "('d, 'dt) meta_crates \<Rightarrow> field list \<Rightarrow> build_info \<Rightarrow> info_code list option \<Rightarrow> arr list result" where
  "build_info_batch K schema B codes =
     (let s = fold (push_info B) (answered_codes B codes) no_columns
      in try_bind (case schema of
             [_, f] \<Rightarrow> (case field_type f of Union ufs \<Rightarrow> Inr ufs | _ \<Rightarrow> Inl (shape_err (lit ''info_value to be a union'')))
           | _ \<Rightarrow> Inl panicked) (\<lambda>union_fields.
         try_bind (dense_union K union_fields
             [(STRING_VALUE, string_opt_array (i_strings s)),
              (BOOL_VALUE, FlatArr Boolean (map (map_option CBool) (i_bools s))),
              (INT64_VALUE, FlatArr Int64 (map (map_option CInt) (i_ints s)))]
             (i_type_ids s) (i_offsets s)) (\<lambda>info_value.
         batch_of K schema [FlatArr UInt32 (map (\<lambda>n. Some (CInt (int n))) (i_names s)), info_value])))"

definition get_info ::
  "('v, 'ts, 'b, 'txn, 'd, 'dt, 'srv) meta_client \<Rightarrow> build_info \<Rightarrow> info_code list option \<Rightarrow> arr list list result" where
  "get_info M B codes = try_bind (build_info_batch (mc_crates M) (get_info_schema M) B codes) (\<lambda>b. Inr [b])"

end
