(* ===== verification/InfoProps.thy ===== *)
theory InfoProps
  imports Info ObjectsBatch
begin

text \<open>
  What \<^verbatim>\<open>get_info\<close> answers: an explicit request is the restriction of the full answer, in code order, and every row
  reads back as the value of its code.
\<close>

section \<open>The documented schema\<close>

definition info_branches :: "(int \<times> field) list" where
  "info_branches = [(0, fld ''string_value'' Utf8 True), (1, fld ''bool_value'' Boolean True), (2, fld ''int64_value'' Int64 True),
     (3, fld ''int32_bitmask'' Int32 True), (4, fld ''string_list'' (List (fld ''item'' Utf8 True)) True),
     (5, fld ''int32_to_int32_list_map'' (OtherType (lit ''map'')) True)]"

definition documented_info_schema :: "field list" where
  "documented_info_schema = [fld ''info_name'' UInt32 False, fld ''info_value'' (Union info_branches) True]"

definition info_aval :: "info_value \<Rightarrow> aval" where
  "info_aval v = (case v of
     InfoStr s \<Rightarrow> VUnion STRING_VALUE (VCell (CStr s)) | InfoNull \<Rightarrow> VUnion STRING_VALUE VNull
   | InfoBool b \<Rightarrow> VUnion BOOL_VALUE (VCell (CBool b)) | InfoInt i \<Rightarrow> VUnion INT64_VALUE (VCell (CInt i)))"

section \<open>The loop\<close>

text \<open>The children by branch, and what the rows pushed so far read as.\<close>

definition branch_values :: "info_columns \<Rightarrow> int \<Rightarrow> aval list" where
  "branch_values s t =
     (if t = STRING_VALUE then map opt_string_value (i_strings s)
      else if t = BOOL_VALUE then map (\<lambda>b. cell_aval (map_option CBool b)) (i_bools s)
      else if t = INT64_VALUE then map (\<lambda>i. cell_aval (map_option CInt i)) (i_ints s) else [])"

definition rows_read :: "build_info \<Rightarrow> info_columns \<Rightarrow> info_code list \<Rightarrow> bool" where
  "rows_read B s cs \<longleftrightarrow>
     i_names s = map (code_number B) cs \<and> length (i_type_ids s) = length cs \<and> length (i_offsets s) = length cs \<and>
     list_all (\<lambda>i. \<exists>x. i = Some x \<and> i64_range x) (i_ints s) \<and>
     (\<forall>k < length cs. i_type_ids s ! k \<in> {STRING_VALUE, BOOL_VALUE, INT64_VALUE} \<and>
        i_offsets s ! k < length (branch_values s (i_type_ids s ! k)) \<and>
        VUnion (i_type_ids s ! k) (branch_values s (i_type_ids s ! k) ! (i_offsets s ! k)) = info_aval (value_for B (cs ! k)))"

lemma branch_ids [simp]: "STRING_VALUE \<noteq> BOOL_VALUE" "STRING_VALUE \<noteq> INT64_VALUE" "BOOL_VALUE \<noteq> INT64_VALUE"
  "BOOL_VALUE \<noteq> STRING_VALUE" "INT64_VALUE \<noteq> STRING_VALUE" "INT64_VALUE \<noteq> BOOL_VALUE"
  by (simp_all add: STRING_VALUE_def BOOL_VALUE_def INT64_VALUE_def)

lemma push_info_reads:
  assumes "rows_read B s cs" and "c \<in> set REPORTED"
  shows "rows_read B (push_info B c s) (cs @ [c])"
proof -
  have grow: "\<exists>ys. branch_values (push_info B c s) t = branch_values s t @ ys" for t
    by (auto simp: push_info_def push_row_def branch_values_def split: info_value.split)
  have old: "branch_values (push_info B c s) t ! off = branch_values s t ! off \<and> off < length (branch_values (push_info B c s) t)"
    if "off < length (branch_values s t)" for t off
    using grow[of t] that by (auto simp: nth_append)
  have ids: "\<exists>t off. i_names (push_info B c s) = i_names s @ [code_number B c] \<and> i_type_ids (push_info B c s) = i_type_ids s @ [t] \<and>
      i_offsets (push_info B c s) = i_offsets s @ [off] \<and> t \<in> {STRING_VALUE, BOOL_VALUE, INT64_VALUE} \<and>
      off < length (branch_values (push_info B c s) t) \<and>
      VUnion t (branch_values (push_info B c s) t ! off) = info_aval (value_for B c)"
    by (cases "value_for B c")
       (simp_all add: push_info_def push_row_def branch_values_def info_aval_def nth_append opt_string_value_def cell_aval_def)
  have "list_all (\<lambda>i. \<exists>x. i = Some x \<and> i64_range x) (i_ints (push_info B c s))"
    using assms by (cases c) (auto simp: push_info_def push_row_def rows_read_def ADBC_VERSION_1_1_0_def i64_range_def)
  with ids old assms(1) show ?thesis
    unfolding rows_read_def by (auto simp: nth_append less_Suc_eq)
qed

lemma fold_push_reads:
  "rows_read B s cs \<Longrightarrow> set ds \<subseteq> set REPORTED \<Longrightarrow> rows_read B (fold (push_info B) ds s) (cs @ ds)"
proof (induction ds arbitrary: s cs)
  case (Cons d ds)
  then show ?case using Cons.IH[OF push_info_reads[OF Cons.prems(1), of d]] by simp
qed simp

section \<open>The answer\<close>

definition requested :: "info_code list option \<Rightarrow> info_code list" where
  "requested codes = filter (\<lambda>c. case codes of None \<Rightarrow> True | Some cs \<Rightarrow> c \<in> set cs) REPORTED"

lemma distinct_reported: "distinct REPORTED"
  by (simp add: REPORTED_def)

lemma answered_requested:
  assumes "sorted_wrt (<) (map (code_number B) REPORTED)" and "\<And>cs. codes = Some cs \<Longrightarrow> distinct cs"
  shows "answered_codes B codes = requested codes"
proof (cases codes)
  case None
  then show ?thesis by (simp add: answered_codes_def requested_def)
next
  case (Some cs)
  let ?k = "code_number B" and ?xs = "filter (\<lambda>c. c \<in> set REPORTED) cs" and ?ys = "filter (\<lambda>c. c \<in> set cs) REPORTED"
  have sorted: "sorted (map ?k REPORTED)" "distinct (map ?k REPORTED)"
    using assms(1) by (auto simp: strict_sorted_iff)
  then have inj: "inj_on ?k (set REPORTED)" by (simp add: distinct_map)
  have set: "set ?xs = set ?ys" by auto
  have "distinct ?xs" using assms(2) Some by simp
  then have "distinct (map ?k (sort_key ?k ?xs))"
    using inj by (auto simp: distinct_map intro: inj_on_subset)
  moreover have "sorted (map ?k ?ys)" "distinct (map ?k ?ys)"
    using sorted sorted_filter[of ?k REPORTED "\<lambda>c. c \<in> set cs"] inj distinct_reported
    by (auto simp: distinct_map intro: inj_on_subset)
  ultimately have "map ?k (sort_key ?k ?xs) = map ?k ?ys"
    using set by (intro sorted_distinct_set_unique) (simp_all only: sorted_sort_key set_map set_sort)
  moreover have "inj_on ?k (set (sort_key ?k ?xs) \<union> set ?ys)"
    by (rule inj_on_subset[OF inj]) auto
  ultimately have "sort_key ?k ?xs = ?ys" by (rule map_inj_on)
  with Some show ?thesis by (simp add: answered_codes_def requested_def)
qed


text \<open>A request for the driver name, an unrecognised code and the vendor version, in that order.\<close>

definition sample_info :: build_info where
  "sample_info =
     \<lparr>code_number = (\<lambda>c. case c of VendorName \<Rightarrow> 0 | VendorVersion \<Rightarrow> 1 | VendorArrowVersion \<Rightarrow> 2 | VendorSql \<Rightarrow> 3
        | VendorSubstrait \<Rightarrow> 4 | VendorSubstraitMinVersion \<Rightarrow> 5 | VendorSubstraitMaxVersion \<Rightarrow> 6 | DriverName \<Rightarrow> 100
        | DriverVersion \<Rightarrow> 101 | DriverArrowVersion \<Rightarrow> 102 | DriverAdbcVersion \<Rightarrow> 103 | OtherInfo n \<Rightarrow> n mod 2 ^ 32),
      driver_version = lit ''1.0'', arrow_version = lit ''58''\<rparr>"

definition info_client :: "(unit, unit, unit, unit, unit, unit, unit) meta_client" where
  "info_client =
     \<lparr>mc_crates = plain_crates, mc_text = \<lambda>_. (), mc_to_bound = \<lambda>_. Inr (), mc_multi_use = \<lambda>_ _ srv. (Inr (), srv),
      mc_run = \<lambda>_ _ _ _ _ srv. (Inr [], srv), get_objects_schema = [], get_statistics_schema = [],
      get_statistic_names_schema = [], get_info_schema = documented_info_schema\<rparr>"


end
