(* ===== verification/FfiGuard.thy ===== *)
theory FfiGuard
  imports DatabaseOptions
begin

text \<open>
  Panic containment and the pointer conversions of the C boundary, \<^verbatim>\<open>src/ffi/guard.rs\<close>.

  A call of the driver either returns or unwinds with a panic payload.  A C pointer argument is an
  \<^typ>\<open>'a option\<close>, \<^const>\<open>None\<close> being the null pointer; a pointer to bytes is the list of the bytes the
  caller owns from that address on, so an access past its end is outside the caller's allocation.  What
  Rust calls undefined behaviour is explicit: an operation that could perform an access of that kind
  returns an option whose \<^const>\<open>None\<close> is that access.
\<close>

section \<open>Panics\<close>

text \<open>The payload of a panic: the text of a \<^verbatim>\<open>&str\<close> or a \<^verbatim>\<open>String\<close>, nothing for any other type.\<close>

datatype 'a outcome = Answered 'a | Unwound "rstring option"

definition panic_message :: "rstring option \<Rightarrow> rstring" where
  "panic_message cause = (case cause of Some text \<Rightarrow> text | None \<Rightarrow> lit ''unknown panic payload'')"

definition caught_panic :: "rstring option \<Rightarrow> error" where
  "caught_panic cause = err (lit ''Uncaught panic in the Spanner driver: '' @ panic_message cause) Internal"

definition catch :: "'a result outcome \<Rightarrow> error + 'a result" where
  "catch body = (case body of Answered r \<Rightarrow> Inr r | Unwound cause \<Rightarrow> Inl (caught_panic cause))"

text \<open>\<^verbatim>\<open>catch(...).unwrap_or_else(Err)\<close>.\<close>

definition flattened :: "error + 'a result \<Rightarrow> 'a result" where
  "flattened r = (case r of Inl e \<Rightarrow> Inl e | Inr x \<Rightarrow> x)"

section \<open>Strings and byte arguments\<close>

type_synonym c_str = "u8 list option"

text \<open>\<^verbatim>\<open>CString::new(bytes).unwrap_or_default()\<close> on bytes without a NUL; the terminator is left implicit.\<close>

definition sanitized_cstring :: "rstring \<Rightarrow> u8 list" where
  "sanitized_cstring text =
     (let bytes = map (\<lambda>b. if b = 0 then 63 else b) (as_bytes text)
      in if 0 \<in> set bytes then [] else bytes)"

text \<open>\<^verbatim>\<open>CStr::from_ptr\<close>: the bytes before the first NUL, which has to lie in the caller's memory.\<close>

definition cstr_from_ptr :: "u8 list \<Rightarrow> u8 list option" where
  "cstr_from_ptr mem = (if 0 \<in> set mem then Some (takeWhile (\<lambda>b. b \<noteq> 0) mem) else None)"

definition missing_argument :: "rstring \<Rightarrow> error" where
  "missing_argument name = invalid_argument (name @ lit '' must not be null'')"

definition required_str :: "c_str \<Rightarrow> rstring \<Rightarrow> rstring result option" where
  "required_str ptr name =
     (case ptr of
        None \<Rightarrow> Some (Inl (missing_argument name))
      | Some mem \<Rightarrow>
          map_option (\<lambda>bytes. ok_or (invalid_argument (name @ lit '' must be valid UTF-8'')) (from_utf8 bytes))
            (cstr_from_ptr mem))"

definition optional_str :: "c_str \<Rightarrow> rstring \<Rightarrow> rstring option result option" where
  "optional_str ptr name =
     (case ptr of
        None \<Rightarrow> Some (Inr None)
      | Some mem \<Rightarrow> map_option (\<lambda>r. try_bind r (\<lambda>s. Inr (Some s))) (required_str ptr name))"

text \<open>
  The loop of \<^verbatim>\<open>optional_str_list\<close>: the array of the caller ends at its null entry; running off the caller's
  array without meeting one is outside the allocation.
\<close>

fun str_list_loop :: "c_str list \<Rightarrow> rstring \<Rightarrow> rstring list \<Rightarrow> rstring list result option" where
  "str_list_loop [] name items = None"
| "str_list_loop (entry # cursor) name items =
     (case entry of
        None \<Rightarrow> Some (Inr items)
      | Some mem \<Rightarrow>
          (case required_str entry name of
             None \<Rightarrow> None
           | Some (Inl e) \<Rightarrow> Some (Inl e)
           | Some (Inr s) \<Rightarrow> str_list_loop cursor name (items @ [s])))"

definition optional_str_list :: "c_str list option \<Rightarrow> rstring \<Rightarrow> rstring list option result option" where
  "optional_str_list ptr name =
     (case ptr of
        None \<Rightarrow> Some (Inr None)
      | Some entries \<Rightarrow> map_option (\<lambda>r. try_bind r (\<lambda>xs. Inr (Some xs))) (str_list_loop entries name []))"

definition byte_slice :: "c_str \<Rightarrow> nat \<Rightarrow> rstring \<Rightarrow> u8 list result option" where
  "byte_slice ptr len name =
     (case ptr of
        None \<Rightarrow>
          Some (if len = 0 then Inr []
                else Inl (invalid_argument (name @ lit '' must not be null for a nonzero length'')))
      | Some mem \<Rightarrow> if len \<le> length mem then Some (Inr (take len mem)) else None)"

section \<open>Output buffers\<close>

text \<open>\<open>dst\<close> is the caller's buffer, \<open>len\<close> its \<^verbatim>\<open>size_t\<close> in/out cell.\<close>

definition available_space :: "c_str \<Rightarrow> nat option \<Rightarrow> nat result" where
  "available_space dst len =
     (case len of
        None \<Rightarrow> Inl (missing_argument (lit ''length''))
      | Some available \<Rightarrow>
          if dst = None \<and> available > 0
          then Inl (invalid_argument (lit ''value must not be null for a nonzero buffer length''))
          else Inr available)"

text \<open>\<^verbatim>\<open>copy_nonoverlapping\<close> into the caller's buffer; a null or a too short destination is undefined.\<close>

definition copy_out :: "u8 list \<Rightarrow> c_str \<Rightarrow> c_str option" where
  "copy_out src dst =
     (case dst of
        None \<Rightarrow> None
      | Some mem \<Rightarrow> if length src \<le> length mem then Some (Some (src @ drop (length src) mem)) else None)"

definition write_string :: "rstring \<Rightarrow> c_str \<Rightarrow> nat option \<Rightarrow> (c_str \<times> nat option) result option" where
  "write_string value dst len =
     (case available_space dst len of
        Inl e \<Rightarrow> Some (Inl e)
      | Inr available \<Rightarrow>
          (let bytes = as_bytes value; required = length bytes + 1
           in if 0 \<in> set bytes
              then Some (Inl (err (lit ''option value contains an interior NUL'') Internal))
              else if required \<le> available
              then map_option (\<lambda>dst'. Inr (dst', Some required)) (copy_out (bytes @ [0]) dst)
              else Some (Inr (dst, Some required))))"

definition write_bytes :: "u8 list \<Rightarrow> c_str \<Rightarrow> nat option \<Rightarrow> (c_str \<times> nat option) result option" where
  "write_bytes value dst len =
     (case available_space dst len of
        Inl e \<Rightarrow> Some (Inl e)
      | Inr available \<Rightarrow>
          if dst \<noteq> None \<and> length value \<le> available
          then map_option (\<lambda>dst'. Inr (dst', Some (length value))) (copy_out value dst)
          else Some (Inr (dst, Some (length value))))"

text \<open>An out parameter is written as a whole: its pointer is null or not, and the value it is given.\<close>

definition required_output :: "bool \<Rightarrow> rstring \<Rightarrow> unit result" where
  "required_output non_null name = (if non_null then Inr () else Inl (missing_argument name))"

definition write_out :: "bool \<Rightarrow> 'a \<Rightarrow> rstring \<Rightarrow> 'a result" where
  "write_out non_null value name = try_bind (required_output non_null name) (\<lambda>_. Inr value)"

end
