(* ===== verification/FfiError.thy ===== *)
theory FfiError
  imports FfiGuard "HOL-Library.Monad_Syntax"
begin

text \<open>
  Writing an error through the caller's \<^verbatim>\<open>AdbcError\<close>, \<^verbatim>\<open>src/ffi/error.rs\<close>, on the structs of
  \<^verbatim>\<open>src/ffi/abi.rs\<close>.

  The caller allocates the struct at the size of the revision it was built against.  The model keeps the
  fields of the 1.0.0 prefix and, as an option, the two fields of the 1.1.0 tail: a struct without a tail is
  an allocation of the prefix only, and touching its tail is the out-of-bounds access that makes an operation
  return \<^const>\<open>None\<close>.  Message strings and detail boxes are allocations of an explicit store, so that a second
  free, a read of freed memory and a leak are visible.
\<close>

section \<open>The C structs and the store\<close>

text \<open>\<^verbatim>\<open>ADBC_ERROR_VENDOR_CODE_PRIVATE_DATA\<close>, the \<^verbatim>\<open>i32\<close> that advertises the 1.1.0 layout.\<close>

definition VENDOR_CODE_PRIVATE_DATA :: int where
  "VENDOR_CODE_PRIVATE_DATA = - (2 ^ 31)"

text \<open>A release callback: one of the driver's own two, or one that another driver left in the struct.\<close>

datatype release_callback = Release_error | Release_error_v100 | Foreign nat

type_synonym error_details = "(u8 list \<times> u8 list) list"

record error_tail =
  private_data :: "nat option"
  private_driver :: "nat option"

record adbc_error =
  c_message :: "nat option"
  c_vendor_code :: int
  sqlstate :: "u8 list"
  release :: "release_callback option"
  tail :: "error_tail option"

record error_heap =
  cstrings :: "nat \<rightharpoonup> u8 list"
  boxes :: "nat \<rightharpoonup> error_details"
  next_address :: nat

definition cstring_into_raw :: "u8 list \<Rightarrow> error_heap \<Rightarrow> nat \<times> error_heap" where
  "cstring_into_raw s h =
     (next_address h, h\<lparr>cstrings := (cstrings h)(next_address h \<mapsto> s), next_address := next_address h + 1\<rparr>)"

definition box_into_raw :: "error_details \<Rightarrow> error_heap \<Rightarrow> nat \<times> error_heap" where
  "box_into_raw d h =
     (next_address h, h\<lparr>boxes := (boxes h)(next_address h \<mapsto> d), next_address := next_address h + 1\<rparr>)"

text \<open>\<^verbatim>\<open>drop(CString::from_raw(p))\<close> and \<^verbatim>\<open>drop(Box::from_raw(p))\<close>: only a live allocation may be freed.\<close>

definition drop_cstring :: "nat \<Rightarrow> error_heap \<Rightarrow> error_heap option" where
  "drop_cstring a h = (if cstrings h a = None then None else Some (h\<lparr>cstrings := (cstrings h)(a := None)\<rparr>))"

definition drop_box :: "nat \<Rightarrow> error_heap \<Rightarrow> error_heap option" where
  "drop_box a h = (if boxes h a = None then None else Some (h\<lparr>boxes := (boxes h)(a := None)\<rparr>))"

section \<open>Release callbacks\<close>

definition drop_message :: "adbc_error \<Rightarrow> error_heap \<Rightarrow> (adbc_error \<times> error_heap) option" where
  "drop_message e h =
     (case c_message e of
        None \<Rightarrow> Some (e, h)
      | Some a \<Rightarrow> map_option (\<lambda>h'. (e\<lparr>c_message := None\<rparr>, h')) (drop_cstring a h))"

definition release_error :: "adbc_error \<Rightarrow> error_heap \<Rightarrow> (adbc_error \<times> error_heap) option" where
  "release_error e h = do {
     (e, h) \<leftarrow> drop_message e h;
     t \<leftarrow> tail e;
     (t, h) \<leftarrow> (case private_data t of
                 None \<Rightarrow> Some (t, h)
               | Some a \<Rightarrow> map_option (\<lambda>h'. (t\<lparr>private_data := None\<rparr>, h')) (drop_box a h));
     Some (e\<lparr>tail := Some t, release := None\<rparr>, h)
   }"

definition release_error_v100 :: "adbc_error \<Rightarrow> error_heap \<Rightarrow> (adbc_error \<times> error_heap) option" where
  "release_error_v100 e h = do {
     (e, h) \<leftarrow> drop_message e h;
     Some (e\<lparr>release := None\<rparr>, h)
   }"

text \<open>Running whatever callback the struct carries; \<open>foreign\<close> is what a foreign one leaves in the struct.\<close>

fun run_release ::
  "(nat \<Rightarrow> adbc_error \<Rightarrow> adbc_error) \<Rightarrow> release_callback \<Rightarrow> adbc_error \<Rightarrow> error_heap \<Rightarrow>
   (adbc_error \<times> error_heap) option" where
  "run_release foreign Release_error e h = release_error e h"
| "run_release foreign Release_error_v100 e h = release_error_v100 e h"
| "run_release foreign (Foreign n) e h = Some (foreign n e, h)"

section \<open>Exporting\<close>

definition VENDOR_CODE_DETAIL_KEY :: rstring where
  "VENDOR_CODE_DETAIL_KEY = lit ''adbc.spanner.vendor_code''"

text \<open>The details of the 1.1.0 layout: the error's own, then the vendor code the sentinel displaces.\<close>

definition exported_details :: "error \<Rightarrow> error_details" where
  "exported_details e =
     map (\<lambda>(key, value). (sanitized_cstring key, value)) (case details e of None \<Rightarrow> [] | Some d \<Rightarrow> d) @
     (if vendor_code e \<noteq> 0
      then [(sanitized_cstring VENDOR_CODE_DETAIL_KEY, as_bytes (show_int (vendor_code e)))] else [])"

definition export_error ::
  "(nat \<Rightarrow> adbc_error \<Rightarrow> adbc_error) \<Rightarrow> adbc_error option \<Rightarrow> error \<Rightarrow> error_heap \<Rightarrow>
   (adbc_error option \<times> error_heap) option" where
  "export_error foreign out e h =
     (case out of
        None \<Rightarrow> Some (None, h)
      | Some x \<Rightarrow> do {
          let is_v110 = (c_vendor_code x = VENDOR_CODE_PRIVATE_DATA);
          driver \<leftarrow> (if is_v110 then map_option private_driver (tail x) else Some None);
          (x, h) \<leftarrow> (case release x of Some callback \<Rightarrow> run_release foreign callback x h | None \<Rightarrow> Some (x, h));
          if is_v110 then do {
            let (m, h) = cstring_into_raw (sanitized_cstring (message e)) h;
            let (b, h) = box_into_raw (exported_details e) h;
            _ \<leftarrow> tail x;
            Some (Some \<lparr>c_message = Some m, c_vendor_code = VENDOR_CODE_PRIVATE_DATA, sqlstate = replicate 5 0,
                        release = Some Release_error,
                        tail = Some \<lparr>private_data = Some b, private_driver = driver\<rparr>\<rparr>, h)
          } else do {
            let (m, h) = cstring_into_raw (sanitized_cstring (message e)) h;
            Some (Some (x\<lparr>c_message := Some m,
                          c_vendor_code := if vendor_code e = VENDOR_CODE_PRIVATE_DATA then 0 else vendor_code e,
                          sqlstate := replicate 5 0, release := Some Release_error_v100\<rparr>), h)
          }
        })"

section \<open>Reading the details back\<close>

text \<open>The outer option is the access, the inner one whether there are details at all.\<close>

definition details_of :: "adbc_error option \<Rightarrow> error_heap \<Rightarrow> error_details option option" where
  "details_of out h =
     (case out of
        None \<Rightarrow> Some None
      | Some x \<Rightarrow>
          if c_vendor_code x \<noteq> VENDOR_CODE_PRIVATE_DATA then Some None
          else do {
            t \<leftarrow> tail x;
            case private_data t of None \<Rightarrow> Some None | Some a \<Rightarrow> map_option Some (boxes h a)
          })"

definition error_get_detail_count :: "adbc_error option \<Rightarrow> error_heap \<Rightarrow> int option" where
  "error_get_detail_count out h =
     map_option (\<lambda>ds. case ds of None \<Rightarrow> 0 | Some d \<Rightarrow> min (int (length d)) (2 ^ 31 - 1)) (details_of out h)"

definition error_get_detail :: "adbc_error option \<Rightarrow> int \<Rightarrow> error_heap \<Rightarrow> (u8 list \<times> u8 list) option option" where
  "error_get_detail out index h =
     map_option (\<lambda>ds. case ds of
         None \<Rightarrow> None
       | Some d \<Rightarrow> if index < 0 then None else if nat index < length d then Some (d ! nat index) else None)
       (details_of out h)"

section \<open>Finishing a call\<close>

text \<open>
  \<^verbatim>\<open>handle.rs\<close>'s \<open>finish\<close>: the status code of a result (\<^const>\<open>None\<close> is \<^verbatim>\<open>ADBC_STATUS_OK\<close>) and the exported
  error.  The caller's error pointer and the store of error allocations travel together.
\<close>

record error_sink =
  out_error :: "adbc_error option"
  heap :: error_heap

type_synonym status_code = "status option"

definition finish_call ::
  "(nat \<Rightarrow> adbc_error \<Rightarrow> adbc_error) \<Rightarrow> 'a result \<Rightarrow> error_sink \<Rightarrow> (status_code \<times> error_sink) option" where
  "finish_call foreign r s =
     (case r of
        Inr _ \<Rightarrow> Some (None, s)
      | Inl e \<Rightarrow>
          map_option (\<lambda>(out, h). (Some (status e), \<lparr>out_error = out, heap = h\<rparr>))
            (export_error foreign (out_error s) e (heap s)))"

end
