(* ===== verification/FfiStream.thy ===== *)
theory FfiStream
  imports FfiError
begin

text \<open>
  The exported Arrow C stream, \<^verbatim>\<open>src/ffi/stream.rs\<close>: the callbacks a consumer drives a reader with, their panic
  containment, and the structured error behind a failed callback.

  The reader is any \<^verbatim>\<open>RecordBatchReader\<close>: its \<open>schema\<close> and \<open>next\<close> may return or unwind, and \<open>next\<close> moves it to its
  next state.  An \<^verbatim>\<open>ArrowError\<close> is the variant the code branches on, its text, and the driver error that its source
  chain embeds, if any.  A schema is exported by \<^verbatim>\<open>FFI_ArrowSchema::try_from\<close>, a parameter.
\<close>

section \<open>State\<close>

datatype arrow_variant = NotYetImplemented | MemoryError | IoError | OtherArrow

record arrow_failure =
  variant :: arrow_variant
  arrow_text :: rstring
  embedded :: "error option"

datatype errno = EACCES | ECANCELED | EEXIST | EINVAL | EIO | ENOENT | ENOMEM | ENOSYS | ENOTSUP | ETIMEDOUT

record last_error =
  error_text :: "u8 list"
  structured :: error

definition STREAM_MAGIC :: nat where
  "STREAM_MAGIC = 0x5350414e5354524d"

record 'rd private_stream =
  magic :: nat
  stream_reader :: 'rd
  stream_driver :: "nat option"
  last_error :: "last_error option"
  exported_error :: "adbc_error option"
  panicked_flag :: bool

text \<open>The C struct: whose release callback it carries, if any, and its private data.\<close>

datatype stream_callback = Own_release | Other_release

record 'rd c_stream =
  s_release :: "stream_callback option"
  s_private :: "'rd private_stream option"

text \<open>The reader's code, and the export of its schema.\<close>

record ('rd, 'b, 'sc) reader_code =
  r_schema :: "'rd \<Rightarrow> (arrow_failure + 'sc) outcome"
  r_next :: "'rd \<Rightarrow> (arrow_failure + 'b) option outcome \<times> 'rd"

definition export_reader :: "'rd \<Rightarrow> nat option \<Rightarrow> 'rd c_stream" where
  "export_reader rd driver =
     \<lparr>s_release = Some Own_release,
      s_private = Some \<lparr>magic = STREAM_MAGIC, stream_reader = rd, stream_driver = driver, last_error = None,
                        exported_error = None, panicked_flag = False\<rparr>\<rparr>"

section \<open>Recording failures\<close>

definition set_error :: "error \<Rightarrow> 'rd private_stream \<Rightarrow> 'rd private_stream" where
  "set_error e s = s\<lparr>last_error := Some \<lparr>error_text = sanitized_cstring (message e), structured = e\<rparr>\<rparr>"

definition fail :: "rstring \<Rightarrow> 'rd private_stream \<Rightarrow> errno option \<times> 'rd private_stream" where
  "fail m s = (Some EINVAL, set_error (err m InvalidArguments) s)"

fun adbc_status_to_errno :: "status \<Rightarrow> errno" where
  "adbc_status_to_errno Unknown = EIO"
| "adbc_status_to_errno NotImplemented = ENOTSUP"
| "adbc_status_to_errno NotFound = ENOENT"
| "adbc_status_to_errno AlreadyExists = EEXIST"
| "adbc_status_to_errno InvalidArguments = EINVAL"
| "adbc_status_to_errno InvalidState = EINVAL"
| "adbc_status_to_errno InvalidData = EIO"
| "adbc_status_to_errno Integrity = EIO"
| "adbc_status_to_errno Internal = EIO"
| "adbc_status_to_errno IO = EIO"
| "adbc_status_to_errno Cancelled = ECANCELED"
| "adbc_status_to_errno Timeout = ETIMEDOUT"
| "adbc_status_to_errno Unauthenticated = EACCES"
| "adbc_status_to_errno Unauthorized = EACCES"

fun variant_code :: "arrow_variant \<Rightarrow> errno \<times> status" where
  "variant_code NotYetImplemented = (ENOSYS, NotImplemented)"
| "variant_code MemoryError = (ENOMEM, Internal)"
| "variant_code IoError = (EIO, IO)"
| "variant_code OtherArrow = (EINVAL, Unknown)"

definition arrow_error :: "arrow_failure \<Rightarrow> 'rd private_stream \<Rightarrow> errno option \<times> 'rd private_stream" where
  "arrow_error f s =
     (let (code, st) = variant_code (variant f);
          code = (case embedded f of None \<Rightarrow> code | Some e \<Rightarrow> adbc_status_to_errno (status e));
          e = (case embedded f of None \<Rightarrow> err (arrow_text f) st | Some e \<Rightarrow> e)
      in (Some code, s\<lparr>last_error := Some \<lparr>error_text = sanitized_cstring (arrow_text f), structured = e\<rparr>\<rparr>))"

section \<open>Callbacks\<close>

text \<open>
  \<open>callback\<close> is given the private data and returns its code and output, or unwinds; the private data it leaves is
  kept in both cases.  A code of \<^const>\<open>None\<close> is zero.
\<close>

definition catch_callback ::
  "('rd private_stream \<Rightarrow> (errno option \<times> 'o option) outcome \<times> 'rd private_stream) \<Rightarrow> 'rd c_stream option \<Rightarrow>
   errno option \<times> 'o option \<times> 'rd c_stream option" where
  "catch_callback callback stream =
     (case stream of
        None \<Rightarrow> (Some EINVAL, None, stream)
      | Some c \<Rightarrow>
          (case s_private c of
             None \<Rightarrow> (Some EINVAL, None, stream)
           | Some s \<Rightarrow>
               if panicked_flag s then (Some EINVAL, None, stream)
               else
                 (case callback s of
                    (Answered (code, out), s') \<Rightarrow> (code, out, Some (c\<lparr>s_private := Some s'\<rparr>))
                  | (Unwound cause, s') \<Rightarrow>
                      (Some EINVAL, None,
                       Some (c\<lparr>s_private := Some (set_error
                         (err (lit ''Uncaught panic in the Spanner Arrow stream: '' @ panic_message cause) Internal)
                         (s'\<lparr>panicked_flag := True\<rparr>))\<rparr>)))))"

definition get_schema ::
  "('rd, 'b, 'sc) reader_code \<Rightarrow> bool \<Rightarrow> 'rd c_stream option \<Rightarrow> errno option \<times> 'sc option \<times> 'rd c_stream option" where
  "get_schema R out =
     catch_callback (\<lambda>s.
       if \<not> out then
         (case fail (lit ''Arrow C Stream schema output must not be null'') s of (code, s') \<Rightarrow> (Answered (code, None), s'))
       else
         (case r_schema R (stream_reader s) of
            Unwound cause \<Rightarrow> (Unwound cause, s)
          | Answered (Inr sc) \<Rightarrow> (Answered (None, Some sc), s)
          | Answered (Inl f) \<Rightarrow> (case arrow_error f s of (code, s') \<Rightarrow> (Answered (code, None), s'))))"

text \<open>The batch at the end of the stream is the released array: \<^term>\<open>Some None\<close>.\<close>

definition get_next ::
  "('rd, 'b, 'sc) reader_code \<Rightarrow> bool \<Rightarrow> 'rd c_stream option \<Rightarrow>
   errno option \<times> 'b option option \<times> 'rd c_stream option" where
  "get_next R out =
     catch_callback (\<lambda>s0.
       let s = s0\<lparr>last_error := None\<rparr>
       in if \<not> out then
            (case fail (lit ''Arrow C Stream array output must not be null'') s of (code, s') \<Rightarrow> (Answered (code, None), s'))
          else
            (case r_next R (stream_reader s) of
               (Unwound cause, rd) \<Rightarrow> (Unwound cause, s\<lparr>stream_reader := rd\<rparr>)
             | (Answered None, rd) \<Rightarrow> (Answered (None, Some None), s\<lparr>stream_reader := rd\<rparr>)
             | (Answered (Some (Inr b)), rd) \<Rightarrow> (Answered (None, Some (Some b)), s\<lparr>stream_reader := rd\<rparr>)
             | (Answered (Some (Inl f)), rd) \<Rightarrow>
                 (case arrow_error f (s\<lparr>stream_reader := rd\<rparr>) of (code, s') \<Rightarrow> (Answered (code, None), s'))))"

definition get_last_error :: "'rd c_stream option \<Rightarrow> u8 list option" where
  "get_last_error stream = Option.bind stream (\<lambda>c. Option.bind (s_private c) (\<lambda>s. map_option error_text (last_error s)))"

section \<open>The structured error\<close>

text \<open>The storage handed out for it, of the full 1.1.0 size.\<close>

definition fresh_error :: "nat option \<Rightarrow> adbc_error" where
  "fresh_error driver =
     \<lparr>c_message = None, c_vendor_code = VENDOR_CODE_PRIVATE_DATA, sqlstate = replicate 5 0, release = None,
      tail = Some \<lparr>private_data = None, private_driver = driver\<rparr>\<rparr>"

text \<open>
  The answer is the status written and the error returned: \<^const>\<open>None\<close> for a stream that is not this driver's, whose
  status is left alone.
\<close>

definition error_from_array_stream ::
  "(nat \<Rightarrow> adbc_error \<Rightarrow> adbc_error) \<Rightarrow> 'rd c_stream option \<Rightarrow> error_heap \<Rightarrow>
   ((status_code \<times> adbc_error) option \<times> 'rd c_stream option \<times> error_heap) option" where
  "error_from_array_stream foreign stream h =
     (case stream of
        None \<Rightarrow> Some (None, stream, h)
      | Some c \<Rightarrow>
          (case s_private c of
             None \<Rightarrow> Some (None, stream, h)
           | Some s \<Rightarrow>
               if s_release c \<noteq> Some Own_release \<or> magic s \<noteq> STREAM_MAGIC then Some (None, stream, h)
               else do {
                 let x = (case exported_error s of Some x \<Rightarrow> x | None \<Rightarrow> fresh_error (stream_driver s));
                 (code, x, h) \<leftarrow>
                   (case last_error s of
                      None \<Rightarrow>
                        (case release x of
                           None \<Rightarrow> Some (None, x, h)
                         | Some callback \<Rightarrow> map_option (\<lambda>(x, h). (None, x, h)) (run_release foreign callback x h))
                    | Some l \<Rightarrow>
                        map_option (\<lambda>(out, h). (Some (status (structured l)), the out, h))
                          (export_error foreign (Some (x\<lparr>c_vendor_code := VENDOR_CODE_PRIVATE_DATA\<rparr>)) (structured l) h));
                 Some (Some (code, x), Some (c\<lparr>s_private := Some (s\<lparr>exported_error := Some x\<rparr>)\<rparr>), h)
               }))"

section \<open>Release\<close>

text \<open>\<^verbatim>\<open>PrivateData::drop\<close>: the exported error goes with the stream.\<close>

definition drop_private ::
  "(nat \<Rightarrow> adbc_error \<Rightarrow> adbc_error) \<Rightarrow> 'rd private_stream \<Rightarrow> error_heap \<Rightarrow> error_heap option" where
  "drop_private foreign s h =
     (case exported_error s of
        None \<Rightarrow> Some h
      | Some x \<Rightarrow>
          (case release x of None \<Rightarrow> Some h | Some callback \<Rightarrow> map_option snd (run_release foreign callback x h)))"

definition release_stream ::
  "(nat \<Rightarrow> adbc_error \<Rightarrow> adbc_error) \<Rightarrow> 'rd c_stream option \<Rightarrow> error_heap \<Rightarrow> ('rd c_stream option \<times> error_heap) option" where
  "release_stream foreign stream h =
     (case stream of
        None \<Rightarrow> Some (None, h)
      | Some c \<Rightarrow>
          (case s_private c of
             None \<Rightarrow> Some (Some \<lparr>s_release = None, s_private = None\<rparr>, h)
           | Some s \<Rightarrow> map_option (Pair (Some \<lparr>s_release = None, s_private = None\<rparr>)) (drop_private foreign s h)))"

end
