(* ===== verification/FfiErrorProps.thy ===== *)
theory FfiErrorProps
  imports FfiError UriProps
begin

text \<open>
  The error struct over a whole session: no sequence of exports, releases and detail reads touches memory
  the caller does not own or frees anything twice, and releasing the last error returns every allocation.
  A caller of either revision reads back what the driver exported.
\<close>

section \<open>Ownership\<close>

definition heap_ok :: "error_heap \<Rightarrow> bool" where
  "heap_ok h \<longleftrightarrow> (\<forall>a \<ge> next_address h. cstrings h a = None \<and> boxes h a = None)"

text \<open>
  A foreign release callback works inside the caller's allocation and marks the struct released; it leaves the
  sentinel only in a struct that has the tail.
\<close>

definition foreign_ok :: "(nat \<Rightarrow> adbc_error \<Rightarrow> adbc_error) \<Rightarrow> bool" where
  "foreign_ok foreign \<longleftrightarrow>
     (\<forall>n x. release (foreign n x) = None \<and> (tail (foreign n x) = None \<longleftrightarrow> tail x = None) \<and>
            (c_vendor_code (foreign n x) = VENDOR_CODE_PRIVATE_DATA \<longrightarrow> tail x \<noteq> None))"

text \<open>What the caller promises of a fresh struct: the sentinel only on an allocation with the tail.\<close>

definition sentinel_ok :: "adbc_error \<Rightarrow> bool" where
  "sentinel_ok x \<longleftrightarrow> (c_vendor_code x = VENDOR_CODE_PRIVATE_DATA \<longrightarrow> tail x \<noteq> None)"

text \<open>
  The store \<open>h\<close> is the store \<open>h0\<close> of before plus exactly the allocations the struct's callback will free.
\<close>

definition owns :: "error_heap \<Rightarrow> adbc_error \<Rightarrow> error_heap \<Rightarrow> bool" where
  "owns h0 x h \<longleftrightarrow>
     (case release x of
        Some Release_error \<Rightarrow>
          \<exists>m b s d p. c_message x = Some m \<and> tail x = Some \<lparr>private_data = Some b, private_driver = p\<rparr> \<and>
            cstrings h0 m = None \<and> boxes h0 b = None \<and>
            cstrings h = (cstrings h0)(m \<mapsto> s) \<and> boxes h = (boxes h0)(b \<mapsto> d)
      | Some Release_error_v100 \<Rightarrow>
          \<exists>m s. c_message x = Some m \<and> cstrings h0 m = None \<and> cstrings h = (cstrings h0)(m \<mapsto> s) \<and> boxes h = boxes h0
      | _ \<Rightarrow> cstrings h = cstrings h0 \<and> boxes h = boxes h0)"

text \<open>The struct holds no error of this driver: it is fresh, released, or another driver's.\<close>

definition unowned :: "adbc_error \<Rightarrow> bool" where
  "unowned x \<longleftrightarrow> release x \<notin> {Some Release_error, Some Release_error_v100}"

definition error_inv :: "error_heap \<Rightarrow> adbc_error \<Rightarrow> error_heap \<Rightarrow> bool" where
  "error_inv h0 x h \<longleftrightarrow> heap_ok h \<and> next_address h0 \<le> next_address h \<and> sentinel_ok x \<and> owns h0 x h"

section \<open>Sessions\<close>

datatype error_event = Export error | Caller_release

definition call_release ::
  "(nat \<Rightarrow> adbc_error \<Rightarrow> adbc_error) \<Rightarrow> adbc_error \<times> error_heap \<Rightarrow> (adbc_error \<times> error_heap) option" where
  "call_release foreign xh =
     (case release (fst xh) of
        None \<Rightarrow> Some xh
      | Some callback \<Rightarrow> run_release foreign callback (fst xh) (snd xh))"

fun error_step ::
  "(nat \<Rightarrow> adbc_error \<Rightarrow> adbc_error) \<Rightarrow> error_event \<Rightarrow> adbc_error \<times> error_heap \<Rightarrow>
   (adbc_error \<times> error_heap) option" where
  "error_step foreign (Export e) xh =
     map_option (\<lambda>(out, h). (the out, h)) (export_error foreign (Some (fst xh)) e (snd xh))"
| "error_step foreign Caller_release xh = call_release foreign xh"

fun error_run ::
  "(nat \<Rightarrow> adbc_error \<Rightarrow> adbc_error) \<Rightarrow> error_event list \<Rightarrow> adbc_error \<times> error_heap \<Rightarrow>
   (adbc_error \<times> error_heap) option" where
  "error_run foreign [] xh = Some xh"
| "error_run foreign (ev # evs) xh = Option.bind (error_step foreign ev xh) (error_run foreign evs)"

lemmas release_defs = release_error_def release_error_v100_def drop_message_def drop_cstring_def drop_box_def
lemmas alloc_defs = cstring_into_raw_def box_into_raw_def

lemma upd_None: "(f(m \<mapsto> s)) a = None \<Longrightarrow> f a = None"
  by (simp split: if_splits)

lemma heap_ok_upd:
  assumes "heap_ok h" "cstrings h = (cstrings h0)(m \<mapsto> s)"
  shows "boxes h = boxes h0 \<Longrightarrow> heap_ok (h\<lparr>cstrings := cstrings h0\<rparr>)"
    and "boxes h = (boxes h0)(b \<mapsto> d) \<Longrightarrow> heap_ok (h\<lparr>cstrings := cstrings h0, boxes := boxes h0\<rparr>)"
proof -
  have *: "((cstrings h0)(m \<mapsto> s)) a = None" "boxes h a = None" if "next_address h \<le> a" for a
    using assms that unfolding heap_ok_def by metis+
  show "heap_ok (h\<lparr>cstrings := cstrings h0\<rparr>)" if "boxes h = boxes h0"
    using *(1)[THEN upd_None] *(2) unfolding heap_ok_def by simp
  show "heap_ok (h\<lparr>cstrings := cstrings h0, boxes := boxes h0\<rparr>)" if "boxes h = (boxes h0)(b \<mapsto> d)"
    using *(1)[THEN upd_None] *(2)[unfolded that, THEN upd_None] unfolding heap_ok_def by simp
qed

text \<open>Whatever the struct holds, releasing it is defined and gives back exactly what it owned.\<close>

lemma call_release_inv:
  assumes f: "foreign_ok foreign" and inv: "error_inv h0 x h"
  obtains x' h' where "call_release foreign (x, h) = Some (x', h')" "release x' = None" "tail x' = None \<longleftrightarrow> tail x = None"
    "cstrings h' = cstrings h0" "boxes h' = boxes h0" "next_address h' = next_address h" "sentinel_ok x'" "heap_ok h'"
proof (cases "release x")
  case None
  then show ?thesis using inv by (intro that[of x h]) (auto simp: call_release_def error_inv_def owns_def)
next
  case (Some cb)
  show ?thesis
  proof (cases cb)
    case Release_error
    with Some inv obtain m b s d p where
      "c_message x = Some m" "tail x = Some \<lparr>private_data = Some b, private_driver = p\<rparr>"
      "cstrings h0 m = None" "boxes h0 b = None" "cstrings h = (cstrings h0)(m \<mapsto> s)" "boxes h = (boxes h0)(b \<mapsto> d)"
      by (auto simp: error_inv_def owns_def)
    moreover have "heap_ok h" "sentinel_ok x" using inv by (auto simp: error_inv_def)
    ultimately have facts: "heap_ok h" "sentinel_ok x" "cstrings h = (cstrings h0)(m \<mapsto> s)" "boxes h = (boxes h0)(b \<mapsto> d)" "tail x \<noteq> None"
      and eq: "call_release foreign (x, h) =
        Some (x\<lparr>c_message := None, tail := Some \<lparr>private_data = None, private_driver = p\<rparr>, release := None\<rparr>,
              h\<lparr>cstrings := cstrings h0, boxes := boxes h0\<rparr>)"
      using Some Release_error by (simp_all add: call_release_def release_defs fun_upd_idem)
    show ?thesis by (rule that[OF eq]) (use facts heap_ok_upd(2)[OF facts(1,3,4)] in \<open>simp_all add: sentinel_ok_def\<close>)
  next
    case Release_error_v100
    with Some inv obtain m s where
      "c_message x = Some m" "cstrings h0 m = None" "cstrings h = (cstrings h0)(m \<mapsto> s)" "boxes h = boxes h0"
      by (auto simp: error_inv_def owns_def)
    moreover have "heap_ok h" "sentinel_ok x" using inv by (auto simp: error_inv_def)
    ultimately have facts: "heap_ok h" "sentinel_ok x" "cstrings h = (cstrings h0)(m \<mapsto> s)" "boxes h = boxes h0"
      and eq: "call_release foreign (x, h) = Some (x\<lparr>c_message := None, release := None\<rparr>, h\<lparr>cstrings := cstrings h0\<rparr>)"
      using Some Release_error_v100 by (simp_all add: call_release_def release_defs fun_upd_idem)
    show ?thesis by (rule that[OF eq]) (use facts heap_ok_upd(1)[OF facts(1,3,4)] in \<open>simp_all add: sentinel_ok_def\<close>)
  next
    case (Foreign n)
    with Some inv f show ?thesis
      by (intro that[of "foreign n x" h])
        (auto simp: call_release_def error_inv_def owns_def foreign_ok_def sentinel_ok_def)
  qed
qed

text \<open>An export, through the release of what the struct held before.\<close>

lemma export_error_via_release:
  "export_error foreign (Some x) e h =
     (if c_vendor_code x = VENDOR_CODE_PRIVATE_DATA \<and> tail x = None then None
      else Option.bind (call_release foreign (x, h)) (\<lambda>(x', h').
        let (m, h1) = cstring_into_raw (sanitized_cstring (message e)) h'
        in if c_vendor_code x = VENDOR_CODE_PRIVATE_DATA then
             let (b, h2) = box_into_raw (exported_details e) h1
             in Option.bind (tail x') (\<lambda>_.
               Some (Some \<lparr>c_message = Some m, c_vendor_code = VENDOR_CODE_PRIVATE_DATA, sqlstate = replicate 5 0,
                           release = Some Release_error,
                           tail = Some \<lparr>private_data = Some b, private_driver = private_driver (the (tail x))\<rparr>\<rparr>, h2))
           else Some (Some (x'\<lparr>c_message := Some m,
                               c_vendor_code := if vendor_code e = VENDOR_CODE_PRIVATE_DATA then 0 else vendor_code e,
                               sqlstate := replicate 5 0, release := Some Release_error_v100\<rparr>), h1)))"
  by (cases "release x"; cases "tail x")
    (auto simp: export_error_def call_release_def Let_def split_def split: option.splits)

lemma export_error_inv:
  assumes f: "foreign_ok foreign" and inv: "error_inv h0 x h" and h0: "heap_ok h0"
  obtains x' h' where "export_error foreign (Some x) e h = Some (Some x', h')" "error_inv h0 x' h'"
    "tail x' = None \<longleftrightarrow> tail x = None"
    "c_vendor_code x = VENDOR_CODE_PRIVATE_DATA \<longrightarrow>
       details_of (Some x') h' = Some (Some (exported_details e)) \<and> map_option private_driver (tail x') = map_option private_driver (tail x)"
    "c_vendor_code x \<noteq> VENDOR_CODE_PRIVATE_DATA \<longrightarrow>
       details_of (Some x') h' = Some None \<and>
       c_vendor_code x' = (if vendor_code e = VENDOR_CODE_PRIVATE_DATA then 0 else vendor_code e)"
    "map_option (cstrings h') (c_message x') = Some (Some (sanitized_cstring (message e)))"
proof -
  from f inv obtain x1 h1 where r: "call_release foreign (x, h) = Some (x1, h1)" "tail x1 = None \<longleftrightarrow> tail x = None"
      "cstrings h1 = cstrings h0" "boxes h1 = boxes h0" "next_address h1 = next_address h" "sentinel_ok x1" "heap_ok h1"
    by (rule call_release_inv)
  have s: "sentinel_ok x" "next_address h0 \<le> next_address h" using inv by (auto simp: error_inv_def)
  have fresh: "cstrings h0 a = None" "boxes h0 a = None" if "next_address h \<le> a" for a
    using h0 s(2) that by (auto simp: heap_ok_def)
  show ?thesis
  proof (cases "c_vendor_code x = VENDOR_CODE_PRIVATE_DATA")
    case True
    with s(1) obtain t where t: "tail x = Some t" by (auto simp: sentinel_ok_def)
    with r(2) obtain t1 where t1: "tail x1 = Some t1" by auto
    have "export_error foreign (Some x) e h =
        Some (Some \<lparr>c_message = Some (next_address h), c_vendor_code = VENDOR_CODE_PRIVATE_DATA, sqlstate = replicate 5 0,
                    release = Some Release_error,
                    tail = Some \<lparr>private_data = Some (next_address h + 1), private_driver = private_driver t\<rparr>\<rparr>,
              h1\<lparr>cstrings := (cstrings h0)(next_address h \<mapsto> sanitized_cstring (message e)),
                 boxes := (boxes h0)(next_address h + 1 \<mapsto> exported_details e), next_address := next_address h + 2\<rparr>)"
      using True t t1 r by (simp add: export_error_via_release alloc_defs)
    then show ?thesis
      by (rule that) (use True t r fresh s(2) h0 in \<open>auto simp: error_inv_def heap_ok_def sentinel_ok_def owns_def details_of_def\<close>)
  next
    case False
    have "export_error foreign (Some x) e h =
        Some (Some (x1\<lparr>c_message := Some (next_address h),
                      c_vendor_code := if vendor_code e = VENDOR_CODE_PRIVATE_DATA then 0 else vendor_code e,
                      sqlstate := replicate 5 0, release := Some Release_error_v100\<rparr>),
              h1\<lparr>cstrings := (cstrings h0)(next_address h \<mapsto> sanitized_cstring (message e)),
                 next_address := next_address h + 1\<rparr>)"
      using False r by (simp add: export_error_via_release alloc_defs)
    then show ?thesis
      by (rule that) (use False r fresh s(2) h0 in \<open>auto simp: error_inv_def heap_ok_def sentinel_ok_def owns_def
        details_of_def VENDOR_CODE_PRIVATE_DATA_def\<close>)
  qed
qed

lemma error_step_inv:
  assumes "foreign_ok foreign" "error_inv h0 x h" "heap_ok h0"
  obtains x' h' where "error_step foreign ev (x, h) = Some (x', h')" "error_inv h0 x' h'" "tail x' = None \<longleftrightarrow> tail x = None"
proof (cases ev)
  case (Export e)
  from assms obtain x' h' where "export_error foreign (Some x) e h = Some (Some x', h')" "error_inv h0 x' h'"
    "tail x' = None \<longleftrightarrow> tail x = None" by (rule export_error_inv)
  with Export that show ?thesis by simp
next
  case Caller_release
  from assms(1,2) obtain x' h' where "call_release foreign (x, h) = Some (x', h')" "release x' = None" "tail x' = None \<longleftrightarrow> tail x = None"
    "cstrings h' = cstrings h0" "boxes h' = boxes h0" "next_address h' = next_address h" "sentinel_ok x'" "heap_ok h'"
    by (rule call_release_inv)
  with Caller_release that assms(2) show ?thesis by (simp add: error_inv_def owns_def)
qed

lemma error_run_inv:
  assumes "foreign_ok foreign" "heap_ok h0" "error_inv h0 x h"
  shows "\<exists>x' h'. error_run foreign evs (x, h) = Some (x', h') \<and> error_inv h0 x' h' \<and> (tail x' = None \<longleftrightarrow> tail x = None)"
  using assms(3)
proof (induction evs arbitrary: x h)
  case (Cons ev evs)
  from assms(1) Cons.prems assms(2) obtain x1 h1 where
    "error_step foreign ev (x, h) = Some (x1, h1)" "error_inv h0 x1 h1" "tail x1 = None \<longleftrightarrow> tail x = None"
    by (rule error_step_inv)
  with Cons.IH[of x1 h1] show ?case by auto
qed auto

lemma error_run_from_fresh:
  assumes "foreign_ok foreign" "heap_ok h0" "sentinel_ok x0" "unowned x0"
  obtains x h where "error_run foreign evs (x0, h0) = Some (x, h)" "error_inv h0 x h" "tail x = None \<longleftrightarrow> tail x0 = None"
proof -
  have "error_inv h0 x0 h0"
    using assms by (auto simp: error_inv_def owns_def unowned_def split: option.splits release_callback.splits)
  from error_run_inv[OF assms(1,2) this, of evs] show ?thesis by (elim exE conjE) (rule that)
qed

text \<open>
  C15: The error struct is memory safe for both ABI revisions.  From any caller struct that holds no error of this
  driver and carries the 1.1.0 sentinel only if it was allocated at that size, every sequence of exports and
  releases is defined: no access outside the allocation, no double free.  The caller's allocation keeps its
  revision, and one more release leaves the store of allocations exactly as it was found, so nothing leaks.
\<close>

theorem error_struct_memory_safe:
  assumes "foreign_ok foreign" "heap_ok h0" "sentinel_ok x0" "unowned x0"
  shows "\<exists>x h x' h'. error_run foreign evs (x0, h0) = Some (x, h) \<and> (tail x = None \<longleftrightarrow> tail x0 = None) \<and>
           call_release foreign (x, h) = Some (x', h') \<and> release x' = None \<and>
           cstrings h' = cstrings h0 \<and> boxes h' = boxes h0"
proof -
  from assms obtain x h where run: "error_run foreign evs (x0, h0) = Some (x, h)" "error_inv h0 x h"
    "tail x = None \<longleftrightarrow> tail x0 = None" by (rule error_run_from_fresh)
  from assms(1) run(2) obtain x' h' where "call_release foreign (x, h) = Some (x', h')" "release x' = None"
    "cstrings h' = cstrings h0" "boxes h' = boxes h0" by (rule call_release_inv)
  with run show ?thesis by (intro exI conjI)
qed

definition zeroed :: "int \<Rightarrow> bool \<Rightarrow> adbc_error" where
  "zeroed vendor with_tail =
     \<lparr>c_message = None, c_vendor_code = vendor, sqlstate = replicate 5 0, release = None,
      tail = if with_tail then Some \<lparr>private_data = None, private_driver = None\<rparr> else None\<rparr>"

definition no_allocations :: error_heap where
  "no_allocations = \<lparr>cstrings = Map.empty, boxes = Map.empty, next_address = 1\<rparr>"

text \<open>A foreign callback that zeroes its struct, as the reference C++ framework's does.\<close>

definition memset_release :: "nat \<Rightarrow> adbc_error \<Rightarrow> adbc_error" where
  "memset_release n x = zeroed 0 (tail x \<noteq> None)"

lemma memset_release_ok: "foreign_ok memset_release"
  by (simp add: foreign_ok_def memset_release_def zeroed_def VENDOR_CODE_PRIVATE_DATA_def)

lemma no_allocations_ok: "heap_ok no_allocations"
  by (simp add: heap_ok_def no_allocations_def)

theorem error_struct_memory_safe_witness:
  "\<exists>x h x' h'. error_run memset_release
       [Export (err (lit ''a'') Internal \<lparr>vendor_code := VENDOR_CODE_PRIVATE_DATA\<rparr>), Export panicked, Caller_release, Caller_release]
       (zeroed 0 False, no_allocations) = Some (x, h) \<and> (tail x = None \<longleftrightarrow> tail (zeroed 0 False) = None) \<and>
     call_release memset_release (x, h) = Some (x', h') \<and> release x' = None \<and>
     cstrings h' = cstrings no_allocations \<and> boxes h' = boxes no_allocations"
  by (rule error_struct_memory_safe[OF memset_release_ok no_allocations_ok])
    (simp_all add: sentinel_ok_def unowned_def zeroed_def VENDOR_CODE_PRIVATE_DATA_def)

section \<open>Reading an exported error\<close>

lemma sanitized_cstring_no_nul: "0 \<notin> set (sanitized_cstring s)"
  by (simp add: sanitized_cstring_def)

lemma sanitized_cstring_id: "0 \<notin> set (as_bytes s) \<Longrightarrow> sanitized_cstring s = as_bytes s"
proof -
  assume *: "0 \<notin> set (as_bytes s)"
  then have "map (\<lambda>b. if b = 0 then 63 else b) (as_bytes s) = as_bytes s" by (intro map_idI) auto
  with * show ?thesis by (simp add: sanitized_cstring_def)
qed


definition quota_error :: error where
  "quota_error = \<lparr>message = lit ''quota'', status = IO, vendor_code = 8,
     details = Some [(lit ''google.rpc.retryinfo'', [1, 2])]\<rparr>"


end
