(* ===== verification/FfiStreamProps.thy ===== *)
theory FfiStreamProps
  imports FfiStream FfiErrorProps
begin

text \<open>
  The exported stream over a whole consumption: what a consumer is told about failures, what a panic leaves
  behind, and that the error handed out through \<^verbatim>\<open>AdbcErrorFromArrayStream\<close> lives exactly as long as the stream.
\<close>

section \<open>Consumers\<close>

datatype stream_event = Next bool | Schema bool | Ask

fun stream_step ::
  "('rd, 'b, 'sc) reader_code \<Rightarrow> (nat \<Rightarrow> adbc_error \<Rightarrow> adbc_error) \<Rightarrow> stream_event \<Rightarrow>
   'rd c_stream option \<times> error_heap \<Rightarrow> ('rd c_stream option \<times> error_heap) option" where
  "stream_step R foreign (Next out) (c, h) = Some (snd (snd (get_next R out c)), h)"
| "stream_step R foreign (Schema out) (c, h) = Some (snd (snd (get_schema R out c)), h)"
| "stream_step R foreign Ask (c, h) = map_option snd (error_from_array_stream foreign c h)"

fun stream_run ::
  "('rd, 'b, 'sc) reader_code \<Rightarrow> (nat \<Rightarrow> adbc_error \<Rightarrow> adbc_error) \<Rightarrow> stream_event list \<Rightarrow>
   'rd c_stream option \<times> error_heap \<Rightarrow> ('rd c_stream option \<times> error_heap) option" where
  "stream_run R foreign [] st = Some st"
| "stream_run R foreign (ev # evs) st = Option.bind (stream_step R foreign ev st) (stream_run R foreign evs)"

text \<open>The status a consumer is told, if the stream is recognised.\<close>

definition reported :: "(nat \<Rightarrow> adbc_error \<Rightarrow> adbc_error) \<Rightarrow> 'rd c_stream option \<Rightarrow> error_heap \<Rightarrow> status_code option" where
  "reported foreign c h =
     Option.bind (error_from_array_stream foreign c h) (\<lambda>(answer, _). map_option fst answer)"

section \<open>The invariant\<close>

definition error_storage_ok :: "error_heap \<Rightarrow> adbc_error option \<Rightarrow> error_heap \<Rightarrow> bool" where
  "error_storage_ok h0 x h \<longleftrightarrow>
     (case x of
        None \<Rightarrow> cstrings h = cstrings h0 \<and> boxes h = boxes h0 \<and> heap_ok h \<and> next_address h0 \<le> next_address h
      | Some x \<Rightarrow> error_inv h0 x h \<and> tail x \<noteq> None)"

definition stream_inv :: "error_heap \<Rightarrow> 'rd c_stream option \<Rightarrow> error_heap \<Rightarrow> bool" where
  "stream_inv h0 c h \<longleftrightarrow>
     (\<exists>s. c = Some \<lparr>s_release = Some Own_release, s_private = Some s\<rparr> \<and> magic s = STREAM_MAGIC \<and>
          (panicked_flag s \<longrightarrow> last_error s \<noteq> None) \<and> error_storage_ok h0 (exported_error s) h)"

lemma catch_callback_live:
  "catch_callback f (Some \<lparr>s_release = r, s_private = Some s\<rparr>) =
     (if panicked_flag s then (Some EINVAL, None, Some \<lparr>s_release = r, s_private = Some s\<rparr>)
      else case f s of
        (Answered (code, out), s') \<Rightarrow> (code, out, Some \<lparr>s_release = r, s_private = Some s'\<rparr>)
      | (Unwound cause, s') \<Rightarrow>
          (Some EINVAL, None, Some \<lparr>s_release = r, s_private = Some (set_error
             (err (lit ''Uncaught panic in the Spanner Arrow stream: '' @ panic_message cause) Internal)
             (s'\<lparr>panicked_flag := True\<rparr>))\<rparr>))"
  by (simp add: catch_callback_def split: prod.splits outcome.splits)

text \<open>A callback touches the recorded error, the panic flag and the reader, and nothing else.\<close>

abbreviation own_stream :: "'rd private_stream \<Rightarrow> 'rd c_stream" where
  "own_stream s \<equiv> \<lparr>s_release = Some Own_release, s_private = Some s\<rparr>"

definition callback_ok ::
  "'rd private_stream \<Rightarrow> errno option \<Rightarrow> 'rd c_stream option \<Rightarrow> ('rd private_stream \<Rightarrow> bool) \<Rightarrow> bool" where
  "callback_ok s code c P \<longleftrightarrow>
     (\<exists>s'. c = Some (own_stream s') \<and> magic s' = magic s \<and> (panicked_flag s' \<longrightarrow> last_error s' \<noteq> None) \<and>
           exported_error s' = exported_error s \<and> (code \<noteq> None \<longrightarrow> last_error s' \<noteq> None) \<and> (code = None \<longrightarrow> P s'))"

lemmas callback_defs = callback_ok_def catch_callback_live set_error_def fail_def arrow_error_def

lemma get_next_live:
  assumes "panicked_flag s \<longrightarrow> last_error s \<noteq> None" "get_next R out (Some (own_stream s)) = (code, b, c)"
  shows "callback_ok s code c (\<lambda>s'. last_error s' = None)"
  using assms unfolding get_next_def
  by (cases "r_next R (stream_reader s)")
    (auto simp: callback_defs Let_def split_def split: outcome.splits option.splits sum.splits if_splits)

lemma get_schema_live:
  assumes "panicked_flag s \<longrightarrow> last_error s \<noteq> None" "get_schema R out (Some (own_stream s)) = (code, b, c)"
  shows "callback_ok s code c (\<lambda>s'. s' = s)"
  using assms unfolding get_schema_def
  by (auto simp: callback_defs Let_def split_def split: outcome.splits sum.splits if_splits)

text \<open>Asking is always defined, and its answer says whether a failure is on record.\<close>

lemma fresh_error_inv: "error_storage_ok h0 None h \<Longrightarrow> heap_ok h0 \<Longrightarrow> error_inv h0 (fresh_error d) h \<and> tail (fresh_error d) \<noteq> None"
  by (auto simp: error_storage_ok_def error_inv_def fresh_error_def sentinel_ok_def owns_def)

lemma error_inv_stamp: "error_inv h0 x h \<Longrightarrow> tail x \<noteq> None \<Longrightarrow> error_inv h0 (x\<lparr>c_vendor_code := v\<rparr>) h"
  by (auto simp: error_inv_def sentinel_ok_def owns_def split: option.splits release_callback.splits)

lemma ask_live:
  assumes f: "foreign_ok foreign" "heap_ok h0" and s: "magic s = STREAM_MAGIC" "error_storage_ok h0 (exported_error s) h"
  obtains x h' where "error_from_array_stream foreign (Some (own_stream s)) h =
      Some (Some (map_option (\<lambda>l. status (structured l)) (last_error s), x),
            Some (own_stream (s\<lparr>exported_error := Some x\<rparr>)), h')"
    "error_storage_ok h0 (Some x) h'"
proof -
  define y where "y = (case exported_error s of Some x \<Rightarrow> x | None \<Rightarrow> fresh_error (stream_driver s))"
  have y: "error_inv h0 y h" "tail y \<noteq> None"
    using s(2) f(2) fresh_error_inv[of h0 h "stream_driver s"]
    by (auto simp: y_def error_storage_ok_def split: option.splits)
  show ?thesis
  proof (cases "last_error s")
    case None
    from f(1) y(1) obtain x h' where r: "call_release foreign (y, h) = Some (x, h')" "release x = None"
      "tail x = None \<longleftrightarrow> tail y = None" "cstrings h' = cstrings h0" "boxes h' = boxes h0"
      "next_address h' = next_address h" "sentinel_ok x" "heap_ok h'" by (rule call_release_inv)
    show ?thesis
      by (rule that[of x h']) (use None r y s(1) in \<open>auto simp: error_from_array_stream_def call_release_def y_def
        error_storage_ok_def error_inv_def owns_def split: option.splits\<close>)
  next
    case (Some l)
    from f(1) error_inv_stamp[OF y] f(2) obtain x h' where
      "export_error foreign (Some (y\<lparr>c_vendor_code := VENDOR_CODE_PRIVATE_DATA\<rparr>)) (structured l) h = Some (Some x, h')"
      "error_inv h0 x h'" "tail x = None \<longleftrightarrow> tail (y\<lparr>c_vendor_code := VENDOR_CODE_PRIVATE_DATA\<rparr>) = None"
      by (rule export_error_inv)
    then show ?thesis
      by (intro that[of x h']) (use Some y s(1) in \<open>auto simp: error_from_array_stream_def y_def error_storage_ok_def\<close>)
  qed
qed

lemma callback_ok_inv:
  assumes "callback_ok s code c P" "magic s = STREAM_MAGIC" "error_storage_ok h0 (exported_error s) h"
  shows "stream_inv h0 c h"
  using assms by (auto simp: callback_ok_def stream_inv_def)

lemma stream_step_inv:
  assumes "foreign_ok foreign" "heap_ok h0" "stream_inv h0 c h"
  shows "\<exists>c' h'. stream_step R foreign ev (c, h) = Some (c', h') \<and> stream_inv h0 c' h'"
proof -
  from assms(3) obtain s where s: "c = Some (own_stream s)" "magic s = STREAM_MAGIC" "panicked_flag s \<longrightarrow> last_error s \<noteq> None"
    "error_storage_ok h0 (exported_error s) h" by (auto simp: stream_inv_def)
  show ?thesis
  proof (cases ev)
    case (Next out)
    obtain code b c' where "get_next R out (Some (own_stream s)) = (code, b, c')" by (metis prod_cases3)
    with get_next_live[OF s(3) this] callback_ok_inv[OF _ s(2,4)] s(1) Next show ?thesis by auto
  next
    case (Schema out)
    obtain code b c' where "get_schema R out (Some (own_stream s)) = (code, b, c')" by (metis prod_cases3)
    with get_schema_live[OF s(3) this] callback_ok_inv[OF _ s(2,4)] s(1) Schema show ?thesis by auto
  next
    case Ask
    from assms(1,2) s(2,4) obtain x h' where "error_from_array_stream foreign (Some (own_stream s)) h =
      Some (Some (map_option (\<lambda>l. status (structured l)) (last_error s), x),
            Some (own_stream (s\<lparr>exported_error := Some x\<rparr>)), h')" "error_storage_ok h0 (Some x) h'" by (rule ask_live)
    with Ask s show ?thesis by (auto simp: stream_inv_def)
  qed
qed

lemma stream_run_inv:
  assumes "foreign_ok foreign" "heap_ok h0" "stream_inv h0 c h"
  shows "\<exists>c' h'. stream_run R foreign evs (c, h) = Some (c', h') \<and> stream_inv h0 c' h'"
  using assms(3)
proof (induction evs arbitrary: c h)
  case (Cons ev evs)
  from stream_step_inv[OF assms(1,2) Cons.prems, of R ev] obtain c1 h1 where
    "stream_step R foreign ev (c, h) = Some (c1, h1)" "stream_inv h0 c1 h1" by auto
  with Cons.IH[of c1 h1] show ?case by auto
qed auto

lemma reported_live:
  assumes "foreign_ok foreign" "heap_ok h0" "magic s = STREAM_MAGIC" "error_storage_ok h0 (exported_error s) h"
  shows "reported foreign (Some (own_stream s)) h = Some (map_option (\<lambda>l. status (structured l)) (last_error s))"
  by (rule ask_live[OF assms]) (simp add: reported_def)

text \<open>Releasing the stream gives back the error storage as well.\<close>

lemma stream_release_live:
  assumes "foreign_ok foreign" "error_storage_ok h0 (exported_error s) h"
  shows "\<exists>h'. release_stream foreign (Some (own_stream s)) h = Some (Some \<lparr>s_release = None, s_private = None\<rparr>, h') \<and>
    cstrings h' = cstrings h0 \<and> boxes h' = boxes h0"
proof (cases "exported_error s")
  case None
  with assms(2) show ?thesis by (auto simp: release_stream_def drop_private_def error_storage_ok_def)
next
  case (Some x)
  with assms(2) have "error_inv h0 x h" by (simp add: error_storage_ok_def)
  with assms(1) obtain x' h' where "call_release foreign (x, h) = Some (x', h')" "cstrings h' = cstrings h0" "boxes h' = boxes h0"
    by (rule call_release_inv)
  with Some show ?thesis by (auto simp: release_stream_def drop_private_def call_release_def split: option.splits)
qed

text \<open>
  C17: The error protocol of an exported stream.  Whatever a consumer has done with it, and even if the reader has
  panicked, every callback is defined and the stream can be asked for its error: a \<open>get_next\<close> is reported as OK exactly
  when it returned zero, a failing \<open>get_schema\<close> is on record, a successful one leaves the report of the read as it was,
  and releasing the stream frees the error storage it handed out.
\<close>

theorem stream_error_protocol:
  assumes "foreign_ok foreign" "heap_ok h0"
  shows "\<exists>c h. stream_run R foreign evs (Some (export_reader rd driver), h0) = Some (c, h) \<and>
     (reported foreign (snd (snd (get_next R out c))) h = Some None \<longleftrightarrow> fst (get_next R out c) = None) \<and>
     reported foreign (snd (snd (get_schema R out c))) h \<noteq> None \<and>
     (if fst (get_schema R out c) = None
      then reported foreign (snd (snd (get_schema R out c))) h = reported foreign c h
      else reported foreign (snd (snd (get_schema R out c))) h \<noteq> Some None) \<and>
     (\<exists>c' h'. release_stream foreign c h = Some (c', h') \<and> cstrings h' = cstrings h0 \<and> boxes h' = boxes h0)"
proof -
  have "stream_inv h0 (Some (export_reader rd driver)) h0"
    using assms by (simp add: stream_inv_def export_reader_def error_storage_ok_def)
  from stream_run_inv[OF assms this, of R evs] obtain c h where
    run: "stream_run R foreign evs (Some (export_reader rd driver), h0) = Some (c, h)" "stream_inv h0 c h" by auto
  then obtain s where s: "c = Some (own_stream s)" "magic s = STREAM_MAGIC" "panicked_flag s \<longrightarrow> last_error s \<noteq> None"
    "error_storage_ok h0 (exported_error s) h" by (auto simp: stream_inv_def)
  note rep = reported_live[OF assms]
  obtain code b c1 where n: "get_next R out (Some (own_stream s)) = (code, b, c1)" by (metis prod_cases3)
  obtain code2 b2 c2 where m: "get_schema R out (Some (own_stream s)) = (code2, b2, c2)" by (metis prod_cases3)
  have next_ok: "reported foreign c1 h = Some None \<longleftrightarrow> code = None"
    using get_next_live[OF s(3) n] s(2,4) by (auto simp: callback_ok_def rep)
  have schema_ok: "reported foreign c2 h \<noteq> None"
      "if code2 = None then reported foreign c2 h = reported foreign c h else reported foreign c2 h \<noteq> Some None"
    using get_schema_live[OF s(3) m] s(1,2,4) by (auto simp: callback_ok_def rep)
  have "\<exists>c' h'. release_stream foreign c h = Some (c', h') \<and> cstrings h' = cstrings h0 \<and> boxes h' = boxes h0"
    using stream_release_live[OF assms(1) s(4)] unfolding s(1) by (elim exE conjE) (intro exI conjI)
  with run(1) next_ok schema_ok show ?thesis
    by (intro exI[of _ c] exI[of _ h]) (simp only: s(1) n m fst_conv snd_conv simp_thms)
qed

text \<open>A reader of two batches that fails on the third with a driver error of its own.\<close>

definition failing_reader :: "(nat, nat, unit) reader_code" where
  "failing_reader =
     \<lparr>r_schema = \<lambda>_. Answered (Inr ()),
      r_next = \<lambda>n. (if n < 2 then Answered (Some (Inr n))
                     else Answered (Some (Inl \<lparr>variant = OtherArrow, arrow_text = lit ''x'',
                       embedded = Some (err (lit ''cancelled'') Cancelled)\<rparr>)), n + 1)\<rparr>"

theorem stream_error_protocol_witness:
  "\<exists>c h. stream_run failing_reader memset_release [Next True, Next True, Ask, Schema False]
       (Some (export_reader 0 None), no_allocations) = Some (c, h) \<and>
     (reported memset_release (snd (snd (get_next failing_reader True c))) h = Some None \<longleftrightarrow>
        fst (get_next failing_reader True c) = None)"
  using stream_error_protocol[OF memset_release_ok no_allocations_ok,
      of failing_reader "[Next True, Next True, Ask, Schema False]" 0 None True] by (elim exE conjE) (intro exI conjI)

end
