(* ===== verification/FfiDriver.thy ===== *)
theory FfiDriver
  imports FfiError
begin

text \<open>
  The driver struct and its entry point, \<^verbatim>\<open>src/ffi/mod.rs\<close> over the layout of \<^verbatim>\<open>src/ffi/abi.rs\<close>.

  The struct is a row of pointer-sized fields in the order the C header gives them.  A vtable entry is named by the
  Rust path it points to; the caller's memory is the list of the fields it allocated.  Populating it at a revision
  writes a prefix of the row, and a write past the caller's allocation is not defined.
\<close>

section \<open>Layout\<close>

definition DRIVER_FIELDS :: "string list" where
  "DRIVER_FIELDS =
     [''private_data'', ''private_manager'', ''release'', ''DatabaseInit'', ''DatabaseNew'',
      ''DatabaseSetOption'', ''DatabaseRelease'', ''ConnectionCommit'', ''ConnectionGetInfo'',
      ''ConnectionGetObjects'', ''ConnectionGetTableSchema'', ''ConnectionGetTableTypes'', ''ConnectionInit'',
      ''ConnectionNew'', ''ConnectionSetOption'', ''ConnectionReadPartition'', ''ConnectionRelease'',
      ''ConnectionRollback'', ''StatementBind'', ''StatementBindStream'', ''StatementExecuteQuery'',
      ''StatementExecutePartitions'', ''StatementGetParameterSchema'', ''StatementNew'', ''StatementPrepare'',
      ''StatementRelease'', ''StatementSetOption'', ''StatementSetSqlQuery'', ''StatementSetSubstraitPlan'',
      ''ErrorGetDetailCount'', ''ErrorGetDetail'', ''ErrorFromArrayStream'', ''DatabaseGetOption'',
      ''DatabaseGetOptionBytes'', ''DatabaseGetOptionDouble'', ''DatabaseGetOptionInt'',
      ''DatabaseSetOptionBytes'', ''DatabaseSetOptionDouble'', ''DatabaseSetOptionInt'', ''ConnectionCancel'',
      ''ConnectionGetOption'', ''ConnectionGetOptionBytes'', ''ConnectionGetOptionDouble'',
      ''ConnectionGetOptionInt'', ''ConnectionGetStatistics'', ''ConnectionGetStatisticNames'',
      ''ConnectionSetOptionBytes'', ''ConnectionSetOptionDouble'', ''ConnectionSetOptionInt'',
      ''StatementCancel'', ''StatementExecuteSchema'', ''StatementGetOption'', ''StatementGetOptionBytes'',
      ''StatementGetOptionDouble'', ''StatementGetOptionInt'', ''StatementSetOptionBytes'',
      ''StatementSetOptionDouble'', ''StatementSetOptionInt'']"

text \<open>\<^verbatim>\<open>offset_of!(AdbcDriver, ErrorGetDetailCount)\<close>, in fields.\<close>

definition ADBC_DRIVER_1_0_0_SIZE :: nat where
  "ADBC_DRIVER_1_0_0_SIZE = length (takeWhile (\<lambda>f. f \<noteq> ''ErrorGetDetailCount'') DRIVER_FIELDS)"

definition ADBC_VERSION_1_0_0 :: int where
  "ADBC_VERSION_1_0_0 = 1000000"

definition VERSION_1_1_0 :: int where
  "VERSION_1_1_0 = 1001000"

section \<open>The vtable\<close>

definition vtable_entries :: "(string \<times> string) list" where
  "vtable_entries =
     [(''release'', ''release_driver''), (''DatabaseInit'', ''database::database_init''),
      (''DatabaseNew'', ''options::new_handle::[AdbcDatabase]''),
      (''DatabaseSetOption'', ''options::set_option_string::[AdbcDatabase]''),
      (''DatabaseRelease'', ''options::release_handle::[AdbcDatabase]''),
      (''ConnectionCommit'', ''connection::connection_commit''),
      (''ConnectionGetInfo'', ''connection::connection_get_info''),
      (''ConnectionGetObjects'', ''connection::connection_get_objects''),
      (''ConnectionGetTableSchema'', ''connection::connection_get_table_schema''),
      (''ConnectionGetTableTypes'', ''connection::connection_get_table_types''),
      (''ConnectionInit'', ''connection::connection_init''),
      (''ConnectionNew'', ''options::new_handle::[AdbcConnection]''),
      (''ConnectionSetOption'', ''options::set_option_string::[AdbcConnection]''),
      (''ConnectionReadPartition'', ''connection::connection_read_partition''),
      (''ConnectionRelease'', ''options::release_handle::[AdbcConnection]''),
      (''ConnectionRollback'', ''connection::connection_rollback''),
      (''StatementBind'', ''statement::statement_bind''),
      (''StatementBindStream'', ''statement::statement_bind_stream''),
      (''StatementExecuteQuery'', ''statement::statement_execute_query''),
      (''StatementExecutePartitions'', ''statement::statement_execute_partitions''),
      (''StatementGetParameterSchema'', ''statement::statement_get_parameter_schema''),
      (''StatementNew'', ''statement::statement_new''),
      (''StatementPrepare'', ''statement::statement_prepare''),
      (''StatementRelease'', ''options::release_handle::[AdbcStatement]''),
      (''StatementSetOption'', ''options::set_option_string::[AdbcStatement]''),
      (''StatementSetSqlQuery'', ''statement::statement_set_sql_query''),
      (''StatementSetSubstraitPlan'', ''statement::statement_set_substrait_plan''),
      (''ErrorGetDetailCount'', ''error::error_get_detail_count''),
      (''ErrorGetDetail'', ''error::error_get_detail''),
      (''ErrorFromArrayStream'', ''stream::error_from_array_stream''),
      (''DatabaseGetOption'', ''options::get_option_string::[AdbcDatabase]''),
      (''DatabaseGetOptionBytes'', ''options::get_option_bytes::[AdbcDatabase]''),
      (''DatabaseGetOptionDouble'', ''options::get_option_double::[AdbcDatabase]''),
      (''DatabaseGetOptionInt'', ''options::get_option_int::[AdbcDatabase]''),
      (''DatabaseSetOptionBytes'', ''options::set_option_bytes::[AdbcDatabase]''),
      (''DatabaseSetOptionDouble'', ''options::set_option_double::[AdbcDatabase]''),
      (''DatabaseSetOptionInt'', ''options::set_option_int::[AdbcDatabase]''),
      (''ConnectionCancel'', ''connection::connection_cancel''),
      (''ConnectionGetOption'', ''options::get_option_string::[AdbcConnection]''),
      (''ConnectionGetOptionBytes'', ''options::get_option_bytes::[AdbcConnection]''),
      (''ConnectionGetOptionDouble'', ''options::get_option_double::[AdbcConnection]''),
      (''ConnectionGetOptionInt'', ''options::get_option_int::[AdbcConnection]''),
      (''ConnectionGetStatistics'', ''connection::connection_get_statistics''),
      (''ConnectionGetStatisticNames'', ''connection::connection_get_statistic_names''),
      (''ConnectionSetOptionBytes'', ''options::set_option_bytes::[AdbcConnection]''),
      (''ConnectionSetOptionDouble'', ''options::set_option_double::[AdbcConnection]''),
      (''ConnectionSetOptionInt'', ''options::set_option_int::[AdbcConnection]''),
      (''StatementCancel'', ''statement::statement_cancel''),
      (''StatementExecuteSchema'', ''statement::statement_execute_schema''),
      (''StatementGetOption'', ''options::get_option_string::[AdbcStatement]''),
      (''StatementGetOptionBytes'', ''options::get_option_bytes::[AdbcStatement]''),
      (''StatementGetOptionDouble'', ''options::get_option_double::[AdbcStatement]''),
      (''StatementGetOptionInt'', ''options::get_option_int::[AdbcStatement]''),
      (''StatementSetOptionBytes'', ''options::set_option_bytes::[AdbcStatement]''),
      (''StatementSetOptionDouble'', ''options::set_option_double::[AdbcStatement]''),
      (''StatementSetOptionInt'', ''options::set_option_int::[AdbcStatement]'')]"

definition vtable :: "string \<rightharpoonup> string" where
  "vtable = map_of vtable_entries"

definition vtable_row :: "string option list" where
  "vtable_row = map vtable DRIVER_FIELDS"

section \<open>Entry points\<close>

text \<open>The driver memory of the caller: null, or the fields it allocated.\<close>

definition overwrite :: "'a list \<Rightarrow> 'a list \<Rightarrow> 'a list option" where
  "overwrite src dst = (if length src \<le> length dst then Some (src @ drop (length src) dst) else None)"

definition init ::
  "int \<Rightarrow> string option list option \<Rightarrow> (unit result \<times> string option list option) option" where
  "init version driver =
     (case driver of
        None \<Rightarrow> Some (Inl (invalid_argument (lit ''driver must not be null'')), None)
      | Some mem \<Rightarrow>
          if version = VERSION_1_1_0 then
            map_option (\<lambda>m. (Inr (), Some m)) (overwrite vtable_row mem)
          else if version = ADBC_VERSION_1_0_0 then
            map_option (\<lambda>m. (Inr (), Some m)) (overwrite (take ADBC_DRIVER_1_0_0_SIZE vtable_row) mem)
          else Some (Inl (err (lit ''unsupported ADBC version'') NotImplemented), driver))"

text \<open>\<open>release\<close> is the third field; taking it makes a second release an error.\<close>

definition release_driver :: "string option list option \<Rightarrow> unit result \<times> string option list option" where
  "release_driver driver =
     (case driver of
        None \<Rightarrow> (Inr (), None)
      | Some mem \<Rightarrow>
          if mem ! 2 = None then (Inl (err (lit ''driver is already released'') InvalidState), driver)
          else (Inr (), Some (mem[2 := None])))"

section \<open>Properties\<close>

lemma vtable_complete:
  "length DRIVER_FIELDS = 58" "ADBC_DRIVER_1_0_0_SIZE = 29"
  by code_simp+

lemma vtable_dom: "dom vtable = set (drop 2 DRIVER_FIELDS)"
proof -
  have "map fst vtable_entries = drop 2 DRIVER_FIELDS" by code_simp
  then show ?thesis by (simp add: vtable_def dom_map_of_conv_image_fst flip: set_map)
qed

lemma vtable_row_release: "vtable_row ! 2 = Some ''release_driver''"
proof -
  have "vtable_row ! 2 = vtable (DRIVER_FIELDS ! 2)" by (simp add: vtable_row_def vtable_complete)
  also have "DRIVER_FIELDS ! 2 = ''release''" by (simp add: DRIVER_FIELDS_def)
  also have "vtable \<dots> = Some ''release_driver''" by (simp add: vtable_def vtable_entries_def)
  finally show ?thesis .
qed

text \<open>
  Initialisation writes exactly the fields the requested revision has: a caller that allocated that many fields is
  never overrun, the fields past the revision keep their contents, an unknown revision writes nothing and is answered
  so that the caller retries lower, and a released driver cannot be released again.
\<close>

theorem init_respects_revision:
  assumes "n = (if v = VERSION_1_1_0 then 58 else if v = ADBC_VERSION_1_0_0 then 29 else 0)" "n \<le> length mem"
  shows "\<exists>r mem'. init v (Some mem) = Some (r, Some mem') \<and> length mem' = length mem \<and>
     take n mem' = take n vtable_row \<and> drop n mem' = drop n mem \<and>
     (case r of Inr _ \<Rightarrow> 0 < n \<and> (\<exists>m. release_driver (Some mem') = (Inr (), Some m) \<and>
                  (\<exists>e. release_driver (Some m) = (Inl e, Some m) \<and> status e = InvalidState))
              | Inl e \<Rightarrow> n = 0 \<and> status e = NotImplemented)"
proof -
  have len: "length vtable_row = 58" by (simp add: vtable_row_def vtable_complete)
  have rel: "(take k vtable_row @ ys) ! 2 \<noteq> None" if "2 < k" for k ys
  proof -
    have "(take k vtable_row @ ys) ! 2 = vtable_row ! 2" using that len by (simp add: nth_append)
    also have "\<dots> = Some ''release_driver''" by (rule vtable_row_release)
    finally show ?thesis by simp
  qed
  show ?thesis
    using assms len rel[of 29] rel[of 58]
    by (auto simp: init_def overwrite_def release_driver_def VERSION_1_1_0_def ADBC_VERSION_1_0_0_def vtable_complete
        err_def split: if_splits)
qed

text \<open>A 1.0.0 caller with room for exactly the 1.0.0 fields.\<close>

theorem init_respects_revision_witness:
  "init 1000000 (Some (replicate 29 None)) = Some (Inr (), Some (take 29 vtable_row))"
proof -
  have v: "29 = (if (1000000 :: int) = VERSION_1_1_0 then 58 else if (1000000 :: int) = ADBC_VERSION_1_0_0 then 29 else (0 :: nat))"
    by (simp add: VERSION_1_1_0_def ADBC_VERSION_1_0_0_def)
  have "29 \<le> length (replicate 29 (None :: string option))" by simp
  from init_respects_revision[OF v this] show ?thesis by (auto split: sum.splits) (metis (full_types) old.unit.exhaust sum.exhaust)
qed

end
