(* ===== verification/FfiHandle.thy ===== *)
theory FfiHandle
  imports FfiError Credentials
begin

text \<open>
  What lives behind \<^verbatim>\<open>private_data\<close> and how an entry point reaches it, \<^verbatim>\<open>src/ffi/handle.rs\<close>, with the handle
  prologues and the option entry points every object shares, \<^verbatim>\<open>src/ffi/options.rs\<close>.

  The generic code is written once over the trait \<^verbatim>\<open>FfiHandle\<close>; the model passes the trait as a record of its
  operations on a process \<open>'p\<close>: the caller's structs and the exported objects of one kind, both by address.  An
  object is reached through a raw pointer, so the model keeps the set of live objects explicit, and a call that
  would follow a pointer to an object that is not live returns \<^const>\<open>None\<close>.  The calls of one object are serialised
  by its mutex, so a call is one step here; \<open>FfiRace\<close> looks inside the one pair of calls that may overlap.
\<close>

section \<open>Staged objects and their option buffer\<close>

record 'k option_buffer =
  entries :: "('k \<times> option_value) list"

fun replace_first :: "'k \<Rightarrow> 'v \<Rightarrow> ('k \<times> 'v) list \<Rightarrow> ('k \<times> 'v) list option" where
  "replace_first k v [] = None"
| "replace_first k v (e # es) =
     (if fst e = k then Some ((fst e, v) # es) else map_option (Cons e) (replace_first k v es))"

definition buffer_set :: "'k \<Rightarrow> option_value \<Rightarrow> 'k option_buffer \<Rightarrow> 'k option_buffer" where
  "buffer_set key value b =
     (case replace_first key value (entries b) of
        Some es \<Rightarrow> b\<lparr>entries := es\<rparr>
      | None \<Rightarrow> b\<lparr>entries := entries b @ [(key, value)]\<rparr>)"

datatype ('k, 's) staged = Pending "'k option_buffer" | Ready 's

definition default_staged :: "('k, 's) staged" where
  "default_staged = Pending \<lparr>entries = []\<rparr>"

definition uninitialized :: "rstring \<Rightarrow> error" where
  "uninitialized knd = err (knd @ lit '' is uninitialized or already released'') InvalidState"

definition poisoned_error :: "rstring \<Rightarrow> error" where
  "poisoned_error knd = err (knd @ lit '' is unusable after an earlier panic in the driver'') Internal"

fun ready :: "rstring \<Rightarrow> ('k, 's) staged \<Rightarrow> 's result" where
  "ready knd (Ready s) = Inr s"
| "ready knd (Pending _) = Inl (uninitialized knd)"

fun pending :: "rstring \<Rightarrow> ('k, 's) staged \<Rightarrow> 'k option_buffer result" where
  "pending knd (Pending b) = Inr b"
| "pending knd (Ready _) = Inl (err (knd @ lit '' is already initialized'') InvalidState)"

section \<open>Exported objects\<close>

text \<open>A cancel handle is the cancel slot of the driver object it was taken from.\<close>

record 's exported =
  poisoned :: bool
  cancel_handle :: "nat option"
  state :: 's

record c_handle =
  h_private_data :: "nat option"
  h_private_driver :: "nat option"

record ('p, 's) ffi_handle =
  KIND :: rstring
  struct_at :: "'p \<Rightarrow> nat \<Rightarrow> c_handle"
  set_struct :: "nat \<Rightarrow> c_handle \<Rightarrow> 'p \<Rightarrow> 'p"
  object_at :: "'p \<Rightarrow> nat \<Rightarrow> 's exported option"
  set_object :: "nat \<Rightarrow> 's exported option \<Rightarrow> 'p \<Rightarrow> 'p"
  allocate :: "'p \<Rightarrow> nat \<times> 'p"
  drop_state :: "'s \<Rightarrow> unit result outcome"

text \<open>\<^verbatim>\<open>Exported::into_private_data_with_cancel\<close>: a fresh object, referenced by the handle alone.\<close>

definition into_private_data :: "('p, 's) ffi_handle \<Rightarrow> 's \<Rightarrow> nat option \<Rightarrow> 'p \<Rightarrow> nat \<times> 'p" where
  "into_private_data H s c p =
     (case allocate H p of
        (a, p') \<Rightarrow> (a, set_object H a (Some \<lparr>poisoned = False, cancel_handle = c, state = s\<rparr>) p'))"

definition slot_of :: "('p, 's) ffi_handle \<Rightarrow> nat option \<Rightarrow> 'p \<Rightarrow> nat option" where
  "slot_of H handle p = Option.bind handle (\<lambda>a. h_private_data (struct_at H p a))"

definition driver_of :: "('p, 's) ffi_handle \<Rightarrow> nat option \<Rightarrow> 'p \<Rightarrow> nat option" where
  "driver_of H handle p = Option.bind handle (\<lambda>a. h_private_driver (struct_at H p a))"

text \<open>
  \<^verbatim>\<open>lock_state\<close>: the object behind a slot, refused when there is none or an earlier call panicked in it; the outer
  option is the pointer access.
\<close>

definition lock_state :: "('p, 's) ffi_handle \<Rightarrow> nat option \<Rightarrow> 'p \<Rightarrow> 's result option" where
  "lock_state H ptr p =
     (case ptr of
        None \<Rightarrow> Some (Inl (uninitialized (KIND H)))
      | Some a \<Rightarrow>
          map_option (\<lambda>x. if poisoned x then Inl (poisoned_error (KIND H)) else Inr (state x)) (object_at H p a))"

definition update_object :: "('p, 's) ffi_handle \<Rightarrow> nat \<Rightarrow> ('s exported \<Rightarrow> 's exported) \<Rightarrow> 'p \<Rightarrow> 'p" where
  "update_object H a f p = set_object H a (map_option f (object_at H p a)) p"

text \<open>
  A driver call runs on the object's state and the rest of the process, and returns or unwinds; what it left in
  the state stays there either way, and unwinding poisons the object.
\<close>

type_synonym ('a, 'p, 's) body = "'s \<Rightarrow> 'p \<Rightarrow> ('a result outcome \<times> 's \<times> 'p) option"

definition dispatch :: "('p, 's) ffi_handle \<Rightarrow> nat option \<Rightarrow> ('a, 'p, 's) body \<Rightarrow> 'p \<Rightarrow> ('a result \<times> 'p) option" where
  "dispatch H ptr f p =
     (case lock_state H ptr p of
        None \<Rightarrow> None
      | Some (Inl e) \<Rightarrow> Some (Inl e, p)
      | Some (Inr s) \<Rightarrow>
          map_option (\<lambda>(out, s', p').
            (flattened (catch out),
             update_object H (the ptr)
               (\<lambda>x. x\<lparr>state := s', poisoned := (case out of Unwound _ \<Rightarrow> True | Answered _ \<Rightarrow> poisoned x)\<rparr>) p'))
            (f s p))"

definition with_state :: "('p, 's) ffi_handle \<Rightarrow> nat option \<Rightarrow> ('a, 'p, 's) body \<Rightarrow> 'p \<Rightarrow> ('a result \<times> 'p) option" where
  "with_state H handle f p = dispatch H (slot_of H handle p) f p"

text \<open>\<^verbatim>\<open>options::borrow\<close>: the state of a second object beside the dispatched one.\<close>

definition borrow :: "('p, 's) ffi_handle \<Rightarrow> nat option \<Rightarrow> 'p \<Rightarrow> 's result option" where
  "borrow H handle p = lock_state H (slot_of H handle p) p"

definition install_cancel_handle :: "('p, 's) ffi_handle \<Rightarrow> nat option \<Rightarrow> nat \<Rightarrow> 'p \<Rightarrow> 'p" where
  "install_cancel_handle H ptr c p =
     (case ptr of None \<Rightarrow> p | Some a \<Rightarrow> update_object H a (\<lambda>x. x\<lparr>cancel_handle := Some c\<rparr>) p)"

text \<open>\<^verbatim>\<open>cancel\<close> neither locks the state nor looks at the poison flag; \<open>fire\<close> is \<^verbatim>\<open>try_cancel\<close> on the process.\<close>

definition cancel ::
  "('p, 's) ffi_handle \<Rightarrow> (nat \<Rightarrow> 'p \<Rightarrow> unit result \<times> 'p) \<Rightarrow> nat option \<Rightarrow> 'p \<Rightarrow> (unit result \<times> 'p) option" where
  "cancel H fire ptr p =
     (case ptr of
        None \<Rightarrow> Some (Inl (uninitialized (KIND H)), p)
      | Some a \<Rightarrow>
          map_option (\<lambda>x. case cancel_handle x of
              Some c \<Rightarrow> fire c p
            | None \<Rightarrow> (Inl (uninitialized (KIND H)), p)) (object_at H p a))"

section \<open>New and release\<close>

definition already_populated :: "rstring \<Rightarrow> error" where
  "already_populated knd = invalid_state (knd @ lit '' already holds a driver object; release it first'')"

definition new_handle :: "('p, ('k, 's) staged) ffi_handle \<Rightarrow> nat option \<Rightarrow> 'p \<Rightarrow> unit result \<times> 'p" where
  "new_handle H handle p =
     (case handle of
        None \<Rightarrow> (Inl (missing_argument (KIND H)), p)
      | Some a \<Rightarrow>
          if h_private_data (struct_at H p a) \<noteq> None then (Inl (already_populated (KIND H)), p)
          else
            (case into_private_data H default_staged None p of
               (x, p') \<Rightarrow> (Inr (), set_struct H a ((struct_at H p' a)\<lparr>h_private_data := Some x\<rparr>) p')))"

text \<open>
  \<^verbatim>\<open>handle::release\<close> with no other call in flight: the handle's reference is the last, so the object goes.  Freeing
  an object that is not live is the access that is not defined.
\<close>

definition release_object :: "('p, 's) ffi_handle \<Rightarrow> nat \<Rightarrow> 'p \<Rightarrow> (unit result \<times> 'p) option" where
  "release_object H a p =
     (let taken = h_private_data (struct_at H p a);
          p1 = set_struct H a ((struct_at H p a)\<lparr>h_private_data := None\<rparr>) p
      in case taken of
           None \<Rightarrow> Some (Inl (uninitialized (KIND H)), p1)
         | Some x \<Rightarrow>
             map_option (\<lambda>ex. (flattened (catch (drop_state H (state ex))), set_object H x None p1)) (object_at H p1 x))"

definition release_handle :: "('p, 's) ffi_handle \<Rightarrow> nat option \<Rightarrow> 'p \<Rightarrow> (unit result \<times> 'p) option" where
  "release_handle H handle p =
     (case handle of
        None \<Rightarrow> Some (Inl (missing_argument (KIND H)), p)
      | Some a \<Rightarrow> release_object H a p)"

section \<open>Options\<close>

text \<open>
  The trait \<^verbatim>\<open>OptionTarget\<close>, and the typed getters of \<^verbatim>\<open>adbc_core\<close>'s \<^verbatim>\<open>Optionable\<close> the driver implements.  The calls of
  the live object run on the process as well, since a connection and its statements share state there.
\<close>

record ('p, 'k, 's) option_target =
  parse :: "rstring \<Rightarrow> 'k"
  set_target :: "'k \<Rightarrow> option_value \<Rightarrow> (unit, 'p, 's) body"
  get_string :: "rstring \<Rightarrow> 'k \<Rightarrow> 's \<Rightarrow> 'p \<Rightarrow> rstring result"
  key_name :: "'k \<Rightarrow> rstring"

text \<open>The \<^verbatim>\<open>OptionTarget\<close> of a staged object, from the setter and the getter of its ready state.\<close>

definition staged_set ::
  "('k \<Rightarrow> option_value \<Rightarrow> (unit, 'p, 's) body) \<Rightarrow> 'k \<Rightarrow> option_value \<Rightarrow> (unit, 'p, ('k, 's) staged) body" where
  "staged_set setter key value st p =
     (case st of
        Pending b \<Rightarrow> Some (Answered (Inr ()), Pending (buffer_set key value b), p)
      | Ready s \<Rightarrow> map_option (\<lambda>(out, s', p'). (out, Ready s', p')) (setter key value s p))"

definition staged_get ::
  "('k \<Rightarrow> rstring) \<Rightarrow> ('k \<Rightarrow> 's \<Rightarrow> 'p \<Rightarrow> rstring result) \<Rightarrow> rstring \<Rightarrow> 'k \<Rightarrow> ('k, 's) staged \<Rightarrow> 'p \<Rightarrow> rstring result" where
  "staged_get name getter knd key st p =
     (case st of
        Ready s \<Rightarrow> getter key s p
      | Pending _ \<Rightarrow>
          Inl (not_found (knd @ lit '' option '' @ name key @ lit '' cannot be read before it is initialized'')))"

text \<open>A body whose argument access may be undefined and may be refused before the driver is called.\<close>

definition with_arg :: "'x result option \<Rightarrow> ('x \<Rightarrow> ('a, 'p, 's) body) \<Rightarrow> ('a, 'p, 's) body" where
  "with_arg arg f s p =
     (case arg of
        None \<Rightarrow> None
      | Some (Inl e) \<Rightarrow> Some (Answered (Inl e), s, p)
      | Some (Inr x) \<Rightarrow> f x s p)"

definition ffi_set_option ::
  "('p, 's) ffi_handle \<Rightarrow> ('p, 'k, 's) option_target \<Rightarrow> nat option \<Rightarrow> c_str \<Rightarrow> option_value \<Rightarrow> 'p \<Rightarrow>
   (unit result \<times> 'p) option" where
  "ffi_set_option H T handle key value p =
     with_state H handle
       (with_arg (required_str key (lit ''key'')) (\<lambda>k. set_target T (parse T k) value)) p"

text \<open>The value is checked before the handle.\<close>

definition set_option_string ::
  "('p, 's) ffi_handle \<Rightarrow> ('p, 'k, 's) option_target \<Rightarrow> nat option \<Rightarrow> c_str \<Rightarrow> c_str \<Rightarrow> 'p \<Rightarrow> (unit result \<times> 'p) option" where
  "set_option_string H T handle key value p =
     (case required_str value (lit ''value'') of
        None \<Rightarrow> None
      | Some (Inl e) \<Rightarrow> Some (Inl e, p)
      | Some (Inr v) \<Rightarrow> ffi_set_option H T handle key (OString v) p)"

definition set_option_bytes ::
  "('p, 's) ffi_handle \<Rightarrow> ('p, 'k, 's) option_target \<Rightarrow> nat option \<Rightarrow> c_str \<Rightarrow> c_str \<Rightarrow> nat \<Rightarrow> 'p \<Rightarrow>
   (unit result \<times> 'p) option" where
  "set_option_bytes H T handle key value len p =
     (case byte_slice value len (lit ''value'') of
        None \<Rightarrow> None
      | Some (Inl e) \<Rightarrow> Some (Inl e, p)
      | Some (Inr v) \<Rightarrow> ffi_set_option H T handle key (OBytes v) p)"

definition set_option_int ::
  "('p, 's) ffi_handle \<Rightarrow> ('p, 'k, 's) option_target \<Rightarrow> nat option \<Rightarrow> c_str \<Rightarrow> int \<Rightarrow> 'p \<Rightarrow> (unit result \<times> 'p) option" where
  "set_option_int H T handle key value p = ffi_set_option H T handle key (OInt value) p"

definition set_option_double ::
  "('p, 's) ffi_handle \<Rightarrow> ('p, 'k, 's) option_target \<Rightarrow> nat option \<Rightarrow> c_str \<Rightarrow> f64 \<Rightarrow> 'p \<Rightarrow> (unit result \<times> 'p) option" where
  "set_option_double H T handle key value p = ffi_set_option H T handle key (ODouble value) p"

text \<open>
  The getters: the key, the string the option holds, then the conversion \<open>conv\<close> of the typed getter and the write
  \<open>put\<close> into the caller's memory.
\<close>

definition get_option_with ::
  "('p, 's) ffi_handle \<Rightarrow> ('p, 'k, 's) option_target \<Rightarrow> nat option \<Rightarrow> c_str \<Rightarrow>
   (rstring \<Rightarrow> rstring result \<Rightarrow> 'x result) \<Rightarrow> ('x \<Rightarrow> 'a result option) \<Rightarrow> 'p \<Rightarrow> ('a result \<times> 'p) option" where
  "get_option_with H T handle key conv put p =
     with_state H handle
       (with_arg (required_str key (lit ''key'')) (\<lambda>k st q.
          case conv (lit ''option '' @ key_name T (parse T k)) (get_string T (KIND H) (parse T k) st q) of
            Inl e \<Rightarrow> Some (Answered (Inl e), st, q)
          | Inr v \<Rightarrow> map_option (\<lambda>r. (Answered r, st, q)) (put v))) p"

definition get_option_string ::
  "('p, 's) ffi_handle \<Rightarrow> ('p, 'k, 's) option_target \<Rightarrow> nat option \<Rightarrow> c_str \<Rightarrow> c_str \<Rightarrow> nat option \<Rightarrow> 'p \<Rightarrow>
   ((c_str \<times> nat option) result \<times> 'p) option" where
  "get_option_string H T handle key value len =
     get_option_with H T handle key (\<lambda>_ r. r) (\<lambda>found. write_string found value len)"

definition get_option_bytes ::
  "('p, 's) ffi_handle \<Rightarrow> ('p, 'k, 's) option_target \<Rightarrow> nat option \<Rightarrow> c_str \<Rightarrow> c_str \<Rightarrow> nat option \<Rightarrow> 'p \<Rightarrow>
   ((c_str \<times> nat option) result \<times> 'p) option" where
  "get_option_bytes H T handle key value len =
     get_option_with H T handle key (\<lambda>_ r. try_bind r (\<lambda>s. Inr (as_bytes s))) (\<lambda>found. write_bytes found value len)"

definition get_option_int ::
  "('p, 's) ffi_handle \<Rightarrow> ('p, 'k, 's) option_target \<Rightarrow> nat option \<Rightarrow> c_str \<Rightarrow> bool \<Rightarrow> 'p \<Rightarrow> (int result \<times> 'p) option" where
  "get_option_int H T handle key value =
     get_option_with H T handle key (\<lambda>what r. int_from_stored_string r what)
       (\<lambda>found. Some (write_out value found (lit ''value'')))"

definition get_option_double ::
  "('p, 's) ffi_handle \<Rightarrow> ('p, 'k, 's) option_target \<Rightarrow> rounding \<Rightarrow> nat option \<Rightarrow> c_str \<Rightarrow> bool \<Rightarrow> 'p \<Rightarrow>
   (f64 result \<times> 'p) option" where
  "get_option_double H T rnd handle key value =
     get_option_with H T handle key (\<lambda>what r. double_from_stored_string rnd r what)
       (\<lambda>found. Some (write_out value found (lit ''value'')))"

end
