(* ===== verification/FfiImport.thy ===== *)
theory FfiImport
  imports FfiGuard Statement
begin

text \<open>
  Importing what the caller binds, \<^verbatim>\<open>src/ffi/import.rs\<close>: the validation of arrays that cross the C data
  interface, and the reader over a bound C stream.

  The producer of a stream is the caller's code: three callbacks on its own state.  The Arrow importer
  (\<^verbatim>\<open>from_ffi\<close>, \<^verbatim>\<open>from_ffi_and_data_type\<close>, \<^verbatim>\<open>Schema::try_from\<close>) and the checks of \<^verbatim>\<open>ArrayData\<close> are the crate's; the order
  in which they are consulted, and what a refusal does, is the driver's.
\<close>

section \<open>C data\<close>

text \<open>A struct of the C data interface: its contents, and whether its release callback is gone.\<close>

record 'x c_data =
  released :: bool
  contents :: 'x

definition moved_out :: "'x c_data \<Rightarrow> 'x c_data" where
  "moved_out d = d\<lparr>released := True\<rparr>"

text \<open>The Arrow crate: importing, and what it says of imported data.\<close>

record ('va, 'sa, 'data, 'ty, 'r) arrow_import =
  from_ffi :: "'va \<Rightarrow> 'sa \<Rightarrow> 'data option"
  struct_of_data :: "'data \<Rightarrow> rstring list option"
  import_schema :: "'sa \<Rightarrow> 'ty schema option"
  num_children :: "'va \<Rightarrow> nat"
  from_ffi_typed :: "'va \<Rightarrow> 'ty schema \<Rightarrow> 'data option"
  validate_data :: "'data \<Rightarrow> bool"
  column_valid :: "'data \<Rightarrow> bool list"
  null_count :: "'data \<Rightarrow> nat"
  to_batch :: "'data \<Rightarrow> 'ty schema \<times> 'r batch"
  batch_with_schema :: "'ty schema \<Rightarrow> 'data \<Rightarrow> 'r batch option"

section \<open>Validation\<close>

fun first_invalid :: "(rstring \<times> bool) list \<Rightarrow> rstring option" where
  "first_invalid [] = None"
| "first_invalid ((name, ok) # cs) = (if ok then first_invalid cs else Some name)"

definition validate_imported ::
  "('va, 'sa, 'data, 'ty, 'r) arrow_import \<Rightarrow> 'data \<Rightarrow> rstring list \<Rightarrow> rstring + unit" where
  "validate_imported I data names =
     (if \<not> validate_data I data then Inl (lit ''the top-level struct is invalid'')
      else case first_invalid (zip names (column_valid I data)) of
             Some name \<Rightarrow> Inl (lit ''column '' @ name @ lit '' is invalid'')
           | None \<Rightarrow> Inr ())"

section \<open>The bound stream\<close>

text \<open>The callbacks of the caller's stream; a callback that is missing is a null function pointer.\<close>

record ('ps, 'va, 'sa) producer =
  p_get_schema :: "('ps \<Rightarrow> int \<times> 'sa c_data \<times> 'ps) option"
  p_get_next :: "('ps \<Rightarrow> int \<times> 'va c_data \<times> 'ps) option"
  p_get_last_error :: "('ps \<Rightarrow> c_str \<times> 'ps) option"

record ('ps, 'ty) bound_stream_reader =
  stream :: 'ps
  reader_schema :: "'ty schema"
  finished :: bool

text \<open>
  \<^verbatim>\<open>stream_error\<close>: the description the producer gives, or the text that says it gave none.  Its bytes are shown
  lossily, which is a function of the bytes only; the model keeps the call.
\<close>

definition stream_error :: "('ps, 'va, 'sa) producer \<Rightarrow> 'ps \<Rightarrow> rstring \<Rightarrow> (rstring \<times> 'ps) option" where
  "stream_error P ps callback =
     map_option (\<lambda>get. case get ps of
         (None, ps') \<Rightarrow> (lit ''bound Arrow C stream '' @ callback @ lit '' failed: producer supplied no error description'', ps')
       | (Some _, ps') \<Rightarrow> (lit ''bound Arrow C stream '' @ callback @ lit '' failed'', ps'))
       (p_get_last_error P)"

text \<open>
  \<^verbatim>\<open>from_raw\<close>: a null stream, a released one and one with an incomplete callback table stay the caller's; a validated
  one is moved, so its struct is marked released in the answer, whatever its schema turns out to be.
\<close>

definition bound_from_raw ::
  "('va, 'sa, 'data, 'ty, 'r) arrow_import \<Rightarrow> ('ps, 'va, 'sa) producer \<Rightarrow> 'ps c_data option \<Rightarrow>
   ('ps, 'ty) bound_stream_reader result \<times> 'ps c_data option" where
  "bound_from_raw I P arg =
     (case arg of
        None \<Rightarrow> (Inl (invalid_argument (lit ''stream must not be null'')), arg)
      | Some c \<Rightarrow>
          if released c then (Inl (invalid_argument (lit ''stream has already been released'')), arg)
          else case p_get_schema P of
            None \<Rightarrow> (Inl (invalid_argument (lit ''stream is missing its get_schema callback'')), arg)
          | Some get_schema \<Rightarrow>
              if p_get_next P = None then (Inl (invalid_argument (lit ''stream is missing its get_next callback'')), arg)
              else case p_get_last_error P of
                None \<Rightarrow> (Inl (invalid_argument (lit ''stream is missing its get_last_error callback'')), arg)
              | Some get_last_error \<Rightarrow>
                  (case get_schema (contents c) of
                     (code, schema, ps) \<Rightarrow>
                       (if code \<noteq> 0 then
                          Inl (invalid_argument (case stream_error P ps (lit ''get_schema'') of Some (m, _) \<Rightarrow> m | None \<Rightarrow> []))
                        else if released schema then
                          Inl (invalid_argument (lit ''bound stream get_schema returned a released schema''))
                        else
                          try_bind (ok_or (invalid_argument (lit ''bound stream returned an invalid schema''))
                            (import_schema I (contents schema)))
                            (\<lambda>sch. Inr \<lparr>stream = ps, reader_schema = sch, finished = False\<rparr>),
                        Some (moved_out c))))"

text \<open>The batch of one imported array, or why it is refused.\<close>

definition import_batch ::
  "('va, 'sa, 'data, 'ty, 'r) arrow_import \<Rightarrow> 'ty schema \<Rightarrow> 'va \<Rightarrow> rstring + 'r batch" where
  "import_batch I sch array =
     (case from_ffi_typed I array sch of
        None \<Rightarrow> Inl (lit ''the array does not import'')
      | Some data \<Rightarrow>
          (case validate_imported I data (map fst sch) of
             Inl m \<Rightarrow> Inl (lit ''bound stream returned an invalid Arrow array: '' @ m)
           | Inr _ \<Rightarrow>
               if null_count I data \<noteq> 0 then Inl (lit ''bound stream must not contain top-level null rows'')
               else case batch_with_schema I sch data of
                      None \<Rightarrow> Inl (lit ''the batch does not match its schema'')
                    | Some b \<Rightarrow> Inr b))"

text \<open>\<^verbatim>\<open>next\<close>; the unwrapping of \<^verbatim>\<open>get_next\<close> is \<^verbatim>\<open>expect\<close> on a callback that \<open>bound_from_raw\<close> found.\<close>

definition bound_next ::
  "('va, 'sa, 'data, 'ty, 'r) arrow_import \<Rightarrow> ('ps, 'va, 'sa) producer \<Rightarrow> ('ps, 'ty) bound_stream_reader \<Rightarrow>
   (rstring + 'r batch) option outcome \<times> ('ps, 'ty) bound_stream_reader" where
  "bound_next I P rd =
     (if finished rd then (Answered None, rd)
      else case p_get_next P of
        None \<Rightarrow> (Unwound (Some (lit ''validated when the stream was bound'')), rd)
      | Some get_next \<Rightarrow>
          (case get_next (stream rd) of
             (code, array, ps) \<Rightarrow>
               if code \<noteq> 0 then
                 (case stream_error P ps (lit ''get_next'') of
                    None \<Rightarrow> (Unwound (Some (lit ''validated when the stream was bound'')), rd\<lparr>stream := ps, finished := True\<rparr>)
                  | Some (m, ps') \<Rightarrow> (Answered (Some (Inl m)), rd\<lparr>stream := ps', finished := True\<rparr>))
               else if released array then (Answered None, rd\<lparr>stream := ps, finished := True\<rparr>)
               else if num_children I (contents array) \<noteq> length (reader_schema rd) then
                 (Answered (Some (Inl (lit ''bound stream returned the wrong number of columns''))),
                  rd\<lparr>stream := ps, finished := True\<rparr>)
               else
                 (case import_batch I (reader_schema rd) (contents array) of
                    Inl m \<Rightarrow> (Answered (Some (Inl m)), rd\<lparr>stream := ps, finished := True\<rparr>)
                  | Inr b \<Rightarrow> (Answered (Some (Inr b)), rd\<lparr>stream := ps, finished := False\<rparr>))))"

text \<open>
  Reading to the end, as \<open>bind_stream\<close> does: the items up to and including the first failure.  \<^const>\<open>None\<close> when the
  producer has not ended its stream after \<open>n\<close> items.
\<close>

fun read_items ::
  "nat \<Rightarrow> ('va, 'sa, 'data, 'ty, 'r) arrow_import \<Rightarrow> ('ps, 'va, 'sa) producer \<Rightarrow> ('ps, 'ty) bound_stream_reader \<Rightarrow>
   (rstring + 'r batch) list outcome option" where
  "read_items 0 I P rd = None"
| "read_items (Suc n) I P rd =
     (case bound_next I P rd of
        (Unwound cause, _) \<Rightarrow> Some (Unwound cause)
      | (Answered None, _) \<Rightarrow> Some (Answered [])
      | (Answered (Some (Inl m)), _) \<Rightarrow> Some (Answered [Inl m])
      | (Answered (Some (Inr b)), rd') \<Rightarrow>
          map_option (\<lambda>out. case out of Answered items \<Rightarrow> Answered (Inr b # items) | Unwound cause \<Rightarrow> Unwound cause)
            (read_items n I P rd'))"

end
