(* ===== verification/ParamSchema.thy ===== *)
theory ParamSchema
  imports Execute Conversion SqlProps
begin

text \<open>
  Parameter introspection of \<^verbatim>\<open>src/statement.rs\<close>: \<^verbatim>\<open>get_parameter_schema\<close> and the PLAN probes it types the
  parameters with.

  The probes are RPCs: a query is planned in a single-use transaction, a DML statement in a read/write
  transaction that is never given anything to commit.  Each answers the metadata's undeclared parameters, the
  entries of a \<^verbatim>\<open>BTreeMap\<close> in key order, if there is metadata at all.
\<close>

section \<open>The probes\<close>

type_synonym parameter_types = "(rstring \<times> spanner_type) list"

definition undeclared_parameter_types :: "parameter_types option \<Rightarrow> parameter_types" where
  "undeclared_parameter_types md = (case md of Some m \<Rightarrow> m | None \<Rightarrow> [])"

definition planned :: "'v spanner_sql \<Rightarrow> 'v spanner_sql" where
  "planned p = p\<lparr>calls := calls p @ [SetQueryModePlan]\<rparr>"

definition plan_dml_parameter_types ::
  "('sn, 'v, 'r, 'ty, 'ts, 'b, 'raw, 'bat, 'rd, 't, 'd, 'srv) env \<Rightarrow>
   (builder \<Rightarrow> 'v spanner_sql \<Rightarrow> nat option \<Rightarrow> (parameter_types option, 'srv) rpc) \<Rightarrow> rstring \<Rightarrow>
   (parameter_types, 'sn, 'v, 'r, 'ty, 'ts, 'srv) action" where
  "plan_dml_parameter_types E probe_dml q m =
     seqr (pure (build_sql (cfg m) q)) (\<lambda>p.
     seqr (pure (ok_or panicked (build_runner (e_wkt E) (cfg m)))) (\<lambda>runner.
     seqr (rpc (probe_dml runner (planned p) (query_deadline m))) (\<lambda>md.
     pure (Inr (undeclared_parameter_types md))))) m"

definition plan_parameter_types ::
  "('sn, 'v, 'r, 'ty, 'ts, 'b, 'raw, 'bat, 'rd, 't, 'd, 'srv) env \<Rightarrow>
   ('v spanner_sql \<Rightarrow> nat option \<Rightarrow> (parameter_types option, 'srv) rpc) \<Rightarrow>
   (builder \<Rightarrow> 'v spanner_sql \<Rightarrow> nat option \<Rightarrow> (parameter_types option, 'srv) rpc) \<Rightarrow> rstring \<Rightarrow>
   (parameter_types, 'sn, 'v, 'r, 'ty, 'ts, 'srv) action" where
  "plan_parameter_types E probe_query probe_dml text m0 =
     (let q = strip_trailing_terminators text
      in if is_ddl q then (Inr [], m0)
         else
           let m = begin_op m0
           in if is_dml q then
                if is_read_only (cfg m) (store m) then (Inr [], m)
                else plan_dml_parameter_types E probe_dml q m
              else
                seqr (pure (build_read_sql (cfg m) q)) (\<lambda>p.
                seqr (rpc (probe_query (planned p) (query_deadline m))) (\<lambda>md.
                pure (Inr (undeclared_parameter_types md)))) m)"

section \<open>The schema\<close>

definition parameter_type :: "parameter_types \<Rightarrow> rstring \<Rightarrow> spanner_type option" where
  "parameter_type types name =
     (case map_of types name of
        Some ty \<Rightarrow> Some ty
      | None \<Rightarrow> map_option snd (find (\<lambda>(k, v). eq_ignore_ascii_case k name) types))"

definition parameter_field :: "timestamp_precision \<Rightarrow> parameter_types \<Rightarrow> rstring \<Rightarrow> (rstring \<times> field) result" where
  "parameter_field prec types name =
     (case parameter_type types name of
        Some ty \<Rightarrow> try_bind (arrow_field name ty True prec) (\<lambda>f. Inr (name, f))
      | None \<Rightarrow> Inr (name, plain_field name Null))"

text \<open>
  A failed probe counts as one that typed nothing; a panic is no result and passes through.
\<close>

definition get_parameter_schema ::
  "('sn, 'v, 'r, field, 'ts, 'b, 'raw, 'bat, 'rd, 't, 'd, 'srv) env \<Rightarrow>
   ('v spanner_sql \<Rightarrow> nat option \<Rightarrow> (parameter_types option, 'srv) rpc) \<Rightarrow>
   (builder \<Rightarrow> 'v spanner_sql \<Rightarrow> nat option \<Rightarrow> (parameter_types option, 'srv) rpc) \<Rightarrow>
   (field schema, 'sn, 'v, 'r, field, 'ts, 'srv) action" where
  "get_parameter_schema E probe_query probe_dml m =
     (case bound (stm m) of
        (sch, _) # _ \<Rightarrow> (Inr sch, m)
      | [] \<Rightarrow>
          seqr (pure (sql_of (stm m))) (\<lambda>q m.
            let names = named_parameters q
            in if names = [] then (Inr [], m)
               else
                 case plan_parameter_types E probe_query probe_dml q m of
                   (r, m') \<Rightarrow>
                     if r = Inl panicked then (Inl panicked, m')
                     else
                       let types = (case r of Inr t \<Rightarrow> t | Inl _ \<Rightarrow> [])
                       in (collect_results (map (parameter_field (timestamp_precision (cfg m)) types) names), m')) m)"

section \<open>What introspection answers\<close>

lemma parameter_field_name: "parameter_field prec types n = Inr nf \<Longrightarrow> fst nf = n \<and> field_name (snd nf) = n"
  by (auto simp: parameter_field_def plain_field_def arrow_field_def tagged_field_def res_simps split: option.splits)

lemma collect_parameter_fields:
  assumes "collect_results (map (parameter_field prec types) names) = Inr sch"
  shows "map fst sch = names" "map (field_name \<circ> snd) sch = names"
proof -
  have "map (parameter_field prec types) names = map Inr sch" using assms by (simp add: res_simps)
  then have "map fst sch = names \<and> map (field_name \<circ> snd) sch = names"
    by (induction names arbitrary: sch) (auto dest!: parameter_field_name simp: Cons_eq_map_conv)
  then show "map fst sch = names" "map (field_name \<circ> snd) sch = names" by auto
qed

text \<open>A probe leaves the statement, the transactions and the shared cells as they are.\<close>

lemma plan_parameter_types_frame:
  "plan_parameter_types E pq pd q m = (r, m') \<Longrightarrow> stm m' = stm m \<and> store m' = store m \<and> txns m' = txns m"
  by (auto simp: plan_parameter_types_def plan_dml_parameter_types_def seqr_def pure_def rpc_def begin_op_def Let_def
      split: prod.splits sum.splits if_splits)

text \<open>
  Parameter introspection with nothing bound: the fields are the statement's \<^verbatim>\<open>@name\<close> references, each once, in order of
  first use; it changes nothing but the cancel signal and the server's answer to one PLAN request; and when that request
  fails every parameter is still listed, typed as unknown.
\<close>

theorem parameter_schema_lists_references:
  assumes "bound (stm m) = []" "sql (stm m) = Some q" "get_parameter_schema E pq pd m = (r, m')"
  shows "(stm m', store m', txns m') = (stm m, store m, txns m) \<and>
    distinct (map to_ascii_lowercase (named_parameters q)) \<and>
    (case r of
       Inr sch \<Rightarrow> map fst sch = named_parameters q \<and> map (field_name \<circ> snd) sch = named_parameters q
     | Inl e \<Rightarrow> fst (plan_parameter_types E pq pd q m) \<in> insert (Inl panicked) (range Inr)) \<and>
    (if named_parameters q \<noteq> [] \<and> fst (plan_parameter_types E pq pd q m) \<in> Inl ` (- {panicked})
     then r = Inr (map (\<lambda>n. (n, plain_field n Null)) (named_parameters q)) else True)"
proof -
  obtain t m1 where plan: "plan_parameter_types E pq pd q m = (t, m1)" by (cases "plan_parameter_types E pq pd q m")
  note frame = plan_parameter_types_frame[OF plan]
  have d: "distinct (map to_ascii_lowercase (named_parameters q))"
    by (simp add: named_parameters_def named_parameters_loop_distinct)
  have untyped: "collect_results (map (parameter_field prec []) ns) = Inr (map (\<lambda>n. (n, plain_field n Null)) ns)" for prec ns
    by (simp add: res_simps parameter_field_def parameter_type_def)
  have named: "map (fst \<circ> (\<lambda>n. (n, plain_field n Null))) ns = ns"
      "map (field_name \<circ> snd \<circ> (\<lambda>n. (n, plain_field n Null))) ns = ns" for ns
    by (simp_all add: comp_def plain_field_def)
  show ?thesis
    using assms plan frame d
    by (auto simp: get_parameter_schema_def sql_of_def seqr_def pure_def ok_or_def Let_def untyped named
        dest: collect_parameter_fields split: if_splits sum.splits)
qed

text \<open>A DDL statement is not probed, so its parameter is listed untyped whatever the server would say.\<close>

definition ddl_machine :: "(unit, unit, unit, field, unit, unit) machine" where
  "ddl_machine =
     (let (c, st) = default_config \<lparr>flags = \<lambda>_. False, counts = \<lambda>_. None, next_addr = 0\<rparr>;
          (cs, k) = new_slot \<lparr>latches = [], slots = []\<rparr>
      in \<lparr>stm = (new_statement c k (lit ''db''))\<lparr>sql := Some (lit ''DROP TABLE @p'')\<rparr>, store = st, txns = new_txn_state,
          cancels = cs, server = ()\<rparr>)"

theorem parameter_schema_witness:
  "\<forall>(E :: (unit, unit, unit, field, unit, 'b, 'raw, 'bat, 'rd, 't, 'd, unit) env) pq pd.
     \<exists>m'. get_parameter_schema E pq pd ddl_machine = (Inr [(lit ''p'', plain_field (lit ''p'') Null)], m') \<and>
     stm m' = stm ddl_machine \<and> txns m' = txns ddl_machine"
proof (intro allI)
  fix E :: "(unit, unit, unit, field, unit, 'b, 'raw, 'bat, 'rd, 't, 'd, unit) env" and pq pd
  have q: "bound (stm ddl_machine) = []" "sql (stm ddl_machine) = Some (lit ''DROP TABLE @p'')"
    by (simp_all add: ddl_machine_def new_statement_def default_config_def new_slot_def split_def Let_def)
  have ps: "named_parameters (lit ''DROP TABLE @p'') = [lit ''p'']" "is_ddl (strip_trailing_terminators (lit ''DROP TABLE @p''))"
    by code_simp+
  obtain r m' where g: "get_parameter_schema E pq pd ddl_machine = (r, m')" by fastforce
  have "r = Inr [(lit ''p'', plain_field (lit ''p'') Null)]"
    using g q by (simp add: get_parameter_schema_def sql_of_def seqr_def pure_def ps plan_parameter_types_def parameter_field_def
        parameter_type_def ok_or_def)
  with g parameter_schema_lists_references[OF q g]
  show "\<exists>m'. get_parameter_schema E pq pd ddl_machine = (Inr [(lit ''p'', plain_field (lit ''p'') Null)], m') \<and>
     stm m' = stm ddl_machine \<and> txns m' = txns ddl_machine" by simp
qed

end
