(* ===== verification/FfiObjects.thy ===== *)
theory FfiObjects
  imports FfiHandle FfiStream FfiImport Objects Statistics Info ParamSchema
begin

text \<open>
  The entry points of the three exported objects, \<^verbatim>\<open>src/ffi/database.rs\<close>, \<^verbatim>\<open>src/ffi/connection.rs\<close> and
  \<^verbatim>\<open>src/ffi/statement.rs\<close>, on one process.

  A process holds the caller's structs, the exported objects of each kind, and what the driver objects share: the
  cells behind \<^verbatim>\<open>Arc\<close>s, one transaction state per connection (shared with its statements), the cancel slots and the
  server.  An entry point assembles the world of the object it dispatches on, runs the driver operation of the
  component theories there, and puts the world back.  An entry point answers a result and the next process; what it
  writes to an out parameter is the value of the result.
\<close>

section \<open>The process\<close>

type_synonym ('sp, 'cl) database_state = "(option_database, ('sp, 'cl) stack spanner_database) staged"
type_synonym 'ts connection_object = "'ts connection \<times> nat"
type_synonym 'ts connection_state = "(option_connection, 'ts connection_object) staged"
type_synonym ('r, 'ty, 'ts) statement_state = "('r, 'ty, 'ts) statement \<times> nat"

record ('sn, 'v, 'r, 'ty, 'ts, 'sp, 'cl, 'srv) process =
  databases :: "nat \<Rightarrow> ('sp, 'cl) database_state exported option"
  connections :: "nat \<Rightarrow> 'ts connection_state exported option"
  statements :: "nat \<Rightarrow> ('r, 'ty, 'ts) statement_state exported option"
  db_structs :: "nat \<Rightarrow> c_handle"
  conn_structs :: "nat \<Rightarrow> c_handle"
  stmt_structs :: "nat \<Rightarrow> c_handle"
  next_object :: nat
  shared_driver :: "bool option"
  arcs :: arc_store
  txn_states :: "('sn, 'v spanner_sql, 'v mutation) txn_state list"
  cancel_slots :: cancel_store
  backend :: 'srv

definition bump :: "('sn, 'v, 'r, 'ty, 'ts, 'sp, 'cl, 'srv) process \<Rightarrow> nat \<times> ('sn, 'v, 'r, 'ty, 'ts, 'sp, 'cl, 'srv) process" where
  "bump p = (next_object p, p\<lparr>next_object := next_object p + 1\<rparr>)"

text \<open>\<^verbatim>\<open>impl FfiHandle\<close> for the three structs; \<open>dr\<close> is what dropping a state of the kind does.\<close>

definition db_handle ::
  "(('sp, 'cl) database_state \<Rightarrow> unit result outcome) \<Rightarrow>
   (('sn, 'v, 'r, 'ty, 'ts, 'sp, 'cl, 'srv) process, ('sp, 'cl) database_state) ffi_handle" where
  "db_handle dr =
     \<lparr>KIND = lit ''database'', struct_at = db_structs,
      set_struct = \<lambda>a h p. p\<lparr>db_structs := (db_structs p)(a := h)\<rparr>, object_at = databases,
      set_object = \<lambda>a x p. p\<lparr>databases := (databases p)(a := x)\<rparr>, allocate = bump, drop_state = dr\<rparr>"

definition conn_handle ::
  "('ts connection_state \<Rightarrow> unit result outcome) \<Rightarrow>
   (('sn, 'v, 'r, 'ty, 'ts, 'sp, 'cl, 'srv) process, 'ts connection_state) ffi_handle" where
  "conn_handle dr =
     \<lparr>KIND = lit ''connection'', struct_at = conn_structs,
      set_struct = \<lambda>a h p. p\<lparr>conn_structs := (conn_structs p)(a := h)\<rparr>, object_at = connections,
      set_object = \<lambda>a x p. p\<lparr>connections := (connections p)(a := x)\<rparr>, allocate = bump, drop_state = dr\<rparr>"

definition stmt_handle ::
  "(('r, 'ty, 'ts) statement_state \<Rightarrow> unit result outcome) \<Rightarrow>
   (('sn, 'v, 'r, 'ty, 'ts, 'sp, 'cl, 'srv) process, ('r, 'ty, 'ts) statement_state) ffi_handle" where
  "stmt_handle dr =
     \<lparr>KIND = lit ''statement'', struct_at = stmt_structs,
      set_struct = \<lambda>a h p. p\<lparr>stmt_structs := (stmt_structs p)(a := h)\<rparr>, object_at = statements,
      set_object = \<lambda>a x p. p\<lparr>statements := (statements p)(a := x)\<rparr>, allocate = bump, drop_state = dr\<rparr>"

text \<open>A panic of the driver is the error \<^const>\<open>panicked\<close> of the component theories; here it unwinds.\<close>

definition driver_outcome :: "'a result \<Rightarrow> 'a result outcome" where
  "driver_outcome r = (if r = Inl panicked then Unwound (Some (message panicked)) else Answered r)"

section \<open>Worlds\<close>

definition in_world ::
  "'ts connection_object \<Rightarrow> ('sn, 'v, 'r, 'ty, 'ts, 'sp, 'cl, 'srv) process \<Rightarrow> ('sn, 'v, 'ts, 'srv) world" where
  "in_world c p =
     \<lparr>con = fst c, w_store = arcs p, w_txns = txn_states p ! snd c, w_cancels = cancel_slots p, w_server = backend p\<rparr>"

definition out_world ::
  "nat \<Rightarrow> ('sn, 'v, 'ts, 'srv) world \<Rightarrow> ('sn, 'v, 'r, 'ty, 'ts, 'sp, 'cl, 'srv) process \<Rightarrow>
   ('sn, 'v, 'r, 'ty, 'ts, 'sp, 'cl, 'srv) process" where
  "out_world k w p =
     p\<lparr>arcs := w_store w, txn_states := (txn_states p)[k := w_txns w], cancel_slots := w_cancels w, backend := w_server w\<rparr>"

definition in_machine ::
  "('r, 'ty, 'ts) statement_state \<Rightarrow> ('sn, 'v, 'r, 'ty, 'ts, 'sp, 'cl, 'srv) process \<Rightarrow>
   ('sn, 'v, 'r, 'ty, 'ts, 'srv) machine" where
  "in_machine s p =
     \<lparr>stm = fst s, store = arcs p, txns = txn_states p ! snd s, cancels = cancel_slots p, server = backend p\<rparr>"

definition out_machine ::
  "nat \<Rightarrow> ('sn, 'v, 'r, 'ty, 'ts, 'srv) machine \<Rightarrow> ('sn, 'v, 'r, 'ty, 'ts, 'sp, 'cl, 'srv) process \<Rightarrow>
   ('sn, 'v, 'r, 'ty, 'ts, 'sp, 'cl, 'srv) process" where
  "out_machine k m p =
     p\<lparr>arcs := store m, txn_states := (txn_states p)[k := txns m], cancel_slots := cancels m, backend := server m\<rparr>"

definition connection_call ::
  "('a, 'sn, 'v, 'ts, 'srv) conn_action \<Rightarrow>
   ('a, ('sn, 'v, 'r, 'ty, 'ts, 'sp, 'cl, 'srv) process, 'ts connection_object) body" where
  "connection_call act c p =
     (case act (in_world c p) of (r, w) \<Rightarrow> Some (driver_outcome r, (con w, snd c), out_world (snd c) w p))"

definition statement_call ::
  "('a, 'sn, 'v, 'r, 'ty, 'ts, 'srv) action \<Rightarrow>
   ('a, ('sn, 'v, 'r, 'ty, 'ts, 'sp, 'cl, 'srv) process, ('r, 'ty, 'ts) statement_state) body" where
  "statement_call act s p =
     (case act (in_machine s p) of (r, m) \<Rightarrow> Some (driver_outcome r, (stm m, snd s), out_machine (snd s) m p))"

text \<open>\<^verbatim>\<open>state.ready(KIND)?\<close> before a call on the initialised object.\<close>

definition on_ready :: "rstring \<Rightarrow> ('a, 'p, 's) body \<Rightarrow> ('a, 'p, ('k, 's) staged) body" where
  "on_ready knd f st p =
     (case ready knd st of
        Inl e \<Rightarrow> Some (Answered (Inl e), st, p)
      | Inr s \<Rightarrow> map_option (\<lambda>(out, s', p'). (out, Ready s', p')) (f s p))"

text \<open>What follows a call that returned a value.\<close>

definition then_write :: "('a, 'p, 's) body \<Rightarrow> ('a \<Rightarrow> 'p \<Rightarrow> 'b result) \<Rightarrow> ('b, 'p, 's) body" where
  "then_write f g s p =
     map_option (\<lambda>(out, s', p'). case out of
         Unwound cause \<Rightarrow> (Unwound cause, s', p')
       | Answered r \<Rightarrow> (Answered (try_bind r (\<lambda>x. g x p')), s', p')) (f s p)"

section \<open>Databases\<close>

text \<open>
  The shared driver: \<open>try_new\<close> is whether its runtime can be built; a panic under its lock leaves the lock poisoned
  for every later database.
\<close>

definition database_init ::
  "(('sp, 'cl) database_state \<Rightarrow> unit result outcome) \<Rightarrow> unit result \<Rightarrow> nat option \<Rightarrow>
   ('sn, 'v, 'r, 'ty, 'ts, 'sp, 'cl, 'srv) process \<Rightarrow>
   (unit result \<times> ('sn, 'v, 'r, 'ty, 'ts, 'sp, 'cl, 'srv) process) option" where
  "database_init dr try_new handle =
     with_state (db_handle dr) handle (\<lambda>st p.
       case pending (lit ''database'') st of
         Inl e \<Rightarrow> Some (Answered (Inl e), st, p)
       | Inr options \<Rightarrow>
           (case (if shared_driver p = None then try_new else Inr ()) of
              Inl e \<Rightarrow> Some (Answered (Inl e), st, p)
            | Inr _ \<Rightarrow>
                if shared_driver p = Some True then
                  Some (Answered (Inl (err (lit ''the shared Spanner driver is unusable after an earlier panic'') Internal)), st, p)
                else
                  (case driver_outcome (new_database_with_opts (entries options)) of
                     Unwound cause \<Rightarrow> Some (Unwound cause, st, p\<lparr>shared_driver := Some True\<rparr>)
                   | Answered (Inl e) \<Rightarrow> Some (Answered (Inl e), st, p\<lparr>shared_driver := Some False\<rparr>)
                   | Answered (Inr d) \<Rightarrow> Some (Answered (Inr ()), Ready d, p\<lparr>shared_driver := Some False\<rparr>))))"

definition db_target ::
  "(rstring \<Rightarrow> option_database) \<Rightarrow>
   (('sn, 'v, 'r, 'ty, 'ts, 'sp, 'cl, 'srv) process, option_database, ('sp, 'cl) database_state) option_target" where
  "db_target key_of =
     \<lparr>parse = key_of,
      set_target = staged_set (\<lambda>k v d p. case set_database_option k v d of (r, d') \<Rightarrow> Some (driver_outcome r, d', p)),
      get_string = staged_get db_key_str (\<lambda>k d p. database_option_string k d), key_name = db_key_str\<rparr>"

section \<open>Connections\<close>

definition conn_target ::
  "('sn, 'v, 'r, 'ty, 'ts, 'b, 'raw, 'bat, 'rd, 't, 'd, 'srv) env \<Rightarrow> rounding \<Rightarrow> (rstring \<Rightarrow> 'ts option) \<Rightarrow>
   (f64 \<Rightarrow> rstring) \<Rightarrow> (rstring \<Rightarrow> option_connection) \<Rightarrow>
   (('sn, 'v, 'r, 'ty, 'ts, 'sp, 'cl, 'srv) process, option_connection, 'ts connection_state) option_target" where
  "conn_target E rnd rfc sh key_of =
     \<lparr>parse = key_of, set_target = staged_set (\<lambda>k v. connection_call (set_connection_option E rnd rfc k v)),
      get_string = staged_get conn_key_str (\<lambda>k c p. connection_option_string sh k (in_world c p)),
      key_name = conn_key_str\<rparr>"

text \<open>
  \<^verbatim>\<open>new_connection_with_opts\<close>: a connection on the database's client stack, its options applied in order.  The world
  of a new connection starts a transaction state of its own.
\<close>

definition new_connection_with_opts ::
  "('sn, 'v, 'r, 'ty, 'ts, 'b, 'raw, 'bat, 'rd, 't, 'd, 'srv) env \<Rightarrow> rounding \<Rightarrow> (rstring \<Rightarrow> 'ts option) \<Rightarrow>
   'cr auth \<Rightarrow> ('cr, 'sp, 'cl, 'srv) builders \<Rightarrow> rstring option \<Rightarrow> ('sp, 'cl) stack spanner_database \<Rightarrow>
   (option_connection \<times> option_value) list \<Rightarrow> ('sn, 'v, 'r, 'ty, 'ts, 'sp, 'cl, 'srv) process \<Rightarrow>
   'ts connection_object result \<times> ('sp, 'cl) stack spanner_database \<times> ('sn, 'v, 'r, 'ty, 'ts, 'sp, 'cl, 'srv) process" where
  "new_connection_with_opts E rnd rfc A B host d opts p =
     (case database_new_connection A B host d (arcs p) (cancel_slots p) (backend p) of
        (Inl e, d', srv) \<Rightarrow> (Inl e, d', p\<lparr>backend := srv\<rparr>)
      | (Inr w, d', _) \<Rightarrow>
          (case set_connection_options E rnd rfc opts w of
             (r, w') \<Rightarrow>
               (try_bind r (\<lambda>_. Inr (con w', length (txn_states p))), d',
                out_world (length (txn_states p)) w' (p\<lparr>txn_states := txn_states p @ [w_txns w']\<rparr>))))"

text \<open>
  The closure of \<open>connection_init\<close>: \<open>own\<close> and \<open>db\<close> are the slots of the two handles, read up front.  The cancel handle is
  installed before the ready state is published.
\<close>

definition connection_init_body ::
  "('sn, 'v, 'r, 'ty, 'ts, 'b, 'raw, 'bat, 'rd, 't, 'd, 'srv) env \<Rightarrow> rounding \<Rightarrow> (rstring \<Rightarrow> 'ts option) \<Rightarrow>
   'cr auth \<Rightarrow> ('cr, 'sp, 'cl, 'srv) builders \<Rightarrow> rstring option \<Rightarrow>
   ('ts connection_state \<Rightarrow> unit result outcome) \<Rightarrow> (('sp, 'cl) database_state \<Rightarrow> unit result outcome) \<Rightarrow>
   nat option \<Rightarrow> nat option \<Rightarrow> nat option \<Rightarrow>
   (unit, ('sn, 'v, 'r, 'ty, 'ts, 'sp, 'cl, 'srv) process, 'ts connection_state) body" where
  "connection_init_body E rnd rfc A B host cdr ddr own db dbh st p =
     (case pending (lit ''connection'') st of
        Inl e \<Rightarrow> Some (Answered (Inl e), st, p)
      | Inr options \<Rightarrow>
          (case borrow (db_handle ddr) dbh p of
             None \<Rightarrow> None
           | Some (Inl e) \<Rightarrow> Some (Answered (Inl e), st, p)
           | Some (Inr dst) \<Rightarrow>
               (case ready (lit ''database'') dst of
                  Inl e \<Rightarrow> Some (Answered (Inl e), st, p)
                | Inr d \<Rightarrow>
                    (case new_connection_with_opts E rnd rfc A B host d (entries options) p of
                       (r, d', p1) \<Rightarrow>
                         (let p2 = update_object (db_handle ddr) (the db) (\<lambda>x. x\<lparr>state := Ready d'\<rparr>) p1
                          in case driver_outcome r of
                               Unwound cause \<Rightarrow> Some (Unwound cause, st, p2)
                             | Answered (Inl e) \<Rightarrow> Some (Answered (Inl e), st, p2)
                             | Answered (Inr c) \<Rightarrow>
                                 Some (Answered (Inr ()), Ready c,
                                       install_cancel_handle (conn_handle cdr) own (c_slot (fst c)) p2))))))"

definition connection_init ::
  "('sn, 'v, 'r, 'ty, 'ts, 'b, 'raw, 'bat, 'rd, 't, 'd, 'srv) env \<Rightarrow> rounding \<Rightarrow> (rstring \<Rightarrow> 'ts option) \<Rightarrow>
   'cr auth \<Rightarrow> ('cr, 'sp, 'cl, 'srv) builders \<Rightarrow> rstring option \<Rightarrow>
   ('ts connection_state \<Rightarrow> unit result outcome) \<Rightarrow> (('sp, 'cl) database_state \<Rightarrow> unit result outcome) \<Rightarrow>
   nat option \<Rightarrow> nat option \<Rightarrow> ('sn, 'v, 'r, 'ty, 'ts, 'sp, 'cl, 'srv) process \<Rightarrow>
   (unit result \<times> ('sn, 'v, 'r, 'ty, 'ts, 'sp, 'cl, 'srv) process) option" where
  "connection_init E rnd rfc A B host cdr ddr handle dbh p =
     with_state (conn_handle cdr) handle
       (connection_init_body E rnd rfc A B host cdr ddr (slot_of (conn_handle cdr) handle p)
          (slot_of (db_handle ddr) dbh p) dbh) p"

text \<open>\<^verbatim>\<open>export_stream\<close>: the reader becomes a C stream that carries the handle's driver pointer.\<close>

definition export_stream ::
  "('p, 's) ffi_handle \<Rightarrow> nat option \<Rightarrow> bool \<Rightarrow> 'rd \<Rightarrow> 'p \<Rightarrow> 'rd c_stream result" where
  "export_stream H handle out rd p = write_out out (export_reader rd (driver_of H handle p)) (lit ''out'')"

text \<open>
  The shape of every entry point that answers a stream: the out parameter first, then the arguments, then the call.
\<close>

definition stream_call ::
  "('p, ('k, 's) staged) ffi_handle \<Rightarrow> nat option \<Rightarrow> bool \<Rightarrow> 'x result option \<Rightarrow> ('x \<Rightarrow> ('rd, 'p, 's) body) \<Rightarrow> 'p \<Rightarrow>
   ('rd c_stream result \<times> 'p) option" where
  "stream_call H handle out arg f =
     with_state H handle
       (with_arg (Some (required_output out (lit ''out''))) (\<lambda>_.
          with_arg arg (\<lambda>x. then_write (on_ready (KIND H) (f x)) (export_stream H handle out))))"

definition connection_commit where
  "connection_commit E dr handle =
     with_state (conn_handle dr) handle (on_ready (lit ''connection'') (connection_call (conn_commit E)))"

definition connection_rollback where
  "connection_rollback dr handle =
     with_state (conn_handle dr) handle (on_ready (lit ''connection'') (connection_call conn_rollback))"

definition fire ::
  "nat \<Rightarrow> ('sn, 'v, 'r, 'ty, 'ts, 'sp, 'cl, 'srv) process \<Rightarrow> unit result \<times> ('sn, 'v, 'r, 'ty, 'ts, 'sp, 'cl, 'srv) process" where
  "fire c p = (case try_cancel c (cancel_slots p) of (r, cs) \<Rightarrow> (r, p\<lparr>cancel_slots := cs\<rparr>))"

definition connection_cancel where
  "connection_cancel dr handle p = cancel (conn_handle dr) fire (slot_of (conn_handle dr) handle p) p"

text \<open>Several arguments, each read and refused in turn.\<close>

definition both :: "'a result option \<Rightarrow> 'b result option \<Rightarrow> ('a \<times> 'b) result option" where
  "both a b =
     (case a of
        None \<Rightarrow> None
      | Some (Inl e) \<Rightarrow> Some (Inl e)
      | Some (Inr x) \<Rightarrow> map_option (\<lambda>r. try_bind r (\<lambda>y. Inr (x, y))) b)"

text \<open>A null code array asks for everything, an empty one for nothing; the codes form a set.\<close>

definition connection_get_info where
  "connection_get_info M BI code_of dr handle codes len out =
     stream_call (conn_handle dr) handle out
       (case codes of
          None \<Rightarrow> Some (Inr None)
        | Some cs \<Rightarrow> if len \<le> length cs then Some (Inr (Some (remdups (map code_of (take len cs))))) else None)
       (\<lambda>cs. connection_call (pure (get_info M BI cs)))"

definition object_depth_of :: "int \<Rightarrow> object_depth option" where
  "object_depth_of n =
     (if n = 0 then Some AllDepth else if n = 1 then Some Catalogs else if n = 2 then Some Schemas
      else if n = 3 then Some Tables else None)"

definition connection_get_objects where
  "connection_get_objects M dr handle depth cat db_schema table_name types column_name out =
     stream_call (conn_handle dr) handle out
       (both (Some (ok_or (invalid_argument (lit ''not a valid ADBC object depth'')) (object_depth_of depth)))
         (both (optional_str cat (lit ''catalog'')) (both (optional_str db_schema (lit ''db_schema''))
           (both (optional_str table_name (lit ''table_name'')) (both (optional_str_list types (lit ''table_type''))
             (optional_str column_name (lit ''column_name'')))))))
       (\<lambda>(dep, c, s, t, ty, col).
          connection_call (get_objects M dep c
            \<lparr>f_db_schema = s, f_table_name = t, f_table_type = ty, f_column_name = col\<rparr>))"

text \<open>\<open>export\<close> is \<^verbatim>\<open>FFI_ArrowSchema::try_from\<close>.\<close>

definition connection_get_table_schema where
  "connection_get_table_schema E K query_rows export dr handle cat db_schema table_name out =
     with_state (conn_handle dr) handle
       (with_arg (Some (required_output out (lit ''schema''))) (\<lambda>_.
          with_arg (both (optional_str cat (lit ''catalog''))
                     (both (optional_str db_schema (lit ''db_schema'')) (required_str table_name (lit ''table_name''))))
            (\<lambda>(c, s, t). then_write
               (on_ready (lit ''connection'') (connection_call (get_table_schema E K query_rows c s t)))
               (\<lambda>found _. try_bind
                  (ok_or (err (lit ''failed to export the table schema over the C data interface'') Internal) (export found))
                  (\<lambda>sc. write_out out sc (lit ''schema''))))))"

definition connection_get_table_types where
  "connection_get_table_types dr handle out =
     stream_call (conn_handle dr) handle out (Some (Inr ())) (\<lambda>_. connection_call (pure (Inr table_types)))"

definition connection_get_statistics where
  "connection_get_statistics M A dr handle cat db_schema table_name approximate out =
     stream_call (conn_handle dr) handle out
       (both (optional_str cat (lit ''catalog'')) (both (optional_str db_schema (lit ''db_schema''))
         (optional_str table_name (lit ''table_name''))))
       (\<lambda>(c, s, t). connection_call (get_statistics M A c s t (approximate \<noteq> (0 :: int))))"

definition connection_get_statistic_names where
  "connection_get_statistic_names M dr handle out =
     stream_call (conn_handle dr) handle out (Some (Inr ())) (\<lambda>_. connection_call (pure (get_statistic_names M)))"

definition connection_read_partition where
  "connection_read_partition K S exec dr handle serialized len out =
     stream_call (conn_handle dr) handle out (byte_slice serialized len (lit ''serialized_partition''))
       (\<lambda>partition. connection_call (read_partition K S exec partition))"

end
