(* ===== verification/FfiStatement.thy ===== *)
theory FfiStatement
  imports FfiObjects
begin

text \<open>
  The entry points of a statement, \<^verbatim>\<open>src/ffi/statement.rs\<close>, and the driver's own entry point and vtable,
  \<^verbatim>\<open>src/ffi/mod.rs\<close>.  A statement has no pre-\<^verbatim>\<open>Init\<close> phase: it is built from its connection and is live at once.
\<close>

section \<open>Options and construction\<close>

definition stmt_target ::
  "rounding \<Rightarrow> (rstring \<Rightarrow> 'ts option) \<Rightarrow> (f64 \<Rightarrow> rstring) \<Rightarrow> (rstring \<Rightarrow> option_statement) \<Rightarrow>
   (('sn, 'v, 'r, 'ty, 'ts, 'sp, 'cl, 'srv) process, option_statement, ('r, 'ty, 'ts) statement_state) option_target" where
  "stmt_target rnd rfc sh key_of =
     \<lparr>parse = key_of,
      set_target = \<lambda>k v s p. (case set_statement_option rnd rfc k v (fst s) of
          Inl e \<Rightarrow> Some (driver_outcome (Inl e), s, p)
        | Inr s' \<Rightarrow> Some (Answered (Inr ()), (s', snd s), p)),
      get_string = \<lambda>_ k s p. statement_option_string sh (arcs p) k (fst s), key_name = key_str\<rparr>"

text \<open>
  \<open>statement_new\<close>: the connection is locked, not dispatched on, so a panic in \<^verbatim>\<open>new_statement\<close> poisons nothing.
\<close>

definition statement_new ::
  "('ts connection_state \<Rightarrow> unit result outcome) \<Rightarrow> (('r, 'ty, 'ts) statement_state \<Rightarrow> unit result outcome) \<Rightarrow>
   nat option \<Rightarrow> nat option \<Rightarrow> ('sn, 'v, 'r, 'ty, 'ts, 'sp, 'cl, 'srv) process \<Rightarrow>
   (unit result \<times> ('sn, 'v, 'r, 'ty, 'ts, 'sp, 'cl, 'srv) process) option" where
  "statement_new cdr sdr conn handle p =
     (case handle of
        None \<Rightarrow> Some (Inl (invalid_argument (lit ''statement must not be null'')), p)
      | Some a \<Rightarrow>
          if h_private_data (stmt_structs p a) \<noteq> None then Some (Inl (already_populated (lit ''statement'')), p)
          else
            (case borrow (conn_handle cdr) conn p of
               None \<Rightarrow> None
             | Some (Inl e) \<Rightarrow> Some (Inl e, p)
             | Some (Inr st) \<Rightarrow>
                 (case ready (lit ''connection'') st of
                    Inl e \<Rightarrow> Some (Inl e, p)
                  | Inr c \<Rightarrow>
                      (let m = open_statement (in_world c p); p1 = out_machine (snd c) m p
                       in case into_private_data (stmt_handle sdr) (stm m, snd c) (Some (slot (stm m))) p1 of
                            (x, p2) \<Rightarrow>
                              Some (Inr (),
                                set_struct (stmt_handle sdr) a ((stmt_structs p2 a)\<lparr>h_private_data := Some x\<rparr>) p2)))))"

section \<open>Text, plans and preparation\<close>

definition statement_set_sql_query where
  "statement_set_sql_query dr handle text =
     with_state (stmt_handle dr) handle
       (with_arg (required_str text (lit ''query'')) (\<lambda>q s p. Some (Answered (Inr ()), (set_sql_query q (fst s), snd s), p)))"

definition statement_set_substrait_plan where
  "statement_set_substrait_plan dr handle plan len =
     with_state (stmt_handle dr) handle
       (with_arg (byte_slice plan len (lit ''plan'')) (\<lambda>_ s p.
          Some (Answered (Inl (unsupported (lit ''setting a Substrait plan''))) :: unit result outcome, s, p)))"

definition statement_prepare where
  "statement_prepare dr handle =
     with_state (stmt_handle dr) handle (\<lambda>s p. Some (driver_outcome (prepare (fst s)), s, p))"

definition statement_cancel where
  "statement_cancel dr handle p = cancel (stmt_handle dr) fire (slot_of (stmt_handle dr) handle p) p"

section \<open>Binding\<close>

text \<open>
  The checks of \<open>statement_bind\<close> before either input is taken, then the import.  The answer carries what the caller's
  two structs look like afterwards: untouched by a refusal of the first kind, moved out otherwise.
\<close>

definition bindable :: "'x c_data option \<Rightarrow> rstring \<Rightarrow> 'x result" where
  "bindable arg name =
     (case arg of
        None \<Rightarrow> Inl (invalid_argument (name @ lit '' must not be null''))
      | Some d \<Rightarrow>
          if released d then Inl (invalid_argument (name @ lit '' has already been released'')) else Inr (contents d))"

definition imported_batch ::
  "('va, 'sa, 'data, 'ty, 'r) arrow_import \<Rightarrow> 'va \<Rightarrow> 'sa \<Rightarrow> ('ty schema \<times> 'r batch) result" where
  "imported_batch I va sa =
     try_bind (ok_or (invalid_argument (lit ''bind values are not a valid Arrow array'')) (from_ffi I va sa)) (\<lambda>data.
     try_bind (ok_or (invalid_argument (lit ''bind values must be a struct array'')) (struct_of_data I data)) (\<lambda>names.
     case validate_imported I data names of
       Inl m \<Rightarrow> Inl (invalid_argument (lit ''bind values are not a valid Arrow array: '' @ m))
     | Inr _ \<Rightarrow>
         if null_count I data \<noteq> 0
         then Inl (invalid_argument (lit ''bind values must not contain top-level null rows''))
         else Inr (to_batch I data)))"

definition take_bound ::
  "'va c_data option \<Rightarrow> 'sa c_data option \<Rightarrow> ('va \<times> 'sa) result \<times> 'va c_data option \<times> 'sa c_data option" where
  "take_bound values schema =
     (case try_bind (bindable values (lit ''values'')) (\<lambda>va.
             try_bind (bindable schema (lit ''schema'')) (\<lambda>sa. Inr (va, sa))) of
        Inl e \<Rightarrow> (Inl e, values, schema)
      | Inr x \<Rightarrow> (Inr x, map_option moved_out values, map_option moved_out schema))"

definition statement_bind ::
  "('va, 'sa, 'data, 'ty, 'r) arrow_import \<Rightarrow> (('r, 'ty, 'ts) statement_state \<Rightarrow> unit result outcome) \<Rightarrow> nat option \<Rightarrow>
   'va c_data option \<Rightarrow> 'sa c_data option \<Rightarrow> ('sn, 'v, 'r, 'ty, 'ts, 'sp, 'cl, 'srv) process \<Rightarrow>
   (unit result \<times> ('sn, 'v, 'r, 'ty, 'ts, 'sp, 'cl, 'srv) process) option" where
  "statement_bind I dr handle values schema =
     with_state (stmt_handle dr) handle
       (with_arg (Some (fst (take_bound values schema))) (\<lambda>(va, sa).
          with_arg (Some (imported_batch I va sa)) (\<lambda>b s p.
            Some (Answered (Inr ()), (bind_batch b (fst s), snd s), p))))"

text \<open>\<open>fuel\<close> bounds how many batches are read; a producer that goes on past it gives no answer.\<close>

definition statement_bind_stream ::
  "nat \<Rightarrow> ('va, 'sa, 'data, 'ty, 'r) arrow_import \<Rightarrow> ('ps, 'va, 'sa) producer \<Rightarrow>
   (('r, 'ty, 'ts) statement_state \<Rightarrow> unit result outcome) \<Rightarrow> nat option \<Rightarrow> 'ps c_data option \<Rightarrow>
   ('sn, 'v, 'r, 'ty, 'ts, 'sp, 'cl, 'srv) process \<Rightarrow>
   (unit result \<times> ('sn, 'v, 'r, 'ty, 'ts, 'sp, 'cl, 'srv) process) option" where
  "statement_bind_stream fuel I P dr handle arg =
     with_state (stmt_handle dr) handle
       (with_arg (Some (fst (bound_from_raw I P arg))) (\<lambda>rd s p.
          case read_items fuel I P rd of
            None \<Rightarrow> None
          | Some (Unwound cause) \<Rightarrow> Some (Unwound cause, s, p)
          | Some (Answered items) \<Rightarrow>
              (case bind_stream (reader_schema rd) items (fst s) of
                 Inl e \<Rightarrow> Some (Answered (Inl e), s, p)
               | Inr s' \<Rightarrow> Some (Answered (Inr ()), (s', snd s), p))))"

section \<open>Execution\<close>

text \<open>
  \<open>statement_execute_query\<close>: what it writes is the stream, if the caller asked for one, and the row count, if the caller
  asked for that.
\<close>

definition write_rows_affected :: "bool \<Rightarrow> int \<Rightarrow> int option" where
  "write_rows_affected dst n = (if dst then Some n else None)"

definition statement_execute_query where
  "statement_execute_query E dr handle out rows_affected =
     with_state (stmt_handle dr) handle
       (if \<not> out then
          then_write (statement_call (execute_update E))
            (\<lambda>n _. Inr (None, write_rows_affected rows_affected (case n of None \<Rightarrow> -1 | Some k \<Rightarrow> k)))
        else
          then_write (statement_call (execute E))
            (\<lambda>rd p. Inr (Some (export_reader rd (driver_of (stmt_handle dr) handle p)), write_rows_affected rows_affected (-1))))"

definition export_schema :: "('sch \<Rightarrow> 'sc option) \<Rightarrow> 'sch \<Rightarrow> 'sc result" where
  "export_schema export sch =
     ok_or (err (lit ''failed to export the result schema over the C data interface'') Internal) (export sch)"

definition statement_execute_schema where
  "statement_execute_schema E export dr handle out =
     with_state (stmt_handle dr) handle
       (with_arg (Some (required_output out (lit ''schema''))) (\<lambda>_.
          then_write (statement_call (execute_schema E))
            (\<lambda>found _. try_bind (export_schema export found) (\<lambda>sc. write_out out sc (lit ''schema'')))))"

definition statement_get_parameter_schema where
  "statement_get_parameter_schema E probe_query probe_dml export dr handle out =
     with_state (stmt_handle dr) handle
       (with_arg (Some (required_output out (lit ''schema''))) (\<lambda>_.
          then_write (statement_call (get_parameter_schema E probe_query probe_dml))
            (\<lambda>found _. try_bind (export_schema export found) (\<lambda>sc. write_out out sc (lit ''schema'')))))"

section \<open>Partitions\<close>

text \<open>
  The exported partitions: the two arrays are null when there are no partitions, the owner box holds the payloads
  and both arrays.
\<close>

record partitions_owner =
  payloads :: "u8 list list"
  pointers :: "u8 list list"
  lengths :: "nat list"

record adbc_partitions =
  num_partitions :: nat
  partitions :: "u8 list list option"
  partition_lengths :: "nat list option"
  partitions_data :: "partitions_owner option"
  partitions_release :: bool

definition export_partitions :: "u8 list list \<Rightarrow> adbc_partitions" where
  "export_partitions ps =
     (let owner = \<lparr>payloads = ps, pointers = ps, lengths = map length ps\<rparr>
      in \<lparr>num_partitions = length ps,
          partitions = (if ps = [] then None else Some (pointers owner)),
          partition_lengths = (if ps = [] then None else Some (lengths owner)),
          partitions_data = Some owner, partitions_release = True\<rparr>)"

definition release_partitions :: "adbc_partitions option \<Rightarrow> adbc_partitions option" where
  "release_partitions arg =
     map_option (\<lambda>p. p\<lparr>partitions_data := None, num_partitions := 0, partitions := None, partition_lengths := None,
                      partitions_release := False\<rparr>) arg"

definition statement_execute_partitions where
  "statement_execute_partitions E export dr handle schema_out partitions_out rows_affected =
     with_state (stmt_handle dr) handle
       (with_arg (both (Some (required_output schema_out (lit ''schema'')))
                       (Some (required_output partitions_out (lit ''partitions'')))) (\<lambda>_.
          then_write (statement_call (execute_partitions E))
            (\<lambda>(tokens, sch, n) _. try_bind (export_schema export sch) (\<lambda>sc.
               Inr (sc, export_partitions tokens, write_rows_affected rows_affected n)))))"

end
