(* ===== verification/FfiHandleProps.thy ===== *)
theory FfiHandleProps
  imports FfiStatement UriProps
begin

text \<open>
  The handle discipline of the C boundary.  The interface between the generic entry points and a kind of object is
  the locale \<open>ffi_object\<close>: the caller's structs and the exported objects of the kind are stored where they are put and
  nowhere else.  It is interpreted on the three kinds of the process, and what is shown in it holds for each of them.
\<close>

section \<open>The interface of an object kind\<close>

locale ffi_object =
  fixes H :: "('p, 's) ffi_handle"
  assumes struct_set: "struct_at H (set_struct H a h p) = (struct_at H p)(a := h)"
    and object_set: "object_at H (set_object H a x p) = (object_at H p)(a := x)"
    and struct_object: "struct_at H (set_object H a x p) = struct_at H p"
    and object_struct: "object_at H (set_struct H a h p) = object_at H p"
    and allocate_frame: "object_at H (snd (allocate H p)) = object_at H p" "struct_at H (snd (allocate H p)) = struct_at H p"
begin

lemmas laws = struct_set object_set struct_object object_struct

lemma object_update:
  "object_at H (update_object H a f p) = (object_at H p)(a := map_option f (object_at H p a))"
  "struct_at H (update_object H a f p) = struct_at H p"
  by (simp_all add: update_object_def laws)

text \<open>A released or never populated handle is refused by every call before the body runs, and by a release.\<close>

lemma null_refused:
  assumes "h_private_data (struct_at H p a) = None"
  shows "with_state H (Some a) f p = Some (Inl (uninitialized (KIND H)), p)"
    and "\<exists>p'. release_handle H (Some a) p = Some (Inl (uninitialized (KIND H)), p') \<and>
           struct_at H p' = (struct_at H p) \<and> object_at H p' = object_at H p"
  using assms by (auto simp: with_state_def slot_of_def dispatch_def lock_state_def release_handle_def release_object_def
      Let_def laws)

text \<open>Releasing a live object frees it, whatever its destructor does, and leaves the handle null.\<close>

lemma release_live:
  assumes "h_private_data (struct_at H p a) = Some x" "object_at H p x \<noteq> None"
  obtains r p' where "release_handle H (Some a) p = Some (r, p')"
    "struct_at H p' = (struct_at H p)(a := (struct_at H p a)\<lparr>h_private_data := None\<rparr>)"
    "object_at H p' = (object_at H p)(x := None)"
  using assms by (auto simp: release_handle_def release_object_def Let_def laws)

text \<open>
  A call whose body unwinds reports an internal error and poisons the object it ran on; from then on no body runs on
  that object.
\<close>

lemma unwinding_poisons:
  assumes slot: "slot_of H h p = Some x" "object_at H p x = Some ex" "\<not> poisoned ex"
    and body: "f (state ex) p = Some (Unwound cause, s', p1)"
    and frame: "struct_at H p1 = struct_at H p" "object_at H p1 x \<noteq> None"
  obtains p' where "with_state H h f p = Some (Inl (caught_panic cause), p')"
    "\<And>y. y \<noteq> x \<Longrightarrow> object_at H p' y = object_at H p1 y"
    "\<And>g. with_state H h g p' = Some (Inl (poisoned_error (KIND H)), p')"
proof -
  let ?p' = "update_object H x (\<lambda>e. e\<lparr>state := s', poisoned := True\<rparr>) p1"
  have "with_state H h f p = Some (Inl (caught_panic cause), ?p')"
    using slot body by (simp add: with_state_def dispatch_def lock_state_def catch_def flattened_def)
  moreover have "slot_of H h ?p' = Some x" using slot(1) frame(1) by (simp add: slot_of_def object_update)
  moreover have "object_at H ?p' y = object_at H p1 y" if "y \<noteq> x" for y using that by (simp add: object_update)
  moreover have "\<exists>e. object_at H ?p' x = Some e \<and> poisoned e" using frame(2) by (auto simp: object_update)
  ultimately show ?thesis
    by (intro that[of ?p']) (auto simp: with_state_def dispatch_def lock_state_def)
qed

end

lemmas handle_defs = db_handle_def conn_handle_def stmt_handle_def bump_def

interpretation db: ffi_object "db_handle dr" for dr
  by unfold_locales (simp_all add: handle_defs)

interpretation conn: ffi_object "conn_handle dr" for dr
  by unfold_locales (simp_all add: handle_defs)

interpretation stmt: ffi_object "stmt_handle dr" for dr
  by unfold_locales (simp_all add: handle_defs)

section \<open>The option buffer protocol\<close>

text \<open>What adbc.h has the caller promise of its buffer: the advertised length is writable.\<close>

definition buffer_ok :: "c_str \<Rightarrow> nat option \<Rightarrow> bool" where
  "buffer_ok dst len \<longleftrightarrow> (case (dst, len) of (Some mem, Some n) \<Rightarrow> n \<le> length mem | _ \<Rightarrow> True)"

lemma cstr_from_ptr_terminated:
  "0 \<notin> set bytes \<Longrightarrow> cstr_from_ptr (bytes @ 0 # rest) = Some bytes"
  by (simp add: cstr_from_ptr_def takeWhile_append)

lemma required_str_terminated:
  assumes "list_all is_scalar v" "0 \<notin> set (as_bytes v)"
  shows "required_str (Some (as_bytes v @ 0 # rest)) name = Some (Inr v)"
  using assms by (simp add: required_str_def cstr_from_ptr_terminated from_utf8_as_bytes ok_or_def)



end
