(* ===== verification/FfiOwnership.thy ===== *)
theory FfiOwnership
  imports FfiHandleProps
begin

text \<open>
  Ownership across the C boundary: every entry point, on every process whose handles are in order, is defined and
  leaves them in order.  No pointer of the caller dangles, two handles never share an object, every live object has a
  handle that can release it, and every connection and statement refers to a transaction state that exists.
\<close>

section \<open>The invariant\<close>

definition kind_ok :: "(nat \<Rightarrow> c_handle) \<Rightarrow> (nat \<Rightarrow> 's exported option) \<Rightarrow> nat \<Rightarrow> bool" where
  "kind_ok structs objects next \<longleftrightarrow>
     (\<forall>a x. h_private_data (structs a) = Some x \<longrightarrow> objects x \<noteq> None) \<and>
     (\<forall>a b x. h_private_data (structs a) = Some x \<longrightarrow> h_private_data (structs b) = Some x \<longrightarrow> a = b) \<and>
     (\<forall>x. objects x \<noteq> None \<longrightarrow> (\<exists>a. h_private_data (structs a) = Some x) \<and> x < next)"

definition conn_ok :: "nat \<Rightarrow> 'ts connection_state \<Rightarrow> bool" where
  "conn_ok n st \<longleftrightarrow> (case st of Ready c \<Rightarrow> snd c < n | Pending _ \<Rightarrow> True)"

definition stmt_ok :: "nat \<Rightarrow> ('r, 'ty, 'ts) statement_state \<Rightarrow> bool" where
  "stmt_ok n s \<longleftrightarrow> snd s < n"

definition handles_ok :: "('sn, 'v, 'r, 'ty, 'ts, 'sp, 'cl, 'srv) process \<Rightarrow> bool" where
  "handles_ok p \<longleftrightarrow>
     kind_ok (db_structs p) (databases p) (next_object p) \<and>
     kind_ok (conn_structs p) (connections p) (next_object p) \<and>
     kind_ok (stmt_structs p) (statements p) (next_object p) \<and>
     (\<forall>x ex. connections p x = Some ex \<longrightarrow> conn_ok (length (txn_states p)) (state ex)) \<and>
     (\<forall>x ex. statements p x = Some ex \<longrightarrow> stmt_ok (length (txn_states p)) (state ex))"

text \<open>What a driver call may do to the rest of the process.\<close>

definition same_live :: "(nat \<Rightarrow> 'a option) \<Rightarrow> (nat \<Rightarrow> 'b option) \<Rightarrow> bool" where
  "same_live f g \<longleftrightarrow> (\<forall>x. f x = None \<longleftrightarrow> g x = None)"

definition frame ::
  "('sn, 'v, 'r, 'ty, 'ts, 'sp, 'cl, 'srv) process \<Rightarrow> ('sn, 'v, 'r, 'ty, 'ts, 'sp, 'cl, 'srv) process \<Rightarrow> bool" where
  "frame p q \<longleftrightarrow>
     db_structs q = db_structs p \<and> conn_structs q = conn_structs p \<and> stmt_structs q = stmt_structs p \<and>
     next_object q = next_object p \<and> length (txn_states p) \<le> length (txn_states q) \<and>
     same_live (databases q) (databases p) \<and>
     (\<forall>x. map_option state (connections q x) = map_option state (connections p x)) \<and>
     (\<forall>x. map_option state (statements q x) = map_option state (statements p x))"

lemma frame_refl [intro, simp]: "frame p p"
  by (simp add: frame_def same_live_def)

text \<open>
  A body is orderly for an invariant of its own state: it is defined, keeps that invariant and frames the process.
\<close>

definition orderly ::
  "(nat \<Rightarrow> 's \<Rightarrow> bool) \<Rightarrow> ('a, ('sn, 'v, 'r, 'ty, 'ts, 'sp, 'cl, 'srv) process, 's) body \<Rightarrow> bool" where
  "orderly P f \<longleftrightarrow>
     (\<forall>s p. handles_ok p \<longrightarrow> P (length (txn_states p)) s \<longrightarrow>
        (\<exists>out s' q. f s p = Some (out, s', q) \<and> frame p q \<and> P (length (txn_states q)) s'))"

lemma kind_ok_live: "kind_ok st obj n \<Longrightarrow> same_live obj' obj \<Longrightarrow> kind_ok st obj' n"
  by (simp add: kind_ok_def same_live_def)

lemma same_live_upd: "same_live (f(x := map_option g (f x))) f"
  by (simp add: same_live_def)

lemma same_live_state: "(\<forall>x. map_option state (f x) = map_option state (g x)) \<Longrightarrow> same_live f g"
  unfolding same_live_def by (metis map_option_is_None)

lemma conn_ok_mono: "conn_ok n st \<Longrightarrow> n \<le> m \<Longrightarrow> conn_ok m st"
  by (auto simp: conn_ok_def split: staged.splits)

lemma stmt_ok_mono: "stmt_ok n st \<Longrightarrow> n \<le> m \<Longrightarrow> stmt_ok m st"
  by (auto simp: stmt_ok_def)

lemma handles_okD:
  assumes "handles_ok p"
  shows "connections p x = Some e \<Longrightarrow> conn_ok (length (txn_states p)) (state e)"
    and "statements p y = Some d \<Longrightarrow> stmt_ok (length (txn_states p)) (state d)"
  using assms by (simp_all add: handles_ok_def)

lemma frame_conn:
  assumes "frame p q" "handles_ok p" "connections q x = Some ex"
  shows "conn_ok (length (txn_states q)) (state ex)"
proof -
  have "map_option state (connections q x) = map_option state (connections p x)" "length (txn_states p) \<le> length (txn_states q)"
    using assms(1) by (simp_all add: frame_def)
  with assms(3) obtain e where "connections p x = Some e" "state e = state ex" "length (txn_states p) \<le> length (txn_states q)"
    by (cases "connections p x") auto
  then show ?thesis using handles_okD(1)[OF assms(2)] conn_ok_mono by metis
qed

lemma frame_stmt:
  assumes "frame p q" "handles_ok p" "statements q x = Some ex"
  shows "stmt_ok (length (txn_states q)) (state ex)"
proof -
  have "map_option state (statements q x) = map_option state (statements p x)" "length (txn_states p) \<le> length (txn_states q)"
    using assms(1) by (simp_all add: frame_def)
  with assms(3) obtain e where "statements p x = Some e" "state e = state ex" "length (txn_states p) \<le> length (txn_states q)"
    by (cases "statements p x") auto
  then show ?thesis using handles_okD(2)[OF assms(2)] stmt_ok_mono by metis
qed

lemma frame_handles_ok: "frame p q \<Longrightarrow> handles_ok p \<Longrightarrow> handles_ok q"
  unfolding handles_ok_def[of q]
  by (auto simp: frame_conn frame_stmt)
    (auto simp: handles_ok_def frame_def elim!: kind_ok_live intro: same_live_state)

section \<open>Dispatching\<close>

text \<open>A call is safe when it is defined on every process in order and leaves it in order.\<close>

definition safe_call ::
  "(('sn, 'v, 'r, 'ty, 'ts, 'sp, 'cl, 'srv) process \<Rightarrow>
    ('a result \<times> ('sn, 'v, 'r, 'ty, 'ts, 'sp, 'cl, 'srv) process) option) \<Rightarrow> bool" where
  "safe_call e \<longleftrightarrow> (\<forall>p. handles_ok p \<longrightarrow> (\<exists>r q. e p = Some (r, q) \<and> handles_ok q))"

lemma update_db:
  "handles_ok p \<Longrightarrow> handles_ok (update_object (db_handle dr) x f p)"
  by (simp add: handles_ok_def update_object_def db_handle_def) (metis kind_ok_live same_live_upd)

lemma update_conn:
  "handles_ok p \<Longrightarrow> (\<And>ex. conn_ok (length (txn_states p)) (state (f ex))) \<Longrightarrow>
   handles_ok (update_object (conn_handle dr) x f p)"
  by (auto simp: handles_ok_def update_object_def conn_handle_def intro: kind_ok_live[OF _ same_live_upd])

lemma update_stmt:
  "handles_ok p \<Longrightarrow> (\<And>ex. stmt_ok (length (txn_states p)) (state (f ex))) \<Longrightarrow>
   handles_ok (update_object (stmt_handle dr) x f p)"
  by (auto simp: handles_ok_def update_object_def stmt_handle_def intro: kind_ok_live[OF _ same_live_upd])

text \<open>A live slot of a kind in order, and the state behind it.\<close>

lemma kind_ok_slot:
  "kind_ok (struct_at H p) (object_at H p) n \<Longrightarrow> slot_of H h p = Some x \<Longrightarrow> \<exists>ex. object_at H p x = Some ex"
  by (auto simp: kind_ok_def slot_of_def bind_eq_Some_conv)

lemma handles_ok_kinds:
  assumes "handles_ok p"
  shows "kind_ok (struct_at (db_handle dd) p) (object_at (db_handle dd) p) (next_object p)"
    and "kind_ok (struct_at (conn_handle cd) p) (object_at (conn_handle cd) p) (next_object p)"
    and "kind_ok (struct_at (stmt_handle sd) p) (object_at (stmt_handle sd) p) (next_object p)"
  using assms by (simp_all add: handles_ok_def handle_defs)

lemma object_at_handles:
  "object_at (db_handle dd) = databases" "object_at (conn_handle cd) = connections" "object_at (stmt_handle sd) = statements"
  by (simp_all add: handle_defs)

lemma dispatch_safe:
  fixes H :: "(('sn, 'v, 'r, 'ty, 'ts, 'sp, 'cl, 'srv) process, 's) ffi_handle"
  assumes kind: "\<And>p. handles_ok p \<Longrightarrow> kind_ok (struct_at H p) (object_at H p) (next_object p)"
    and own: "\<And>p x ex. handles_ok p \<Longrightarrow> object_at H p x = Some ex \<Longrightarrow> P (length (txn_states p)) (state ex)"
    and upd: "\<And>p x f. handles_ok p \<Longrightarrow> (\<And>ex. P (length (txn_states p)) (state (f ex))) \<Longrightarrow> handles_ok (update_object H x f p)"
    and f: "orderly P f"
  shows "safe_call (with_state H h f)"
  unfolding safe_call_def
proof (intro allI impI)
  fix p :: "('sn, 'v, 'r, 'ty, 'ts, 'sp, 'cl, 'srv) process"
  assume p: "handles_ok p"
  show "\<exists>r q. with_state H h f p = Some (r, q) \<and> handles_ok q"
  proof (cases "slot_of H h p")
    case None
    with p show ?thesis by (simp add: with_state_def dispatch_def lock_state_def)
  next
    case (Some x)
    with kind_ok_slot[OF kind[OF p]] obtain ex where ex: "object_at H p x = Some ex" by blast
    show ?thesis
    proof (cases "poisoned ex")
      case True
      with p Some ex show ?thesis by (simp add: with_state_def dispatch_def lock_state_def)
    next
      case False
      from f p own[OF p ex] obtain out s' q where q: "f (state ex) p = Some (out, s', q)" "frame p q" "P (length (txn_states q)) s'"
        unfolding orderly_def by blast
      have "handles_ok q" using frame_handles_ok[OF q(2) p] .
      with q False Some ex show ?thesis
        by (auto simp: with_state_def dispatch_def lock_state_def intro!: upd)
    qed
  qed
qed

lemma db_call_safe: "orderly (\<lambda>_ _. True) f \<Longrightarrow> safe_call (with_state (db_handle dr) h f)"
  by (rule dispatch_safe[where P = "\<lambda>_ _. True"]) (simp_all add: handles_ok_kinds update_db)

lemma conn_call_safe: "orderly conn_ok f \<Longrightarrow> safe_call (with_state (conn_handle dr) h f)"
  by (rule dispatch_safe[where P = conn_ok]) (erule handles_ok_kinds, simp_all add: update_conn handles_okD object_at_handles)

lemma stmt_call_safe: "orderly stmt_ok f \<Longrightarrow> safe_call (with_state (stmt_handle dr) h f)"
  by (rule dispatch_safe[where P = stmt_ok]) (erule handles_ok_kinds, simp_all add: update_stmt handles_okD object_at_handles)

section \<open>Bodies\<close>

lemma orderly_return:
  "(\<And>n s. P n s \<Longrightarrow> P n (g s)) \<Longrightarrow> orderly P (\<lambda>s p. Some (out s p, g s, p))"
  by (auto simp: orderly_def)

lemma orderly_with_arg: "arg \<noteq> None \<Longrightarrow> (\<And>x. orderly P (f x)) \<Longrightarrow> orderly P (with_arg arg f)"
  unfolding orderly_def with_arg_def by (auto split: option.splits sum.splits)

lemma orderlyE:
  assumes "orderly P f" "handles_ok p" "P (length (txn_states p)) s"
  obtains out s' q where "f s p = Some (out, s', q)" "frame p q" "P (length (txn_states q)) s'"
  using assms unfolding orderly_def by blast

lemma orderlyI:
  "(\<And>s p. handles_ok p \<Longrightarrow> P (length (txn_states p)) s \<Longrightarrow> \<exists>out s' q. f s p = Some (out, s', q) \<and> frame p q \<and> P (length (txn_states q)) s') \<Longrightarrow>
   orderly P f"
  unfolding orderly_def by blast

lemma orderly_then_write:
  fixes f :: "('a, ('sn, 'v, 'r, 'ty, 'ts, 'sp, 'cl, 'srv) process, 's) body"
  assumes "orderly P f"
  shows "orderly P (then_write f g)"
proof (rule orderlyI)
  fix s and p :: "('sn, 'v, 'r, 'ty, 'ts, 'sp, 'cl, 'srv) process"
  assume "handles_ok p" "P (length (txn_states p)) s"
  with assms obtain out s' q where "f s p = Some (out, s', q)" "frame p q" "P (length (txn_states q)) s'" by (rule orderlyE)
  then show "\<exists>out s' q. then_write f g s p = Some (out, s', q) \<and> frame p q \<and> P (length (txn_states q)) s'"
    by (cases out) (simp_all add: then_write_def)
qed

definition ready_ok :: "(nat \<Rightarrow> 's \<Rightarrow> bool) \<Rightarrow> nat \<Rightarrow> ('k, 's) staged \<Rightarrow> bool" where
  "ready_ok P n st \<longleftrightarrow> (case st of Ready s \<Rightarrow> P n s | Pending _ \<Rightarrow> True)"

lemma conn_ok_ready: "conn_ok = ready_ok (\<lambda>n c. snd c < n)"
  by (simp add: fun_eq_iff conn_ok_def ready_ok_def)

lemma ready_ok_True: "ready_ok (\<lambda>_ _. True) = (\<lambda>_ _. True)"
  by (intro ext) (simp add: ready_ok_def split: staged.split)

lemma orderly_on_ready: "orderly P f \<Longrightarrow> orderly (ready_ok P) (on_ready k f)"
  unfolding orderly_def on_ready_def ready_ok_def by (fastforce split: staged.splits)

lemma orderly_staged_set: "(\<And>k v. orderly P (f k v)) \<Longrightarrow> orderly (ready_ok P) (staged_set f k v)"
  unfolding orderly_def staged_set_def ready_ok_def by (fastforce split: staged.splits)

lemma orderly_connection_call: "orderly (\<lambda>n c. snd c < n) (connection_call act)"
  by (auto simp: orderly_def connection_call_def out_world_def frame_def same_live_def split: prod.splits)

lemma orderly_statement_call: "orderly stmt_ok (statement_call act)"
  by (auto simp: orderly_def statement_call_def out_machine_def frame_def same_live_def stmt_ok_def split: prod.splits)

lemma orderly_case:
  "(\<And>e s p. orderly P (f e)) \<Longrightarrow> (\<And>x s p. orderly P (g x)) \<Longrightarrow>
   orderly P (\<lambda>s p. case k s p of Inl e \<Rightarrow> f e s p | Inr x \<Rightarrow> g x s p)"
  unfolding orderly_def by (auto split: sum.splits)

lemma orderly_put: "r \<noteq> None \<Longrightarrow> orderly P (\<lambda>s p. map_option (\<lambda>x. (Answered x, s, p)) r)"
  by (auto simp: orderly_def)

lemma orderly_on_ready_conn: "orderly (\<lambda>n c. snd c < n) f \<Longrightarrow> orderly conn_ok (on_ready k f)"
  by (simp add: conn_ok_ready orderly_on_ready)

lemmas orderly_intros = orderly_with_arg orderly_then_write orderly_connection_call orderly_statement_call orderly_on_ready_conn

section \<open>New and release\<close>

lemma kind_ok_grow: "kind_ok st obj n \<Longrightarrow> kind_ok st obj (Suc n)"
  unfolding kind_ok_def by (meson less_SucI)

lemma kind_ok_new:
  assumes "kind_ok st obj n" "h_private_data (st a) = None"
  shows "kind_ok (st(a := (st a)\<lparr>h_private_data := Some n\<rparr>)) (obj(n \<mapsto> e)) (Suc n)"
proof -
  have fresh: "obj n = None" "h_private_data (st b) \<noteq> Some n" for b
    using assms(1) unfolding kind_ok_def by (metis less_irrefl)+
  have live: "h_private_data (st b) = Some x \<Longrightarrow> obj x \<noteq> None" "obj x \<noteq> None \<Longrightarrow> (\<exists>b. h_private_data (st b) = Some x) \<and> x < n" for b x
    using assms(1) unfolding kind_ok_def by metis+
  have inj: "h_private_data (st b) = Some x \<Longrightarrow> h_private_data (st c) = Some x \<Longrightarrow> b = c" for b c x
    using assms(1) unfolding kind_ok_def by metis
  show ?thesis
    unfolding kind_ok_def
  proof (intro conjI allI impI)
    fix x assume x: "(obj(n \<mapsto> e)) x \<noteq> None"
    show "\<exists>b. h_private_data ((st(a := (st a)\<lparr>h_private_data := Some n\<rparr>)) b) = Some x"
    proof (cases "x = n")
      case False
      with x live(2)[of x] obtain b where "h_private_data (st b) = Some x" by auto
      with assms(2) show ?thesis by (intro exI[of _ b]) auto
    qed auto
    show "x < Suc n" using x live(2)[of x] by (cases "x = n") auto
  qed (use live(1) inj fresh in \<open>auto split: if_splits\<close>)
qed

lemma kind_ok_release:
  assumes "kind_ok st obj n" "h_private_data (st a) = Some x"
  shows "kind_ok (st(a := (st a)\<lparr>h_private_data := None\<rparr>)) (obj(x := None)) n"
proof -
  have inj: "h_private_data (st b) = Some y \<Longrightarrow> h_private_data (st c) = Some y \<Longrightarrow> b = c" for b c y
    using assms(1) unfolding kind_ok_def by metis
  show ?thesis
    unfolding kind_ok_def
  proof (intro conjI allI impI)
    fix y assume y: "(obj(x := None)) y \<noteq> None"
    then have yx: "y \<noteq> x" "obj y \<noteq> None" by (auto split: if_splits)
    with assms(1) obtain b where "h_private_data (st b) = Some y" "y < n" unfolding kind_ok_def by metis
    with yx assms(2) show "\<exists>b. h_private_data ((st(a := (st a)\<lparr>h_private_data := None\<rparr>)) b) = Some y" "y < n" by (auto intro!: exI[of _ b])
  qed (use assms inj in \<open>auto simp: kind_ok_def split: if_splits\<close>)
qed

lemmas safe_defs = safe_call_def handles_ok_def new_handle_def release_handle_def release_object_def into_private_data_def
  handle_defs Let_def default_staged_def

lemma conn_ok_simps [simp]: "conn_ok n (Pending b)" "conn_ok n (Ready c) \<longleftrightarrow> snd c < n"
  by (simp_all add: conn_ok_def)

lemma new_safe:
  "safe_call (\<lambda>p. Some (new_handle (db_handle dr) h p))" "safe_call (\<lambda>p. Some (new_handle (conn_handle cr) h p))"
  by (auto simp: safe_defs kind_ok_new kind_ok_grow split: option.splits)

lemma null_struct: "h_private_data s = None \<Longrightarrow> s\<lparr>h_private_data := None\<rparr> = s"
  by (cases s) simp

lemma kind_ok_liveD: "kind_ok st obj n \<Longrightarrow> h_private_data (st a) = Some x \<Longrightarrow> \<exists>e. obj x = Some e"
  by (simp add: kind_ok_def)

lemma release_safe_kind:
  fixes H :: "(('sn, 'v, 'r, 'ty, 'ts, 'sp, 'cl, 'srv) process, 's) ffi_handle"
  assumes "ffi_object H"
    and kind: "\<And>p. handles_ok p \<Longrightarrow> kind_ok (struct_at H p) (object_at H p) (next_object p)"
    and live: "\<And>p a x. handles_ok p \<Longrightarrow> h_private_data (struct_at H p a) = Some x \<Longrightarrow>
      handles_ok (set_object H x None (set_struct H a ((struct_at H p a)\<lparr>h_private_data := None\<rparr>) p))"
    and null: "\<And>p a. handles_ok p \<Longrightarrow> handles_ok (set_struct H a (struct_at H p a) p)"
  shows "safe_call (release_handle H h)"
  unfolding safe_call_def
proof (intro allI impI)
  fix p :: "('sn, 'v, 'r, 'ty, 'ts, 'sp, 'cl, 'srv) process"
  assume p: "handles_ok p"
  show "\<exists>r q. release_handle H h p = Some (r, q) \<and> handles_ok q"
  proof (cases h)
    case (Some a)
    show ?thesis
    proof (cases "h_private_data (struct_at H p a)")
      case None
      with Some null[OF p, of a] show ?thesis by (simp add: release_handle_def release_object_def null_struct Let_def)
    next
      case (Some x)
      with kind_ok_liveD[OF kind[OF p]] obtain ex where "object_at H p x = Some ex" by blast
      with \<open>h = Some a\<close> Some live[OF p Some] show ?thesis
        by (simp add: release_handle_def release_object_def Let_def ffi_object.object_struct[OF assms(1)])
    qed
  qed (use p in \<open>simp add: release_handle_def\<close>)
qed

lemma release_db_safe: "safe_call (release_handle (db_handle dr) h)"
  by (rule release_safe_kind, unfold_locales, erule handles_ok_kinds)
    (simp_all add: handles_ok_def handle_defs kind_ok_release)

lemma release_conn_safe: "safe_call (release_handle (conn_handle dr) h)"
  by (rule release_safe_kind, unfold_locales, erule handles_ok_kinds)
    (simp_all add: handles_ok_def handle_defs kind_ok_release)

lemma release_stmt_safe: "safe_call (release_handle (stmt_handle dr) h)"
  by (rule release_safe_kind, unfold_locales, erule handles_ok_kinds)
    (simp_all add: handles_ok_def handle_defs kind_ok_release)

section \<open>The entry points that build objects\<close>

lemma database_init_safe: "safe_call (database_init dr try_new h)"
  unfolding database_init_def
  by (rule db_call_safe, rule orderlyI)
    (auto simp: frame_def same_live_def split: sum.splits outcome.splits)

lemma frame_update_db: "frame p q \<Longrightarrow> frame p (update_object (db_handle dr) x f q)"
  by (auto simp: frame_def update_object_def db_handle_def same_live_def)

lemma frame_install: "frame p q \<Longrightarrow> frame p (install_cancel_handle (conn_handle dr) x c q)"
  by (auto simp: frame_def install_cancel_handle_def update_object_def conn_handle_def option.map_comp comp_def split: option.splits)

lemma new_connection_frame:
  assumes "new_connection_with_opts E rnd rfc A B host d opts p = (r, d', q)"
  shows "frame p q" "r = Inr c \<Longrightarrow> snd c < length (txn_states q)"
  using assms by (auto simp: new_connection_with_opts_def out_world_def frame_def same_live_def try_bind_def
      split: prod.splits sum.splits)

lemma borrow_db_defined: "handles_ok p \<Longrightarrow> borrow (db_handle dr) h p \<noteq> None"
  by (cases "slot_of (db_handle dr) h p") (auto simp: borrow_def lock_state_def dest: kind_ok_slot[OF handles_ok_kinds(1)])

lemma borrow_conn_defined: "handles_ok p \<Longrightarrow> borrow (conn_handle dr) h p \<noteq> None"
  by (cases "slot_of (conn_handle dr) h p") (auto simp: borrow_def lock_state_def dest: kind_ok_slot[OF handles_ok_kinds(2)])

lemma safe_callI: "(\<And>p. handles_ok p \<Longrightarrow> \<exists>f. safe_call f \<and> e p = f p) \<Longrightarrow> safe_call e"
  unfolding safe_call_def by metis

lemma connection_init_body_step:
  assumes p: "handles_ok p" and st: "conn_ok (length (txn_states p)) st"
  shows "\<exists>out s' q. connection_init_body E rnd rfc A B host cdr ddr own db dbh st p = Some (out, s', q) \<and>
    frame p q \<and> conn_ok (length (txn_states q)) s'"
proof -
  have mono: "frame p q \<Longrightarrow> conn_ok (length (txn_states q)) st" for q
    using st conn_ok_mono by (auto simp: frame_def)
  obtain b where b: "borrow (db_handle ddr) dbh p = Some b" using borrow_db_defined[OF p] by blast
  show ?thesis
  proof (cases "pending (lit ''connection'') st")
    case (Inl e)
    with st show ?thesis by (simp add: connection_init_body_def)
  next
    case opts: (Inr options)
    show ?thesis
    proof (cases "try_bind b (ready (lit ''database''))")
      case (Inl e)
      with opts b st show ?thesis by (cases b) (simp_all add: connection_init_body_def)
    next
      case (Inr d)
      obtain r d' p1 where new: "new_connection_with_opts E rnd rfc A B host d (entries options) p = (r, d', p1)"
        by (cases "new_connection_with_opts E rnd rfc A B host d (entries options) p") auto
      note f = frame_update_db[OF new_connection_frame(1)[OF new], of ddr]
      have len: "length (txn_states (update_object (db_handle ddr) x g p1)) = length (txn_states p1)"
          "length (txn_states (install_cancel_handle (conn_handle cdr) own c q)) = length (txn_states q)" for x g c q
        by (simp_all add: update_object_def install_cancel_handle_def handle_defs split: option.split)
      show ?thesis
        using opts b Inr new f mono[OF f] frame_install[OF f] new_connection_frame(2)[OF new] st
        by (cases b; cases r) (auto simp: connection_init_body_def Let_def driver_outcome_def len)
    qed
  qed
qed

lemma connection_init_orderly: "orderly conn_ok (connection_init_body E rnd rfc A B host cdr ddr own db dbh)"
  by (rule orderlyI) (rule connection_init_body_step)

lemma connection_init_safe: "safe_call (connection_init E rnd rfc A B host cdr ddr h dbh)"
  by (rule safe_callI) (metis connection_init_def conn_call_safe connection_init_orderly)

lemma borrow_conn_ok:
  "handles_ok p \<Longrightarrow> borrow (conn_handle dr) h p = Some (Inr st) \<Longrightarrow> conn_ok (length (txn_states p)) st"
  by (auto simp: borrow_def lock_state_def object_at_handles handles_okD split: option.splits if_splits)

lemma install_statement_ok:
  assumes "handles_ok p" "h_private_data (stmt_structs p a) = None" "snd s < length (txn_states p)"
    "into_private_data (stmt_handle dr) s c p = (x, q)"
  shows "handles_ok (set_struct (stmt_handle dr) a ((stmt_structs q a)\<lparr>h_private_data := Some x\<rparr>) q)"
  using assms by (auto simp: into_private_data_def handles_ok_def handle_defs kind_ok_new kind_ok_grow stmt_ok_def split: if_splits)

lemma out_machine_ok: "handles_ok p \<Longrightarrow> handles_ok (out_machine k m p)" "stmt_structs (out_machine k m p) = stmt_structs p"
    "length (txn_states (out_machine k m p)) = length (txn_states p)"
  by (simp_all add: out_machine_def handles_ok_def)

lemma safe_call_rule: "(\<And>p. handles_ok p \<Longrightarrow> \<exists>r q. e p = Some (r, q) \<and> handles_ok q) \<Longrightarrow> safe_call e"
  by (simp add: safe_call_def)

lemma statement_new_step:
  assumes p: "handles_ok p"
  shows "\<exists>r q. statement_new cdr sdr conn h p = Some (r, q) \<and> handles_ok q"
proof -
  obtain b where b: "borrow (conn_handle cdr) conn p = Some b" using borrow_conn_defined[OF p] by blast
  show ?thesis
  proof (cases "\<exists>a st c. h = Some a \<and> h_private_data (stmt_structs p a) = None \<and> b = Inr st \<and> ready (lit ''connection'') st = Inr c")
    case True
    then obtain a st c where T: "h = Some a" "h_private_data (stmt_structs p a) = None" "b = Inr st" "ready (lit ''connection'') st = Inr c"
      by blast
    have c: "snd c < length (txn_states p)" using borrow_conn_ok[OF p b[unfolded T(3)]] T(4) by (cases st) auto
    have "handles_ok (set_struct (stmt_handle sdr) a ((stmt_structs q a)\<lparr>h_private_data := Some x\<rparr>) q)"
      if "into_private_data (stmt_handle sdr) (s, snd c) k (out_machine (snd c) m p) = (x, q)" for x q s k m
      using install_statement_ok[OF out_machine_ok(1)[OF p] _ _ that] T(2) c by (simp add: out_machine_ok)
    with T b show ?thesis by (simp add: statement_new_def Let_def split: prod.split)
  next
    case False
    with p b show ?thesis by (cases h; cases b) (auto simp: statement_new_def split: sum.splits)
  qed
qed

lemma statement_new_safe: "safe_call (statement_new cdr sdr conn h)"
  by (rule safe_call_rule) (rule statement_new_step)

lemma cancel_step:
  assumes p: "handles_ok p" and kind: "kind_ok (struct_at H p) (object_at H p) (next_object p)"
  shows "\<exists>r q. cancel H fire (slot_of H h p) p = Some (r, q) \<and> handles_ok q"
proof (cases "slot_of H h p")
  case (Some x)
  have fired: "handles_ok (snd (fire c p))" for c using p by (simp add: fire_def handles_ok_def split: prod.splits)
  from kind_ok_slot[OF kind Some] obtain ex where "object_at H p x = Some ex" by blast
  with Some p fired show ?thesis
    by (cases "cancel_handle ex") (auto simp: cancel_def intro: prod.collapse[symmetric] exI[of _ "fst (fire _ p)"])
qed (use p in \<open>simp add: cancel_def\<close>)

section \<open>Arguments\<close>

definition c_string_ok :: "c_str \<Rightarrow> bool" where
  "c_string_ok s \<longleftrightarrow> (case s of None \<Rightarrow> True | Some mem \<Rightarrow> 0 \<in> set mem)"

definition c_bytes_ok :: "c_str \<Rightarrow> nat \<Rightarrow> bool" where
  "c_bytes_ok s len \<longleftrightarrow> (case s of None \<Rightarrow> True | Some mem \<Rightarrow> len \<le> length mem)"

definition c_list_ok :: "c_str list option \<Rightarrow> bool" where
  "c_list_ok l \<longleftrightarrow> (case l of None \<Rightarrow> True | Some es \<Rightarrow> None \<in> set es \<and> (\<forall>e \<in> set es. c_string_ok e))"

lemma required_str_defined: "c_string_ok s \<Longrightarrow> required_str s n \<noteq> None"
  by (auto simp: c_string_ok_def required_str_def cstr_from_ptr_def split: option.splits)

lemma optional_str_defined: "c_string_ok s \<Longrightarrow> optional_str s n \<noteq> None"
  using required_str_defined[of s n] by (auto simp: optional_str_def split: option.splits)

lemma byte_slice_defined: "c_bytes_ok s len \<Longrightarrow> byte_slice s len n \<noteq> None"
  by (auto simp: c_bytes_ok_def byte_slice_def split: option.splits)

lemma str_list_defined: "None \<in> set es \<Longrightarrow> \<forall>e \<in> set es. c_string_ok e \<Longrightarrow> str_list_loop es n xs \<noteq> None"
proof (induction es arbitrary: xs)
  case (Cons e es)
  obtain r where "required_str e n = Some r" using Cons.prems required_str_defined[of e n] by auto
  with Cons show ?case by (cases e; cases r) auto
qed simp

lemma optional_str_list_defined: "c_list_ok l \<Longrightarrow> optional_str_list l n \<noteq> None"
  by (auto simp: c_list_ok_def optional_str_list_def dest: str_list_defined split: option.splits)

lemma both_defined: "a \<noteq> None \<Longrightarrow> b \<noteq> None \<Longrightarrow> both a b \<noteq> None"
  by (auto simp: both_def split: option.splits sum.splits)

lemmas args_defined = required_str_defined optional_str_defined byte_slice_defined optional_str_list_defined both_defined

section \<open>Option entry points\<close>

lemma write_defined: "buffer_ok dst len \<Longrightarrow> write_string v dst len \<noteq> None" "buffer_ok dst len \<Longrightarrow> write_bytes b dst len \<noteq> None"
  by (cases dst; cases len; auto simp: write_string_def write_bytes_def available_space_def copy_out_def buffer_ok_def Let_def)+

lemma set_option_safe:
  assumes "\<And>f :: (unit, _, _) body. orderly P f \<Longrightarrow> safe_call (with_state H h f)" "\<And>k v. orderly P (set_target T k v)" "c_string_ok key"
  shows "safe_call (ffi_set_option H T h key v)"
  unfolding ffi_set_option_def using assms by (intro assms(1) orderly_with_arg required_str_defined)

lemma checked_value_safe:
  "arg \<noteq> None \<Longrightarrow> (\<And>v. safe_call (f v)) \<Longrightarrow>
   safe_call (\<lambda>p. case arg of None \<Rightarrow> None | Some (Inl e) \<Rightarrow> Some (Inl e, p) | Some (Inr v) \<Rightarrow> f v p)"
  by (auto simp: safe_call_def split: sum.splits)

lemma setters_safe:
  assumes call: "\<And>f :: (unit, _, _) body. orderly P f \<Longrightarrow> safe_call (with_state H h f)" and target: "\<And>k v. orderly P (set_target T k v)"
    and args: "c_string_ok key" "c_string_ok value" "c_bytes_ok bytes len"
  shows "safe_call (set_option_string H T h key value)" "safe_call (set_option_bytes H T h key bytes len)"
    "safe_call (set_option_int H T h key i)" "safe_call (set_option_double H T h key d)"
  unfolding set_option_string_def[abs_def] set_option_bytes_def[abs_def] set_option_int_def[abs_def] set_option_double_def[abs_def]
  using set_option_safe[OF call target args(1)] args
  by (auto intro!: checked_value_safe required_str_defined byte_slice_defined)

lemma orderly_get:
  assumes "\<And>x. put x \<noteq> None"
  shows "orderly P (\<lambda>st q. case conv w (get st q) of
      Inl e \<Rightarrow> Some (Answered (Inl e), st, q) | Inr v \<Rightarrow> map_option (\<lambda>r. (Answered r, st, q)) (put v))"
  using assms by (intro orderly_case[where k = "\<lambda>st q. conv w (get st q)" and f = "\<lambda>e st q. Some (Answered (Inl e), st, q)"
      and g = "\<lambda>v st q. map_option (\<lambda>r. (Answered r, st, q)) (put v)"] orderly_put orderly_return)

lemma get_option_safe:
  fixes put :: "'x \<Rightarrow> 'a result option"
  assumes "\<And>f :: ('a, _, _) body. orderly P f \<Longrightarrow> safe_call (with_state H h f)" "c_string_ok key" "\<And>x. put x \<noteq> None"
  shows "safe_call (get_option_with H T h key conv put)"
  unfolding get_option_with_def[abs_def] using assms(2,3)
  by (intro assms(1) orderly_with_arg required_str_defined orderly_get)

lemma getters_safe:
  assumes "\<And>f :: (c_str \<times> nat option, _, _) body. orderly P f \<Longrightarrow> safe_call (with_state H h f)"
    "\<And>f :: (int, _, _) body. orderly P f \<Longrightarrow> safe_call (with_state H h f)"
    "\<And>f :: (f64, _, _) body. orderly P f \<Longrightarrow> safe_call (with_state H h f)" "c_string_ok key" "buffer_ok buf blen"
  shows "safe_call (get_option_string H T h key buf blen)" "safe_call (get_option_bytes H T h key buf blen)"
    "safe_call (get_option_int H T h key out)" "safe_call (get_option_double H T rnd h key out)"
  unfolding get_option_string_def get_option_bytes_def get_option_int_def get_option_double_def
  using assms by (auto intro!: get_option_safe write_defined)

lemma target_orderly:
  "orderly (\<lambda>_ _. True) (set_target (db_target dk) k v)" "orderly conn_ok (set_target (conn_target E rnd rfc sh ck) k2 v)"
  "orderly stmt_ok (set_target (stmt_target rnd rfc sh sk) k3 v)"
proof -
  have "orderly (\<lambda>_ _. True) (\<lambda>d p. case set_database_option k v d of (r, d') \<Rightarrow> Some (driver_outcome r, d', p))" for k v
    by (auto simp: orderly_def split: prod.split)
  then have "orderly (ready_ok (\<lambda>_ _. True)) (set_target (db_target dk) k v)"
    unfolding db_target_def option_target.simps by (rule orderly_staged_set)
  then show "orderly (\<lambda>_ _. True) (set_target (db_target dk) k v)"
    by (simp add: ready_ok_True)
  show "orderly conn_ok (set_target (conn_target E rnd rfc sh ck) k2 v)"
    by (simp add: conn_target_def conn_ok_ready orderly_staged_set orderly_connection_call)
  show "orderly stmt_ok (set_target (stmt_target rnd rfc sh sk) k3 v)"
    by (auto simp: stmt_target_def orderly_def stmt_ok_def split: sum.splits)
qed

section \<open>Every entry point\<close>

lemma stream_call_safe:
  assumes "arg \<noteq> None" "\<And>x. orderly (\<lambda>n c. snd c < n) (f x)"
  shows "safe_call (stream_call (conn_handle dr) h out arg f)"
  unfolding stream_call_def using assms by (intro conn_call_safe orderly_intros) auto

lemma statement_bodies_orderly:
  "arg \<noteq> None \<Longrightarrow> orderly stmt_ok (with_arg arg (\<lambda>x s p. Some (out x, (g x (fst s), snd s), p)))"
  "orderly stmt_ok (\<lambda>s p. Some (out' s, s, p))"
  by (auto simp: orderly_def with_arg_def stmt_ok_def split: option.splits sum.splits)

text \<open>The driver objects' own entry points, by object.\<close>

lemma database_calls_safe:
  assumes "c_string_ok key" "c_string_ok value" "c_bytes_ok bytes len" "buffer_ok buf blen"
  shows "safe_call (\<lambda>p. Some (new_handle (db_handle dr) h p))" "safe_call (database_init dr try_new h)"
    "safe_call (release_handle (db_handle dr) h)"
    "safe_call (set_option_string (db_handle dr) (db_target dk) h key value)"
    "safe_call (set_option_bytes (db_handle dr) (db_target dk) h key bytes len)"
    "safe_call (set_option_int (db_handle dr) (db_target dk) h key i)"
    "safe_call (set_option_double (db_handle dr) (db_target dk) h key d)"
    "safe_call (get_option_string (db_handle dr) (db_target dk) h key buf blen)"
    "safe_call (get_option_bytes (db_handle dr) (db_target dk) h key buf blen)"
    "safe_call (get_option_int (db_handle dr) (db_target dk) h key out)"
    "safe_call (get_option_double (db_handle dr) (db_target dk) rnd h key out)"
  by (assumption | rule new_safe database_init_safe release_db_safe setters_safe[OF db_call_safe target_orderly(1) assms(1-3)]
      getters_safe[OF db_call_safe db_call_safe db_call_safe assms(1,4)])+

lemma connection_calls_safe:
  assumes "c_string_ok key" "c_string_ok value" "c_bytes_ok bytes len" "buffer_ok buf blen"
    and "c_string_ok s1" "c_string_ok s2" "c_string_ok s3" "c_string_ok s4" "c_list_ok types"
    and "codes = None \<or> n \<le> length (the codes)"
  shows "safe_call (\<lambda>p. Some (new_handle (conn_handle dr) h p))"
    "safe_call (connection_init E rnd rfc A B host dr ddr h dbh)" "safe_call (release_handle (conn_handle dr) h)"
    "safe_call (set_option_string (conn_handle dr) (conn_target E rnd rfc sh ck) h key value)"
    "safe_call (set_option_bytes (conn_handle dr) (conn_target E rnd rfc sh ck) h key bytes len)"
    "safe_call (set_option_int (conn_handle dr) (conn_target E rnd rfc sh ck) h key i)"
    "safe_call (set_option_double (conn_handle dr) (conn_target E rnd rfc sh ck) h key d)"
    "safe_call (get_option_string (conn_handle dr) (conn_target E rnd rfc sh ck) h key buf blen)"
    "safe_call (get_option_bytes (conn_handle dr) (conn_target E rnd rfc sh ck) h key buf blen)"
    "safe_call (get_option_int (conn_handle dr) (conn_target E rnd rfc sh ck) h key out)"
    "safe_call (get_option_double (conn_handle dr) (conn_target E rnd rfc sh ck) rnd h key out)"
    "safe_call (connection_commit E dr h)" "safe_call (connection_rollback dr h)" "safe_call (connection_cancel dr h)"
    "safe_call (connection_get_info M BI code_of dr h codes n out)"
    "safe_call (connection_get_objects M dr h depth s1 s2 s3 types s4 out)"
    "safe_call (connection_get_table_schema E K query_rows export dr h s1 s2 s3 out)"
    "safe_call (connection_get_table_types dr h out)"
    "safe_call (connection_get_statistics M AK dr h s1 s2 s3 approx out)"
    "safe_call (connection_get_statistic_names M dr h out)"
    "safe_call (connection_read_partition K S exec dr h bytes len out)"
proof -
  show "safe_call (connection_cancel dr h)"
    unfolding connection_cancel_def by (rule safe_call_rule, rule cancel_step, assumption, erule handles_ok_kinds)
  show "safe_call (connection_commit E dr h)" "safe_call (connection_rollback dr h)"
    unfolding connection_commit_def connection_rollback_def by (intro conn_call_safe orderly_intros)+
  show "safe_call (connection_get_table_schema E K query_rows export dr h s1 s2 s3 out)"
  proof -
    have "both (optional_str s1 (lit ''catalog'')) (both (optional_str s2 (lit ''db_schema'')) (required_str s3 (lit ''table_name''))) \<noteq> None"
      using assms by (intro args_defined)
    then show ?thesis
      unfolding connection_get_table_schema_def
      by (intro conn_call_safe orderly_with_arg) (auto intro!: orderly_intros split: prod.split)
  qed
  have args: "both (optional_str s1 n1) (both (optional_str s2 n2) (optional_str s3 n3)) \<noteq> None"
    and args': "both (Some x) (both (optional_str s1 n1) (both (optional_str s2 n2) (both (optional_str s3 n3)
        (both (optional_str_list types n4) (optional_str s4 n5))))) \<noteq> None" for x :: "object_depth result" and n1 n2 n3 n4 n5
    by (intro args_defined assms option.distinct)+
  show "safe_call (connection_get_info M BI code_of dr h codes n out)"
    "safe_call (connection_get_objects M dr h depth s1 s2 s3 types s4 out)"
    "safe_call (connection_get_table_types dr h out)" "safe_call (connection_get_statistics M AK dr h s1 s2 s3 approx out)"
    "safe_call (connection_get_statistic_names M dr h out)" "safe_call (connection_read_partition K S exec dr h bytes len out)"
    unfolding connection_get_info_def connection_get_objects_def connection_get_table_types_def connection_get_statistics_def
      connection_get_statistic_names_def connection_read_partition_def
    using assms args args' by (auto intro!: stream_call_safe byte_slice_defined simp: orderly_connection_call split: option.splits)
qed (assumption | rule new_safe connection_init_safe release_conn_safe setters_safe[OF conn_call_safe target_orderly(2) assms(1-3)]
      getters_safe[OF conn_call_safe conn_call_safe conn_call_safe assms(1,4)])+

lemma statement_calls_safe:
  assumes "c_string_ok key" "c_string_ok value" "c_bytes_ok bytes len" "buffer_ok buf blen"
  shows "safe_call (statement_new cdr dr hc h)" "safe_call (release_handle (stmt_handle dr) h)"
    "safe_call (set_option_string (stmt_handle dr) (stmt_target rnd rfc sh sk) h key value)"
    "safe_call (set_option_bytes (stmt_handle dr) (stmt_target rnd rfc sh sk) h key bytes len)"
    "safe_call (set_option_int (stmt_handle dr) (stmt_target rnd rfc sh sk) h key i)"
    "safe_call (set_option_double (stmt_handle dr) (stmt_target rnd rfc sh sk) h key d)"
    "safe_call (get_option_string (stmt_handle dr) (stmt_target rnd rfc sh sk) h key buf blen)"
    "safe_call (get_option_bytes (stmt_handle dr) (stmt_target rnd rfc sh sk) h key buf blen)"
    "safe_call (get_option_int (stmt_handle dr) (stmt_target rnd rfc sh sk) h key out)"
    "safe_call (get_option_double (stmt_handle dr) (stmt_target rnd rfc sh sk) rnd h key out)"
    "safe_call (statement_set_sql_query dr h value)" "safe_call (statement_set_substrait_plan dr h bytes len)"
    "safe_call (statement_prepare dr h)" "safe_call (statement_cancel dr h)" "safe_call (statement_bind I dr h va sa)"
    "safe_call (statement_execute_query E dr h out want)" "safe_call (statement_execute_schema E export dr h out)"
    "safe_call (statement_execute_partitions E export dr h out pout want)"
proof -
  show "safe_call (statement_cancel dr h)"
    unfolding statement_cancel_def by (rule safe_call_rule, rule cancel_step, assumption, erule handles_ok_kinds)
  show "safe_call (statement_set_sql_query dr h value)" "safe_call (statement_set_substrait_plan dr h bytes len)"
    unfolding statement_set_sql_query_def statement_set_substrait_plan_def
    using assms(2,3) by (auto intro!: stmt_call_safe orderly_with_arg args_defined simp: orderly_def stmt_ok_def)
  show "safe_call (statement_prepare dr h)"
    unfolding statement_prepare_def by (intro stmt_call_safe statement_bodies_orderly)
  show "safe_call (statement_bind I dr h va sa)"
    unfolding statement_bind_def
    by (intro stmt_call_safe orderly_with_arg) (auto intro!: statement_bodies_orderly split: prod.split)
  show "safe_call (statement_execute_query E dr h out want)" "safe_call (statement_execute_schema E export dr h out)"
    "safe_call (statement_execute_partitions E export dr h out pout want)"
    unfolding statement_execute_query_def statement_execute_schema_def statement_execute_partitions_def
    by (auto intro!: stmt_call_safe orderly_intros simp: both_def split: sum.splits)
qed (assumption | rule statement_new_safe release_stmt_safe setters_safe[OF stmt_call_safe target_orderly(3) assms(1-3)]
      getters_safe[OF stmt_call_safe stmt_call_safe stmt_call_safe assms(1,4)])+

lemma parameter_schema_safe: "safe_call (statement_get_parameter_schema E pq pd export dr h out)"
  unfolding statement_get_parameter_schema_def by (auto intro!: stmt_call_safe orderly_intros)

end
