(* ===== verification/FfiSession.thy ===== *)
theory FfiSession
  imports FfiOwnership
begin

text \<open>
  Whole sessions of a C caller: any sequence of entry points on the three kinds of handle, from a process that has just loaded the
  driver.  One rule of \<open>abi_call\<close> per group of entry points; its premises are what the ADBC header asks of the arguments
  (strings are terminated, lengths and buffers describe the memory they point to, a bound stream ends).
\<close>

section \<open>Entry points as steps\<close>

definition effect :: "('p \<Rightarrow> ('a result \<times> 'p) option) \<Rightarrow> 'p \<Rightarrow> 'p option" where
  "effect e p = map_option snd (e p)"

inductive abi_call for dr cr sr dk ck sk try_new E rnd rfc sh A B host M BI code_of K query_rows S exec AK export export_result I P fuel pq pd where
  "abi_call dr cr sr dk ck sk try_new E rnd rfc sh A B host M BI code_of K query_rows S exec AK export export_result I P fuel pq pd
     (effect (\<lambda>p. Some (new_handle (db_handle dr) h p)))"
| "abi_call dr cr sr dk ck sk try_new E rnd rfc sh A B host M BI code_of K query_rows S exec AK export export_result I P fuel pq pd
     (effect (database_init dr try_new h))"
| "abi_call dr cr sr dk ck sk try_new E rnd rfc sh A B host M BI code_of K query_rows S exec AK export export_result I P fuel pq pd
     (effect (release_handle (db_handle dr) h))"
| "abi_call dr cr sr dk ck sk try_new E rnd rfc sh A B host M BI code_of K query_rows S exec AK export export_result I P fuel pq pd
     (effect (\<lambda>p. Some (new_handle (conn_handle cr) h p)))"
| "abi_call dr cr sr dk ck sk try_new E rnd rfc sh A B host M BI code_of K query_rows S exec AK export export_result I P fuel pq pd
     (effect (connection_init E rnd rfc A B host cr dr h dbh))"
| "abi_call dr cr sr dk ck sk try_new E rnd rfc sh A B host M BI code_of K query_rows S exec AK export export_result I P fuel pq pd
     (effect (release_handle (conn_handle cr) h))"
| "abi_call dr cr sr dk ck sk try_new E rnd rfc sh A B host M BI code_of K query_rows S exec AK export export_result I P fuel pq pd
     (effect (statement_new cr sr hc h))"
| "abi_call dr cr sr dk ck sk try_new E rnd rfc sh A B host M BI code_of K query_rows S exec AK export export_result I P fuel pq pd
     (effect (release_handle (stmt_handle sr) h))"
| "c_string_ok key \<Longrightarrow> c_string_ok val \<Longrightarrow> abi_call dr cr sr dk ck sk try_new E rnd rfc sh A B host M BI code_of K query_rows S exec AK export export_result I P fuel pq pd
     (effect (set_option_string (db_handle dr) (db_target dk) h key val))"
| "c_string_ok key \<Longrightarrow> c_bytes_ok bytes len \<Longrightarrow> abi_call dr cr sr dk ck sk try_new E rnd rfc sh A B host M BI code_of K query_rows S exec AK export export_result I P fuel pq pd
     (effect (set_option_bytes (db_handle dr) (db_target dk) h key bytes len))"
| "c_string_ok key \<Longrightarrow> abi_call dr cr sr dk ck sk try_new E rnd rfc sh A B host M BI code_of K query_rows S exec AK export export_result I P fuel pq pd
     (effect (set_option_int (db_handle dr) (db_target dk) h key i))"
| "c_string_ok key \<Longrightarrow> abi_call dr cr sr dk ck sk try_new E rnd rfc sh A B host M BI code_of K query_rows S exec AK export export_result I P fuel pq pd
     (effect (set_option_double (db_handle dr) (db_target dk) h key d))"
| "c_string_ok key \<Longrightarrow> buffer_ok buf blen \<Longrightarrow> abi_call dr cr sr dk ck sk try_new E rnd rfc sh A B host M BI code_of K query_rows S exec AK export export_result I P fuel pq pd
     (effect (get_option_string (db_handle dr) (db_target dk) h key buf blen))"
| "c_string_ok key \<Longrightarrow> buffer_ok buf blen \<Longrightarrow> abi_call dr cr sr dk ck sk try_new E rnd rfc sh A B host M BI code_of K query_rows S exec AK export export_result I P fuel pq pd
     (effect (get_option_bytes (db_handle dr) (db_target dk) h key buf blen))"
| "c_string_ok key \<Longrightarrow> abi_call dr cr sr dk ck sk try_new E rnd rfc sh A B host M BI code_of K query_rows S exec AK export export_result I P fuel pq pd
     (effect (get_option_int (db_handle dr) (db_target dk) h key out))"
| "c_string_ok key \<Longrightarrow> abi_call dr cr sr dk ck sk try_new E rnd rfc sh A B host M BI code_of K query_rows S exec AK export export_result I P fuel pq pd
     (effect (get_option_double (db_handle dr) (db_target dk) rnd h key out))"
| "c_string_ok key \<Longrightarrow> c_string_ok val \<Longrightarrow>
   abi_call dr cr sr dk ck sk try_new E rnd rfc sh A B host M BI code_of K query_rows S exec AK export export_result I P fuel pq pd
     (effect (set_option_string (conn_handle cr) (conn_target E rnd rfc sh ck) h key val))"
| "c_string_ok key \<Longrightarrow> c_bytes_ok bytes len \<Longrightarrow>
   abi_call dr cr sr dk ck sk try_new E rnd rfc sh A B host M BI code_of K query_rows S exec AK export export_result I P fuel pq pd
     (effect (set_option_bytes (conn_handle cr) (conn_target E rnd rfc sh ck) h key bytes len))"
| "c_string_ok key \<Longrightarrow> abi_call dr cr sr dk ck sk try_new E rnd rfc sh A B host M BI code_of K query_rows S exec AK export export_result I P fuel pq pd
     (effect (set_option_int (conn_handle cr) (conn_target E rnd rfc sh ck) h key i))"
| "c_string_ok key \<Longrightarrow> abi_call dr cr sr dk ck sk try_new E rnd rfc sh A B host M BI code_of K query_rows S exec AK export export_result I P fuel pq pd
     (effect (set_option_double (conn_handle cr) (conn_target E rnd rfc sh ck) h key d))"
| "c_string_ok key \<Longrightarrow> buffer_ok buf blen \<Longrightarrow>
   abi_call dr cr sr dk ck sk try_new E rnd rfc sh A B host M BI code_of K query_rows S exec AK export export_result I P fuel pq pd
     (effect (get_option_string (conn_handle cr) (conn_target E rnd rfc sh ck) h key buf blen))"
| "c_string_ok key \<Longrightarrow> buffer_ok buf blen \<Longrightarrow>
   abi_call dr cr sr dk ck sk try_new E rnd rfc sh A B host M BI code_of K query_rows S exec AK export export_result I P fuel pq pd
     (effect (get_option_bytes (conn_handle cr) (conn_target E rnd rfc sh ck) h key buf blen))"
| "c_string_ok key \<Longrightarrow> abi_call dr cr sr dk ck sk try_new E rnd rfc sh A B host M BI code_of K query_rows S exec AK export export_result I P fuel pq pd
     (effect (get_option_int (conn_handle cr) (conn_target E rnd rfc sh ck) h key out))"
| "c_string_ok key \<Longrightarrow> abi_call dr cr sr dk ck sk try_new E rnd rfc sh A B host M BI code_of K query_rows S exec AK export export_result I P fuel pq pd
     (effect (get_option_double (conn_handle cr) (conn_target E rnd rfc sh ck) rnd h key out))"
| "c_string_ok key \<Longrightarrow> c_string_ok val \<Longrightarrow>
   abi_call dr cr sr dk ck sk try_new E rnd rfc sh A B host M BI code_of K query_rows S exec AK export export_result I P fuel pq pd
     (effect (set_option_string (stmt_handle sr) (stmt_target rnd rfc sh sk) h key val))"
| "c_string_ok key \<Longrightarrow> c_bytes_ok bytes len \<Longrightarrow>
   abi_call dr cr sr dk ck sk try_new E rnd rfc sh A B host M BI code_of K query_rows S exec AK export export_result I P fuel pq pd
     (effect (set_option_bytes (stmt_handle sr) (stmt_target rnd rfc sh sk) h key bytes len))"
| "c_string_ok key \<Longrightarrow> abi_call dr cr sr dk ck sk try_new E rnd rfc sh A B host M BI code_of K query_rows S exec AK export export_result I P fuel pq pd
     (effect (set_option_int (stmt_handle sr) (stmt_target rnd rfc sh sk) h key i))"
| "c_string_ok key \<Longrightarrow> abi_call dr cr sr dk ck sk try_new E rnd rfc sh A B host M BI code_of K query_rows S exec AK export export_result I P fuel pq pd
     (effect (set_option_double (stmt_handle sr) (stmt_target rnd rfc sh sk) h key d))"
| "c_string_ok key \<Longrightarrow> buffer_ok buf blen \<Longrightarrow>
   abi_call dr cr sr dk ck sk try_new E rnd rfc sh A B host M BI code_of K query_rows S exec AK export export_result I P fuel pq pd
     (effect (get_option_string (stmt_handle sr) (stmt_target rnd rfc sh sk) h key buf blen))"
| "c_string_ok key \<Longrightarrow> buffer_ok buf blen \<Longrightarrow>
   abi_call dr cr sr dk ck sk try_new E rnd rfc sh A B host M BI code_of K query_rows S exec AK export export_result I P fuel pq pd
     (effect (get_option_bytes (stmt_handle sr) (stmt_target rnd rfc sh sk) h key buf blen))"
| "c_string_ok key \<Longrightarrow> abi_call dr cr sr dk ck sk try_new E rnd rfc sh A B host M BI code_of K query_rows S exec AK export export_result I P fuel pq pd
     (effect (get_option_int (stmt_handle sr) (stmt_target rnd rfc sh sk) h key out))"
| "c_string_ok key \<Longrightarrow> abi_call dr cr sr dk ck sk try_new E rnd rfc sh A B host M BI code_of K query_rows S exec AK export export_result I P fuel pq pd
     (effect (get_option_double (stmt_handle sr) (stmt_target rnd rfc sh sk) rnd h key out))"
| "abi_call dr cr sr dk ck sk try_new E rnd rfc sh A B host M BI code_of K query_rows S exec AK export export_result I P fuel pq pd
     (effect (connection_commit E cr h))"
| "abi_call dr cr sr dk ck sk try_new E rnd rfc sh A B host M BI code_of K query_rows S exec AK export export_result I P fuel pq pd
     (effect (connection_rollback cr h))"
| "abi_call dr cr sr dk ck sk try_new E rnd rfc sh A B host M BI code_of K query_rows S exec AK export export_result I P fuel pq pd
     (effect (connection_cancel cr h))"
| "codes = None \<or> n \<le> length (the codes) \<Longrightarrow> abi_call dr cr sr dk ck sk try_new E rnd rfc sh A B host M BI code_of K query_rows S exec AK export export_result I P fuel pq pd
     (effect (connection_get_info M BI code_of cr h codes n out))"
| "c_string_ok s1 \<Longrightarrow> c_string_ok s2 \<Longrightarrow> c_string_ok s3 \<Longrightarrow> c_list_ok types \<Longrightarrow> c_string_ok s4 \<Longrightarrow>
   abi_call dr cr sr dk ck sk try_new E rnd rfc sh A B host M BI code_of K query_rows S exec AK export export_result I P fuel pq pd
     (effect (connection_get_objects M cr h depth s1 s2 s3 types s4 out))"
| "c_string_ok s1 \<Longrightarrow> c_string_ok s2 \<Longrightarrow> c_string_ok s3 \<Longrightarrow>
   abi_call dr cr sr dk ck sk try_new E rnd rfc sh A B host M BI code_of K query_rows S exec AK export export_result I P fuel pq pd
     (effect (connection_get_table_schema E K query_rows export cr h s1 s2 s3 out))"
| "abi_call dr cr sr dk ck sk try_new E rnd rfc sh A B host M BI code_of K query_rows S exec AK export export_result I P fuel pq pd
     (effect (connection_get_table_types cr h out))"
| "c_string_ok s1 \<Longrightarrow> c_string_ok s2 \<Longrightarrow> c_string_ok s3 \<Longrightarrow>
   abi_call dr cr sr dk ck sk try_new E rnd rfc sh A B host M BI code_of K query_rows S exec AK export export_result I P fuel pq pd
     (effect (connection_get_statistics M AK cr h s1 s2 s3 approx out))"
| "abi_call dr cr sr dk ck sk try_new E rnd rfc sh A B host M BI code_of K query_rows S exec AK export export_result I P fuel pq pd
     (effect (connection_get_statistic_names M cr h out))"
| "c_bytes_ok bytes len \<Longrightarrow> abi_call dr cr sr dk ck sk try_new E rnd rfc sh A B host M BI code_of K query_rows S exec AK export export_result I P fuel pq pd
     (effect (connection_read_partition K S exec cr h bytes len out))"
| "c_string_ok val \<Longrightarrow> abi_call dr cr sr dk ck sk try_new E rnd rfc sh A B host M BI code_of K query_rows S exec AK export export_result I P fuel pq pd
     (effect (statement_set_sql_query sr h val))"
| "c_bytes_ok bytes len \<Longrightarrow> abi_call dr cr sr dk ck sk try_new E rnd rfc sh A B host M BI code_of K query_rows S exec AK export export_result I P fuel pq pd
     (effect (statement_set_substrait_plan sr h bytes len))"
| "abi_call dr cr sr dk ck sk try_new E rnd rfc sh A B host M BI code_of K query_rows S exec AK export export_result I P fuel pq pd
     (effect (statement_prepare sr h))"
| "abi_call dr cr sr dk ck sk try_new E rnd rfc sh A B host M BI code_of K query_rows S exec AK export export_result I P fuel pq pd
     (effect (statement_cancel sr h))"
| "abi_call dr cr sr dk ck sk try_new E rnd rfc sh A B host M BI code_of K query_rows S exec AK export export_result I P fuel pq pd
     (effect (statement_bind I sr h va sa))"
| "(\<And>rd. fst (bound_from_raw I P arg) = Inr rd \<Longrightarrow> read_items fuel I P rd \<noteq> None) \<Longrightarrow>
   abi_call dr cr sr dk ck sk try_new E rnd rfc sh A B host M BI code_of K query_rows S exec AK export export_result I P fuel pq pd
     (effect (statement_bind_stream fuel I P sr h arg))"
| "abi_call dr cr sr dk ck sk try_new E rnd rfc sh A B host M BI code_of K query_rows S exec AK export export_result I P fuel pq pd
     (effect (statement_execute_query E sr h out want))"
| "abi_call dr cr sr dk ck sk try_new E rnd rfc sh A B host M BI code_of K query_rows S exec AK export export_result I P fuel pq pd
     (effect (statement_execute_schema E export_result sr h out))"
| "abi_call dr cr sr dk ck sk try_new E rnd rfc sh A B host M BI code_of K query_rows S exec AK export export_result I P fuel pq pd
     (effect (statement_get_parameter_schema E pq pd export_result sr h out))"
| "abi_call dr cr sr dk ck sk try_new E rnd rfc sh A B host M BI code_of K query_rows S exec AK export export_result I P fuel pq pd
     (effect (statement_execute_partitions E export_result sr h out pout want))"

text \<open>A caller's session: the calls in order; undefined as soon as one call is.\<close>

fun run_calls :: "('p \<Rightarrow> 'p option) list \<Rightarrow> 'p \<Rightarrow> 'p option" where
  "run_calls [] p = Some p"
| "run_calls (c # cs) p = Option.bind (c p) (run_calls cs)"

text \<open>A process that has loaded the driver: every struct the caller zeroed, no object, nothing shared yet.\<close>

definition fresh_process :: "'srv \<Rightarrow> ('sn, 'v, 'r, 'ty, 'ts, 'sp, 'cl, 'srv) process" where
  "fresh_process srv =
     \<lparr>databases = \<lambda>_. None, connections = \<lambda>_. None, statements = \<lambda>_. None,
      db_structs = \<lambda>_. \<lparr>h_private_data = None, h_private_driver = None\<rparr>,
      conn_structs = \<lambda>_. \<lparr>h_private_data = None, h_private_driver = None\<rparr>,
      stmt_structs = \<lambda>_. \<lparr>h_private_data = None, h_private_driver = None\<rparr>,
      next_object = 0, shared_driver = None, arcs = \<lparr>flags = \<lambda>_. False, counts = \<lambda>_. None, next_addr = 0\<rparr>, txn_states = [],
      cancel_slots = \<lparr>latches = [], slots = []\<rparr>, backend = srv\<rparr>"

section \<open>Ownership in every session\<close>

lemma bind_stream_safe:
  assumes "\<And>rd. fst (bound_from_raw I P arg) = Inr rd \<Longrightarrow> read_items fuel I P rd \<noteq> None"
  shows "safe_call (statement_bind_stream fuel I P dr h arg)"
  unfolding statement_bind_stream_def
  using assms by (intro stmt_call_safe)
    (auto simp: orderly_def with_arg_def stmt_ok_def split: option.splits sum.splits outcome.splits)

lemma safe_effect: "safe_call e \<Longrightarrow> handles_ok p \<Longrightarrow> \<exists>q. effect e p = Some q \<and> handles_ok q"
  unfolding safe_call_def effect_def by fastforce

text \<open>Arguments for the parameters of the lemmas on groups of entry points that a call does not have.\<close>

lemma none_ok [simp]: "c_string_ok None" "c_bytes_ok None n" "c_list_ok None" "buffer_ok None None"
  by (simp_all add: c_string_ok_def c_bytes_ok_def c_list_ok_def buffer_ok_def)

lemma abi_call_safe:
  assumes "abi_call dr cr sr dk ck sk try_new E rnd rfc sh A B host M BI code_of K query_rows S exec AK export export_result I P fuel pq pd c" "handles_ok p"
  shows "\<exists>q. c p = Some q \<and> handles_ok q"
  using assms(1)
  by (cases rule: abi_call.cases, simp_all only:)
    (rule safe_effect[OF _ assms(2)],
     (rule database_calls_safe connection_calls_safe statement_calls_safe parameter_schema_safe bind_stream_safe;
      (assumption | rule none_ok disjI1[OF refl])+)[1])+

lemma run_calls_safe:
  "\<forall>c \<in> set cs. abi_call dr cr sr dk ck sk try_new E rnd rfc sh A B host M BI code_of K query_rows S exec AK export export_result I P fuel pq pd c \<Longrightarrow> handles_ok p \<Longrightarrow> \<exists>q. run_calls cs p = Some q \<and> handles_ok q"
proof (induction cs arbitrary: p)
  case (Cons c cs)
  have "abi_call dr cr sr dk ck sk try_new E rnd rfc sh A B host M BI code_of K query_rows S exec AK export export_result
      I P fuel pq pd c" using Cons.prems(1) by simp
  from abi_call_safe[OF this Cons.prems(2)] obtain q where "c p = Some q" "handles_ok q" by blast
  with Cons show ?case by simp
qed simp

lemma fresh_process_ok: "handles_ok (fresh_process srv)"
  by (simp add: handles_ok_def fresh_process_def kind_ok_def)

lemma kind_ok_owner: "kind_ok st obj n \<Longrightarrow> obj x \<noteq> None \<longleftrightarrow> (\<exists>!a. h_private_data (st a) = Some x)"
  unfolding kind_ok_def by metis

text \<open>
  C13: Every session of a C caller whose arguments are in order is defined from its first call to its last: no entry point reads a freed
  object.  Afterwards each driver object is reachable through exactly one struct of the caller and each struct that is not null holds a
  live object, so nothing is leaked, shared or freed twice, and once every struct is null no object is left.
\<close>

theorem abi_sessions_keep_ownership:
  assumes "\<forall>c \<in> set cs. abi_call dr cr sr dk ck sk try_new E rnd rfc sh A B host M BI code_of K query_rows S exec AK export export_result I P fuel pq pd c"
  shows "\<exists>q. run_calls cs (fresh_process srv) = Some q \<and>
    (\<forall>x. databases q x \<noteq> None \<longleftrightarrow> (\<exists>!a. h_private_data (db_structs q a) = Some x)) \<and>
    (\<forall>x. connections q x \<noteq> None \<longleftrightarrow> (\<exists>!a. h_private_data (conn_structs q a) = Some x)) \<and>
    (\<forall>x. statements q x \<noteq> None \<longleftrightarrow> (\<exists>!a. h_private_data (stmt_structs q a) = Some x)) \<and> handles_ok q"
proof -
  obtain q where q: "run_calls cs (fresh_process srv) = Some q" "handles_ok q"
    using run_calls_safe[OF assms fresh_process_ok] by blast
  have k: "kind_ok (db_structs q) (databases q) (next_object q)" "kind_ok (conn_structs q) (connections q) (next_object q)"
    "kind_ok (stmt_structs q) (statements q) (next_object q)"
    using q(2) by (simp_all add: handles_ok_def)
  show ?thesis using q kind_ok_owner[OF k(1)] kind_ok_owner[OF k(2)] kind_ok_owner[OF k(3)] by blast
qed

text \<open>A database created, given an option, released and released again: the session is defined and no database is left.\<close>

theorem abi_sessions_keep_ownership_witness:
  "\<exists>q. run_calls
      [effect (\<lambda>p. Some (new_handle (db_handle (\<lambda>_. Answered (Inr ()))) (Some 0) p)),
       effect (set_option_string (db_handle (\<lambda>_. Answered (Inr ()))) (db_target (\<lambda>_. OtherDb (lit ''uri''))) (Some 0)
         (Some [117, 114, 105, 0]) (Some [120, 0])),
       effect (release_handle (db_handle (\<lambda>_. Answered (Inr ()))) (Some 0)),
       effect (release_handle (db_handle (\<lambda>_. Answered (Inr ()))) (Some 0))]
      (fresh_process () :: (unit, unit, unit, field, unit, unit, unit, unit) process) = Some q \<and>
    (\<forall>x. databases q x = None)"
proof -
  let ?H = "db_handle (\<lambda>_. Answered (Inr ())) :: ((unit, unit, unit, field, unit, unit, unit, unit) process, _) ffi_handle"
  let ?cs = "[effect (\<lambda>p. Some (new_handle ?H (Some 0) p)),
       effect (set_option_string ?H (db_target (\<lambda>_. OtherDb (lit ''uri''))) (Some 0) (Some [117, 114, 105, 0]) (Some [120, 0])),
       effect (release_handle ?H (Some 0)), effect (release_handle ?H (Some 0))]"
  have "\<forall>c \<in> set ?cs. abi_call (\<lambda>_. Answered (Inr ())) cr sr (\<lambda>_. OtherDb (lit ''uri'')) ck sk try_new E rnd rfc sh A B host M BI code_of
      K query_rows S exec AK export export_result I P fuel pq pd c"
    for cr sr ck sk try_new E rnd rfc sh A B host M BI code_of K query_rows S exec AK export export_result I P fuel pq pd
    by (auto intro!: abi_call.intros simp: c_string_ok_def)
  from abi_sessions_keep_ownership[OF this, of "()"] obtain q where q: "run_calls ?cs (fresh_process ()) = Some q"
      "\<forall>x. databases q x \<noteq> None \<longleftrightarrow> (\<exists>!a. h_private_data (db_structs q a) = Some x)" by blast
  have args: "required_str (Some [117, 114, 105, 0]) n = Some (Inr (lit ''uri''))" "required_str (Some [120, 0]) n = Some (Inr (lit ''x''))" for n
    by (simp_all add: required_str_def cstr_from_ptr_def from_utf8_def lit_def)
  have "h_private_data (db_structs q a) = None" for a
    using q(1) by (auto simp: effect_def fresh_process_def new_handle_def db_handle_def set_option_string_def args ffi_set_option_def
        into_private_data_def bump_def default_staged_def with_state_def dispatch_def lock_state_def slot_of_def with_arg_def
        db_target_def staged_set_def release_handle_def release_object_def update_object_def Let_def)
  with q show ?thesis by auto
qed

end
