(* ===== verification/FfiStaging.thy ===== *)
theory FfiStaging
  imports FfiSession
begin

text \<open>
  Staged options: what a database or a connection is given before \<^verbatim>\<open>Init\<close> is buffered and replayed.  The replay is what
  setting the options one by one on a live object does, as long as no option is repeated around a connection URI.
\<close>

section \<open>The buffer\<close>

fun buffered :: "('k \<times> option_value) list \<Rightarrow> 'k option_buffer \<Rightarrow> 'k option_buffer" where
  "buffered [] b = b"
| "buffered ((k, v) # opts) b = buffered opts (buffer_set k v b)"

lemma buffered_append: "buffered (xs @ ys) b = buffered ys (buffered xs b)"
  by (induction xs b rule: buffered.induct) auto

lemma replace_first_None: "replace_first k v es = None \<longleftrightarrow> k \<notin> fst ` set es"
  by (induction es) auto

lemma replace_first_Some:
  "replace_first k v es = Some es' \<Longrightarrow>
   \<exists>pre w post. es = pre @ (k, w) # post \<and> es' = pre @ (k, v) # post \<and> k \<notin> fst ` set pre"
proof (induction es arbitrary: es')
  case (Cons e es)
  show ?case
  proof (cases "fst e = k")
    case True
    with Cons.prems show ?thesis by (intro exI[of _ "[]"] exI[of _ "snd e"] exI[of _ es]) auto
  next
    case False
    with Cons.prems obtain fs where fs: "replace_first k v es = Some fs" "es' = e # fs" by auto
    from Cons.IH[OF fs(1)] obtain pre w post where "es = pre @ (k, w) # post" "fs = pre @ (k, v) # post" "k \<notin> fst ` set pre"
      by blast
    with False fs(2) show ?thesis by (intro exI[of _ "e # pre"] exI[of _ w] exI[of _ post]) auto
  qed
qed simp

lemma buffer_set_cases:
  obtains "k \<notin> fst ` set (entries b)" "entries (buffer_set k v b) = entries b @ [(k, v)]"
  | pre w post where "entries b = pre @ (k, w) # post" "entries (buffer_set k v b) = pre @ (k, v) # post"
proof (cases "replace_first k v (entries b)")
  case None
  then have "k \<notin> fst ` set (entries b)" "entries (buffer_set k v b) = entries b @ [(k, v)]"
    using replace_first_None[of k v "entries b"] by (simp_all add: buffer_set_def)
  then show ?thesis by (rule that(1))
next
  case (Some es)
  from replace_first_Some[OF Some] show ?thesis using that(2) Some by (auto simp: buffer_set_def)
qed

lemma distinct_buffered: "distinct (map fst (entries b)) \<Longrightarrow> distinct (map fst (entries (buffered opts b)))"
proof (induction opts b rule: buffered.induct)
  case (2 k v opts b)
  have "distinct (map fst (entries (buffer_set k v b)))"
    using 2(2) by (cases rule: buffer_set_cases[where k = k and v = v and b = b]) auto
  with 2(1) show ?case by simp
qed simp

section \<open>Database options commute\<close>

text \<open>Every driver option writes one field of its own.\<close>

inductive setter :: "rstring \<Rightarrow> ('c spanner_database \<Rightarrow> 'c spanner_database) \<Rightarrow> bool" where
  "setter OPTION_ENDPOINT (\<lambda>d. d\<lparr>endpoint := Some s\<rparr>)"
| "setter OPTION_EMULATOR (\<lambda>d. d\<lparr>emulator := b\<rparr>)"
| "setter OPTION_KEYFILE (\<lambda>d. d\<lparr>keyfile := Some s\<rparr>)"
| "setter OPTION_KEYFILE_JSON (\<lambda>d. d\<lparr>keyfile_json := Some s\<rparr>)"
| "setter OPTION_IMPERSONATE_TARGET_PRINCIPAL (\<lambda>d. d\<lparr>impersonate_target_principal := Some s\<rparr>)"
| "setter OPTION_IMPERSONATE_DELEGATES (\<lambda>d. d\<lparr>impersonate_delegates := comma_separated s\<rparr>)"
| "setter OPTION_IMPERSONATE_SCOPES (\<lambda>d. d\<lparr>impersonate_scopes := comma_separated s\<rparr>)"
| "setter OPTION_IMPERSONATE_LIFETIME (\<lambda>d. d\<lparr>impersonate_lifetime_secs := Some n\<rparr>)"
| "setter OPTION_ACCESS_TOKEN (\<lambda>d. d\<lparr>access_token := Some s\<rparr>)"
| "setter OPTION_QUOTA_PROJECT (\<lambda>d. d\<lparr>quota_project := if s = [] then None else Some s\<rparr>)"

definition settles :: "rstring \<Rightarrow> ('c spanner_database \<Rightarrow> 'c spanner_database result) \<Rightarrow> bool" where
  "settles n f \<longleftrightarrow> (\<exists>e. f = (\<lambda>_. Inl e)) \<or> (\<exists>u. setter n u \<and> f = (\<lambda>d. Inr (u d)))"

lemma settles_if: "(c \<Longrightarrow> settles n f) \<Longrightarrow> (\<not> c \<Longrightarrow> settles n g) \<Longrightarrow> settles n (\<lambda>d. if c then f d else g d)"
  by (cases c) simp_all

lemma settles_bind: "(\<And>x. setter n (g x)) \<Longrightarrow> settles n (\<lambda>d. try_bind r (\<lambda>x. Inr (g x d)))"
  by (cases r) (auto simp: settles_def)

lemma settles_refuse: "settles n (\<lambda>d. Inl e)"
  by (auto simp: settles_def)

lemma set_other_option_settles: "settles n (set_other_option n v)"
  unfolding set_other_option_def[abs_def]
  by (intro settles_if settles_bind settles_refuse; simp only:; rule setter.intros)

lemma setter_commute: "setter n u \<Longrightarrow> setter m w \<Longrightarrow> n \<noteq> m \<Longrightarrow> u (w d) = w (u d)"
  by (erule setter.cases; erule setter.cases; simp)

definition option_names :: "rstring list" where
  "option_names =
     [OPTION_ENDPOINT, OPTION_EMULATOR, OPTION_KEYFILE, OPTION_KEYFILE_JSON, OPTION_IMPERSONATE_TARGET_PRINCIPAL,
      OPTION_IMPERSONATE_DELEGATES, OPTION_IMPERSONATE_SCOPES, OPTION_IMPERSONATE_LIFETIME, OPTION_ACCESS_TOKEN,
      OPTION_QUOTA_PROJECT]"

lemma option_names_distinct: "distinct option_names"
  by code_simp

lemma setter_overwrite:
  assumes "setter n u" "setter n w"
  shows "u (w d) = u d"
proof -
  note names = option_names_distinct[unfolded option_names_def, simplified]
  show ?thesis using assms by (elim setter.cases; use names in simp)
qed

lemma setter_connected: "setter n u \<Longrightarrow> u (d\<lparr>connected := c\<rparr>) = (u d)\<lparr>connected := c\<rparr>"
  by (erule setter.cases) simp_all

lemma other_option_step:
  assumes "set_database_option (OtherDb n) v (d :: 'c spanner_database) = (Inr x, d')"
  shows "\<exists>u. setter n u \<and> (\<forall>e :: 'c spanner_database. set_database_option (OtherDb n) v e = (Inr (), (u e)\<lparr>connected := None\<rparr>))"
proof -
  from set_other_option_settles[of n v] have "\<exists>u. setter n u \<and> (\<forall>d :: 'c spanner_database. set_other_option n v d = Inr (u d))"
    unfolding settles_def
  proof
    assume "\<exists>e. set_other_option n v = (\<lambda>_ :: 'c spanner_database. Inl e)"
    with assms show ?thesis by (auto simp: set_database_option_def set_driver_option_def)
  qed auto
  then obtain u where "setter n u" "\<forall>d :: 'c spanner_database. set_other_option n v d = Inr (u d)" by blast
  then show ?thesis
    by (intro exI[of _ u]) (simp add: set_database_option_def set_driver_option_def setter_connected)
qed

lemma set_database_options_Cons:
  "set_database_options ((k, v) # ys) d = Inr d2 \<longleftrightarrow>
   (\<exists>x d1. set_database_option k v d = (Inr x, d1) \<and> set_database_options ys d1 = Inr d2)"
  by (auto split: prod.splits sum.splits)

lemma set_database_options_append:
  "set_database_options (xs @ ys) d = Inr d2 \<longleftrightarrow> (\<exists>d1. set_database_options xs d = Inr d1 \<and> set_database_options ys d1 = Inr d2)"
  by (induction xs arbitrary: d) (auto split: prod.splits sum.splits)

text \<open>Setting an option again after others, none of them a URI, is as good as setting it in the first place.\<close>

lemma later_options_commute:
  fixes e :: "'c spanner_database"
  assumes "setter n w" "\<forall>k \<in> fst ` set mid. k \<noteq> DbUri \<and> k \<noteq> OtherDb n" "set_database_options mid e = Inr e1"
  shows "set_database_options mid ((w e)\<lparr>connected := None\<rparr>) = Inr ((w e1)\<lparr>connected := None\<rparr>)"
  using assms(2,3)
proof (induction mid arbitrary: e)
  case (Cons kv mid)
  obtain k v where kv: "kv = (k, v)" by fastforce
  with Cons.prems obtain x e' where st: "set_database_option k v e = (Inr x, e')" "set_database_options mid e' = Inr e1"
    by (auto simp: set_database_options_Cons simp del: set_database_options.simps)
  then obtain m where m: "k = OtherDb m" "m \<noteq> n"
    using Cons.prems(1) by (cases k) (auto simp: kv set_database_option_def)
  from st(1)[unfolded m(1)] obtain u :: "'c spanner_database \<Rightarrow> 'c spanner_database" where u: "setter m u"
    "\<And>e. set_database_option (OtherDb m) v e = (Inr (), (u e)\<lparr>connected := None\<rparr>)" using other_option_step by blast
  have "e' = (u e)\<lparr>connected := None\<rparr>" using st(1) m(1) u(2) by simp
  with Cons.IH[of e'] Cons.prems(1) st(2) show ?case
    using setter_commute[OF u(1) assms(1) m(2), of e]
    by (simp add: kv m(1) u(2) setter_connected[OF u(1)] setter_connected[OF assms(1)])
qed simp

lemma set_again:
  fixes d :: "'c spanner_database"
  assumes "\<forall>k \<in> fst ` set mid. k \<noteq> DbUri \<and> k \<noteq> OtherDb n"
    and "set_database_options (pre @ (OtherDb n, v1) # mid @ [(OtherDb n, v)]) d = Inr d2"
  shows "set_database_options (pre @ (OtherDb n, v) # mid) d = Inr d2"
proof -
  from assms(2) obtain a x b c where st: "set_database_options pre d = Inr a" "set_database_option (OtherDb n) v1 a = (Inr x, b)"
    "set_database_options mid b = Inr c" "set_database_options [(OtherDb n, v)] c = Inr d2"
    unfolding set_database_options_append set_database_options_Cons by blast
  from st(2) obtain u :: "'c spanner_database \<Rightarrow> 'c spanner_database" where u: "setter n u" "\<And>e. set_database_option (OtherDb n) v1 e = (Inr (), (u e)\<lparr>connected := None\<rparr>)"
    using other_option_step by blast
  from st(4) obtain y where y: "set_database_option (OtherDb n) v c = (Inr y, d2)"
    unfolding set_database_options_Cons by auto
  from y obtain w :: "'c spanner_database \<Rightarrow> 'c spanner_database" where w: "setter n w" "\<And>e. set_database_option (OtherDb n) v e = (Inr (), (w e)\<lparr>connected := None\<rparr>)"
    using other_option_step by blast
  have "set_database_options mid ((w b)\<lparr>connected := None\<rparr>) = Inr ((w c)\<lparr>connected := None\<rparr>)"
    by (rule later_options_commute[OF w(1) assms(1) st(3)])
  moreover have "(w b)\<lparr>connected := None\<rparr> = (w a)\<lparr>connected := None\<rparr>"
    using st(2) u(2) setter_overwrite[OF w(1) u(1)] by (auto simp: setter_connected[OF w(1)])
  ultimately show ?thesis using st(1) y by (simp add: set_database_options_append w(2))
qed

section \<open>The replay\<close>

abbreviation staged_entries :: "('k \<times> option_value) list \<Rightarrow> ('k \<times> option_value) list" where
  "staged_entries opts \<equiv> entries (buffered opts \<lparr>entries = []\<rparr>)"

lemma staged_entries_distinct: "distinct (map fst opts) \<Longrightarrow> staged_entries opts = opts"
proof (induction opts rule: rev_induct)
  case (snoc kv opts)
  then have "replace_first (fst kv) (snd kv) opts = None" by (auto simp: replace_first_None)
  with snoc show ?case by (cases kv) (simp add: buffered_append buffer_set_def)
qed simp

lemma staged_entries_Nil: "staged_entries opts = [] \<longleftrightarrow> opts = []"
proof (cases opts rule: rev_cases)
  case (snoc xs kv)
  then show ?thesis
    by (cases rule: buffer_set_cases[where k = "fst kv" and v = "snd kv" and b = "buffered xs \<lparr>entries = []\<rparr>"])
      (cases kv; simp add: buffered_append)+
qed simp

lemma staged_replay_uri_first:
  assumes "DbUri \<notin> fst ` set (tl opts)" "set_database_options opts d = Inr d2"
  shows "set_database_options (staged_entries opts) d = Inr d2 \<and> DbUri \<notin> fst ` set (tl (staged_entries opts))"
  using assms
proof (induction opts arbitrary: d2 rule: rev_induct)
  case (snoc kv opts)
  obtain k v where kv: "kv = (k, v)" by fastforce
  let ?b = "buffered opts \<lparr>entries = []\<rparr>"
  from snoc.prems(2) obtain d1 where d1: "set_database_options opts d = Inr d1" "set_database_options [(k, v)] d1 = Inr d2"
    unfolding set_database_options_append kv by blast
  have "DbUri \<notin> fst ` set (tl opts)" using snoc.prems(1) by (cases opts) auto
  with snoc.IH d1(1) have IH: "set_database_options (entries ?b) d = Inr d1" "DbUri \<notin> fst ` set (tl (entries ?b))" by blast+
  then have all: "set_database_options (entries ?b @ [(k, v)]) d = Inr d2"
    using d1(2) unfolding set_database_options_append by blast
  have buf: "buffered (opts @ [kv]) \<lparr>entries = []\<rparr> = buffer_set k v ?b" by (simp add: buffered_append kv)
  have uri: "entries ?b \<noteq> [] \<Longrightarrow> k \<noteq> DbUri"
    using snoc.prems(1) staged_entries_Nil[of opts] by (cases opts) (auto simp: kv)
  show ?case
  proof (cases rule: buffer_set_cases[where k = k and v = v and b = ?b])
    case 1
    with all IH(2) uri show ?thesis unfolding buf by (cases "entries ?b") auto
  next
    case (2 pre w post)
    have dist: "distinct (map fst (entries ?b))" by (rule distinct_buffered) simp
    obtain n where n: "k = OtherDb n"
      using uri 2(1) d1(2) by (cases k) (auto simp: set_database_options_Cons set_database_option_def simp del: set_database_options.simps)
    have "DbUri \<notin> fst ` set post" using IH(2) unfolding 2(1) by (cases pre) (simp_all add: image_Un)
    moreover have "OtherDb n \<notin> fst ` set post" using dist unfolding 2(1) n by simp
    ultimately have "\<forall>k \<in> fst ` set post. k \<noteq> DbUri \<and> k \<noteq> OtherDb n" by blast
    from set_again[OF this] all have "set_database_options (pre @ (k, v) # post) d = Inr d2" unfolding 2(1) n by simp
    moreover have "DbUri \<notin> fst ` set (tl (pre @ (k, v) # post))" using IH(2) unfolding 2(1) by (cases pre) auto
    ultimately show ?thesis unfolding buf 2(2) by blast
  qed
qed simp

text \<open>
  A setting repeated on the two sides of a URI is replayed before it, so the URI wins: the live database uses the
  endpoint of the last call, the one built by \<open>Init\<close> that of the URI.
\<close>

definition around_uri :: "(option_database \<times> option_value) list" where
  "around_uri =
     [(OtherDb OPTION_ENDPOINT, OString (lit ''a'')),
      (DbUri, OString (lit ''spanner:///projects/p/instances/i/databases/d?spanner.endpoint=b'')),
      (OtherDb OPTION_ENDPOINT, OString (lit ''c''))]"

definition endpoint_of :: "unit spanner_database result \<Rightarrow> rstring option" where
  "endpoint_of r = (case r of Inl _ \<Rightarrow> None | Inr d \<Rightarrow> endpoint d)"

lemma staged_replay_differs:
  "endpoint_of (set_database_options around_uri new_database) = Some (lit ''c'')"
  "endpoint_of (new_database_with_opts (staged_entries around_uri)) = Some (lit ''b'')"
  by code_simp+

text \<open>
  C21: Options staged before \<open>AdbcDatabaseInit\<close>.  When every option was accepted by a live database, and the URI was the first
  option set or no option was set twice, \<open>Init\<close> builds exactly the database that setting the options one by one gives.
  The condition is needed: with an endpoint set before and after the URI the two databases use different endpoints.
\<close>

theorem staged_options_replay:
  assumes "DbUri \<notin> fst ` set (tl opts) \<or> distinct (map fst opts)"
    and "set_database_options opts new_database = Inr d"
    and "slot_of (db_handle dr) h p = Some x" "databases p x = Some ex" "\<not> poisoned ex"
    and "state ex = Pending (buffered opts \<lparr>entries = []\<rparr>)" "shared_driver p \<noteq> Some True"
  shows "\<exists>q. database_init dr (Inr ()) h p = Some (Inr (), q) \<and> map_option state (databases q x) = Some (Ready d) \<and>
    endpoint_of (set_database_options around_uri new_database) \<noteq> endpoint_of (new_database_with_opts (staged_entries around_uri))"
proof -
  have "endpoint_of (set_database_options around_uri new_database) \<noteq> endpoint_of (new_database_with_opts (staged_entries around_uri))"
    unfolding staged_replay_differs by (simp add: lit_def)
  moreover have "set_database_options (staged_entries opts) new_database = Inr d"
    using assms(1,2) staged_replay_uri_first[OF _ assms(2)] staged_entries_distinct[of opts] by auto
  ultimately show ?thesis
    using assms(3-) by (simp add: database_init_def with_state_def dispatch_def lock_state_def new_database_with_opts_def driver_outcome_def
        update_object_def db_handle_def catch_def flattened_def)
qed

text \<open>A URI and an endpoint set twice after it.\<close>

definition demo_options :: "(option_database \<times> option_value) list" where
  "demo_options =
     [(DbUri, OString (lit ''spanner:///projects/p/instances/i/databases/d?spanner.endpoint=b'')),
      (OtherDb OPTION_ENDPOINT, OString (lit ''c'')), (OtherDb OPTION_ENDPOINT, OString (lit ''e''))]"

definition demo_process :: "(unit, unit, unit, field, unit, unit, unit, unit) process" where
  "demo_process =
     (fresh_process ())\<lparr>next_object := 1,
       db_structs := (\<lambda>_. \<lparr>h_private_data = None, h_private_driver = None\<rparr>)(0 := \<lparr>h_private_data = Some 0, h_private_driver = None\<rparr>),
       databases := [0 \<mapsto> \<lparr>poisoned = False, cancel_handle = None, state = Pending (buffered demo_options \<lparr>entries = []\<rparr>)\<rparr>]\<rparr>"

theorem staged_options_replay_witness:
  "\<exists>q d. database_init (\<lambda>_. Answered (Inr ())) (Inr ()) (Some 0) demo_process = Some (Inr (), q) \<and>
     map_option state (databases q 0) = Some (Ready d) \<and> endpoint d = Some (lit ''e'')"
proof -
  have "(case set_database_options demo_options (new_database :: (unit, unit) stack spanner_database) of
      Inl _ \<Rightarrow> False | Inr d \<Rightarrow> endpoint d = Some (lit ''e''))"
    by code_simp
  then obtain d :: "(unit, unit) stack spanner_database" where
    d: "set_database_options demo_options new_database = Inr d" "endpoint d = Some (lit ''e'')"
    by (auto split: sum.splits)
  have "DbUri \<notin> fst ` set (tl demo_options)" by (simp add: demo_options_def)
  then have "\<exists>q. database_init (\<lambda>_. Answered (Inr ())) (Inr ()) (Some 0) demo_process = Some (Inr (), q) \<and>
      map_option state (databases q 0) = Some (Ready d) \<and>
      endpoint_of (set_database_options around_uri new_database) \<noteq> endpoint_of (new_database_with_opts (staged_entries around_uri))"
    by (intro staged_options_replay[OF _ d(1), where ex = "\<lparr>poisoned = False, cancel_handle = None,
        state = Pending (buffered demo_options \<lparr>entries = []\<rparr>)\<rparr>"]) (simp_all add: demo_process_def slot_of_def db_handle_def fresh_process_def)
  with d(2) show ?thesis by blast
qed

end
