(* ===== verification/FfiProps.thy ===== *)
theory FfiProps
  imports FfiSession
begin

text \<open>
  What crosses the C boundary: bound data enters the driver only when every column of it has been validated, and a
  panic of the driver stays in the object it happened in.
\<close>

section \<open>Bound data\<close>

text \<open>
  What the Arrow crate documents of an import: the data of a struct has one child per child of the array it was imported
  from, and as many fields as children.
\<close>

definition import_laws :: "('va, 'sa, 'data, 'ty, 'r) arrow_import \<Rightarrow> bool" where
  "import_laws I \<longleftrightarrow>
     (\<forall>va sch data. from_ffi_typed I va sch = Some data \<longrightarrow> length (column_valid I data) = num_children I va) \<and>
     (\<forall>data names. struct_of_data I data = Some names \<longrightarrow> length (column_valid I data) = length names)"

text \<open>Data no consumer can be hurt by: the struct and every column valid, no null row.\<close>

definition sound_data :: "('va, 'sa, 'data, 'ty, 'r) arrow_import \<Rightarrow> 'data \<Rightarrow> bool" where
  "sound_data I data \<longleftrightarrow> validate_data I data \<and> list_all id (column_valid I data) \<and> null_count I data = 0"

lemma first_invalid_None: "first_invalid cs = None \<longleftrightarrow> list_all snd cs"
  by (induction cs rule: first_invalid.induct) auto

lemma validate_imported_sound:
  assumes "validate_imported I data names = Inr u" "length (column_valid I data) = length names" "null_count I data = 0"
  shows "sound_data I data"
proof -
  have "validate_data I data" "list_all snd (zip names (column_valid I data))"
    using assms(1) by (auto simp: validate_imported_def first_invalid_None split: if_splits option.splits)
  moreover have "map snd (zip names (column_valid I data)) = column_valid I data" using assms(2) by simp
  ultimately show ?thesis
    using assms(3) unfolding sound_data_def by (metis id_comp list.pred_map comp_def id_apply list_all_cong)
qed

lemma import_batch_sound:
  assumes "import_laws I" "import_batch I sch va = Inr b" "num_children I va = length sch"
  shows "\<exists>data. sound_data I data \<and> batch_with_schema I sch data = Some b"
proof -
  from assms(2) obtain data where d: "from_ffi_typed I va sch = Some data" "validate_imported I data (map fst sch) = Inr ()"
    "null_count I data = 0" "batch_with_schema I sch data = Some b"
    by (auto simp: import_batch_def split: option.splits sum.splits if_splits)
  with assms(1,3) have "length (column_valid I data) = length (map fst sch)" by (simp add: import_laws_def)
  with validate_imported_sound[OF d(2) _ d(3)] d(4) show ?thesis by blast
qed

text \<open>The items of a bound stream: validated batches, then at most one failure.\<close>

definition sound_items :: "('va, 'sa, 'data, 'ty, 'r) arrow_import \<Rightarrow> 'ty schema \<Rightarrow> (rstring + 'r batch) list \<Rightarrow> bool" where
  "sound_items I sch items \<longleftrightarrow>
     (\<exists>bs rest. items = map Inr bs @ rest \<and> (rest = [] \<or> (\<exists>m. rest = [Inl m])) \<and>
        (\<forall>b \<in> set bs. \<exists>data. sound_data I data \<and> batch_with_schema I sch data = Some b))"

lemma sound_items_ends: "sound_items I sch []" "sound_items I sch [Inl m]"
  unfolding sound_items_def by (rule exI[of _ "[]"], simp)+

lemma sound_items_Cons:
  "sound_data I data \<Longrightarrow> batch_with_schema I sch data = Some b \<Longrightarrow> sound_items I sch items \<Longrightarrow> sound_items I sch (Inr b # items)"
  unfolding sound_items_def by (metis (no_types, lifting) append_Cons list.simps(9) set_ConsD)

text \<open>One pull: no panic, and either an end, a failure or a sound batch with the schema kept.\<close>

lemma bound_next_sound:
  assumes "import_laws I" "p_get_next P \<noteq> None" "p_get_last_error P \<noteq> None" "bound_next I P rd = (out, rd')"
  shows "out = Answered None \<or> (\<exists>m. out = Answered (Some (Inl m)) \<and> finished rd') \<or>
    (\<exists>b data. out = Answered (Some (Inr b)) \<and> reader_schema rd' = reader_schema rd \<and> sound_data I data \<and>
       batch_with_schema I (reader_schema rd) data = Some b)"
proof (cases "finished rd")
  case True
  with assms(4) show ?thesis by (simp add: bound_next_def)
next
  case False
  obtain get_next where g: "p_get_next P = Some get_next" using assms(2) by blast
  obtain code array ps where n: "get_next (stream rd) = (code, array, ps)" by (metis prod_cases3)
  have "stream_error P ps (lit ''get_next'') \<noteq> None" using assms(3) by (simp add: stream_error_def del: not_None_eq)
  then obtain m ps' where e: "stream_error P ps (lit ''get_next'') = Some (m, ps')" by (cases "stream_error P ps (lit ''get_next'')") (simp, metis prod.collapse)
  show ?thesis
  proof (cases "code = 0 \<and> \<not> released array \<and> num_children I (contents array) = length (reader_schema rd)")
    case True
    then show ?thesis
      using assms(4) False g n import_batch_sound[OF assms(1), of "reader_schema rd" "contents array"]
      by (cases "import_batch I (reader_schema rd) (contents array)") (auto simp: bound_next_def)
  next
    case bad: False
    with assms(4) False g n e show ?thesis by (auto simp: bound_next_def split: if_splits)
  qed
qed

lemma read_items_sound:
  assumes "import_laws I" "p_get_next P \<noteq> None" "p_get_last_error P \<noteq> None"
  shows "read_items fuel I P rd = Some out \<Longrightarrow> \<exists>items. out = Answered items \<and> sound_items I (reader_schema rd) items"
proof (induction fuel arbitrary: rd out)
  case (Suc fuel)
  obtain o' rd' where n: "bound_next I P rd = (o', rd')" by fastforce
  from bound_next_sound[OF assms n] consider "o' = Answered None" | m where "o' = Answered (Some (Inl m))"
    | b data where "o' = Answered (Some (Inr b))" "reader_schema rd' = reader_schema rd" "sound_data I data"
        "batch_with_schema I (reader_schema rd) data = Some b" by blast
  then show ?case
  proof cases
    case 1
    with Suc.prems n show ?thesis using sound_items_ends by fastforce
  next
    case (2 m)
    with Suc.prems n show ?thesis using sound_items_ends by fastforce
  next
    case (3 b data)
    with Suc.prems n obtain out' where out': "read_items fuel I P rd' = Some out'"
      "out = (case out' of Answered items \<Rightarrow> Answered (Inr b # items) | Unwound cause \<Rightarrow> Unwound cause)" by auto
    from Suc.IH[OF out'(1)] 3 sound_items_Cons[OF 3(3,4)] out'(2) show ?thesis by auto
  qed
qed simp


text \<open>A producer of one good batch of one column and one with a column whose buffers are broken.\<close>

definition one_row :: "nat batch" where
  "one_row = \<lparr>rows = [1], num_columns = 1, memory_size = 8\<rparr>"

definition demo_import :: "(bool list, unit, bool list, unit, nat) arrow_import" where
  "demo_import =
     \<lparr>from_ffi = \<lambda>va _. Some va, struct_of_data = \<lambda>va. Some (map (\<lambda>_. lit ''c'') va), import_schema = \<lambda>_. Some [(lit ''c'', ())],
      num_children = length, from_ffi_typed = \<lambda>va _. Some va, validate_data = \<lambda>_. True, column_valid = id, null_count = \<lambda>_. 0,
      to_batch = \<lambda>va. ([(lit ''c'', ())], one_row), batch_with_schema = \<lambda>_ va. Some one_row\<rparr>"

definition demo_producer :: "(nat, bool list, unit) producer" where
  "demo_producer =
     \<lparr>p_get_schema = Some (\<lambda>n. (0, \<lparr>released = False, contents = ()\<rparr>, n)),
      p_get_next = Some (\<lambda>n. (0, \<lparr>released = False, contents = [n = 0]\<rparr>, n + 1)),
      p_get_last_error = Some (\<lambda>n. (None, n))\<rparr>"


section \<open>The driver behind the boundary\<close>

text \<open>A process with one connection and a statement on it.\<close>

definition connected_process :: "(unit, unit, unit, field, unit, unit, unit, unit) process" where
  "connected_process =
     (let p = fresh_process (); w = new_connection (lit ''db'') (arcs p) (cancel_slots p) (); m = open_statement w;
          full = \<lparr>h_private_data = Some 0, h_private_driver = None\<rparr>
      in p\<lparr>next_object := 1, txn_states := [w_txns w], arcs := store m, cancel_slots := cancels m,
           conn_structs := (conn_structs p)(0 := full), stmt_structs := (stmt_structs p)(0 := full),
           connections := [0 \<mapsto> \<lparr>poisoned = False, cancel_handle = Some (c_slot (con w)), state = Ready (con w, 0)\<rparr>],
           statements := [0 \<mapsto> \<lparr>poisoned = False, cancel_handle = Some (slot (stm m)), state = (stm m, 0)\<rparr>]\<rparr>)"



section \<open>Panics\<close>

text \<open>
  C19: A panic in the driver stays in its object.  When an operation on a connection panics, the caller gets an internal error,
  the process stays in order, every other object is untouched, and from then on no operation runs on the connection; it can
  still be cancelled, and releasing it frees it.
\<close>

theorem panic_contained:
  fixes p :: "('sn, 'v, 'r, 'ty, 'ts, 'sp, 'cl, 'srv) process"
  assumes p: "handles_ok p" and slot: "slot_of (conn_handle dr) h p = Some x" "connections p x = Some ex" "\<not> poisoned ex"
    and st: "state ex = Ready c" and panics: "fst (act (in_world c p)) = Inl panicked"
  shows "\<exists>e q. with_state (conn_handle dr) h (on_ready (lit ''connection'') (connection_call act)) p = Some (Inl e, q) \<and>
    status e = Internal \<and> handles_ok q \<and> databases q = databases p \<and> statements q = statements p \<and>
    connections q = (connections p)(x := connections q x) \<and>
    (\<forall>f :: (unit, _, _) body. with_state (conn_handle dr) h f q = Some (Inl (poisoned_error (lit ''connection'')), q)) \<and>
    connection_cancel dr h q =
      Some (case cancel_handle ex of Some k \<Rightarrow> fire k q | None \<Rightarrow> (Inl (uninitialized (lit ''connection'')), q)) \<and>
    (\<exists>r q'. release_handle (conn_handle dr) h q = Some (r, q') \<and> connections q' x = None \<and> handles_ok q')"
proof -
  let ?f = "on_ready (lit ''connection'') (connection_call act)"
  obtain w where w: "act (in_world c p) = (Inl panicked, w)" using panics by (metis prod.collapse)
  define q0 where "q0 = update_object (conn_handle dr) x (\<lambda>e. e\<lparr>state := Ready (con w, snd c), poisoned := True\<rparr>) (out_world (snd c) w p)"
  have run: "with_state (conn_handle dr) h ?f p = Some (Inl (caught_panic (Some (message panicked))), q0)"
    using slot st w unfolding q0_def
    by (simp add: with_state_def dispatch_def lock_state_def object_at_handles on_ready_def connection_call_def driver_outcome_def
        catch_def flattened_def)
  have ok: "handles_ok q0"
    using conn_call_safe[OF orderly_on_ready_conn[OF orderly_connection_call], of dr h "lit ''connection''" act] p run
    unfolding safe_call_def by fastforce
  have q: "connections q0 = (connections p)(x \<mapsto> ex\<lparr>state := Ready (con w, snd c), poisoned := True\<rparr>)"
      "databases q0 = databases p" "statements q0 = statements p" "conn_structs q0 = conn_structs p"
    using slot(2) by (simp_all add: q0_def update_object_def conn_handle_def out_world_def)
  have live: "slot_of (conn_handle dr) h q0 = Some x"
    using slot(1) by (simp add: slot_of_def conn_handle_def q(4))
  have refused: "with_state (conn_handle dr) h f q0 = Some (Inl (poisoned_error (lit ''connection'')), q0)"
    for f :: "(unit, ('sn, 'v, 'r, 'ty, 'ts, 'sp, 'cl, 'srv) process, 'ts connection_state) body"
    unfolding with_state_def live dispatch_def lock_state_def option.case object_at_handles q(1)
    by (simp add: conn_handle_def)
  have cancelled: "connection_cancel dr h q0 =
      Some (case cancel_handle ex of Some k \<Rightarrow> fire k q0 | None \<Rightarrow> (Inl (uninitialized (lit ''connection'')), q0))"
    unfolding connection_cancel_def live cancel_def option.case object_at_handles q(1)
    by (cases "cancel_handle ex") (simp_all add: conn_handle_def)
  obtain a where a: "h = Some a" "h_private_data (struct_at (conn_handle dr) q0 a) = Some x"
    using live by (auto simp: slot_of_def bind_eq_Some_conv)
  obtain r q' where r: "release_handle (conn_handle dr) h q0 = Some (r, q')" "connections q' = (connections q0)(x := None)"
    using conn.release_live[OF a(2)] q(1) unfolding object_at_handles a(1) by (metis fun_upd_same option.distinct(1))
  have "handles_ok q'" using release_conn_safe[of dr h] ok r(1) unfolding safe_call_def by fastforce
  with run ok q refused cancelled r show ?thesis
    by (intro exI[of _ "caught_panic (Some (message panicked))"] exI[of _ q0] conjI) (auto simp: caught_panic_def err_def)
qed

theorem panic_contained_witness:
  "\<exists>e q. with_state (conn_handle (\<lambda>_. Answered (Inr ()))) (Some 0)
       (on_ready (lit ''connection'') (connection_call (\<lambda>w. (Inl panicked :: unit result, w)))) connected_process = Some (Inl e, q) \<and>
     status e = Internal \<and> handles_ok q \<and>
     connection_rollback (\<lambda>_. Answered (Inr ())) (Some 0) q = Some (Inl (poisoned_error (lit ''connection'')), q)"
proof -
  have "handles_ok connected_process"
    by (auto simp: connected_process_def handles_ok_def kind_ok_def fresh_process_def stmt_ok_def Let_def split: if_splits)
  moreover have "slot_of (conn_handle (\<lambda>_. Answered (Inr ()))) (Some 0) connected_process = Some 0"
    by (simp add: connected_process_def slot_of_def conn_handle_def Let_def)
  moreover obtain ex c where "connections connected_process 0 = Some ex" "\<not> poisoned ex" "state ex = Ready c"
    by (simp add: connected_process_def Let_def)
  ultimately show ?thesis
    using panic_contained[of connected_process "\<lambda>_. Answered (Inr ())" "Some 0" 0 ex c "\<lambda>w. (Inl panicked :: unit result, w)"]
    unfolding connection_rollback_def by auto
qed

end
