(* ===== verification/FfiRace.thy ===== *)
theory FfiRace
  imports Prelude
begin

text \<open>
  The one pair of calls on an object that may overlap: \<^verbatim>\<open>cancel\<close> on any number of threads and one \<^verbatim>\<open>release\<close>
  (\<^verbatim>\<open>src/ffi/handle.rs\<close>), step by step.  A cancel reads the caller's slot, takes a reference of its own
  (\<^verbatim>\<open>strong\<close>), fires the stored handle and drops the reference; a release takes the slot and drops the handle's
  reference.  The allocation is freed by the drop that takes the count to zero; touching it afterwards is the
  undefined behaviour the model records.
\<close>

section \<open>Threads\<close>

datatype canceller = Called | Loaded | Holding | Fired | Refused | Finished

datatype releaser = Absent | Taken | Gone | Nothing_held

record race =
  slot_full :: bool
  strong_count :: nat
  frees :: nat
  cancellers :: "canceller list"
  releasing :: releaser
  undefined_access :: bool

definition race_start :: "nat \<Rightarrow> race" where
  "race_start n =
     \<lparr>slot_full = True, strong_count = 1, frees = 0, cancellers = replicate n Called, releasing = Absent,
      undefined_access = False\<rparr>"

text \<open>\<^verbatim>\<open>Arc::drop\<close>.\<close>

definition drop_reference :: "race \<Rightarrow> race" where
  "drop_reference r =
     r\<lparr>strong_count := strong_count r - 1, frees := frees r + (if strong_count r = 1 then 1 else 0),
       undefined_access := (undefined_access r \<or> strong_count r = 0)\<rparr>"

text \<open>
  A step of the race; with \<open>excl\<close> the host keeps a release from starting while a cancel is between its read of the
  slot and its reference.
\<close>

inductive race_step :: "bool \<Rightarrow> race \<Rightarrow> race \<Rightarrow> bool" for excl where
  load: "i < length (cancellers r) \<Longrightarrow> cancellers r ! i = Called \<Longrightarrow>
    race_step excl r (r\<lparr>cancellers := (cancellers r)[i := if slot_full r then Loaded else Refused]\<rparr>)"
| strong: "i < length (cancellers r) \<Longrightarrow> cancellers r ! i = Loaded \<Longrightarrow>
    race_step excl r (r\<lparr>cancellers := (cancellers r)[i := Holding], strong_count := strong_count r + 1,
      undefined_access := (undefined_access r \<or> strong_count r = 0)\<rparr>)"
| fire: "i < length (cancellers r) \<Longrightarrow> cancellers r ! i = Holding \<Longrightarrow>
    race_step excl r (r\<lparr>cancellers := (cancellers r)[i := Fired],
      undefined_access := (undefined_access r \<or> strong_count r = 0)\<rparr>)"
| finish: "i < length (cancellers r) \<Longrightarrow> cancellers r ! i = Fired \<Longrightarrow>
    race_step excl r (drop_reference (r\<lparr>cancellers := (cancellers r)[i := Finished]\<rparr>))"
| take: "releasing r = Absent \<Longrightarrow> excl \<longrightarrow> Loaded \<notin> set (cancellers r) \<Longrightarrow>
    race_step excl r (r\<lparr>slot_full := False, releasing := if slot_full r then Taken else Nothing_held\<rparr>)"
| drop: "releasing r = Taken \<Longrightarrow> race_step excl r (drop_reference (r\<lparr>releasing := Gone\<rparr>))"

inductive reachable_race :: "bool \<Rightarrow> nat \<Rightarrow> race \<Rightarrow> bool" for excl n where
  start: "reachable_race excl n (race_start n)"
| step: "reachable_race excl n r \<Longrightarrow> race_step excl r s \<Longrightarrow> reachable_race excl n s"

section \<open>The count covers its holders\<close>

definition holds :: "canceller \<Rightarrow> nat" where
  "holds c = (if c = Holding \<or> c = Fired then 1 else 0)"

definition holders :: "canceller list \<Rightarrow> nat" where
  "holders cs = sum_list (map holds cs)"

definition handle_reference :: "race \<Rightarrow> nat" where
  "handle_reference r = (if slot_full r \<or> releasing r = Taken then 1 else 0)"

definition race_inv :: "race \<Rightarrow> bool" where
  "race_inv r \<longleftrightarrow>
     strong_count r = handle_reference r + holders (cancellers r) \<and> \<not> undefined_access r \<and>
     frees r = (if strong_count r = 0 then 1 else 0) \<and> (slot_full r \<longleftrightarrow> releasing r = Absent) \<and> releasing r \<noteq> Nothing_held \<and>
     (Loaded \<in> set (cancellers r) \<longrightarrow> slot_full r)"

lemma holders_update: "i < length cs \<Longrightarrow> holders (cs[i := c]) = holders cs + holds c - holds (cs ! i)"
  using sum_list_update[of i "map holds cs" "holds c"] by (simp add: holders_def map_update)

lemma holder_counted: "i < length cs \<Longrightarrow> holds (cs ! i) \<le> holders cs"
  using elem_le_sum_list[of i "map holds cs"] by (simp add: holders_def)

lemmas race_defs = race_inv_def handle_reference_def holds_def

lemma loaded_update: "c \<noteq> Loaded \<Longrightarrow> Loaded \<in> set (cs[i := c]) \<Longrightarrow> Loaded \<in> set cs"
  using set_update_subset_insert[of cs i c] by auto

lemma race_step_inv: "race_step True r s \<Longrightarrow> race_inv r \<Longrightarrow> race_inv s"
proof (induction rule: race_step.induct)
  case (load i r)
  with holder_counted[OF load(1)] holders_update[OF load(1), of Loaded] holders_update[OF load(1), of Refused] show ?case
    by (auto simp: race_defs dest: loaded_update[rotated])
next
  case (strong i r)
  with holder_counted[OF strong(1)] holders_update[OF strong(1), of Holding] show ?case
    by (auto simp: race_defs dest: loaded_update[rotated] nth_mem)
next
  case (fire i r)
  with holder_counted[OF fire(1)] holders_update[OF fire(1), of Fired] show ?case
    by (auto simp: race_defs dest: loaded_update[rotated])
next
  case (finish i r)
  with holder_counted[OF finish(1)] holders_update[OF finish(1), of Finished] show ?case
    by (auto simp: race_defs drop_reference_def dest: loaded_update[rotated])
next
  case (take r)
  then show ?case by (auto simp: race_defs)
next
  case (drop r)
  then show ?case by (auto simp: race_defs drop_reference_def)
qed

lemma race_start_inv: "race_inv (race_start n)"
  by (induction n) (auto simp: race_defs race_start_def holders_def)

lemma reachable_race_inv: "reachable_race True n r \<Longrightarrow> race_inv r"
  by (induction rule: reachable_race.induct) (auto intro: race_start_inv race_step_inv)

lemma no_holders: "holders cs = 0 \<longleftrightarrow> Holding \<notin> set cs \<and> Fired \<notin> set cs"
  by (auto simp: holders_def holds_def)

section \<open>The window\<close>

text \<open>A release that starts after a cancel has read the slot and ends before the cancel takes its reference.\<close>

lemma race_window: "\<exists>r. reachable_race False 1 r \<and> undefined_access r"
proof -
  let ?r1 = "(race_start 1)\<lparr>cancellers := [Loaded]\<rparr>"
  let ?r2 = "?r1\<lparr>slot_full := False, releasing := Taken\<rparr>"
  let ?r3 = "drop_reference (?r2\<lparr>releasing := Gone\<rparr>)"
  let ?r4 = "?r3\<lparr>cancellers := [Holding], strong_count := 1, undefined_access := True\<rparr>"
  note defs = race_start_def drop_reference_def
  have "race_step False (race_start 1) ?r1" using load[of 0 "race_start 1" False] by (simp add: defs)
  moreover have "race_step False ?r1 ?r2" using take[of ?r1 False] by (simp add: defs)
  moreover have "race_step False ?r2 ?r3" using drop[of ?r2 False] by (simp add: defs)
  moreover have "race_step False ?r3 ?r4" using strong[of 0 ?r3 False] by (simp add: defs)
  ultimately have "reachable_race False 1 ?r4" by (meson reachable_race.intros)
  then show ?thesis by (intro exI[of _ ?r4]) simp
qed

text \<open>
  C22: Cancel against release.  If the host keeps a release out of the window between a cancel's read of the slot and its
  reference, then whatever the threads do no freed object is touched, the object is freed at most once, and it is freed
  exactly when the release has dropped the handle's reference and no cancel holds one: by whichever is last.  Without
  that exclusion a freed object is reached, as the comment on the reference count says.
\<close>

theorem cancel_release_race:
  assumes "reachable_race True n r"
  shows "\<not> undefined_access r \<and> frees r \<le> 1 \<and>
    (frees r = 1 \<longleftrightarrow> releasing r = Gone \<and> Holding \<notin> set (cancellers r) \<and> Fired \<notin> set (cancellers r)) \<and>
    (\<exists>s. reachable_race False 1 s \<and> undefined_access s)"
  using reachable_race_inv[OF assms] race_window
  by (cases "releasing r") (auto simp: race_defs no_holders[symmetric])

text \<open>A release while a cancel holds its reference: the cancel frees the object.\<close>

theorem cancel_release_race_witness:
  "\<exists>r. reachable_race True 1 r \<and> releasing r = Gone \<and> cancellers r = [Finished] \<and> \<not> undefined_access r \<and> frees r = 1"
proof -
  let ?r1 = "(race_start 1)\<lparr>cancellers := [Loaded]\<rparr>"
  let ?r2 = "?r1\<lparr>cancellers := [Holding], strong_count := 2\<rparr>"
  let ?r3 = "?r2\<lparr>slot_full := False, releasing := Taken\<rparr>"
  let ?r4 = "drop_reference (?r3\<lparr>releasing := Gone\<rparr>)"
  let ?r5 = "?r4\<lparr>cancellers := [Fired]\<rparr>"
  let ?r6 = "drop_reference (?r5\<lparr>cancellers := [Finished]\<rparr>)"
  note defs = race_start_def drop_reference_def
  have "race_step True (race_start 1) ?r1" using load[of 0 "race_start 1" True] by (simp add: defs)
  moreover have "race_step True ?r1 ?r2" using strong[of 0 ?r1 True] by (simp add: defs numeral_2_eq_2)
  moreover have "race_step True ?r2 ?r3" using take[of ?r2 True] by (simp add: defs)
  moreover have "race_step True ?r3 ?r4" using drop[of ?r3 True] by (simp add: defs)
  moreover have "race_step True ?r4 ?r5" using fire[of 0 ?r4 True] by (simp add: defs)
  moreover have "race_step True ?r5 ?r6" using finish[of 0 ?r5 True] by (simp add: defs)
  ultimately have r: "reachable_race True 1 ?r6" by (meson reachable_race.intros)
  moreover have "releasing ?r6 = Gone" "cancellers ?r6 = [Finished]" by (simp_all add: defs)
  ultimately show ?thesis using cancel_release_race[OF r] by (intro exI[of _ ?r6]) simp
qed

end
