(* ===== verification/ReadBounds.thy ===== *)
theory ReadBounds
  imports OptionProps
begin

text \<open>
  From a configured read bound to the timestamp bound of the client (\<^verbatim>\<open>src/staleness.rs\<close>).  A timestamp is the pair of
  whole seconds since the epoch and nanoseconds within the second that \<^verbatim>\<open>chrono\<close> keeps; system time is nanoseconds since the
  epoch.  The constructors of the client's \<^verbatim>\<open>TimestampBound\<close> are parameters.
\<close>

section \<open>Bounds\<close>

type_synonym date_time = "int \<times> nat"

definition to_system_time :: "date_time \<Rightarrow> int" where
  "to_system_time dt =
     (let secs = fst dt; nanos = snd dt
      in if secs \<ge> 0 then 0 + (int (nat secs) * 10 ^ 9 + int nanos)
         else 0 - int (nat \<bar>secs\<bar>) * 10 ^ 9 + int nanos)"

record 'b bound_client =
  try_exact_staleness :: "nat \<Rightarrow> 'b option"
  try_max_staleness :: "nat \<Rightarrow> 'b option"
  try_read_timestamp :: "int \<Rightarrow> 'b option"
  try_min_read_timestamp :: "int \<Rightarrow> 'b option"

fun to_timestamp_bound :: "'b bound_client \<Rightarrow> date_time read_bound \<Rightarrow> 'b result" where
  "to_timestamp_bound C (ExactStaleness d) = ok_or (invalid_argument (lit ''read staleness out of range'')) (try_exact_staleness C d)"
| "to_timestamp_bound C (MaxStaleness d) = ok_or (invalid_argument (lit ''read staleness out of range'')) (try_max_staleness C d)"
| "to_timestamp_bound C (ReadTimestamp t) =
     ok_or (invalid_argument (lit ''read timestamp out of range'')) (try_read_timestamp C (to_system_time t))"
| "to_timestamp_bound C (MinReadTimestamp t) =
     ok_or (invalid_argument (lit ''read timestamp out of range'')) (try_min_read_timestamp C (to_system_time t))"

text \<open>\<open>single_use\<close> and \<open>multi_use\<close>: the bound set on the builder; none is a strong read.\<close>

datatype 'b read_transaction = Strong | Bounded 'b

definition single_use :: "'b option \<Rightarrow> 'b read_transaction" where
  "single_use bound = (case bound of Some b \<Rightarrow> Bounded b | None \<Rightarrow> Strong)"

definition multi_use :: "('b read_transaction \<Rightarrow> 't result) \<Rightarrow> 'b option \<Rightarrow> 't result" where
  "multi_use begin_txn bound = begin_txn (case bound of Some b \<Rightarrow> Bounded b | None \<Rightarrow> Strong)"

section \<open>What a read may see\<close>

text \<open>The timestamps the option allows a read at, when it runs at time \<open>now\<close>.\<close>

fun allowed :: "int \<Rightarrow> date_time read_bound option \<Rightarrow> int set" where
  "allowed now None = {now..}"
| "allowed now (Some (ExactStaleness d)) = {now - int d}"
| "allowed now (Some (MaxStaleness d)) = {now - int d..now}"
| "allowed now (Some (ReadTimestamp (s, n))) = {s * 10 ^ 9 + int n}"
| "allowed now (Some (MinReadTimestamp (s, n))) = {s * 10 ^ 9 + int n..}"

text \<open>What Spanner documents of the bounds: \<open>reads_at now r\<close> is the set of timestamps a transaction \<open>r\<close> may read at.\<close>

definition documented :: "'b bound_client \<Rightarrow> (int \<Rightarrow> 'b read_transaction \<Rightarrow> int set) \<Rightarrow> bool" where
  "documented C reads_at \<longleftrightarrow>
     (\<forall>now. reads_at now Strong = {now..}) \<and>
     (\<forall>d b now. try_exact_staleness C d = Some b \<longrightarrow> reads_at now (Bounded b) = {now - int d}) \<and>
     (\<forall>d b now. try_max_staleness C d = Some b \<longrightarrow> reads_at now (Bounded b) = {now - int d..now}) \<and>
     (\<forall>t b now. try_read_timestamp C t = Some b \<longrightarrow> reads_at now (Bounded b) = {t}) \<and>
     (\<forall>t b now. try_min_read_timestamp C t = Some b \<longrightarrow> reads_at now (Bounded b) = {t..})"

lemma to_system_time_nanos: "to_system_time (s, n) = s * 10 ^ 9 + int n"
  by (simp add: to_system_time_def Let_def)

lemma to_timestamp_bound_reads:
  "documented C reads_at \<Longrightarrow> to_timestamp_bound C b = Inr x \<Longrightarrow> reads_at now (Bounded x) = allowed now (Some b)"
  by (cases b) (auto simp: documented_def ok_or_def to_system_time_nanos split: option.splits)

lemma pinned_allowed: "allowed now (Some (pinned_for_multi_use b)) \<subseteq> allowed now (Some b)"
    "allowed now (Some b) \<noteq> {} \<Longrightarrow> \<forall>t \<in> allowed now (Some b). \<exists>s \<in> allowed now (Some (pinned_for_multi_use b)). s \<le> t"
  by (cases b rule: pinned_for_multi_use.cases; auto)+

text \<open>
  The read bound reaches Spanner as it was configured.  A single-use transaction reads at exactly the timestamps the option
  allows, timestamps before the epoch included; a multi-use one, whose kind of bound Spanner restricts, reads only at
  allowed timestamps, at the stalest of them; without the option reads are strong.
\<close>

theorem read_bound_honoured:
  assumes "documented C reads_at"
    and "timestamp_bound (to_timestamp_bound C) c = Inr one" "multi_use_timestamp_bound (to_timestamp_bound C) c = Inr many"
  shows "reads_at now (single_use one) = allowed now (parsed c) \<and>
    multi_use Inr many = Inr (single_use many) \<and> reads_at now (single_use many) \<subseteq> allowed now (parsed c) \<and>
    (\<forall>t \<in> allowed now (parsed c). \<exists>s \<in> reads_at now (single_use many). s \<le> t)"
proof (cases "parsed c")
  case None
  have "reads_at now Strong = {now..}" using assms(1) by (simp add: documented_def)
  with assms None show ?thesis by (auto simp: timestamp_bound_def multi_use_timestamp_bound_def single_use_def multi_use_def)
next
  case (Some b)
  with assms(2,3) obtain x y where x: "to_timestamp_bound C b = Inr x" "one = Some x"
    and y: "to_timestamp_bound C (pinned_for_multi_use b) = Inr y" "many = Some y"
    by (auto simp: timestamp_bound_def multi_use_timestamp_bound_def res_simps)
  from to_timestamp_bound_reads[OF assms(1) x(1)] to_timestamp_bound_reads[OF assms(1) y(1)] x(2) y(2) Some
    pinned_allowed[of now b] show ?thesis by (auto simp: single_use_def multi_use_def)
qed

text \<open>A client that accepts every bound, and the bound \<open>max:500ms\<close>.\<close>

definition plain_client :: "int read_bound bound_client" where
  "plain_client =
     \<lparr>try_exact_staleness = \<lambda>d. Some (ExactStaleness d), try_max_staleness = \<lambda>d. Some (MaxStaleness d),
      try_read_timestamp = \<lambda>t. Some (ReadTimestamp t), try_min_read_timestamp = \<lambda>t. Some (MinReadTimestamp t)\<rparr>"

fun plain_reads :: "int \<Rightarrow> int read_bound read_transaction \<Rightarrow> int set" where
  "plain_reads now Strong = {now..}"
| "plain_reads now (Bounded (ExactStaleness d)) = {now - int d}"
| "plain_reads now (Bounded (MaxStaleness d)) = {now - int d..now}"
| "plain_reads now (Bounded (ReadTimestamp t)) = {t}"
| "plain_reads now (Bounded (MinReadTimestamp t)) = {t..}"

theorem read_bound_honoured_witness:
  "plain_reads 1000000000 (single_use (Some (MaxStaleness 500000000))) = {500000000..1000000000} \<and>
   plain_reads 1000000000 (single_use (Some (ExactStaleness 500000000))) \<subseteq> {500000000..1000000000}"
proof -
  let ?c = "\<lparr>raw = Some (lit ''max:500ms''), parsed = Some (MaxStaleness 500000000)\<rparr> :: date_time read_staleness"
  have "documented plain_client plain_reads" by (simp add: documented_def plain_client_def)
  moreover have "timestamp_bound (to_timestamp_bound plain_client) ?c = Inr (Some (MaxStaleness 500000000))"
      "multi_use_timestamp_bound (to_timestamp_bound plain_client) ?c = Inr (Some (ExactStaleness 500000000))"
    by (simp_all add: timestamp_bound_def multi_use_timestamp_bound_def plain_client_def)
  ultimately show ?thesis using read_bound_honoured[of plain_client plain_reads ?c _ _ 1000000000] by fastforce
qed

end
