(* ===== verification/Spec2Isabelle.thy ===== *)
theory Spec2Isabelle
  imports SqlProps Metadata TxnSystem Runtime IngestProps OptionProps ConnectionProps ReadBack StreamProps DatabaseProps UriProps
    ObjectsBatch StatisticsProps InfoProps FfiStreamProps FfiDriver FfiStaging FfiProps FfiRace ReadBounds
begin

text \<open>
  Verification of the ADBC driver for Google Cloud Spanner: the Rust crate under \<^verbatim>\<open>src/src\<close>.

  The program.  A driver (\<^verbatim>\<open>driver.rs\<close>) makes databases, which hold the connection settings and one lazily built client
  stack; a database makes connections (\<^verbatim>\<open>connection.rs\<close>), which hold the shared option values, the manual transaction
  (\<^verbatim>\<open>connection/txn.rs\<close>) and a cancel slot; a connection makes statements (\<^verbatim>\<open>statement.rs\<close>), which hold SQL text or an
  ingest target and bound Arrow data.  Executing a statement classifies its text (\<^verbatim>\<open>sql.rs\<close>), encodes bound cells
  (\<^verbatim>\<open>bind.rs\<close>), configures a request (\<^verbatim>\<open>request.rs\<close>, \<^verbatim>\<open>retry.rs\<close>, \<^verbatim>\<open>staleness.rs\<close>, \<^verbatim>\<open>directed_read.rs\<close>,
  \<^verbatim>\<open>query_options.rs\<close>), waits for it under cancellation and a deadline (\<^verbatim>\<open>runtime.rs\<close>, \<^verbatim>\<open>timeout.rs\<close>) and converts the
  result to Arrow (\<^verbatim>\<open>conversion.rs\<close>).  Metadata calls query \<^verbatim>\<open>INFORMATION_SCHEMA\<close> and assemble nested batches
  (\<^verbatim>\<open>metadata.rs\<close>, \<^verbatim>\<open>objects.rs\<close>, \<^verbatim>\<open>statistics.rs\<close>, \<^verbatim>\<open>info.rs\<close>, \<^verbatim>\<open>nested.rs\<close>).  The export layer (\<^verbatim>\<open>ffi/\<close>) gives a C caller
  all of this through handles that own the driver objects.

  Conventions.  Rust strings are lists of code points (\<open>rstring\<close>), byte strings lists of 8-bit words, machine integers
  \<open>int\<close> or \<open>nat\<close> with the checked, saturating or wrapping operation written out, or words where wrapping is used.  A
  \<^verbatim>\<open>Result\<close> is \<open>error + 'a\<close>; the driver's statuses and vendor codes are exact, its messages are shortened.  A panic of the
  driver is the error value \<open>panicked\<close> in the component theories and an unwinding outcome at the C boundary; memory the
  program may not touch is \<open>None\<close>.  \<^verbatim>\<open>Arc\<close> cells live in an explicit store (\<open>arc_store\<close>, \<open>cancel_store\<close>).  The record
  \<open>machine\<close> is a statement with what it shares, \<open>world\<close> a connection with what it shares, \<open>process\<close> everything a C
  caller can reach; an operation maps one of them to a result and the next one.

  Code of other crates is a parameter, with what is relied on as a named hypothesis: the Spanner client and its
  transactions (\<open>env\<close>, \<open>crates\<close>, \<open>meta_client\<close>), the calendar (\<open>chrono\<close>), wire-value constructors (\<open>client\<close>), the
  floating-point rounding (\<open>rounding\<close>), credentials and channel builders (\<open>auth\<close>, \<open>builders\<close>), JSON and base64, the Arrow
  importer and validators (\<open>arrow_import\<close>), a C producer's stream (\<open>producer\<close>), release callbacks of other drivers, and
  the key types of \<^verbatim>\<open>adbc_core\<close>.

  Theories and what they show.

  \<^item> \<open>Prelude\<close>: strings, characters, numerals, list and option lemmas, the collection \<open>res_simps\<close>.  \<open>Errors\<close>
    (\<^verbatim>\<open>error.rs\<close>): error constructors and the mapping of gRPC codes.
  \<^item> \<open>SqlText\<close>, \<open>SqlProps\<close> (\<^verbatim>\<open>sql.rs\<close>): the lexer and everything built on it; statements are split only at top-level
    semicolons, a quoted table name cannot be escaped from, parameters and \<^verbatim>\<open>THEN RETURN\<close> are found as specified.
  \<^item> \<open>Metadata\<close> (\<^verbatim>\<open>metadata.rs\<close>): the LIKE matcher ends within its bound (fuel pattern length times value length, which
    the proof shows to be enough) and computes the reference semantics.
  \<^item> \<open>Txn\<close>, \<open>TxnSystem\<close> (\<^verbatim>\<open>connection/txn.rs\<close> and the transaction part of \<^verbatim>\<open>connection.rs\<close>): the manual transaction and, as a
    step relation, its interleavings; accepted work is settled exactly once and the drains never panic.  The locale
    \<open>commit_buffer\<close> is the contract of a buffer under commit, interpreted on statements and mutations.
  \<^item> \<open>Runtime\<close> (\<^verbatim>\<open>runtime.rs\<close>, \<^verbatim>\<open>timeout.rs\<close>): cancel signals and slots, the wait loop and the prefetch task as step
    relations: no lost wake-up, chunks in order, at most one buffered.
  \<^item> \<open>Ingest\<close>, \<open>IngestProps\<close> (\<^verbatim>\<open>statement/ingest.rs\<close>, \<^verbatim>\<open>connection/exec.rs\<close>): chunking, bisection, BatchWrite and
    accounting; reported rows are the committed rows, chunks fit the budgets, the bisection ends.
  \<^item> \<open>Options\<close>, \<open>OptionConfigs\<close>, \<open>SharedConfig\<close>, \<open>Builders\<close>, \<open>ConfigProps\<close>, \<open>OptionProps\<close>, \<open>ReadBounds\<close> (\<^verbatim>\<open>options.rs\<close> and the
    option families): coercions, parsers, the shared configuration and its two dispatch tables, and what reaches the request
    builders; reported values can be set again, requests never panic, read bounds are honoured.  The locales \<open>option_cell\<close> and
    \<open>reported_option\<close> are the contract of one option, the second a consequence of the first (\<open>sublocale\<close>), interpreted on
    every kind of cell.
  \<^item> \<open>Scan\<close>, \<open>ScanProps\<close>, \<open>Arrow\<close>, \<open>Conversion\<close>, \<open>ConversionProps\<close>, \<open>ResultStream\<close>, \<open>StreamProps\<close> (\<^verbatim>\<open>conversion.rs\<close>): scanners, type
    mapping, array building, chunking and the streaming reader; batches have the arrays of their schema, a reader yields the
    rows once and in order.  The locale \<open>chunk_source\<close> is the contract of a source of chunks, interpreted on both sources.
  \<^item> \<open>Bind\<close>, \<open>BindCell\<close>, \<open>BindProps\<close>, \<open>ReadBack\<close> (\<^verbatim>\<open>bind.rs\<close>): parameters, mutations, cell values and column types; binding
    never panics on well-formed columns and an ingested value reads back.
  \<^item> \<open>Statement\<close>, \<open>Execute\<close>, \<open>ParamSchema\<close>, \<open>StatementProps\<close>, \<open>ExecuteProps\<close>, \<open>StatementWitness\<close> (\<^verbatim>\<open>statement.rs\<close>): state, guards,
    every execution path and parameter introspection; the read-only gate, consumption of bound data, statuses of ingests.
  \<^item> \<open>Connection\<close>, \<open>ConnectionProps\<close> (\<^verbatim>\<open>connection.rs\<close>): options, statements, commit and rollback, partitions; a manual session
    commits every statement once.
  \<^item> \<open>Nested\<close>, \<open>NestedProps\<close>, \<open>Objects\<close>, \<open>ObjectsProps\<close>, \<open>ObjectsBatch\<close>, \<open>Statistics\<close>, \<open>StatisticsProps\<close>, \<open>Info\<close>, \<open>InfoProps\<close> (the
    metadata files): from the filters through the queries to the nested batch and back; listings and statistics are exactly
    the rows the filters select, and pushing the patterns down never changes a listing.
  \<^item> \<open>DatabaseOptions\<close>, \<open>Credentials\<close>, \<open>DatabaseProps\<close>, \<open>UriProps\<close> (\<^verbatim>\<open>driver.rs\<close>, \<^verbatim>\<open>driver/uri.rs\<close>, \<^verbatim>\<open>driver/credentials.rs\<close>): options,
    the connection URI, the credential ladder and the shared stack; a URI is applied whole or not at all, no credential is
    dropped, the cached stack fits the configuration.
  \<^item> \<open>FfiGuard\<close>, \<open>FfiError\<close>, \<open>FfiStream\<close>, \<open>FfiImport\<close>, \<open>FfiHandle\<close>, \<open>FfiObjects\<close>, \<open>FfiStatement\<close>, \<open>FfiDriver\<close> (\<^verbatim>\<open>ffi/guard.rs\<close>,
    \<^verbatim>\<open>error.rs\<close>, \<^verbatim>\<open>stream.rs\<close>, \<^verbatim>\<open>import.rs\<close>, \<^verbatim>\<open>handle.rs\<close> with \<^verbatim>\<open>options.rs\<close>, \<^verbatim>\<open>database.rs\<close> with \<^verbatim>\<open>connection.rs\<close>, \<^verbatim>\<open>statement.rs\<close>,
    \<^verbatim>\<open>mod.rs\<close> with \<^verbatim>\<open>abi.rs\<close>): the C boundary, every entry point of the vtable on one process.
  \<^item> \<open>FfiErrorProps\<close>, \<open>FfiStreamProps\<close>, \<open>FfiHandleProps\<close>, \<open>FfiOwnership\<close>, \<open>FfiSession\<close>, \<open>FfiStaging\<close>, \<open>FfiProps\<close>, \<open>FfiRace\<close>: error
    structs of both ABI revisions are memory safe and read back; a stream's error is on record; the option buffer protocol
    delivers; every session of a caller keeps every object owned exactly once; staged options replay; bound data is
    validated; an entry point is the driver's operation; a panic stays in its object; cancel against release, step by step.
    The locale \<open>ffi_object\<close> is the interface of an object kind, interpreted on databases, connections and statements.

  Bounds and fuel.  \<open>like_loop\<close> has the iteration bound of the source comment as fuel; \<open>lazy_statements\<close> and \<open>reader_run\<close> take a
  number of items to pull and are shown to be prefixes of what is pending; \<open>next_bound_chunk\<close> ends by a measure;
  \<open>read_items\<close> reads a C producer's stream, which need not end, and returns \<open>None\<close> when the given number of items was not
  enough: binding such a stream does not return, and the statements about it take a stream that ends.

  Not modelled.  Tokio, the Spanner client, Arrow's buffers and the network are parameters; the text of messages is
  shortened; the byte layout of C structs is reduced to which fields an allocation has, and pointers to their validity.  The
  calls of one exported object are steps of the process, since its mutex serialises them; \<open>FfiRace\<close> opens the one pair that
  may overlap.  The fuzzing hooks, the sanitizer canary, \<^verbatim>\<open>build.rs\<close>, tests, benches and the packages around the library
  have no logic of the driver.
\<close>

end
